(* ===== verification/Prelude.thy ===== *)
theory Prelude
  imports Main "HOL-Library.Word"
begin

text \<open>
  Shared vocabulary of the development: the machine types of the target (LP64 Linux with a
  signed \<open>char\<close>: \<open>int\<close> has 32 bits, \<open>long\<close>, \<open>unsigned long\<close> and \<open>size_t\<close> have 64), the
  functions of the C and C++ standard library the sources call (character classes,
  \<open>strtol\<close> and its relatives, \<open>std::to_string\<close>, NUL-terminated views of a string), and the
  generic lemmas on them that the component theories rewrite with.
\<close>

section \<open>Machine types and collections of facts\<close>

type_synonym size_t = "64 word"
type_synonym ulong = "64 word"
type_synonym slong = "64 word"
type_synonym cint = "32 word"

named_theorems cstd \<open>evaluation of the standard library's string functions\<close>
named_theorems parser_steps \<open>one step of a character-driven parser\<close>
named_theorems inv_simps \<open>unfolding of well-formedness invariants\<close>

abbreviation NUL :: char where "NUL \<equiv> CHR 0x00"
abbreviation CR :: char where "CR \<equiv> CHR 0x0D"
abbreviation LF :: char where "LF \<equiv> CHR 0x0A"
abbreviation TAB :: char where "TAB \<equiv> CHR 0x09"
abbreviation DQUOTE :: char where "DQUOTE \<equiv> CHR 0x22"
abbreviation BSLASH :: char where "BSLASH \<equiv> CHR 0x5C"

section \<open>Characters\<close>

definition code :: "char \<Rightarrow> nat" where
  "code c = of_char c"

text \<open>The value of a (signed) \<open>char\<close> promoted to \<open>int\<close>.\<close>

definition c_int :: "char \<Rightarrow> int" where
  "c_int c = (if code c < 128 then int (code c) else int (code c) - 256)"

definition isdigit :: "char \<Rightarrow> bool" where
  "isdigit c \<longleftrightarrow> 48 \<le> code c \<and> code c \<le> 57"

definition isupper :: "char \<Rightarrow> bool" where
  "isupper c \<longleftrightarrow> 65 \<le> code c \<and> code c \<le> 90"

definition islower :: "char \<Rightarrow> bool" where
  "islower c \<longleftrightarrow> 97 \<le> code c \<and> code c \<le> 122"

definition isalpha :: "char \<Rightarrow> bool" where
  "isalpha c \<longleftrightarrow> isupper c \<or> islower c"

definition isalnum :: "char \<Rightarrow> bool" where
  "isalnum c \<longleftrightarrow> isalpha c \<or> isdigit c"

definition isblank :: "char \<Rightarrow> bool" where
  "isblank c \<longleftrightarrow> c = CHR '' '' \<or> c = TAB"

definition isspace :: "char \<Rightarrow> bool" where
  "isspace c \<longleftrightarrow> code c = 32 \<or> (9 \<le> code c \<and> code c \<le> 13)"

definition tolower :: "char \<Rightarrow> char" where
  "tolower c = (if isupper c then char_of (code c + 32) else c)"

definition digit_char :: "nat \<Rightarrow> char" where
  "digit_char d = char_of (48 + d)"

lemma code_less_256 [simp]: "code c < 256"
  using of_char_of [of "code c"] by (simp add: code_def)

lemma code_Char [simp]:
  "code (Char b0 b1 b2 b3 b4 b5 b6 b7) = of_char (Char b0 b1 b2 b3 b4 b5 b6 b7)"
  by (simp add: code_def)

lemma code_char_of [simp]: "code (char_of n) = n mod 256"
  by (simp add: code_def)

lemma char_of_code [simp]: "char_of (code c) = c"
  by (simp add: code_def)

lemma code_eq_iff [simp]: "code c = code d \<longleftrightarrow> c = d"
  by (metis char_of_code)

lemma c_int_eq_iff [simp]: "c_int c = c_int d \<longleftrightarrow> c = d"
proof
  assume "c_int c = c_int d"
  then have "code c = code d"
    using code_less_256 [of c] code_less_256 [of d]
    unfolding c_int_def by (simp del: code_eq_iff code_less_256 split: if_splits)
  then show "c = d" by simp
qed simp

lemma code_digit_char [simp]: "d < 10 \<Longrightarrow> code (digit_char d) = 48 + d"
  by (simp add: digit_char_def)

lemma isdigit_digit_char [simp]: "d < 10 \<Longrightarrow> isdigit (digit_char d)"
  by (simp add: isdigit_def)

lemma isspace_not_digit: "isdigit c \<Longrightarrow> \<not> isspace c"
  by (auto simp: isdigit_def isspace_def)

lemma isdigit_neq_special:
  assumes "isdigit c"
  shows "c \<noteq> NUL" "c \<noteq> CHR ''-''" "c \<noteq> CHR ''+''" "c \<noteq> CR" "c \<noteq> LF" "c \<noteq> CHR '' ''" "c \<noteq> CHR '';''"
    "c \<noteq> CHR ''.''" "c \<noteq> CHR ''x''"
  using assms by (auto simp: isdigit_def code_def)

section \<open>NUL-terminated strings\<close>

text \<open>
  \<open>cstr s\<close> is what a C function sees through \<open>s.c_str()\<close>; \<open>str_at s i\<close> is \<open>s[i]\<close> for an index up
  to the length, where \<open>std::string\<close> guarantees a NUL; a read further on is undefined behaviour
  and has no value.
\<close>

definition cstr :: "string \<Rightarrow> string" where
  "cstr s = takeWhile (\<lambda>c. c \<noteq> NUL) s"

definition str_at :: "string \<Rightarrow> nat \<Rightarrow> char option" where
  "str_at s i = (if i < length s then Some (s ! i) else if i = length s then Some NUL else None)"

definition no_nul :: "string \<Rightarrow> bool" where
  "no_nul s \<longleftrightarrow> NUL \<notin> set s"

lemma cstr_Nil [simp]: "cstr [] = []"
  by (simp add: cstr_def)

lemma cstr_no_nul [simp]: "no_nul s \<Longrightarrow> cstr s = s"
  unfolding cstr_def no_nul_def takeWhile_eq_all_conv by auto

lemma no_nul_cstr [simp]: "no_nul (cstr s)"
  unfolding cstr_def no_nul_def by (metis (mono_tags, lifting) set_takeWhileD)

lemma no_nul_Nil [simp]: "no_nul []"
  by (simp add: no_nul_def)

lemma no_nul_Cons [simp]: "no_nul (c # s) \<longleftrightarrow> c \<noteq> NUL \<and> no_nul s"
  by (auto simp: no_nul_def)

lemma no_nul_append [simp]: "no_nul (s @ t) \<longleftrightarrow> no_nul s \<and> no_nul t"
  by (auto simp: no_nul_def)

lemma str_at_less [simp]: "i < length s \<Longrightarrow> str_at s i = Some (s ! i)"
  by (simp add: str_at_def)

lemma str_at_length [simp]: "str_at s (length s) = Some NUL"
  by (simp add: str_at_def)

lemma str_at_None_iff: "str_at s i = None \<longleftrightarrow> length s < i"
  by (auto simp: str_at_def)

text \<open>
  The comparison \<open>strcasecmp\<close>, with the loop of the fallback in \<open>RequestParser.cpp\<close>: both
  strings are read until they differ or the first one ends.
\<close>

fun strcasecmp :: "string \<Rightarrow> string \<Rightarrow> int" where
  "strcasecmp [] [] = 0"
| "strcasecmp [] (b # bs) = - int (code (tolower b))"
| "strcasecmp (a # as) [] = int (code (tolower a))"
| "strcasecmp (a # as) (b # bs) =
     (let result = int (code (tolower a)) - int (code (tolower b))
      in if result \<noteq> 0 then result else if a = NUL then 0 else strcasecmp as bs)"

lemma code_eq_0 [simp]: "code c = 0 \<longleftrightarrow> c = NUL"
  using code_eq_iff [of c NUL] by (simp add: code_def)

lemma code_tolower: "code (tolower c) = (if isupper c then code c + 32 else code c)"
  by (simp add: tolower_def isupper_def)

lemma code_tolower_0: "code (tolower c) = 0 \<longleftrightarrow> c = NUL"
  by (auto simp: code_tolower isupper_def)

lemma tolower_eq_NUL [simp]: "tolower c = NUL \<longleftrightarrow> c = NUL" "NUL = tolower c \<longleftrightarrow> c = NUL"
  using code_tolower_0 [of c] code_eq_0 [of "tolower c"] by metis+

lemma tolower_NUL [simp]: "tolower NUL = NUL"
  by simp

lemma strcasecmp_zero:
  "strcasecmp s t = 0 \<longleftrightarrow> map tolower (cstr s) = map tolower (cstr t)"
  by (induction s t rule: strcasecmp.induct)
    (auto simp: cstr_def Let_def code_tolower_0)

lemma strcasecmp_refl [simp]: "strcasecmp s s = 0"
  by (simp add: strcasecmp_zero)

end
