(* ===== verification/Numbers.thy ===== *)
theory Numbers
  imports Prelude
begin

text \<open>
  The conversions between numbers and text that the sources take from the standard library:
  \<open>strtol\<close>, \<open>strtoul\<close>, \<open>atoi\<close>, \<open>atol\<close>, the throwing \<open>std::stoi\<close>, \<open>std::stol\<close> and
  \<open>std::stoul\<close>, and \<open>std::to_string\<close>, with the round trips between the two directions.
\<close>

section \<open>Scanning a number\<close>

definition digit_of :: "char \<Rightarrow> nat" where
  "digit_of c =
     (if isdigit c then code c - 48
      else if islower c then code c - 87
      else if isupper c then code c - 55
      else 36)"

definition isdigit_in :: "nat \<Rightarrow> char \<Rightarrow> bool" where
  "isdigit_in base c \<longleftrightarrow> digit_of c < base"

fun digits_value :: "nat \<Rightarrow> nat \<Rightarrow> string \<Rightarrow> nat" where
  "digits_value base acc [] = acc"
| "digits_value base acc (c # cs) = digits_value base (acc * base + digit_of c) cs"

fun skip_sign :: "string \<Rightarrow> bool \<times> string" where
  "skip_sign [] = (False, [])"
| "skip_sign (c # cs) =
     (if c = CHR ''-'' then (True, cs) else if c = CHR ''+'' then (False, cs) else (False, c # cs))"

fun skip_0x :: "string \<Rightarrow> string" where
  "skip_0x (z # x # d # cs) =
     (if z = CHR ''0'' \<and> tolower x = CHR ''x'' \<and> isdigit_in 16 d then d # cs else z # x # d # cs)"
| "skip_0x s = s"

text \<open>
  The subject sequence of \<open>strtol\<close> and \<open>strtoul\<close>: blanks, a sign, a \<open>0x\<close> prefix in base 16, the
  longest run of digits. The result is the sign, the magnitude and the rest of the text; \<open>None\<close>
  stands for \<open>no conversion\<close>.
\<close>

definition scan_int :: "nat \<Rightarrow> string \<Rightarrow> (bool \<times> nat \<times> string) option" where
  "scan_int base s =
     (let (neg, s1) = skip_sign (dropWhile isspace s);
          s2 = (if base = 16 then skip_0x s1 else s1);
          ds = takeWhile (isdigit_in base) s2
      in if ds = [] then None else Some (neg, digits_value base 0 ds, dropWhile (isdigit_in base) s2))"

definition LONG_MAX :: int where "LONG_MAX = 2 ^ 63 - 1"
definition LONG_MIN :: int where "LONG_MIN = - (2 ^ 63)"
definition INT_MAX :: int where "INT_MAX = 2 ^ 31 - 1"
definition INT_MIN :: int where "INT_MIN = - (2 ^ 31)"
definition ULONG_MAX :: nat where "ULONG_MAX = 2 ^ 64 - 1"

definition signed_value :: "bool \<Rightarrow> nat \<Rightarrow> int" where
  "signed_value neg m = (if neg then - int m else int m)"

definition strtol :: "nat \<Rightarrow> string \<Rightarrow> int \<times> string" where
  "strtol base s =
     (case scan_int base s of
        None \<Rightarrow> (0, s)
      | Some (neg, m, rest) \<Rightarrow> (max LONG_MIN (min LONG_MAX (signed_value neg m)), rest))"

definition strtoul :: "nat \<Rightarrow> string \<Rightarrow> ulong \<times> string" where
  "strtoul base s =
     (case scan_int base s of
        None \<Rightarrow> (0, s)
      | Some (neg, m, rest) \<Rightarrow>
          (if ULONG_MAX < m then - 1 else if neg then - of_nat m else of_nat m, rest))"

definition atol :: "string \<Rightarrow> int" where
  "atol s = fst (strtol 10 (cstr s))"

text \<open>\<open>atoi\<close> truncates the \<open>long\<close> to an \<open>int\<close>.\<close>

definition atoi :: "string \<Rightarrow> cint" where
  "atoi s = word_of_int (atol s)"

datatype conv_error = InvalidArgument | OutOfRange

definition stol_range :: "int \<Rightarrow> int \<Rightarrow> string \<Rightarrow> conv_error + int" where
  "stol_range lo hi s =
     (case scan_int 10 (cstr s) of
        None \<Rightarrow> Inl InvalidArgument
      | Some (neg, m, _) \<Rightarrow>
          (let v = signed_value neg m in if v < lo \<or> hi < v then Inl OutOfRange else Inr v))"

definition stoi :: "string \<Rightarrow> conv_error + int" where
  "stoi = stol_range INT_MIN INT_MAX"

definition stol :: "string \<Rightarrow> conv_error + int" where
  "stol = stol_range LONG_MIN LONG_MAX"

text \<open>\<open>std::stoul\<close> accepts a minus sign and negates in \<open>unsigned long\<close>.\<close>

definition stoul :: "string \<Rightarrow> conv_error + ulong" where
  "stoul s =
     (case scan_int 10 (cstr s) of
        None \<Rightarrow> Inl InvalidArgument
      | Some (neg, m, _) \<Rightarrow>
          if ULONG_MAX < m then Inl OutOfRange else Inr (if neg then - of_nat m else of_nat m))"

section \<open>Printing a number\<close>

fun nat_str :: "nat \<Rightarrow> string" where
  "nat_str n = (if n < 10 then [digit_char n] else nat_str (n div 10) @ [digit_char (n mod 10)])"

declare nat_str.simps [simp del]

definition int_str :: "int \<Rightarrow> string" where
  "int_str i = (if i < 0 then CHR ''-'' # nat_str (nat (- i)) else nat_str (nat i))"

definition ulong_str :: "ulong \<Rightarrow> string" where
  "ulong_str w = nat_str (unat w)"

section \<open>Round trips\<close>

lemma digit_of_digit_char [simp]: "d < 10 \<Longrightarrow> digit_of (digit_char d) = d"
  by (simp add: digit_of_def)

lemma isdigit_in_10 [simp]: "isdigit_in 10 = isdigit"
  by (auto simp: fun_eq_iff isdigit_in_def digit_of_def isdigit_def islower_def isupper_def)

lemma digits_value_append:
  "digits_value b acc (s @ t) = digits_value b (digits_value b acc s) t"
  by (induction s arbitrary: acc) auto

lemma nat_str_nonempty [simp]: "nat_str n \<noteq> []"
  by (subst nat_str.simps) simp

lemma nat_str_digits: "list_all isdigit (nat_str n)"
proof (induction n rule: nat_str.induct)
  case (1 n)
  then show ?case by (subst nat_str.simps) simp
qed

lemma nat_str_no_nul [simp]: "no_nul (nat_str n)"
  using nat_str_digits [of n] isdigit_neq_special(1) by (auto simp: no_nul_def list_all_iff)

lemma digits_value_nat_str [simp]: "digits_value 10 0 (nat_str n) = n"
proof (induction n rule: nat_str.induct)
  case (1 n)
  then show ?case by (subst nat_str.simps) (simp add: digits_value_append)
qed

lemma takeWhile_digits:
  assumes "list_all isdigit ds" "r = [] \<or> \<not> isdigit (hd r)"
  shows "takeWhile isdigit (ds @ r) = ds" "dropWhile isdigit (ds @ r) = r"
  using assms by (induction ds) (cases r; auto)+

lemma takeWhile_nat_str [simp]: "takeWhile isdigit (nat_str n) = nat_str n"
  by (rule takeWhile_eq_all_conv [THEN iffD2]) (use nat_str_digits in \<open>simp add: list_all_iff\<close>)

lemma dropWhile_nat_str [simp]: "dropWhile isdigit (nat_str n) = []"
  using nat_str_digits by (simp add: list_all_iff)

lemma skip_blank_sign_digits:
  assumes "list_all isdigit ds" "ds \<noteq> []"
  shows "skip_sign (dropWhile isspace (ds @ r)) = (False, ds @ r)"
  using assms by (cases ds) (auto simp: isspace_not_digit isdigit_neq_special)

lemma scan_int_nat_str:
  assumes "r = [] \<or> \<not> isdigit (hd r)"
  shows "scan_int 10 (nat_str n @ r) = Some (False, n, r)"
  unfolding scan_int_def
  using skip_blank_sign_digits [OF nat_str_digits nat_str_nonempty, of n r]
    takeWhile_digits [OF nat_str_digits assms, of n]
  by simp

lemmas scan_int_nat_str_end [simp] = scan_int_nat_str [of "[]", simplified]

lemma strtoul_nat_str:
  "n \<le> ULONG_MAX \<Longrightarrow> strtoul 10 (nat_str n) = (of_nat n, [])"
  by (simp add: strtoul_def)

lemma stoul_nat_str: "n \<le> ULONG_MAX \<Longrightarrow> stoul (nat_str n) = Inr (of_nat n)"
  by (simp add: stoul_def)

lemma stoul_ulong_str [simp]: "stoul (ulong_str w) = Inr w"
proof -
  have "unat w \<le> ULONG_MAX"
    using unsigned_less [of w, where ?'a = nat] by (simp add: ULONG_MAX_def)
  then show ?thesis by (simp add: ulong_str_def stoul_nat_str)
qed

lemma atol_nat_str: "int n \<le> LONG_MAX \<Longrightarrow> atol (nat_str n) = int n"
  by (simp add: atol_def strtol_def signed_value_def LONG_MIN_def)

lemma scan_int_minus:
  "scan_int 10 (CHR ''-'' # nat_str n) = Some (True, n, [])"
proof -
  have "skip_sign (dropWhile isspace (CHR ''-'' # nat_str n)) = (True, nat_str n)"
    by (simp add: isspace_def)
  then show ?thesis by (simp add: scan_int_def Let_def)
qed

lemma atol_int_str: "LONG_MIN \<le> i \<Longrightarrow> i \<le> LONG_MAX \<Longrightarrow> atol (int_str i) = i"
  by (auto simp: atol_def int_str_def strtol_def signed_value_def scan_int_minus LONG_MIN_def LONG_MAX_def)

lemma stoul_fails_iff:
  "(\<exists>e. stoul s = Inl e) \<longleftrightarrow>
     (case scan_int 10 (cstr s) of None \<Rightarrow> True | Some (_, m, _) \<Rightarrow> ULONG_MAX < m)"
  by (auto simp: stoul_def split: option.splits prod.splits)

end
