(* ===== verification/Http_Parser.thy ===== *)
theory Http_Parser
  imports Numbers
begin

text \<open>
  The incremental HTTP request parser: \<open>src/http/serv/RequestBuffer.h\<close> (the data collected),
  \<open>src/http/serv/RequestParser.h\<close> (states, character classes, \<open>parse\<close>, \<open>reset\<close>) and
  \<open>src/http/serv/RequestParser.cpp\<close> (\<open>consume\<close>, one character at a time). An exception that
  leaves \<open>consume\<close> (\<open>std::length_error\<close> of \<open>std::string::reserve\<close>) is the left side of a sum.
\<close>

section \<open>Data\<close>

record Header =
  hname :: string
  hvalue :: string

record RequestBuffer =
  rb_remote_address :: string
  rb_method :: string
  rb_uri :: string
  rb_http_version_major :: cint
  rb_http_version_minor :: cint
  rb_keepAlive :: bool
  rb_headers :: "Header list"
  rb_content :: string

datatype result_t = completed | incomplete | failed

datatype state_t =
    RequestMethodStart | RequestMethod | RequestUriStart | RequestUri
  | RequestHttpVersion_h | RequestHttpVersion_ht | RequestHttpVersion_htt | RequestHttpVersion_http
  | RequestHttpVersion_slash | RequestHttpVersion_majorStart | RequestHttpVersion_major
  | RequestHttpVersion_minorStart | RequestHttpVersion_minor | RequestHttpVersion_newLine
  | HeaderLineStart | HeaderLws | HeaderName | SpaceBeforeHeaderValue | HeaderValue
  | ExpectingNewline_2 | ExpectingNewline_3
  | Post | ChunkSize | ChunkExtensionName | ChunkExtensionValue
  | ChunkSizeNewLine | ChunkSizeNewLine_2 | ChunkSizeNewLine_3
  | ChunkTrailerName | ChunkTrailerValue
  | ChunkDataNewLine_1 | ChunkDataNewLine_2 | ChunkData

record RequestParser =
  rp_state :: state_t
  rp_req :: RequestBuffer
  rp_contentSize :: size_t
  rp_chunked :: bool
  rp_chunkSize :: size_t
  rp_chunkSizeStr :: string

datatype exn = LengthError

type_synonym step_result = "exn + result_t \<times> RequestParser"

text \<open>A default-constructed parser; the two version numbers have no initialiser.\<close>

definition new_RequestBuffer :: "cint \<Rightarrow> cint \<Rightarrow> RequestBuffer" where
  "new_RequestBuffer major minor =
     \<lparr>rb_remote_address = [], rb_method = [], rb_uri = [], rb_http_version_major = major,
      rb_http_version_minor = minor, rb_keepAlive = False, rb_headers = [], rb_content = []\<rparr>"

definition new_RequestParser :: "cint \<Rightarrow> cint \<Rightarrow> RequestParser" where
  "new_RequestParser major minor =
     \<lparr>rp_state = RequestMethodStart, rp_req = new_RequestBuffer major minor, rp_contentSize = 0,
      rp_chunked = False, rp_chunkSize = 0, rp_chunkSizeStr = []\<rparr>"

definition clear :: "RequestBuffer \<Rightarrow> RequestBuffer" where
  "clear b = b\<lparr>rb_method := [], rb_uri := [], rb_headers := [], rb_content := []\<rparr>"

definition reset :: "RequestParser \<Rightarrow> RequestParser" where
  "reset p = p\<lparr>rp_state := RequestMethodStart, rp_contentSize := 0, rp_chunkSizeStr := [],
               rp_chunkSize := 0, rp_chunked := False, rp_req := clear (rp_req p)\<rparr>"

text \<open>\<open>to_string\<close>: the textual form of the buffer used for diagnostics.\<close>

definition header_line :: "Header \<Rightarrow> string" where
  "header_line h = hname h @ '': '' @ hvalue h @ [LF]"

definition buffer_to_string :: "RequestBuffer \<Rightarrow> string" where
  "buffer_to_string b =
     rb_method b @ '' '' @ rb_uri b @ '' HTTP/'' @ int_str (sint (rb_http_version_major b)) @ ''.''
     @ int_str (sint (rb_http_version_minor b)) @ [LF]
     @ concat (map header_line (rb_headers b))
     @ rb_content b @ [LF]
     @ ''+ keep-alive: '' @ (if rb_keepAlive b then ''1'' else ''0'') @ [LF]"

section \<open>Character classes\<close>

definition isChar :: "char \<Rightarrow> bool" where
  "isChar c \<longleftrightarrow> 0 \<le> c_int c \<and> c_int c \<le> 127"

definition isControl :: "char \<Rightarrow> bool" where
  "isControl c \<longleftrightarrow> (0 \<le> c_int c \<and> c_int c \<le> 31) \<or> c_int c = 127"

definition isSpecial :: "char \<Rightarrow> bool" where
  "isSpecial c \<longleftrightarrow> c \<in> set (''()<>@,;:/[]?={} '' @ [BSLASH, DQUOTE, TAB])"

definition isDigit :: "char \<Rightarrow> bool" where
  "isDigit c \<longleftrightarrow> c_int (CHR ''0'') \<le> c_int c \<and> c_int c \<le> c_int (CHR ''9'')"

definition isMethodStart :: "char \<Rightarrow> bool" where
  "isMethodStart c \<longleftrightarrow> c \<in> set ''GPDHCOT''"

text \<open>A character that may occur in a method or a header name.\<close>

definition tokenChar :: "char \<Rightarrow> bool" where
  "tokenChar c \<longleftrightarrow> \<not> (\<not> isChar c \<or> isControl c \<or> isSpecial c)"

section \<open>Updates of the buffer\<close>

definition upd_req :: "(RequestBuffer \<Rightarrow> RequestBuffer) \<Rightarrow> RequestParser \<Rightarrow> RequestParser" where
  "upd_req f p = p\<lparr>rp_req := f (rp_req p)\<rparr>"

definition push_method :: "char \<Rightarrow> RequestParser \<Rightarrow> RequestParser" where
  "push_method c = upd_req (\<lambda>b. b\<lparr>rb_method := rb_method b @ [c]\<rparr>)"

definition push_uri :: "char \<Rightarrow> RequestParser \<Rightarrow> RequestParser" where
  "push_uri c = upd_req (\<lambda>b. b\<lparr>rb_uri := rb_uri b @ [c]\<rparr>)"

definition push_content :: "char \<Rightarrow> RequestParser \<Rightarrow> RequestParser" where
  "push_content c = upd_req (\<lambda>b. b\<lparr>rb_content := rb_content b @ [c]\<rparr>)"

definition set_major :: "cint \<Rightarrow> RequestParser \<Rightarrow> RequestParser" where
  "set_major v = upd_req (\<lambda>b. b\<lparr>rb_http_version_major := v\<rparr>)"

definition set_minor :: "cint \<Rightarrow> RequestParser \<Rightarrow> RequestParser" where
  "set_minor v = upd_req (\<lambda>b. b\<lparr>rb_http_version_minor := v\<rparr>)"

text \<open>
  \<open>headers.back()\<close> is only meaningful on a non-empty vector; that it is never taken of an empty
  one is part of the invariant below.
\<close>

definition upd_back :: "(Header \<Rightarrow> Header) \<Rightarrow> RequestParser \<Rightarrow> RequestParser" where
  "upd_back f = upd_req (\<lambda>b. b\<lparr>rb_headers :=
     (if rb_headers b = [] then [] else butlast (rb_headers b) @ [f (last (rb_headers b))])\<rparr>)"

definition push_header :: "char \<Rightarrow> RequestParser \<Rightarrow> RequestParser" where
  "push_header c = upd_req (\<lambda>b. b\<lparr>rb_headers := rb_headers b @ [\<lparr>hname = [c], hvalue = []\<rparr>]\<rparr>)"

definition push_name :: "char \<Rightarrow> RequestParser \<Rightarrow> RequestParser" where
  "push_name c = upd_back (\<lambda>h. h\<lparr>hname := hname h @ [c]\<rparr>)"

definition push_value :: "char \<Rightarrow> RequestParser \<Rightarrow> RequestParser" where
  "push_value c = upd_back (\<lambda>h. h\<lparr>hvalue := hvalue h @ [c]\<rparr>)"

text \<open>\<open>std::string::reserve\<close> throws \<open>std::length_error\<close> above \<open>max_size()\<close>.\<close>

definition max_size :: nat where
  "max_size = 2 ^ 63 - 1"

definition fails :: "RequestParser \<Rightarrow> step_result" where
  "fails p = Inr (failed, p)"

definition goes :: "state_t \<Rightarrow> RequestParser \<Rightarrow> step_result" where
  "goes s p = Inr (incomplete, p\<lparr>rp_state := s\<rparr>)"

definition stays :: "RequestParser \<Rightarrow> step_result" where
  "stays p = Inr (incomplete, p)"

definition completes :: "RequestParser \<Rightarrow> step_result" where
  "completes p = Inr (completed, p)"

lemmas outcome_defs = fails_def goes_def stays_def completes_def
lemmas buffer_defs = upd_req_def push_method_def push_uri_def push_content_def set_major_def
  set_minor_def upd_back_def push_header_def push_name_def push_value_def

section \<open>Consuming one character\<close>

definition digit_word :: "char \<Rightarrow> cint" where
  "digit_word c = word_of_int (c_int c - c_int (CHR ''0''))"

fun consume_method_uri :: "state_t \<Rightarrow> RequestParser \<Rightarrow> char \<Rightarrow> step_result" where
  "consume_method_uri RequestMethodStart p input =
     (if isMethodStart input then goes RequestMethod (push_method input p) else fails p)"
| "consume_method_uri RequestMethod p input =
     (if input = CHR '' '' then goes RequestUriStart p
      else if \<not> isChar input \<or> isControl input \<or> isSpecial input then fails p
      else stays (push_method input p))"
| "consume_method_uri RequestUriStart p input =
     (if isControl input then fails p else goes RequestUri (push_uri input p))"
| "consume_method_uri RequestUri p input =
     (if input = CHR '' '' then goes RequestHttpVersion_h p
      else if input = CR then completes (set_minor 9 (set_major 0 p))
      else if isControl input then fails p
      else stays (push_uri input p))"
| "consume_method_uri _ p input = fails p"

fun consume_version :: "state_t \<Rightarrow> RequestParser \<Rightarrow> char \<Rightarrow> step_result" where
  "consume_version RequestHttpVersion_h p input =
     (if input = CHR ''H'' then goes RequestHttpVersion_ht p else fails p)"
| "consume_version RequestHttpVersion_ht p input =
     (if input = CHR ''T'' then goes RequestHttpVersion_htt p else fails p)"
| "consume_version RequestHttpVersion_htt p input =
     (if input = CHR ''T'' then goes RequestHttpVersion_http p else fails p)"
| "consume_version RequestHttpVersion_http p input =
     (if input = CHR ''P'' then goes RequestHttpVersion_slash p else fails p)"
| "consume_version RequestHttpVersion_slash p input =
     (if input = CHR ''/'' then goes RequestHttpVersion_majorStart (set_minor 0 (set_major 0 p))
      else fails p)"
| "consume_version RequestHttpVersion_majorStart p input =
     (if isDigit input then goes RequestHttpVersion_major (set_major (digit_word input) p)
      else fails p)"
| "consume_version RequestHttpVersion_major p input =
     (if input = CHR ''.'' then goes RequestHttpVersion_minorStart p
      else if isDigit input then
        stays (set_major (rb_http_version_major (rp_req p) * 10 + digit_word input) p)
      else fails p)"
| "consume_version RequestHttpVersion_minorStart p input =
     (if isDigit input then goes RequestHttpVersion_minor (set_minor (digit_word input) p)
      else fails p)"
| "consume_version RequestHttpVersion_minor p input =
     (if input = CR then goes RequestHttpVersion_newLine p
      else if isDigit input then
        stays (set_minor (rb_http_version_minor (rp_req p) * 10 + digit_word input) p)
      else fails p)"
| "consume_version RequestHttpVersion_newLine p input =
     (if input = LF then goes HeaderLineStart p else fails p)"
| "consume_version _ p input = fails p"

text \<open>
  The end of a header line of a request with a body: \<open>Content-Length\<close> sets the size, converted
  from \<open>int\<close> to \<open>size_t\<close>; \<open>Transfer-Encoding: chunked\<close> sets the flag.
\<close>

definition header_value_end :: "RequestParser \<Rightarrow> exn + RequestParser" where
  "header_value_end p =
     (let m = rb_method (rp_req p) in
      if m = ''POST'' \<or> m = ''PUT'' \<or> m = ''PATCH'' \<or> m = ''DELETE'' then
        (if rb_headers (rp_req p) = [] then Inr p
         else
           (let h = last (rb_headers (rp_req p)) in
            if strcasecmp (hname h) ''Content-Length'' = 0 then
              (let n = (scast (atoi (hvalue h)) :: size_t) in
               if max_size < unat n then Inl LengthError else Inr (p\<lparr>rp_contentSize := n\<rparr>))
            else if strcasecmp (hname h) ''Transfer-Encoding'' = 0 then
              (if strcasecmp (hvalue h) ''chunked'' = 0 then Inr (p\<lparr>rp_chunked := True\<rparr>) else Inr p)
            else Inr p))
      else Inr p)"

fun consume_header :: "state_t \<Rightarrow> RequestParser \<Rightarrow> char \<Rightarrow> step_result" where
  "consume_header HeaderLineStart p input =
     (if input = CR then goes ExpectingNewline_3 p
      else if rb_headers (rp_req p) \<noteq> [] \<and> (input = CHR '' '' \<or> input = TAB) then goes HeaderLws p
      else if \<not> isChar input \<or> isControl input \<or> isSpecial input then fails p
      else goes HeaderName (push_header input p))"
| "consume_header HeaderLws p input =
     (if input = CR then goes ExpectingNewline_2 p
      else if input = CHR '' '' \<or> input = TAB then stays p
      else if isControl input then fails p
      else goes HeaderValue (push_value input p))"
| "consume_header HeaderName p input =
     (if input = CHR '':'' then goes SpaceBeforeHeaderValue p
      else if \<not> isChar input \<or> isControl input \<or> isSpecial input then fails p
      else stays (push_name input p))"
| "consume_header SpaceBeforeHeaderValue p input =
     (if input = CHR '' '' then goes HeaderValue p else fails p)"
| "consume_header HeaderValue p input =
     (if input = CR then
        (case header_value_end p of Inl e \<Rightarrow> Inl e | Inr p' \<Rightarrow> goes ExpectingNewline_2 p')
      else if isControl input then fails p
      else stays (push_value input p))"
| "consume_header ExpectingNewline_2 p input =
     (if input = LF then goes HeaderLineStart p else fails p)"
| "consume_header _ p input = fails p"

text \<open>The blank line: fix the connection mode, then look for a body.\<close>

definition set_keepAlive :: "RequestBuffer \<Rightarrow> RequestBuffer" where
  "set_keepAlive b =
     (case find (\<lambda>h. strcasecmp (hname h) ''Connection'' = 0) (rb_headers b) of
        Some h \<Rightarrow> b\<lparr>rb_keepAlive := (strcasecmp (hvalue h) ''keep-alive'' = 0)\<rparr>
      | None \<Rightarrow>
          if rb_http_version_major b = 1 \<and> rb_http_version_minor b = 1
          then b\<lparr>rb_keepAlive := True\<rparr> else b)"

definition consume_headers_end :: "RequestParser \<Rightarrow> char \<Rightarrow> step_result" where
  "consume_headers_end p input =
     (let p = upd_req set_keepAlive p in
      if rp_chunked p then goes ChunkSize p
      else if rp_contentSize p = 0 then (if input = LF then completes p else fails p)
      else goes Post p)"

definition consume_post :: "RequestParser \<Rightarrow> char \<Rightarrow> step_result" where
  "consume_post p input =
     (let n = rp_contentSize p - 1; p = push_content input (p\<lparr>rp_contentSize := n\<rparr>) in
      if n = 0 then completes p else stays p)"

fun consume_chunk_head :: "state_t \<Rightarrow> RequestParser \<Rightarrow> char \<Rightarrow> step_result" where
  "consume_chunk_head ChunkSize p input =
     (if isalnum input then stays (p\<lparr>rp_chunkSizeStr := rp_chunkSizeStr p @ [input]\<rparr>)
      else if input = CHR '';'' then goes ChunkExtensionName p
      else if input = CR then goes ChunkSizeNewLine p
      else fails p)"
| "consume_chunk_head ChunkExtensionName p input =
     (if isalnum input \<or> input = CHR '' '' then stays p
      else if input = CHR ''='' then goes ChunkExtensionValue p
      else if input = CR then goes ChunkSizeNewLine p
      else fails p)"
| "consume_chunk_head ChunkExtensionValue p input =
     (if isalnum input \<or> input = CHR '' '' then stays p
      else if input = CR then goes ChunkSizeNewLine p
      else fails p)"
| "consume_chunk_head ChunkSizeNewLine p input =
     (if input = LF then
        (let n = word_of_int (fst (strtol 16 (cstr (rp_chunkSizeStr p))));
             p = p\<lparr>rp_chunkSize := n, rp_chunkSizeStr := []\<rparr>
         in if max_size < unat (word_of_nat (length (rb_content (rp_req p))) + n)
            then Inl LengthError
            else if n = 0 then goes ChunkSizeNewLine_2 p else goes ChunkData p)
      else fails p)"
| "consume_chunk_head ChunkSizeNewLine_2 p input =
     (if input = CR then goes ChunkSizeNewLine_3 p
      else if isalpha input then goes ChunkTrailerName p
      else fails p)"
| "consume_chunk_head ChunkSizeNewLine_3 p input =
     (if input = LF then completes p else fails p)"
| "consume_chunk_head ChunkTrailerName p input =
     (if isalnum input then stays p
      else if input = CHR '':'' then goes ChunkTrailerValue p
      else fails p)"
| "consume_chunk_head ChunkTrailerValue p input =
     (if isalnum input \<or> input = CHR '' '' then stays p
      else if input = CR then goes ChunkSizeNewLine p
      else fails p)"
| "consume_chunk_head _ p input = fails p"

fun consume_chunk_data :: "state_t \<Rightarrow> RequestParser \<Rightarrow> char \<Rightarrow> step_result" where
  "consume_chunk_data ChunkData p input =
     (let n = rp_chunkSize p - 1; p = push_content input p\<lparr>rp_chunkSize := n\<rparr> in
      if n = 0 then goes ChunkDataNewLine_1 p else stays p)"
| "consume_chunk_data ChunkDataNewLine_1 p input =
     (if input = CR then goes ChunkDataNewLine_2 p else fails p)"
| "consume_chunk_data ChunkDataNewLine_2 p input =
     (if input = LF then goes ChunkSize p else fails p)"
| "consume_chunk_data _ p input = fails p"

definition method_uri_states :: "state_t list" where
  "method_uri_states = [RequestMethodStart, RequestMethod, RequestUriStart, RequestUri]"

definition version_states :: "state_t list" where
  "version_states =
     [RequestHttpVersion_h, RequestHttpVersion_ht, RequestHttpVersion_htt, RequestHttpVersion_http,
      RequestHttpVersion_slash, RequestHttpVersion_majorStart, RequestHttpVersion_major,
      RequestHttpVersion_minorStart, RequestHttpVersion_minor, RequestHttpVersion_newLine]"

definition header_states :: "state_t list" where
  "header_states = [HeaderLineStart, HeaderLws, HeaderName, SpaceBeforeHeaderValue, HeaderValue, ExpectingNewline_2]"

definition chunk_head_states :: "state_t list" where
  "chunk_head_states =
     [ChunkSize, ChunkExtensionName, ChunkExtensionValue, ChunkSizeNewLine, ChunkSizeNewLine_2,
      ChunkSizeNewLine_3, ChunkTrailerName, ChunkTrailerValue]"

definition consume :: "RequestParser \<Rightarrow> char \<Rightarrow> step_result" where
  "consume p input =
     (let s = rp_state p in
      if s \<in> set method_uri_states then consume_method_uri s p input
      else if s \<in> set version_states then consume_version s p input
      else if s \<in> set header_states then consume_header s p input
      else if s = ExpectingNewline_3 then consume_headers_end p input
      else if s = Post then consume_post p input
      else if s \<in> set chunk_head_states then consume_chunk_head s p input
      else consume_chunk_data s p input)"

text \<open>The driver: stop at the first character that completes or fails.\<close>

fun parse :: "RequestParser \<Rightarrow> string \<Rightarrow> exn + result_t \<times> RequestParser \<times> string" where
  "parse p [] = Inr (incomplete, p, [])"
| "parse p (c # cs) =
     (case consume p c of
        Inl e \<Rightarrow> Inl e
      | Inr (r, p') \<Rightarrow> if r = incomplete then parse p' cs else Inr (r, p', cs))"

end
