(* ===== verification/Http_Parser_Inv.thy ===== *)
theory Http_Parser_Inv
  imports Http_Parser
begin

text \<open>
  Safety of the request parser: the invariant every character keeps, what it says of a completed
  request, and that the verdict does not depend on how the input is cut into reads.
\<close>

section \<open>One step, state by state\<close>

lemmas state_lists = method_uri_states_def version_states_def header_states_def chunk_head_states_def

lemma consume_at [parser_steps]:
  "rp_state p \<in> set method_uri_states \<Longrightarrow> consume p c = consume_method_uri (rp_state p) p c"
  "rp_state p \<in> set version_states \<Longrightarrow> consume p c = consume_version (rp_state p) p c"
  "rp_state p \<in> set header_states \<Longrightarrow> consume p c = consume_header (rp_state p) p c"
  "rp_state p = ExpectingNewline_3 \<Longrightarrow> consume p c = consume_headers_end p c"
  "rp_state p = Post \<Longrightarrow> consume p c = consume_post p c"
  "rp_state p \<in> set chunk_head_states \<Longrightarrow> consume p c = consume_chunk_head (rp_state p) p c"
  "rp_state p \<in> {ChunkData, ChunkDataNewLine_1, ChunkDataNewLine_2} \<Longrightarrow>
     consume p c = consume_chunk_data (rp_state p) p c"
  by (cases "rp_state p"; simp add: consume_def state_lists Let_def)+

lemma upd_req_simps [simp]:
  "rp_state (upd_req f p) = rp_state p" "rp_contentSize (upd_req f p) = rp_contentSize p"
  "rp_chunked (upd_req f p) = rp_chunked p" "rp_chunkSize (upd_req f p) = rp_chunkSize p"
  "rp_chunkSizeStr (upd_req f p) = rp_chunkSizeStr p" "rp_req (upd_req f p) = f (rp_req p)"
  by (simp_all add: upd_req_def)

lemma isDigit_isdigit [simp]: "isDigit c \<longleftrightarrow> isdigit c"
  using code_less_256 [of c] by (auto simp: isDigit_def isdigit_def c_int_def simp del: code_less_256)

section \<open>The invariant\<close>

definition header_ok :: "Header \<Rightarrow> bool" where
  "header_ok h \<longleftrightarrow> hname h \<noteq> [] \<and> list_all tokenChar (hname h) \<and> list_all (\<lambda>c. \<not> isControl c) (hvalue h)"

definition buffer_ok :: "RequestBuffer \<Rightarrow> bool" where
  "buffer_ok b \<longleftrightarrow>
     list_all tokenChar (rb_method b) \<and> list_all (\<lambda>c. \<not> isControl c) (rb_uri b)
     \<and> list_all header_ok (rb_headers b)"

definition needs_header :: "state_t \<Rightarrow> bool" where
  "needs_header s \<longleftrightarrow>
     s \<in> {HeaderLws, HeaderName, SpaceBeforeHeaderValue, HeaderValue, ExpectingNewline_2}"

definition body_state :: "state_t \<Rightarrow> bool" where
  "body_state s \<longleftrightarrow>
     s \<in> {Post, ChunkData, ChunkDataNewLine_1, ChunkDataNewLine_2} \<union> set chunk_head_states"

definition parser_inv :: "RequestParser \<Rightarrow> bool" where
  "parser_inv p \<longleftrightarrow>
     (let s = rp_state p; b = rp_req p in
      buffer_ok b
      \<and> (if s = RequestMethodStart then rb_method b = []
         else rb_method b \<noteq> [] \<and> isMethodStart (hd (rb_method b)))
      \<and> (if s \<in> {RequestMethodStart, RequestMethod, RequestUriStart} then rb_uri b = []
         else rb_uri b \<noteq> [])
      \<and> (needs_header s \<longrightarrow> rb_headers b \<noteq> [])
      \<and> (\<not> body_state s \<longrightarrow> rb_content b = [])
      \<and> (s = Post \<longrightarrow> rp_contentSize p \<noteq> 0)
      \<and> (s = ChunkData \<longrightarrow> rp_chunkSize p \<noteq> 0)
      \<and> unat (rp_contentSize p) \<le> max_size)"

text \<open>What is known of a request once the parser reports it complete.\<close>

definition request_ok :: "RequestBuffer \<Rightarrow> bool" where
  "request_ok b \<longleftrightarrow>
     buffer_ok b \<and> rb_method b \<noteq> [] \<and> isMethodStart (hd (rb_method b)) \<and> rb_uri b \<noteq> []"

fun step_ok :: "step_result \<Rightarrow> bool" where
  "step_ok (Inl e) = True"
| "step_ok (Inr (incomplete, p)) = parser_inv p"
| "step_ok (Inr (completed, p)) = request_ok (rp_req p)"
| "step_ok (Inr (failed, p)) = True"

lemmas inv_defs = parser_inv_def buffer_ok_def needs_header_def body_state_def request_ok_def
  state_lists

lemma methodStart_token: "isMethodStart c \<Longrightarrow> tokenChar c"
  by (auto simp: isMethodStart_def tokenChar_def isChar_def isControl_def isSpecial_def c_int_def)

lemma inv_method_uri:
  assumes "parser_inv p" "rp_state p \<in> set method_uri_states"
  shows "step_ok (consume_method_uri (rp_state p) p c)"
  using assms methodStart_token [of c]
  by (cases "rp_state p"; simp add: inv_defs outcome_defs buffer_defs tokenChar_def Let_def)

lemma inv_version:
  assumes "parser_inv p" "rp_state p \<in> set version_states"
  shows "step_ok (consume_version (rp_state p) p c)"
  using assms by (cases "rp_state p"; simp add: inv_defs outcome_defs buffer_defs Let_def)

lemma header_value_end_frame:
  assumes "header_value_end p = Inr q"
  shows "rp_req q = rp_req p" "rp_state q = rp_state p"
    "unat (rp_contentSize p) \<le> max_size \<Longrightarrow> unat (rp_contentSize q) \<le> max_size"
  using assms by (auto simp: header_value_end_def Let_def split: if_splits list.splits)

lemma header_ok_back:
  assumes "list_all header_ok hs" "hs \<noteq> []" "header_ok (f (last hs))"
  shows "list_all header_ok (butlast hs @ [f (last hs)])"
  using assms by (auto simp: list_all_iff dest: in_set_butlastD)

lemma buffer_ok_push_back:
  assumes "parser_inv p" "rb_headers (rp_req p) \<noteq> []" "\<And>h. header_ok h \<Longrightarrow> header_ok (f h)"
  shows "list_all header_ok (rb_headers (rp_req (upd_back f p)))"
    "rb_headers (rp_req (upd_back f p)) \<noteq> []"
proof -
  have "header_ok (last (rb_headers (rp_req p)))"
    using assms(1,2) by (auto simp: parser_inv_def buffer_ok_def Let_def list_all_iff)
  then show "list_all header_ok (rb_headers (rp_req (upd_back f p)))"
    "rb_headers (rp_req (upd_back f p)) \<noteq> []"
    using assms header_ok_back [of "rb_headers (rp_req p)" f]
    by (auto simp: parser_inv_def buffer_ok_def Let_def upd_back_def split: list.splits)
qed

lemma upd_back_frame [simp]:
  "rb_method (rp_req (upd_back f p)) = rb_method (rp_req p)"
  "rb_uri (rp_req (upd_back f p)) = rb_uri (rp_req p)"
  "rb_content (rp_req (upd_back f p)) = rb_content (rp_req p)"
  "rp_contentSize (upd_back f p) = rp_contentSize p"
  "rp_state (upd_back f p) = rp_state p"
  by (simp_all add: upd_back_def)

lemma header_ok_push:
  "header_ok h \<Longrightarrow> tokenChar c \<Longrightarrow> header_ok (h\<lparr>hname := hname h @ [c]\<rparr>)"
  "header_ok h \<Longrightarrow> \<not> isControl c \<Longrightarrow> header_ok (h\<lparr>hvalue := hvalue h @ [c]\<rparr>)"
  by (auto simp: header_ok_def)

lemma inv_push_back:
  assumes "parser_inv p" "needs_header (rp_state p)" "needs_header s"
    "\<And>h. header_ok h \<Longrightarrow> header_ok (f h)"
  shows "parser_inv (upd_back f p\<lparr>rp_state := s\<rparr>)"
proof -
  have ne: "rb_headers (rp_req p) \<noteq> []"
    using assms(1,2) by (simp add: parser_inv_def Let_def)
  have st: "\<And>t. needs_header t \<Longrightarrow> t \<noteq> RequestMethodStart \<and> t \<notin> {RequestMethodStart, RequestMethod, RequestUriStart}
      \<and> \<not> body_state t \<and> t \<noteq> Post \<and> t \<noteq> ChunkData"
    by (auto simp: needs_header_def body_state_def state_lists)
  show ?thesis
    using assms(1) st [OF assms(2)] st [OF assms(3)] buffer_ok_push_back [OF assms(1) ne assms(4)]
    by (simp add: parser_inv_def buffer_ok_def Let_def)
qed

lemma inv_stay_back:
  assumes "parser_inv p" "needs_header (rp_state p)" "\<And>h. header_ok h \<Longrightarrow> header_ok (f h)"
  shows "parser_inv (upd_back f p)"
  using inv_push_back [of p "rp_state p" f] assms by (simp add: upd_back_def upd_req_def)

lemma inv_header:
  assumes "parser_inv p" "rp_state p \<in> set header_states"
  shows "step_ok (consume_header (rp_state p) p c)"
proof (cases "rp_state p")
  case HeaderLws
  then have n: "needs_header (rp_state p)" by (simp add: needs_header_def)
  show ?thesis
    using HeaderLws assms(1) inv_push_back [OF assms(1) n, of HeaderValue] header_ok_push(2)
    by (auto simp: outcome_defs push_value_def needs_header_def)
      (simp_all add: inv_defs Let_def)
next
  case HeaderName
  then have n: "needs_header (rp_state p)" by (simp add: needs_header_def)
  show ?thesis
    using HeaderName assms(1) inv_stay_back [OF assms(1) n] header_ok_push(1)
    by (auto simp: outcome_defs push_name_def tokenChar_def)
      (simp_all add: inv_defs Let_def)
next
  case HeaderValue
  then have n: "needs_header (rp_state p)" by (simp add: needs_header_def)
  have e: "parser_inv (q\<lparr>rp_state := ExpectingNewline_2\<rparr>)" if "header_value_end p = Inr q" for q
    using header_value_end_frame [OF that] assms(1) HeaderValue by (simp add: inv_defs Let_def)
  show ?thesis
    using HeaderValue assms(1) inv_stay_back [OF assms(1) n] header_ok_push(2)
    by (auto simp: outcome_defs push_value_def e split: sum.splits)
qed (use assms in \<open>auto simp: inv_defs outcome_defs push_header_def tokenChar_def header_ok_def Let_def\<close>)

lemma set_keepAlive_frame [simp]:
  "rb_method (set_keepAlive b) = rb_method b" "rb_uri (set_keepAlive b) = rb_uri b"
  "rb_headers (set_keepAlive b) = rb_headers b" "rb_content (set_keepAlive b) = rb_content b"
  by (simp_all add: set_keepAlive_def split: option.split)

lemma inv_headers_end:
  assumes "parser_inv p" "rp_state p = ExpectingNewline_3"
  shows "step_ok (consume_headers_end p c)"
  using assms by (simp add: consume_headers_end_def inv_defs outcome_defs Let_def)

lemma unat_minus_1_le: "w \<noteq> 0 \<Longrightarrow> unat (w - 1) \<le> unat w" for w :: size_t
  by (simp add: unat_minus_one)

lemma inv_post:
  assumes "parser_inv p" "rp_state p = Post"
  shows "step_ok (consume_post p c)"
  using assms unat_minus_1_le [of "rp_contentSize p"]
  by (auto simp: consume_post_def inv_defs outcome_defs push_content_def Let_def)

lemma inv_chunk_head:
  assumes "parser_inv p" "rp_state p \<in> set chunk_head_states"
  shows "step_ok (consume_chunk_head (rp_state p) p c)"
  using assms by (cases "rp_state p"; simp add: inv_defs outcome_defs Let_def)

lemma inv_chunk_data:
  assumes "parser_inv p" "rp_state p \<in> {ChunkData, ChunkDataNewLine_1, ChunkDataNewLine_2}"
  shows "step_ok (consume_chunk_data (rp_state p) p c)"
  using assms by (cases "rp_state p"; simp add: inv_defs outcome_defs push_content_def upd_req_def Let_def)

lemma state_partition:
  obtains "s \<in> set method_uri_states" | "s \<in> set version_states" | "s \<in> set header_states"
  | "s = ExpectingNewline_3" | "s = Post" | "s \<in> set chunk_head_states"
  | "s \<in> {ChunkData, ChunkDataNewLine_1, ChunkDataNewLine_2}"
  by (cases s; simp add: state_lists)

lemma consume_inv: "parser_inv p \<Longrightarrow> step_ok (consume p c)"
  by (rule state_partition [of "rp_state p"])
    (simp_all add: parser_steps inv_method_uri inv_version inv_header inv_headers_end inv_post
      inv_chunk_head inv_chunk_data del: insert_iff)

lemma consume_inv_incomplete: "parser_inv p \<Longrightarrow> consume p c = Inr (incomplete, q) \<Longrightarrow> parser_inv q"
  using consume_inv [of p c] by simp

lemma consume_inv_completed: "parser_inv p \<Longrightarrow> consume p c = Inr (completed, q) \<Longrightarrow> request_ok (rp_req q)"
  using consume_inv [of p c] by simp

lemma new_parser_inv [simp]: "parser_inv (new_RequestParser major minor)"
  by (simp add: new_RequestParser_def new_RequestBuffer_def inv_defs Let_def)

lemma reset_inv [simp]: "parser_inv (reset p)"
  by (simp add: reset_def clear_def inv_defs Let_def)

section \<open>Stream parsers\<close>

text \<open>
  The contract the server relies on: a parser that is fed one character at a time and stops at
  the first verdict. What it promises follows from the laws of one step.
\<close>

locale stream_parser =
  fixes step :: "'s \<Rightarrow> char \<Rightarrow> 'e + result_t \<times> 's"
    and run :: "'s \<Rightarrow> string \<Rightarrow> 'e + result_t \<times> 's \<times> string"
    and inv :: "'s \<Rightarrow> bool"
    and good :: "'s \<Rightarrow> bool"
  assumes run_Nil: "run p [] = Inr (incomplete, p, [])"
    and run_Cons: "run p (c # cs) =
      (case step p c of
         Inl e \<Rightarrow> Inl e
       | Inr (r, q) \<Rightarrow> if r = incomplete then run q cs else Inr (r, q, cs))"
    and step_inv: "inv p \<Longrightarrow> step p c = Inr (incomplete, q) \<Longrightarrow> inv q"
    and step_good: "inv p \<Longrightarrow> step p c = Inr (completed, q) \<Longrightarrow> good q"
begin

lemma run_append:
  "run p (s @ t) =
     (case run p s of
        Inl e \<Rightarrow> Inl e
      | Inr (r, q, rest) \<Rightarrow> if r = incomplete then run q t else Inr (r, q, rest @ t))"
  by (induction s arbitrary: p) (auto simp: run_Nil run_Cons split: sum.split)

lemma run_split:
  "run p s = Inr (r, q, t) \<Longrightarrow> \<exists>u. s = u @ t \<and> (if r = incomplete then t = [] else u \<noteq> [])"
proof (induction s arbitrary: p)
  case Nil
  then show ?case by (auto simp: run_Nil)
next
  case (Cons c cs)
  then show ?case
    by (fastforce simp: run_Cons split: sum.splits if_splits prod.splits intro: exI [of _ "[c]"]
        dest: Cons.IH intro: exI [of _ "c # u" for u])
qed

lemma run_verdict:
  assumes "inv p" "run p s = Inr (r, q, t)"
  shows "(r = incomplete \<longrightarrow> inv q) \<and> (r = completed \<longrightarrow> good q)"
  using assms
proof (induction s arbitrary: p)
  case Nil
  then show ?case by (simp add: run_Nil)
next
  case (Cons c cs)
  obtain r' p' where st: "step p c = Inr (r', p')"
    using Cons.prems(2) by (auto simp: run_Cons split: sum.splits)
  show ?case
  proof (cases "r' = incomplete")
    case True
    then show ?thesis
      using Cons.IH [of p'] Cons.prems st step_inv by (simp add: run_Cons)
  next
    case False
    then show ?thesis
      using Cons.prems st step_good [OF Cons.prems(1)] by (auto simp: run_Cons)
  qed
qed

end

interpretation rp: stream_parser consume parse parser_inv "\<lambda>p. request_ok (rp_req p)"
  by unfold_locales (auto intro: consume_inv_incomplete consume_inv_completed)

end
