(* ===== verification/Http_Parser_Spec.thy ===== *)
theory Http_Parser_Spec
  imports Http_Parser_Inv
begin

text \<open>
  Functional correctness of the request parser: the text of a request, written as HTTP/1.x
  prescribes, is parsed back to exactly its parts, and nothing after its last byte is read.
\<close>

section \<open>The text of a request\<close>

definition header_text :: "Header \<Rightarrow> string" where
  "header_text h = hname h @ '': '' @ hvalue h @ [CR, LF]"

definition head_text :: "string \<Rightarrow> string \<Rightarrow> nat \<Rightarrow> nat \<Rightarrow> Header list \<Rightarrow> string" where
  "head_text m u major minor hs =
     m @ '' '' @ u @ '' HTTP/'' @ nat_str major @ ''.'' @ nat_str minor @ [CR, LF]
     @ concat (map header_text hs) @ [CR, LF]"

definition method_ok :: "string \<Rightarrow> bool" where
  "method_ok m \<longleftrightarrow> m \<noteq> [] \<and> isMethodStart (hd m) \<and> list_all tokenChar m"

definition uri_ok :: "string \<Rightarrow> bool" where
  "uri_ok u \<longleftrightarrow> u \<noteq> [] \<and> list_all (\<lambda>c. \<not> isControl c \<and> c \<noteq> CHR '' '') u"

section \<open>Phases\<close>

definition at :: "state_t \<Rightarrow> RequestParser \<Rightarrow> RequestParser" where
  "at s p = p\<lparr>rp_state := s\<rparr>"

lemma at_simps [simp]:
  "rp_state (at s p) = s" "rp_req (at s p) = rp_req p" "rp_contentSize (at s p) = rp_contentSize p"
  "rp_chunked (at s p) = rp_chunked p" "rp_chunkSize (at s p) = rp_chunkSize p"
  "rp_chunkSizeStr (at s p) = rp_chunkSizeStr p" "at s (at t p) = at s p"
  "rp_state p = s \<Longrightarrow> at s p = p"
  "upd_req f (at s p) = at s (upd_req f p)"
  by (simp_all add: at_def upd_req_def)

lemma goes_at: "goes s p = Inr (incomplete, at s p)"
  by (simp add: goes_def at_def)

lemma upd_req_comp [simp]: "upd_req f (upd_req g p) = upd_req (\<lambda>b. f (g b)) p"
  by (simp add: upd_req_def)

lemmas phase_simps = goes_at stays_def fails_def completes_def state_lists parser_steps

lemma not_token: "\<not> tokenChar CHR '' ''" "\<not> tokenChar CHR '':''" "\<not> tokenChar CR" "\<not> tokenChar TAB"
  by (simp_all add: tokenChar_def isSpecial_def isControl_def c_int_def)

lemma token_not_space:
  "tokenChar c \<Longrightarrow> c \<noteq> CHR '' ''" "tokenChar c \<Longrightarrow> c \<noteq> CHR '':''" "tokenChar c \<Longrightarrow> c \<noteq> CR" "tokenChar c \<Longrightarrow> c \<noteq> TAB"
  using not_token by metis+

lemma control_CR: "\<not> isControl c \<Longrightarrow> c \<noteq> CR" "isControl CR"
proof -
  show c: "isControl CR" by (simp add: isControl_def c_int_def)
  show "\<not> isControl c \<Longrightarrow> c \<noteq> CR" using c by metis
qed

lemma set_version_same:
  "rb_http_version_major (rp_req p) = v \<Longrightarrow> set_major v p = p"
  "rb_http_version_minor (rp_req p) = v \<Longrightarrow> set_minor v p = p"
  by (auto simp: set_major_def set_minor_def upd_req_def)

lemma parse_method_tail:
  assumes "rp_state p = RequestMethod" "list_all tokenChar cs"
  shows "parse p (cs @ CHR '' '' # s) =
    parse (at RequestUriStart (upd_req (\<lambda>b. b\<lparr>rb_method := rb_method b @ cs\<rparr>) p)) s"
  using assms
proof (induction cs arbitrary: p)
  case Nil
  then show ?case by (simp add: phase_simps upd_req_def)
next
  case (Cons c cs)
  then have "consume p c = Inr (incomplete, push_method c p)"
    using token_not_space(1) by (simp add: phase_simps tokenChar_def)
  with Cons show ?case by (simp add: push_method_def)
qed

lemma parse_method:
  assumes "rp_state p = RequestMethodStart" "method_ok m"
  shows "parse p (m @ CHR '' '' # s) =
    parse (at RequestUriStart (upd_req (\<lambda>b. b\<lparr>rb_method := rb_method b @ m\<rparr>) p)) s"
  using assms by (cases m) (simp_all add: method_ok_def phase_simps push_method_def parse_method_tail)

lemma parse_uri_tail:
  assumes "rp_state p = RequestUri" "list_all (\<lambda>c. \<not> isControl c \<and> c \<noteq> CHR '' '') cs"
  shows "parse p (cs @ CHR '' '' # s) =
    parse (at RequestHttpVersion_h (upd_req (\<lambda>b. b\<lparr>rb_uri := rb_uri b @ cs\<rparr>) p)) s"
  using assms
proof (induction cs arbitrary: p)
  case Nil
  then show ?case by (simp add: phase_simps upd_req_def)
next
  case (Cons c cs)
  then have "consume p c = Inr (incomplete, push_uri c p)"
    using control_CR by (auto simp: phase_simps)
  with Cons show ?case by (simp add: push_uri_def)
qed

lemma parse_uri:
  assumes "rp_state p = RequestUriStart" "uri_ok u"
  shows "parse p (u @ CHR '' '' # s) =
    parse (at RequestHttpVersion_h (upd_req (\<lambda>b. b\<lparr>rb_uri := rb_uri b @ u\<rparr>) p)) s"
  using assms by (cases u) (simp_all add: uri_ok_def phase_simps push_uri_def parse_uri_tail)

lemma digit_word_digit: "isdigit c \<Longrightarrow> digit_word c = word_of_nat (digit_of c)"
proof -
  assume d: "isdigit c"
  then have "c_int c - c_int (CHR ''0'') = int (digit_of c)"
    by (simp add: c_int_def isdigit_def digit_of_def)
  then show ?thesis by (simp add: digit_word_def)
qed

lemma parse_major_tail:
  assumes "rp_state p = RequestHttpVersion_major" "list_all isdigit ds"
    "rb_http_version_major (rp_req p) = word_of_nat v"
  shows "parse p (ds @ CHR ''.'' # s) =
    parse (at RequestHttpVersion_minorStart (set_major (word_of_nat (digits_value 10 v ds)) p)) s"
  using assms
proof (induction ds arbitrary: p v)
  case Nil
  then show ?case by (simp add: phase_simps set_version_same)
next
  case (Cons d ds)
  let ?q = "set_major (word_of_nat (v * 10 + digit_of d)) p"
  have "consume p d = Inr (incomplete, ?q)"
    using Cons.prems isdigit_neq_special(8) by (auto simp: phase_simps digit_word_digit set_major_def)
  moreover have "rp_state ?q = RequestHttpVersion_major"
    "rb_http_version_major (rp_req ?q) = word_of_nat (v * 10 + digit_of d)"
    using Cons.prems by (simp_all add: set_major_def)
  ultimately show ?case
    using Cons.IH [of ?q "v * 10 + digit_of d"] Cons.prems by (simp add: set_major_def)
qed

lemma parse_minor_tail:
  assumes "rp_state p = RequestHttpVersion_minor" "list_all isdigit ds"
    "rb_http_version_minor (rp_req p) = word_of_nat v"
  shows "parse p (ds @ CR # s) =
    parse (at RequestHttpVersion_newLine (set_minor (word_of_nat (digits_value 10 v ds)) p)) s"
  using assms
proof (induction ds arbitrary: p v)
  case Nil
  then show ?case by (simp add: phase_simps set_version_same)
next
  case (Cons d ds)
  let ?q = "set_minor (word_of_nat (v * 10 + digit_of d)) p"
  have "consume p d = Inr (incomplete, ?q)"
    using Cons.prems isdigit_neq_special(4) by (auto simp: phase_simps digit_word_digit set_minor_def)
  moreover have "rp_state ?q = RequestHttpVersion_minor"
    "rb_http_version_minor (rp_req ?q) = word_of_nat (v * 10 + digit_of d)"
    using Cons.prems by (simp_all add: set_minor_def)
  ultimately show ?case
    using Cons.IH [of ?q "v * 10 + digit_of d"] Cons.prems by (simp add: set_minor_def)
qed

lemma nat_str_Cons:
  obtains d ds where "nat_str n = d # ds" "isdigit d" "list_all isdigit ds"
    "digits_value 10 (digit_of d) ds = n"
  using nat_str_digits [of n] digits_value_nat_str [of n] nat_str_nonempty [of n]
  by (cases "nat_str n") auto

lemma parse_version:
  assumes "rp_state p = RequestHttpVersion_h"
  shows "parse p (''HTTP/'' @ nat_str major @ ''.'' @ nat_str minor @ [CR, LF] @ s) =
    parse (at HeaderLineStart (set_minor (word_of_nat minor) (set_major (word_of_nat major) p))) s"
proof -
  obtain d ds where a: "nat_str major = d # ds" "isdigit d" "list_all isdigit ds"
    "digits_value 10 (digit_of d) ds = major" by (rule nat_str_Cons)
  obtain e es where b: "nat_str minor = e # es" "isdigit e" "list_all isdigit es"
    "digits_value 10 (digit_of e) es = minor" by (rule nat_str_Cons)
  show ?thesis
    using assms a b
    by (simp add: phase_simps set_major_def set_minor_def digit_word_digit
        parse_major_tail [of _ ds "digit_of d"] parse_minor_tail [of _ es "digit_of e"])
qed

subsection \<open>Headers\<close>

definition add_header :: "Header \<Rightarrow> RequestParser \<Rightarrow> RequestParser" where
  "add_header h = upd_req (\<lambda>b. b\<lparr>rb_headers := rb_headers b @ [h]\<rparr>)"

lemma upd_back_add_header: "upd_back f (add_header h p) = add_header (f h) p"
  by (simp add: add_header_def upd_back_def upd_req_def)

lemma at_add_header [simp]:
  "add_header h (at s p) = at s (add_header h p)" "rp_state (add_header h p) = rp_state p"
  by (simp_all add: add_header_def)

lemma parse_name_tail:
  assumes "rp_state p = HeaderName" "list_all tokenChar cs"
  shows "parse (add_header \<lparr>hname = n, hvalue = []\<rparr> p) (cs @ '': '' @ s) =
    parse (at HeaderValue (add_header \<lparr>hname = n @ cs, hvalue = []\<rparr> p)) s"
  using assms
proof (induction cs arbitrary: n)
  case Nil
  then show ?case by (simp add: phase_simps)
next
  case (Cons c cs)
  then have "consume (add_header \<lparr>hname = n, hvalue = []\<rparr> p) c =
      Inr (incomplete, add_header \<lparr>hname = n @ [c], hvalue = []\<rparr> p)"
    using token_not_space(2) by (simp add: phase_simps tokenChar_def push_name_def upd_back_add_header)
  with Cons show ?case by simp
qed

lemma parse_value_tail:
  assumes "rp_state p = HeaderValue" "list_all (\<lambda>c. \<not> isControl c) cs"
  shows "parse (add_header \<lparr>hname = n, hvalue = v\<rparr> p) (cs @ CR # s) =
    parse (add_header \<lparr>hname = n, hvalue = v @ cs\<rparr> p) (CR # s)"
  using assms
proof (induction cs arbitrary: v)
  case Nil
  then show ?case by simp
next
  case (Cons c cs)
  then have "consume (add_header \<lparr>hname = n, hvalue = v\<rparr> p) c =
      Inr (incomplete, add_header \<lparr>hname = n, hvalue = v @ [c]\<rparr> p)"
    using control_CR(1) by (simp add: phase_simps push_value_def upd_back_add_header)
  with Cons show ?case by (simp del: parse.simps add: parse.simps(2) [of _ c])
qed

text \<open>A header that says nothing about the body of the request.\<close>

definition neutral :: "Header \<Rightarrow> bool" where
  "neutral h \<longleftrightarrow>
     strcasecmp (hname h) ''Content-Length'' \<noteq> 0 \<and> strcasecmp (hname h) ''Transfer-Encoding'' \<noteq> 0"

lemma last_add_header [simp]: "rb_headers (rp_req (add_header h p)) = rb_headers (rp_req p) @ [h]"
  by (simp add: add_header_def)

lemma rb_method_add_header [simp]: "rb_method (rp_req (add_header h p)) = rb_method (rp_req p)"
  by (simp add: add_header_def)

lemma header_value_end_neutral: "neutral h \<Longrightarrow> header_value_end (add_header h p) = Inr (add_header h p)"
  by (simp add: header_value_end_def neutral_def Let_def)

lemma header_value_end_at:
  "header_value_end (at s p) = map_sum id (at s) (header_value_end p)"
  by (simp add: header_value_end_def at_def Let_def)

lemma parse_header_line:
  assumes "rp_state p = HeaderLineStart" "header_ok h"
  shows "parse p (header_text h @ s) =
    (case header_value_end (add_header h p) of Inl e \<Rightarrow> Inl e | Inr q \<Rightarrow> parse (at HeaderLineStart q) s)"
proof -
  obtain c cs where n: "hname h = c # cs" "tokenChar c" "list_all tokenChar cs"
    using assms(2) by (cases "hname h") (auto simp: header_ok_def)
  have v: "list_all (\<lambda>c. \<not> isControl c) (hvalue h)"
    using assms(2) by (simp add: header_ok_def)
  have h: "\<lparr>hname = c # cs, hvalue = hvalue h\<rparr> = h"
    using n by (cases h) simp
  have "consume p c = Inr (incomplete, add_header \<lparr>hname = [c], hvalue = []\<rparr> (at HeaderName p))"
    using assms(1) n(2) token_not_space [OF n(2)]
    by (simp add: phase_simps tokenChar_def push_header_def add_header_def)
  then have "parse p (header_text h @ s) =
      parse (at HeaderValue (add_header \<lparr>hname = c # cs, hvalue = []\<rparr> p)) (hvalue h @ CR # LF # s)"
    using parse_name_tail [of "at HeaderName p" cs "[c]"] n by (simp add: header_text_def)
  also have "\<dots> = parse (at HeaderValue (add_header h p)) (CR # LF # s)"
    using parse_value_tail [of "at HeaderValue p" "hvalue h" "c # cs" "[]"] v h by (simp del: parse.simps)
  also have "\<dots> =
      (case header_value_end (add_header h p) of Inl e \<Rightarrow> Inl e | Inr q \<Rightarrow> parse (at HeaderLineStart q) s)"
    by (simp add: phase_simps header_value_end_at split: sum.split)
  finally show ?thesis .
qed

lemma parse_neutral_headers:
  assumes "rp_state p = HeaderLineStart" "list_all header_ok hs" "list_all neutral hs"
  shows "parse p (concat (map header_text hs) @ s) =
    parse (upd_req (\<lambda>b. b\<lparr>rb_headers := rb_headers b @ hs\<rparr>) p) s"
  using assms
proof (induction hs arbitrary: p)
  case Nil
  then show ?case by (simp add: upd_req_def)
next
  case (Cons h hs)
  then show ?case
    by (simp add: parse_header_line header_value_end_neutral) (simp add: add_header_def)
qed

subsection \<open>Bodies with a declared length\<close>

definition content_length :: "nat \<Rightarrow> Header" where
  "content_length n = \<lparr>hname = ''Content-Length'', hvalue = nat_str n\<rparr>"

definition framing :: "string \<Rightarrow> Header list" where
  "framing body = (if body = [] then [] else [content_length (length body)])"

definition has_body :: "string \<Rightarrow> bool" where
  "has_body m \<longleftrightarrow> m \<in> {''POST'', ''PUT'', ''PATCH'', ''DELETE''}"

lemma atoi_nat_str:
  assumes "n < 2 ^ 31"
  shows "atoi (nat_str n) = word_of_nat n"
  using assms atol_nat_str [of n] by (simp add: atoi_def LONG_MAX_def)

lemma scast_atoi_nat_str:
  assumes "n < 2 ^ 31"
  shows "(scast (atoi (nat_str n)) :: size_t) = word_of_nat n"
proof -
  have "sint (word_of_nat n :: cint) = int n"
    using assms by (simp add: sint_uint unsigned_of_nat take_bit_nat_eq_self signed_take_bit_int_eq_self_iff)
  then show ?thesis
    using atoi_nat_str [OF assms] by (simp add: scast_eq)
qed

lemma unat_size_of_nat: "n < 2 ^ 31 \<Longrightarrow> unat (word_of_nat n :: size_t) = n"
  by (simp add: unsigned_of_nat take_bit_nat_eq_self)

lemma header_value_end_length:
  assumes "has_body (rb_method (rp_req p))" "n < 2 ^ 31"
  shows "header_value_end (add_header (content_length n) p) =
    Inr (add_header (content_length n) p\<lparr>rp_contentSize := word_of_nat n\<rparr>)"
  using assms scast_atoi_nat_str [OF assms(2)] unat_size_of_nat [OF assms(2)]
  by (auto simp: header_value_end_def has_body_def content_length_def max_size_def Let_def)

lemma header_ok_content_length: "header_ok (content_length n)"
proof -
  have "list_all (\<lambda>c. \<not> isControl c) (nat_str n)"
    using nat_str_digits [of n] by (auto simp: list_all_iff isdigit_def isControl_def c_int_def)
  then show ?thesis
    by (simp add: header_ok_def content_length_def tokenChar_def isChar_def isControl_def
        isSpecial_def c_int_def)
qed

lemma parse_post:
  assumes "rp_state p = Post" "xs \<noteq> []" "rp_contentSize p = word_of_nat (length xs)" "length xs < 2 ^ 31"
  shows "parse p (xs @ s) =
    Inr (completed, upd_req (\<lambda>b. b\<lparr>rb_content := rb_content b @ xs\<rparr>) p\<lparr>rp_contentSize := 0\<rparr>, s)"
  using assms
proof (induction xs arbitrary: p)
  case Nil
  then show ?case by simp
next
  case (Cons x xs)
  let ?q = "push_content x (p\<lparr>rp_contentSize := word_of_nat (length xs)\<rparr>)"
  have n: "rp_contentSize p - 1 = word_of_nat (length xs)"
    using Cons.prems(3) by simp
  have z: "(word_of_nat (length xs) = (0 :: size_t)) \<longleftrightarrow> xs = []"
    using unat_size_of_nat [of "length xs"] Cons.prems(4)
    by (simp add: unat_eq_zero [symmetric])
  have "consume p x = Inr (if xs = [] then completed else incomplete, ?q)"
    using Cons.prems(1) n z by (simp add: parser_steps consume_post_def outcome_defs Let_def)
  then show ?case
    using Cons.IH [of ?q] Cons.prems by (simp add: push_content_def upd_req_def)
qed

subsection \<open>The round trip\<close>

text \<open>
  The connection mode the parser reports: the first \<open>Connection\<close> header decides; without one,
  HTTP/1.1 means keep-alive, and any other version leaves the flag of the buffer as it was.
\<close>

definition keep_alive_mode :: "bool \<Rightarrow> nat \<Rightarrow> nat \<Rightarrow> Header list \<Rightarrow> bool" where
  "keep_alive_mode previous major minor hs =
     (case find (\<lambda>h. strcasecmp (hname h) ''Connection'' = 0) hs of
        Some h \<Rightarrow> strcasecmp (hvalue h) ''keep-alive'' = 0
      | None \<Rightarrow> (major = 1 \<and> minor = 1) \<or> previous)"

definition is_request ::
  "RequestBuffer \<Rightarrow> string \<Rightarrow> string \<Rightarrow> nat \<Rightarrow> nat \<Rightarrow> Header list \<Rightarrow> string \<Rightarrow> bool" where
  "is_request b m u major minor hs body \<longleftrightarrow>
     rb_method b = m \<and> rb_uri b = u \<and> rb_http_version_major b = word_of_nat major
     \<and> rb_http_version_minor b = word_of_nat minor \<and> rb_headers b = hs \<and> rb_content b = body"

lemma cint_of_nat_eq_1: "n < 2 ^ 31 \<Longrightarrow> (word_of_nat n = (1 :: cint)) \<longleftrightarrow> n = 1"
proof
  assume n: "n < 2 ^ 31" and "word_of_nat n = (1 :: cint)"
  then have "unat (word_of_nat n :: cint) = unat (1 :: cint)" by simp
  with n show "n = 1" by (simp add: unsigned_of_nat take_bit_nat_eq_self)
qed simp

lemma set_keepAlive_mode:
  assumes "is_request b m u major minor hs body" "major < 2 ^ 31" "minor < 2 ^ 31"
  shows "rb_keepAlive (set_keepAlive b) = keep_alive_mode (rb_keepAlive b) major minor hs"
    "is_request (set_keepAlive b) m u major minor hs body"
  using assms cint_of_nat_eq_1
  by (auto simp: set_keepAlive_def keep_alive_mode_def is_request_def split: option.splits)

definition head_buffer ::
  "string \<Rightarrow> string \<Rightarrow> nat \<Rightarrow> nat \<Rightarrow> Header list \<Rightarrow> RequestBuffer \<Rightarrow> RequestBuffer" where
  "head_buffer m u major minor hs b =
     b\<lparr>rb_content := [], rb_method := m, rb_uri := u, rb_http_version_major := word_of_nat major,
       rb_http_version_minor := word_of_nat minor, rb_headers := hs\<rparr>"

lemma parse_start_line:
  assumes "method_ok m" "uri_ok u" "list_all header_ok hs" "list_all neutral hs"
  shows "parse (reset p) (m @ '' '' @ u @ '' HTTP/'' @ nat_str major @ ''.'' @ nat_str minor @ [CR, LF]
      @ concat (map header_text hs) @ s) =
    parse (at HeaderLineStart (upd_req (head_buffer m u major minor hs) (reset p))) s"
proof -
  have "rp_state (reset p) = RequestMethodStart"
    by (simp add: reset_def)
  then have "parse (reset p) (m @ '' '' @ u @ '' HTTP/'' @ nat_str major @ ''.'' @ nat_str minor
        @ [CR, LF] @ concat (map header_text hs) @ s) =
      parse (at RequestHttpVersion_h
        (upd_req (\<lambda>b. b\<lparr>rb_method := rb_method b @ m, rb_uri := rb_uri b @ u\<rparr>) (reset p)))
        (''HTTP/'' @ nat_str major @ ''.'' @ nat_str minor @ [CR, LF] @ concat (map header_text hs) @ s)"
    using assms(1,2) by (simp add: parse_method parse_uri del: parse.simps)
  then show ?thesis
    using assms(3,4) parse_version
    by (simp add: parse_neutral_headers del: parse.simps)
      (simp add: reset_def clear_def head_buffer_def set_major_def set_minor_def upd_req_def at_def)
qed

text \<open>
  Both kinds of request end with the blank line; what follows depends on whether a length was
  declared.
\<close>

lemma parse_blank_line:
  assumes "rp_state p = HeaderLineStart" "\<not> rp_chunked p"
  shows "parse p (CR # LF # s) =
    (if rp_contentSize p = 0 then Inr (completed, at ExpectingNewline_3 (upd_req set_keepAlive p), s)
     else parse (at Post (upd_req set_keepAlive p)) s)"
  using assms by (simp add: phase_simps consume_headers_end_def Let_def)

lemma head_buffer_is_request [simp]:
  "is_request (head_buffer m u major minor hs b) m u major minor hs []"
  "rb_keepAlive (head_buffer m u major minor hs b) = rb_keepAlive b"
  by (simp_all add: is_request_def head_buffer_def)

lemma reset_simps [simp]:
  "rp_contentSize (reset p) = 0" "rp_chunked (reset p) = False"
  "rb_keepAlive (rp_req (reset p)) = rb_keepAlive (rp_req p)"
  by (simp_all add: reset_def clear_def)

lemma parse_request_no_body:
  assumes "method_ok m" "uri_ok u" "list_all header_ok hs" "list_all neutral hs"
    "major < 2 ^ 31" "minor < 2 ^ 31"
  shows "\<exists>q. parse (reset p) (head_text m u major minor hs @ rest) = Inr (completed, q, rest)
    \<and> is_request (rp_req q) m u major minor hs []
    \<and> rb_keepAlive (rp_req q) = keep_alive_mode (rb_keepAlive (rp_req p)) major minor hs"
proof -
  have "parse (reset p) (head_text m u major minor hs @ rest) =
      Inr (completed, at ExpectingNewline_3 (upd_req set_keepAlive
        (upd_req (head_buffer m u major minor hs) (reset p))), rest)"
    using parse_start_line [OF assms(1-4)] by (simp add: head_text_def parse_blank_line del: parse.simps)
  then show ?thesis
    using set_keepAlive_mode [OF head_buffer_is_request(1) assms(5,6), of m u hs "rp_req (reset p)"] by simp
qed

lemma parse_request_body:
  assumes "method_ok m" "uri_ok u" "list_all header_ok hs" "list_all neutral hs"
    "major < 2 ^ 31" "minor < 2 ^ 31" "has_body m" "body \<noteq> []" "length body < 2 ^ 31"
  shows "\<exists>q. parse (reset p) (head_text m u major minor (hs @ framing body) @ body @ rest) =
      Inr (completed, q, rest)
    \<and> is_request (rp_req q) m u major minor (hs @ framing body) body
    \<and> rb_keepAlive (rp_req q) =
        keep_alive_mode (rb_keepAlive (rp_req p)) major minor (hs @ framing body)"
proof -
  let ?n = "length body" and ?hs = "hs @ framing body"
  let ?p = "upd_req (head_buffer m u major minor hs) (reset p)"
  let ?q = "at HeaderLineStart (upd_req (head_buffer m u major minor ?hs) (reset p))
    \<lparr>rp_contentSize := word_of_nat ?n\<rparr>"
  have n0: "word_of_nat ?n \<noteq> (0 :: size_t)"
    using assms(8) unat_size_of_nat [OF assms(9)] by (metis length_0_conv unsigned_0)
  have "header_value_end (add_header (content_length ?n) (at HeaderLineStart ?p)) =
      Inr (add_header (content_length ?n) (at HeaderLineStart ?p)\<lparr>rp_contentSize := word_of_nat ?n\<rparr>)"
    using assms(7,9) by (intro header_value_end_length) (simp_all add: head_buffer_def)
  moreover have "at HeaderLineStart (add_header (content_length ?n) (at HeaderLineStart ?p)
      \<lparr>rp_contentSize := word_of_nat ?n\<rparr>) = ?q"
    using assms(8) by (simp add: add_header_def framing_def head_buffer_def upd_req_def at_def)
  ultimately have "parse (reset p) (head_text m u major minor ?hs @ body @ rest) =
      parse ?q (CR # LF # body @ rest)"
    using parse_start_line [OF assms(1-4), of p major minor
        "header_text (content_length ?n) @ CR # LF # body @ rest"] assms(8)
      parse_header_line [OF _ header_ok_content_length, of "at HeaderLineStart ?p" ?n]
    by (simp add: head_text_def framing_def del: parse.simps)
  also have "\<dots> = parse (at Post (upd_req set_keepAlive ?q)) (body @ rest)"
    using n0 by (simp add: parse_blank_line at_def upd_req_def del: parse.simps)
  also have "\<dots> = Inr (completed, upd_req (\<lambda>b. b\<lparr>rb_content := rb_content b @ body\<rparr>)
      (at Post (upd_req set_keepAlive ?q))\<lparr>rp_contentSize := 0\<rparr>, rest)"
    using assms(8,9) by (intro parse_post) (simp_all add: at_def upd_req_def)
  finally show ?thesis
    using set_keepAlive_mode [OF head_buffer_is_request(1) assms(5,6), of m u ?hs "rp_req (reset p)"]
    by (simp add: is_request_def upd_req_def at_def)
qed

section \<open>Negative lengths\<close>

lemma atol_neg_str:
  assumes "0 < n" "n \<le> 2 ^ 31"
  shows "atol (CHR ''-'' # nat_str n) = - int n"
proof -
  have "scan_int 10 (CHR ''-'' # nat_str n) = Some (True, n, [])"
    using nat_str_digits [of n] by (simp add: scan_int_def isspace_def)
  moreover have "cstr (CHR ''-'' # nat_str n) = CHR ''-'' # nat_str n" by simp
  ultimately show ?thesis
    using assms by (simp add: atol_def strtol_def signed_value_def LONG_MIN_def LONG_MAX_def)
qed

lemma scast_atoi_neg:
  assumes "0 < n" "n \<le> 2 ^ 31"
  shows "max_size < unat (scast (atoi (CHR ''-'' # nat_str n)) :: size_t)"
proof -
  have "sint (word_of_int (- int n) :: cint) = - int n"
    using assms by (simp only: int_word_sint) (simp add: zmod_trivial_iff)
  then have "(scast (atoi (CHR ''-'' # nat_str n)) :: size_t) = word_of_int (- int n)"
    using atol_neg_str [OF assms] by (simp add: atoi_def scast_eq)
  moreover have "uint (word_of_int (- int n) :: size_t) = 2 ^ 64 - int n"
    using assms by (simp only: uint_word_of_int) (simp add: zmod_zminus1_eq_if)
  ultimately have "unat (scast (atoi (CHR ''-'' # nat_str n)) :: size_t) = nat (2 ^ 64 - int n)"
    by (simp only: unat_eq_nat_uint)
  then show ?thesis using assms(2) by (simp add: max_size_def)
qed

lemma parse_negative_length:
  assumes "rp_state p = HeaderLineStart" "has_body (rb_method (rp_req p))" "0 < n" "n \<le> 2 ^ 31"
  shows "parse p (''Content-Length: -'' @ nat_str n @ [CR, LF] @ s) = Inl LengthError"
proof -
  let ?h = "\<lparr>hname = ''Content-Length'', hvalue = CHR ''-'' # nat_str n\<rparr>"
  have "header_value_end (add_header ?h p) = Inl LengthError"
    using assms(2) scast_atoi_neg [OF assms(3,4)]
    by (auto simp: header_value_end_def has_body_def Let_def)
  moreover have "header_ok ?h"
    using header_ok_content_length [of n]
    by (simp add: header_ok_def content_length_def isControl_def c_int_def)
  ultimately have "parse p (header_text ?h @ s) = Inl LengthError"
    using parse_header_line [OF assms(1), of ?h s] by simp
  then show ?thesis
    by (simp add: header_text_def del: parse.simps)
qed

end
