(* ===== verification/Hex.thy ===== *)
theory Hex
  imports Numbers
begin

text \<open>
  Hexadecimal numbers as they are written in chunk sizes and JSON escapes, and that \<open>strtol\<close> in base
  16 reads them back.
\<close>

section \<open>Digits\<close>

definition hex_char :: "nat \<Rightarrow> char" where
  "hex_char d = (if d < 10 then digit_char d else char_of (87 + d))"

fun hex_str :: "nat \<Rightarrow> string" where
  "hex_str n = (if n < 16 then [hex_char n] else hex_str (n div 16) @ [hex_char (n mod 16)])"

declare hex_str.simps [simp del]

lemma code_hex_char: "d < 16 \<Longrightarrow> code (hex_char d) = (if d < 10 then 48 + d else 87 + d)"
  by (simp add: hex_char_def)

lemma digit_of_hex_char [simp]: "d < 16 \<Longrightarrow> digit_of (hex_char d) = d"
  by (auto simp: digit_of_def isdigit_def islower_def isupper_def code_hex_char)

definition ishex :: "char \<Rightarrow> bool" where
  "ishex c \<longleftrightarrow> isalnum c \<and> isdigit_in 16 c \<and> \<not> isspace c \<and> c \<notin> set ''-+xX'' \<and> c \<noteq> NUL"

lemma ishex_hex_char [simp]: "d < 16 \<Longrightarrow> ishex (hex_char d)"
proof -
  assume d: "d < 16"
  have "code (hex_char d) \<notin> {0, 43, 45, 88, 120}" "9 \<le> code (hex_char d) \<longrightarrow> 32 < code (hex_char d)"
    using d by (auto simp: code_hex_char)
  then have "hex_char d \<notin> {NUL, CHR ''+'', CHR ''-'', CHR ''X'', CHR ''x''}" "\<not> isspace (hex_char d)"
    by (auto simp: code_def isspace_def)
  then show ?thesis
    using d by (auto simp: ishex_def isdigit_in_def isalnum_def isalpha_def isdigit_def islower_def
        isupper_def code_hex_char)
qed

lemma hex_str_nonempty [simp]: "hex_str n \<noteq> []"
  by (subst hex_str.simps) simp

lemma hex_str_ishex: "list_all ishex (hex_str n)"
proof (induction n rule: hex_str.induct)
  case (1 n)
  then show ?case by (subst hex_str.simps) simp
qed

lemma digits_value_hex_str: "digits_value 16 0 (hex_str n) = n"
proof (induction n rule: hex_str.induct)
  case (1 n)
  then show ?case by (subst hex_str.simps) (simp add: digits_value_append)
qed

lemma skip_0x_ishex: "list_all ishex s \<Longrightarrow> skip_0x s = s"
proof (induction s rule: skip_0x.induct)
  case (1 z x d cs)
  then have "code x \<noteq> 88" "code x \<noteq> 120"
    using code_eq_iff [of x "CHR ''X''"] code_eq_iff [of x "CHR ''x''"]
    by (auto simp: ishex_def simp del: code_eq_iff)
  then have "tolower x \<noteq> CHR ''x''"
    using code_tolower [of x] code_eq_iff [of "tolower x" "CHR ''x''"]
    by (auto simp: simp del: code_eq_iff split: if_splits)
  then show ?case by simp
qed simp_all

lemma scan_int_ishex:
  assumes "list_all ishex s" "s \<noteq> []"
  shows "scan_int 16 s = Some (False, digits_value 16 0 s, [])"
proof -
  have "dropWhile isspace s = s" "skip_sign s = (False, s)"
    using assms by (cases s; auto simp: ishex_def)+
  moreover have "\<forall>c \<in> set s. isdigit_in 16 c"
    using assms(1) by (auto simp: list_all_iff ishex_def)
  then have "takeWhile (isdigit_in 16) s = s \<and> dropWhile (isdigit_in 16) s = []"
    by (simp only: takeWhile_eq_all_conv dropWhile_eq_Nil_conv simp_thms)
  ultimately show ?thesis
    unfolding scan_int_def Let_def using assms(2) skip_0x_ishex [OF assms(1)]
    by (simp del: takeWhile_eq_all_conv dropWhile_eq_Nil_conv)
qed

lemma strtol_hex_str:
  assumes "n < 2 ^ 63"
  shows "strtol 16 (cstr (hex_str n)) = (int n, [])"
proof -
  have "no_nul (hex_str n)"
    using hex_str_ishex [of n] by (auto simp: no_nul_def list_all_iff ishex_def)
  moreover have "scan_int 16 (hex_str n) = Some (False, n, [])"
    using scan_int_ishex [OF hex_str_ishex hex_str_nonempty] by (simp add: digits_value_hex_str)
  ultimately show ?thesis
    using assms by (simp add: strtol_def signed_value_def LONG_MAX_def LONG_MIN_def)
qed

end
