(* ===== verification/Http_Chunked.thy ===== *)
theory Http_Chunked
  imports Http_Parser_Spec Hex
begin

text \<open>
  Functional correctness of the chunked transfer coding: a body cut into chunks of any sizes is
  put together again by the request parser, and reading stops right after the last chunk.
\<close>

section \<open>Chunks\<close>

definition chunk_text :: "string \<Rightarrow> string" where
  "chunk_text d = hex_str (length d) @ [CR, LF] @ d @ [CR, LF]"

definition chunked_text :: "string list \<Rightarrow> string" where
  "chunked_text ds = concat (map chunk_text ds) @ ''0'' @ [CR, LF, CR, LF]"

text \<open>A parser between two chunks.\<close>

definition between_chunks :: "RequestParser \<Rightarrow> bool" where
  "between_chunks p \<longleftrightarrow> rp_state p = ChunkSize \<and> rp_chunkSizeStr p = []"

definition add_content :: "string \<Rightarrow> RequestParser \<Rightarrow> RequestParser" where
  "add_content d = upd_req (\<lambda>b. b\<lparr>rb_content := rb_content b @ d\<rparr>)"

lemma parse_size_digits:
  assumes "rp_state p = ChunkSize" "list_all isalnum ds"
  shows "parse p (ds @ s) = parse (p\<lparr>rp_chunkSizeStr := rp_chunkSizeStr p @ ds\<rparr>) s"
  using assms by (induction ds arbitrary: p) (simp_all add: parser_steps state_lists stays_def)

lemma isalnum_CR: "\<not> isalnum CR"
  by (simp add: isalnum_def isalpha_def isupper_def islower_def isdigit_def)

lemma parse_chunk_size:
  assumes "between_chunks p" "n < 2 ^ 62" "length (rb_content (rp_req p)) < 2 ^ 62"
  shows "parse p (hex_str n @ [CR, LF] @ s) =
    parse (p\<lparr>rp_chunkSize := word_of_nat n, rp_state := if n = 0 then ChunkSizeNewLine_2 else ChunkData\<rparr>) s"
proof -
  let ?q = "p\<lparr>rp_chunkSizeStr := hex_str n, rp_state := ChunkSizeNewLine\<rparr>"
  have "list_all isalnum (hex_str n)"
    using hex_str_ishex [of n] by (simp add: list_all_iff ishex_def)
  then have "parse p (hex_str n @ [CR, LF] @ s) = parse ?q (LF # s)"
    using assms(1) isalnum_CR parse_size_digits [of p "hex_str n" "CR # LF # s"]
    by (simp add: between_chunks_def parser_steps state_lists goes_def)
  moreover have z: "(word_of_nat n = (0 :: size_t)) \<longleftrightarrow> n = 0"
    using assms(2) by (simp add: unat_eq_zero [symmetric] unsigned_of_nat take_bit_nat_eq_self)
  moreover have "unat (word_of_nat (length (rb_content (rp_req p))) + word_of_nat n :: size_t) \<le> max_size"
    using assms(2,3) by (simp add: of_nat_add [symmetric] unsigned_of_nat take_bit_nat_eq_self
        max_size_def del: of_nat_add)
  moreover have "p\<lparr>rp_chunkSizeStr := []\<rparr> = p"
    using assms(1) by (cases p) (simp add: between_chunks_def)
  ultimately show ?thesis
    using assms(2) by (simp add: parser_steps state_lists goes_def strtol_hex_str Let_def)
      (cases p; simp)
qed

lemma parse_chunk_bytes:
  assumes "rp_state p = ChunkData" "xs \<noteq> []" "rp_chunkSize p = word_of_nat (length xs)" "length xs < 2 ^ 62"
  shows "parse p (xs @ s) =
    parse (add_content xs p\<lparr>rp_chunkSize := 0, rp_state := ChunkDataNewLine_1\<rparr>) s"
  using assms
proof (induction xs arbitrary: p)
  case Nil
  then show ?case by simp
next
  case (Cons x xs)
  let ?q = "push_content x p\<lparr>rp_chunkSize := word_of_nat (length xs)\<rparr>"
  have n: "rp_chunkSize p - 1 = word_of_nat (length xs)"
    using Cons.prems(3) by simp
  have z: "(word_of_nat (length xs) = (0 :: size_t)) \<longleftrightarrow> xs = []"
    using Cons.prems(4) by (simp add: unat_eq_zero [symmetric] unsigned_of_nat take_bit_nat_eq_self)
  have "consume p x = (if xs = [] then goes ChunkDataNewLine_1 ?q else stays ?q)"
    using Cons.prems(1) n z by (simp add: parser_steps state_lists Let_def)
  then show ?case
    using Cons.IH [of ?q] Cons.prems
    by (simp add: goes_def stays_def push_content_def add_content_def upd_req_def)
qed

lemma parse_chunk:
  assumes "between_chunks p" "d \<noteq> []" "length d < 2 ^ 62" "length (rb_content (rp_req p)) < 2 ^ 62"
  shows "parse p (chunk_text d @ s) = parse (add_content d p\<lparr>rp_chunkSize := 0\<rparr>) s"
proof -
  have "parse p (chunk_text d @ s) =
      parse (p\<lparr>rp_chunkSize := word_of_nat (length d), rp_state := ChunkData\<rparr>) (d @ CR # LF # s)"
    using parse_chunk_size [OF assms(1,3,4)] assms(2) by (simp add: chunk_text_def)
  also have "\<dots> = parse (add_content d p\<lparr>rp_chunkSize := 0, rp_state := ChunkDataNewLine_1\<rparr>) (CR # LF # s)"
    using assms(2,3) by (subst parse_chunk_bytes) (simp_all add: add_content_def upd_req_def)
  also have "\<dots> = parse (add_content d p\<lparr>rp_chunkSize := 0\<rparr>) s"
    using assms(1) by (cases p)
      (simp add: parser_steps state_lists goes_def add_content_def upd_req_def between_chunks_def)
  finally show ?thesis .
qed

lemma parse_chunks:
  assumes "between_chunks p" "[] \<notin> set ds"
    "length (rb_content (rp_req p)) + length (concat ds) < 2 ^ 62"
  shows "\<exists>q. parse p (chunked_text ds @ s) = Inr (completed, q, s)
    \<and> rp_req q = rp_req (add_content (concat ds) p)"
  using assms
proof (induction ds arbitrary: p)
  case Nil
  have "hex_str 0 = ''0''"
    using char_of_code [of "CHR ''0''"] by (simp add: hex_str.simps hex_char_def digit_char_def del: char_of_code)
  then show ?case
    using parse_chunk_size [of p 0 "CR # LF # s"] Nil
    by (simp add: chunked_text_def parser_steps state_lists goes_def completes_def
        add_content_def upd_req_def)
next
  case (Cons d ds)
  let ?q = "add_content d p\<lparr>rp_chunkSize := 0\<rparr>"
  have "parse p (chunked_text (d # ds) @ s) = parse ?q (chunked_text ds @ s)"
    using Cons.prems parse_chunk [of p d "chunked_text ds @ s"] by (auto simp: chunked_text_def)
  moreover have "between_chunks ?q" "length (rb_content (rp_req ?q)) + length (concat ds) < 2 ^ 62"
    using Cons.prems by (simp_all add: between_chunks_def add_content_def upd_req_def)
  ultimately show ?case
    using Cons.IH [of ?q] Cons.prems by (auto simp: add_content_def upd_req_def)
qed

section \<open>A chunked request\<close>

definition chunked_header :: Header where
  "chunked_header = \<lparr>hname = ''Transfer-Encoding'', hvalue = ''chunked''\<rparr>"

lemma header_ok_chunked: "header_ok chunked_header"
  by (simp add: header_ok_def chunked_header_def tokenChar_def isChar_def isControl_def
      isSpecial_def c_int_def)

lemma strcasecmp_encoding: "strcasecmp ''Transfer-Encoding'' ''Content-Length'' \<noteq> 0"
  by (simp add: Let_def tolower_def isupper_def)

lemma header_value_end_chunked:
  assumes "has_body (rb_method (rp_req p))"
  shows "header_value_end (add_header chunked_header p) = Inr (add_header chunked_header p\<lparr>rp_chunked := True\<rparr>)"
  using assms strcasecmp_encoding
  by (auto simp: header_value_end_def has_body_def chunked_header_def Let_def)

lemma parse_request_chunked:
  assumes "method_ok m" "uri_ok u" "list_all header_ok hs" "list_all neutral hs"
    "major < 2 ^ 31" "minor < 2 ^ 31" "has_body m" "[] \<notin> set ds" "length (concat ds) < 2 ^ 62"
  shows "\<exists>q. parse (reset p) (head_text m u major minor (hs @ [chunked_header]) @ chunked_text ds @ rest) =
      Inr (completed, q, rest)
    \<and> is_request (rp_req q) m u major minor (hs @ [chunked_header]) (concat ds)
    \<and> rb_keepAlive (rp_req q) =
        keep_alive_mode (rb_keepAlive (rp_req p)) major minor (hs @ [chunked_header])"
proof -
  let ?hs = "hs @ [chunked_header]"
  let ?p = "upd_req (head_buffer m u major minor hs) (reset p)"
  let ?q = "at HeaderLineStart (upd_req (head_buffer m u major minor ?hs) (reset p))\<lparr>rp_chunked := True\<rparr>"
  let ?r = "at ChunkSize (upd_req set_keepAlive ?q)"
  have "header_value_end (add_header chunked_header (at HeaderLineStart ?p)) =
      Inr (add_header chunked_header (at HeaderLineStart ?p)\<lparr>rp_chunked := True\<rparr>)"
    using assms(7) by (intro header_value_end_chunked) (simp add: head_buffer_def)
  moreover have "at HeaderLineStart (add_header chunked_header (at HeaderLineStart ?p)\<lparr>rp_chunked := True\<rparr>) = ?q"
    by (simp add: add_header_def head_buffer_def upd_req_def at_def)
  ultimately have "parse (reset p) (head_text m u major minor ?hs @ chunked_text ds @ rest) =
      parse ?q (CR # LF # chunked_text ds @ rest)"
    using parse_start_line [OF assms(1-4), of p major minor
        "header_text chunked_header @ CR # LF # chunked_text ds @ rest"]
      parse_header_line [OF _ header_ok_chunked, of "at HeaderLineStart ?p"]
    by (simp add: head_text_def del: parse.simps)
  also have "\<dots> = parse ?r (chunked_text ds @ rest)"
    by (simp add: phase_simps consume_headers_end_def upd_req_def at_def Let_def)
  finally have *: "parse (reset p) (head_text m u major minor ?hs @ chunked_text ds @ rest) =
    parse ?r (chunked_text ds @ rest)" .
  have "between_chunks ?r" "length (rb_content (rp_req ?r)) + length (concat ds) < 2 ^ 62"
    using assms(9) by (simp_all add: between_chunks_def at_def upd_req_def reset_def head_buffer_def)
  from parse_chunks [OF this(1) assms(8) this(2)] obtain q where
    "parse ?r (chunked_text ds @ rest) = Inr (completed, q, rest)"
    "rp_req q = rp_req (add_content (concat ds) ?r)" by metis
  moreover have "is_request (rp_req (add_content (concat ds) ?r)) m u major minor ?hs (concat ds)
    \<and> rb_keepAlive (rp_req (add_content (concat ds) ?r)) =
      keep_alive_mode (rb_keepAlive (rp_req p)) major minor ?hs"
    using set_keepAlive_mode [OF head_buffer_is_request(1) assms(5,6), of m u ?hs "rp_req (reset p)"]
    by (simp add: is_request_def add_content_def upd_req_def at_def)
  ultimately show ?thesis using * by metis
qed

end
