(* ===== verification/Uri.thy ===== *)
theory Uri
  imports Numbers
begin

text \<open>
  The URI of a request (\<open>http/crate/Uri.h\<close> and \<open>Uri.cpp\<close>): a string with a reading position,
  the routing operations \<open>compare\<close> and \<open>consume\<close>, the path parameters, the iterator over the
  key-value pairs of the query string, and the sinks that store a pair into a typed target.
  A read outside the string is undefined behaviour and yields \<open>None\<close>; the lemmas show that no
  operation of a well-formed URI performs one.
\<close>

section \<open>Value converters\<close>

text \<open>
  \<open>ValidatorValueConverter<T>::convert(val, res)\<close>: whether the text converts, and the new value
  of the target, which is left alone by a failure.
\<close>

definition UINT_MAX :: nat where "UINT_MAX = 2 ^ 32 - 1"

definition convert_int :: "string \<Rightarrow> int \<Rightarrow> bool \<times> int" where
  "convert_int val res = (case stoi val of Inl _ \<Rightarrow> (False, res) | Inr v \<Rightarrow> (True, v))"

definition convert_long :: "string \<Rightarrow> int \<Rightarrow> bool \<times> int" where
  "convert_long val res = (case stol val of Inl _ \<Rightarrow> (False, res) | Inr v \<Rightarrow> (True, v))"

definition convert_unsigned :: "string \<Rightarrow> cint \<Rightarrow> bool \<times> cint" where
  "convert_unsigned val res =
     (case stoul val of
        Inl _ \<Rightarrow> (False, res)
      | Inr result \<Rightarrow> if UINT_MAX < unat result then (False, res) else (True, ucast result))"

definition convert_ulong :: "string \<Rightarrow> ulong \<Rightarrow> bool \<times> ulong" where
  "convert_ulong val res = (case stoul val of Inl _ \<Rightarrow> (False, res) | Inr v \<Rightarrow> (True, v))"

text \<open>The variant without a target, used by \<open>try_consume_as<unsigned long>\<close>.\<close>

definition converts_ulong :: "string \<Rightarrow> bool" where
  "converts_ulong val \<longleftrightarrow> \<not> isl (stoul val)"

section \<open>The URI and its routing operations\<close>

record Uri =
  uri_str :: string
  uri_p :: nat

definition new_Uri :: "string \<Rightarrow> Uri" where
  "new_Uri s = \<lparr>uri_str = s, uri_p = 0\<rparr>"

definition uri_empty :: "Uri \<Rightarrow> bool option" where
  "uri_empty u =
     (if uri_p u = length (uri_str u) then Some True
      else map_option (\<lambda>c. c = CHR ''?'') (str_at (uri_str u) (uri_p u)))"

text \<open>The common loop of the four comparisons, from position \<open>p\<close>.\<close>

fun path_matches :: "string \<Rightarrow> nat \<Rightarrow> string \<Rightarrow> bool option" where
  "path_matches s p [] = Some True"
| "path_matches s p (c # cs) =
     (case str_at s p of
        None \<Rightarrow> None
      | Some d \<Rightarrow> if d \<noteq> c then Some False else path_matches s (Suc p) cs)"

text \<open>
  Each operation tests the character behind the path (\<open>stop\<close>) and moves the position on success.
  The overloads for literals compare the length where those for \<open>std::string\<close> look for the NUL.
\<close>

definition move_if :: "nat \<Rightarrow> Uri \<Rightarrow> bool \<Rightarrow> bool \<times> Uri" where
  "move_if n u ok = (if ok then (True, u\<lparr>uri_p := uri_p u + n\<rparr>) else (False, u))"

definition compare_lit :: "string \<Rightarrow> Uri \<Rightarrow> (bool \<times> Uri) option" where
  "compare_lit path u =
     (let s = uri_str u; p = uri_p u; N = length path in
      case path_matches s p path of
        None \<Rightarrow> None
      | Some False \<Rightarrow> Some (False, u)
      | Some True \<Rightarrow>
          if length s = p + N then Some (move_if N u True)
          else map_option (\<lambda>c. move_if N u (c = CHR ''?'')) (str_at s (p + N)))"

definition compare_str :: "string \<Rightarrow> Uri \<Rightarrow> (bool \<times> Uri) option" where
  "compare_str path u =
     (let s = uri_str u; p = uri_p u; N = length path in
      case path_matches s p path of
        None \<Rightarrow> None
      | Some False \<Rightarrow> Some (False, u)
      | Some True \<Rightarrow> map_option (\<lambda>c. move_if N u (c = NUL \<or> c = CHR ''?'')) (str_at s (p + N)))"

definition consume_lit :: "string \<Rightarrow> Uri \<Rightarrow> (bool \<times> Uri) option" where
  "consume_lit path u =
     (let s = uri_str u; p = uri_p u; N = length path in
      case path_matches s p path of
        None \<Rightarrow> None
      | Some False \<Rightarrow> Some (False, u)
      | Some True \<Rightarrow>
          if length s = p + N then Some (move_if N u True)
          else map_option (\<lambda>c. move_if N u (c = CHR ''/'' \<or> c = CHR ''?'')) (str_at s (p + N)))"

definition consume_str :: "string \<Rightarrow> Uri \<Rightarrow> (bool \<times> Uri) option" where
  "consume_str path u =
     (let s = uri_str u; p = uri_p u; N = length path in
      case path_matches s p path of
        None \<Rightarrow> None
      | Some False \<Rightarrow> Some (False, u)
      | Some True \<Rightarrow>
          map_option (\<lambda>c. move_if N u (c = NUL \<or> c = CHR ''/'' \<or> c = CHR ''?'')) (str_at s (p + N)))"

section \<open>Path parameters\<close>

text \<open>
  The loop of \<open>pathParam\<close>: the index of the first question mark at or after \<open>i\<close>, or the length.
  The third argument of the substring constructor is a count.
\<close>

definition qmark_index :: "string \<Rightarrow> nat \<Rightarrow> nat" where
  "qmark_index s i = i + length (takeWhile (\<lambda>c. c \<noteq> CHR ''?'') (drop i s))"

definition pathParam :: "Uri \<Rightarrow> string \<Rightarrow> (bool \<times> string) option" where
  "pathParam u result =
     (case str_at (uri_str u) (uri_p u) of
        None \<Rightarrow> None
      | Some c \<Rightarrow>
          if c = CHR ''/'' then
            Some (True, take (qmark_index (uri_str u) (uri_p u)) (drop (uri_p u + 1) (uri_str u)))
          else Some (False, result))"

definition pathId :: "Uri \<Rightarrow> ulong \<Rightarrow> (bool \<times> ulong) option" where
  "pathId u value =
     (case str_at (uri_str u) (uri_p u) of
        None \<Rightarrow> None
      | Some c \<Rightarrow>
          if c = CHR ''/'' then
            (case str_at (uri_str u) (uri_p u + 1) of
               None \<Rightarrow> None
             | Some d \<Rightarrow>
                 if d = NUL then Some (False, value)
                 else (let (v, endp) = strtoul 10 (cstr (drop (uri_p u + 1) (uri_str u)))
                       in Some (endp = [], v)))
          else Some (False, value))"

text \<open>
  The overload for \<open>int\<close> converts with \<open>std::stoi\<close>; as it is \<open>noexcept\<close>, the exception of a
  failed conversion (\<open>Inl\<close>) terminates the program.
\<close>

definition pathId_int :: "Uri \<Rightarrow> int \<Rightarrow> (conv_error + bool \<times> int) option" where
  "pathId_int u value =
     (case str_at (uri_str u) (uri_p u) of
        None \<Rightarrow> None
      | Some c \<Rightarrow>
          if c = CHR ''/'' then
            (case str_at (uri_str u) (uri_p u + 1) of
               None \<Rightarrow> None
             | Some d \<Rightarrow>
                 if d = NUL then Some (Inr (False, value))
                 else Some (map_sum id (Pair True) (stoi (cstr (drop (uri_p u + 1) (uri_str u))))))
          else Some (Inr (False, value)))"

section \<open>The query string\<close>

text \<open>
  A \<open>const char*\<close> into the URI is the rest of the C string it points to; dereferencing the empty
  rest reads the terminator. \<open>scan_for c\<close> is the loop \<open>for(; *q; q++) if (*q == c) break;\<close>.
\<close>

definition star :: "string \<Rightarrow> char" where
  "star q = (case q of [] \<Rightarrow> NUL | c # _ \<Rightarrow> c)"

definition succ_ptr :: "string \<Rightarrow> string option" where
  "succ_ptr q = (case q of [] \<Rightarrow> None | _ # r \<Rightarrow> Some r)"

fun scan_for :: "char \<Rightarrow> string \<Rightarrow> string" where
  "scan_for c [] = []"
| "scan_for c (d # q) = (if d = c then d # q else scan_for c q)"

record Parser =
  ps_key :: string
  ps_val :: "string option"
  ps_ok :: bool

definition new_Parser :: "Uri \<Rightarrow> Parser" where
  "new_Parser u =
     (let key = scan_for (CHR ''?'') (cstr (drop (uri_p u) (uri_str u))) in
      case key of
        [] \<Rightarrow> \<lparr>ps_key = key, ps_val = None, ps_ok = True\<rparr>
      | _ # q \<Rightarrow>
          (let val = scan_for (CHR ''='') q
           in \<lparr>ps_key = key, ps_val = Some val, ps_ok = (star val \<noteq> NUL)\<rparr>))"

definition parser_next :: "Parser \<Rightarrow> Parser option" where
  "parser_next ps =
     (case Option.bind (ps_val ps) succ_ptr of
        None \<Rightarrow> None
      | Some q \<Rightarrow>
          (let key = scan_for (CHR ''&'') q in
           case key of
             [] \<Rightarrow> Some (ps\<lparr>ps_key := key\<rparr>)
           | _ # r \<Rightarrow>
               (let val = scan_for (CHR ''='') r in
                Some (if star val = NUL then ps\<lparr>ps_key := key, ps_val := Some val, ps_ok := False\<rparr>
                      else ps\<lparr>ps_key := key, ps_val := Some val\<rparr>))))"

definition parser_bool :: "Parser \<Rightarrow> bool" where
  "parser_bool ps \<longleftrightarrow> ps_ok ps \<and> star (ps_key ps) \<noteq> NUL"

definition from_hex :: "char \<Rightarrow> nat" where
  "from_hex ch =
     (if isdigit ch then code ch - code (CHR ''0'')
      else if code (CHR ''a'') \<le> code ch \<and> code ch \<le> code (CHR ''f'') then code ch - (code (CHR ''a'') - 10)
      else if code (CHR ''A'') \<le> code ch \<and> code ch \<le> code (CHR ''F'') then code ch - (code (CHR ''A'') - 10)
      else 0)"

text \<open>\<open>urldecode(s, len)\<close> on the \<open>len\<close> characters from \<open>s\<close>.\<close>

fun urldecode :: "string \<Rightarrow> string" where
  "urldecode [] = []"
| "urldecode (c # s) =
     (if c = CHR ''+'' then CHR '' '' # urldecode s
      else case s of
        a # b # t \<Rightarrow>
          if c = CHR ''%'' then char_of (from_hex a * 16 + from_hex b) # urldecode t
          else c # urldecode s
      | _ \<Rightarrow> c # urldecode s)"

definition parser_deref :: "Parser \<Rightarrow> (string \<times> string) option" where
  "parser_deref ps =
     (case (succ_ptr (ps_key ps), ps_val ps) of
        (Some k, Some val) \<Rightarrow>
          (case succ_ptr val of
             None \<Rightarrow> None
           | Some v \<Rightarrow>
               (let end_ptr = scan_for (CHR ''&'') val in
                Some (urldecode (take (length (ps_key ps) - length val - 1) k),
                      urldecode (take (length val - length end_ptr - 1) v))))
      | _ \<Rightarrow> None)"

section \<open>Sinks\<close>

text \<open>
  A sink tries one key: the result says whether the key is the sink's, the new target, and
  whether the value was refused (\<open>processing_error\<close>).
\<close>

type_synonym 'a sink = "string \<times> string \<Rightarrow> 'a \<Rightarrow> bool \<times> 'a \<times> bool"

definition sink_string :: "string \<Rightarrow> string sink" where
  "sink_string key kv target =
     (if fst kv \<noteq> key then (False, target, False) else (True, snd kv, False))"

definition sink_ulong :: "string \<Rightarrow> ulong sink" where
  "sink_ulong key kv target =
     (if fst kv \<noteq> key then (False, target, False)
      else (let (ok, v) = convert_ulong (snd kv) target in (True, v, \<not> ok)))"

definition sink_as_ulong :: "string \<Rightarrow> string sink" where
  "sink_as_ulong key kv target =
     (if fst kv \<noteq> key then (False, target, False)
      else if converts_ulong (snd kv) then (True, snd kv, False) else (True, target, True))"

definition sink_enum :: "string \<Rightarrow> string list \<Rightarrow> string sink" where
  "sink_enum key il kv target =
     (if fst kv \<noteq> key then (False, target, False)
      else if snd kv \<in> set il then (True, snd kv, False) else (True, target, True))"

fun order_index :: "char \<Rightarrow> string list \<Rightarrow> string \<Rightarrow> char option" where
  "order_index c [] v = None"
| "order_index c (x # xs) v =
     (let c = char_of (code c + 1) in if v = x then Some c else order_index c xs v)"

definition sink_order :: "string \<Rightarrow> string list \<Rightarrow> string sink" where
  "sink_order key il kv target =
     (if fst kv \<noteq> key then (False, target, False)
      else case order_index (CHR ''0'') il (snd kv) of
             Some c \<Rightarrow> (True, [c], False)
           | None \<Rightarrow> (True, target, True))"

end
