(* ===== verification/Response.thy ===== *)
theory Response
  imports Uri_Laws Http_Parser
begin

text \<open>
  The messages of the server: \<open>http/StatusCode.h\<close>, \<open>http/crate/Request.h\<close>,
  \<open>http/crate/Response.h\<close> and \<open>Response.cpp\<close>, the conversion of a parsed buffer into a request,
  and the error responses of \<open>core/helpers/ErrorResponse.h\<close> and \<open>CoreException.h\<close>.
\<close>

section \<open>Status codes\<close>

datatype (plugins only: code size) status_code =
    Continue | SwitchingProtocols | Processing | OK | Created | Accepted
    | NonauthoritativeInformation | NoContent | ResetContent | PartialContent | MultiStatus
    | AlreadyReported | IMUsed | MultipleChoices | MovedPermanently | Found | SeeOther | NotModified
    | UseProxy | TemporaryRedirect | PermanentRedirect | BadRequest | Unauthorized | PaymentRequired
    | Forbidden | NotFound | MethodNotAllowed | NotAcceptable | ProxyAuthenticationRequired
    | RequestTimeout | Conflict | Gone | LengthRequired | PreconditionFailed | PayloadTooLarge
    | RequestURITooLong | UnsupportedMediaType | RequestedRangeNotSatisfiable | ExpectationFailed
    | Imateapot | MisdirectedRequest | UnprocessableEntity | Locked | FailedDependency
    | UpgradeRequired | PreconditionRequired | TooManyRequests | RequestHeaderFieldsTooLarge
    | ConnectionClosedWithoutResponse | UnavailableForLegalReasons | ClientClosedRequest
    | InternalServerError | NotImplemented | BadGateway | ServiceUnavailable | GatewayTimeout
    | HTTPVersionNotSupported | VariantAlsoNegotiates | InsufficientStorage | LoopDetected
    | NotExtended | NetworkAuthenticationRequired | NetworkConnectTimeoutError

fun sc_int :: "status_code \<Rightarrow> int" where
  "sc_int Continue = 100"
| "sc_int SwitchingProtocols = 101"
| "sc_int Processing = 102"
| "sc_int OK = 200"
| "sc_int Created = 201"
| "sc_int Accepted = 202"
| "sc_int NonauthoritativeInformation = 203"
| "sc_int NoContent = 204"
| "sc_int ResetContent = 205"
| "sc_int PartialContent = 206"
| "sc_int MultiStatus = 207"
| "sc_int AlreadyReported = 208"
| "sc_int IMUsed = 209"
| "sc_int MultipleChoices = 300"
| "sc_int MovedPermanently = 301"
| "sc_int Found = 302"
| "sc_int SeeOther = 303"
| "sc_int NotModified = 304"
| "sc_int UseProxy = 305"
| "sc_int TemporaryRedirect = 307"
| "sc_int PermanentRedirect = 308"
| "sc_int BadRequest = 400"
| "sc_int Unauthorized = 401"
| "sc_int PaymentRequired = 402"
| "sc_int Forbidden = 403"
| "sc_int NotFound = 404"
| "sc_int MethodNotAllowed = 405"
| "sc_int NotAcceptable = 406"
| "sc_int ProxyAuthenticationRequired = 407"
| "sc_int RequestTimeout = 408"
| "sc_int Conflict = 409"
| "sc_int Gone = 410"
| "sc_int LengthRequired = 411"
| "sc_int PreconditionFailed = 412"
| "sc_int PayloadTooLarge = 413"
| "sc_int RequestURITooLong = 414"
| "sc_int UnsupportedMediaType = 415"
| "sc_int RequestedRangeNotSatisfiable = 416"
| "sc_int ExpectationFailed = 417"
| "sc_int Imateapot = 418"
| "sc_int MisdirectedRequest = 421"
| "sc_int UnprocessableEntity = 422"
| "sc_int Locked = 423"
| "sc_int FailedDependency = 424"
| "sc_int UpgradeRequired = 426"
| "sc_int PreconditionRequired = 428"
| "sc_int TooManyRequests = 429"
| "sc_int RequestHeaderFieldsTooLarge = 431"
| "sc_int ConnectionClosedWithoutResponse = 444"
| "sc_int UnavailableForLegalReasons = 451"
| "sc_int ClientClosedRequest = 499"
| "sc_int InternalServerError = 500"
| "sc_int NotImplemented = 501"
| "sc_int BadGateway = 502"
| "sc_int ServiceUnavailable = 503"
| "sc_int GatewayTimeout = 504"
| "sc_int HTTPVersionNotSupported = 505"
| "sc_int VariantAlsoNegotiates = 506"
| "sc_int InsufficientStorage = 507"
| "sc_int LoopDetected = 508"
| "sc_int NotExtended = 510"
| "sc_int NetworkAuthenticationRequired = 511"
| "sc_int NetworkConnectTimeoutError = 599"

text \<open>The two tables of \<open>Response.cpp\<close>, with \<open>STRIP_LITERALS\<close> undefined.\<close>

definition status_lines :: "(int \<times> string) list" where
  "status_lines =
     [
      (200, ''200 OK''), (201, ''201 Created''),
      (202, ''202 Accepted''), (400, ''400 Bad Request''),
      (401, ''401 Unauthorized''), (403, ''403 Forbidden''),
      (404, ''404 Not Found''), (405, ''405 Method Not Allowed''),
      (411, ''411 Length Required''), (500, ''500 Internal Server Error''),
      (501, ''501 Not Implemented''), (100, ''100 Continue''),
      (101, ''101 Switching Protocols''), (203, ''203 Non-Authoritative Information''),
      (204, ''204 No Content''), (205, ''205 Reset Content''),
      (206, ''206 Partial Content''), (300, ''300 Multiple Choices''),
      (301, ''301 Moved Permanently''), (302, ''302 Found''),
      (303, ''303 See Other''), (304, ''304 Not Modified''),
      (305, ''305 Use Proxy''), (307, ''307 Temporary Redirect''),
      (402, ''402 Payment Required''), (406, ''406 Not Acceptable''),
      (407, ''407 Proxy Authentication Required''), (408, ''408 Request Time-out''),
      (409, ''409 Conflict''), (410, ''410 Gone''),
      (412, ''412 Precondition Failed''), (413, ''413 Request Entity Too Large''),
      (414, ''414 Request-URI Too Large''), (415, ''415 Unsupported Media Type''),
      (416, ''416 Requested range not satisfiable''), (417, ''417 Expectation Failed''),
      (502, ''502 Bad Gateway''), (503, ''503 Service Unavailable''),
      (504, ''504 Gateway Time-out''), (505, ''505 Version not supported'')
     ]"

text \<open>A code that is not in the table gets the line of 501 (the branch for GNU compilers).\<close>

definition status_line :: "status_code \<Rightarrow> string" where
  "status_line sc =
     (case map_of status_lines (sc_int sc) of Some l \<Rightarrow> l | None \<Rightarrow> ''501 Not Implemented'')"

definition html :: "string \<Rightarrow> string" where
  "html t = ''<html><head><title>Arrowhead</title></head><body><h1>'' @ t @ ''</h1></body></html>''"

definition stock_replies :: "(int \<times> string) list" where
  "stock_replies =
     [
      (200, html ''200 OK''), (201, html ''201 Created''),
      (202, html ''202 Accepted''), (400, html ''400 Bad Request''),
      (401, html ''401 Unauthorized''), (403, html ''403 Forbidden''),
      (404, html ''404 Not Found''), (405, html ''405 Method Not Allowed''),
      (411, html ''411 Length Required''), (500, html ''500 Internal Server Error''),
      (501, html ''501 Not Implemented''), (100, html ''100 Continue''),
      (101, html ''101 Switching Protocols''), (203, html ''203 Non-Authoritative Information''),
      (204, html ''204 No Content''), (205, html ''205 Reset Content''),
      (206, html ''206 Partial Content''), (300, html ''300 Multiple Choices''),
      (301, html ''301 Moved Permanently''), (302, html ''302 Found''),
      (303, html ''303 See Other''), (304, html ''304 Not Modified''),
      (305, html ''305 Use Proxy''), (307, html ''307 Temporary Redirect''),
      (402, html ''402 Payment Required''), (406, html ''406 Not Acceptable''),
      (407, html ''407 Proxy Authentication Required''), (408, html ''408 Request Time-out''),
      (409, html ''409 Conflict''), (410, html ''410 Gone''),
      (412, html ''412 Precondition Failed''), (413, html ''413 Request Entity Too Large''),
      (414, html ''414 Request-URI Too Large''), (415, html ''415 Unsupported Media Type''),
      (416, html ''416 Requested range not satisfiable''), (417, html ''417 Expectation Failed''),
      (502, html ''502 Bad Gateway''), (503, html ''503 Service Unavailable''),
      (504, html ''504 Gateway Time-out''), (505, html ''505 Version not supported'')
     ]"

definition stock_reply :: "status_code \<Rightarrow> string" where
  "stock_reply sc =
     (case map_of stock_replies (sc_int sc) of Some l \<Rightarrow> l | None \<Rightarrow> html ''501 Not Implemented'')"

section \<open>Requests\<close>

text \<open>
  A certificate is an owned pointer; here it is the identity of the structure it points to, if any.
\<close>

record Request =
  rq_remote_address :: string
  rq_method :: string
  rq_uri :: Uri
  rq_content :: string
  rq_cert :: "nat option"

definition new_Request :: "string \<Rightarrow> string \<Rightarrow> string \<Rightarrow> string \<Rightarrow> Request" where
  "new_Request addr m u c =
     \<lparr>rq_remote_address = addr, rq_method = m, rq_uri = new_Uri u, rq_content = c, rq_cert = None\<rparr>"

definition hasCert :: "Request \<Rightarrow> bool" where
  "hasCert r \<longleftrightarrow> rq_cert r \<noteq> None"

definition setCert :: "nat option \<Rightarrow> Request \<Rightarrow> Request" where
  "setCert c r = r\<lparr>rq_cert := c\<rparr>"

text \<open>\<open>RequestParser::request\<close> moves the strings out of the buffer, which leaves them empty.\<close>

definition to_request :: "RequestBuffer \<Rightarrow> Request" where
  "to_request b = new_Request (rb_remote_address b) (rb_method b) (rb_uri b) (rb_content b)"

definition request :: "RequestParser \<Rightarrow> Request \<times> RequestParser" where
  "request p =
     (to_request (rp_req p),
      upd_req (\<lambda>b. b\<lparr>rb_remote_address := [], rb_method := [], rb_uri := [], rb_content := []\<rparr>) p)"

section \<open>Responses\<close>

record Response =
  rs_status_code :: status_code
  rs_mime_type :: string
  rs_content :: string
  rs_allow :: string

definition new_Response :: "status_code \<Rightarrow> string \<Rightarrow> string \<Rightarrow> Response" where
  "new_Response sc content mime =
     \<lparr>rs_status_code = sc, rs_mime_type = mime, rs_content = content, rs_allow = []\<rparr>"

definition json_mime :: string where
  "json_mime = ''application/json''"

definition ok_Response :: "string \<Rightarrow> Response" where
  "ok_Response content = new_Response OK content json_mime"

definition crlf :: string where
  "crlf = [CR, LF]"

definition response_to_string :: "bool \<Rightarrow> Response \<Rightarrow> string" where
  "response_to_string keep_alive r =
     ''HTTP/1.1 '' @ status_line (rs_status_code r) @ crlf
     @ ''Connection: '' @ (if keep_alive then ''keep-alive'' else ''close'') @ crlf
     @ (if rs_allow r \<noteq> [] then ''Allow: '' @ rs_allow r @ crlf else [])
     @ ''Content-Length: '' @ nat_str (length (rs_content r)) @ crlf
     @ ''Content-Type: '' @ rs_mime_type r @ crlf
     @ crlf
     @ rs_content r"

definition from_stock :: "status_code \<Rightarrow> Response" where
  "from_stock sc = new_Response sc (stock_reply sc) ''text/html''"

definition options :: "status_code \<Rightarrow> string \<Rightarrow> Response" where
  "options sc method = (new_Response sc [] ''text/html'')\<lparr>rs_allow := method\<rparr>"

section \<open>Error responses\<close>

datatype error_type =
  ARROWHEAD | AUTH | BAD_PAYLOAD | INVALID_PARAMETER | DATA_NOT_FOUND | TIMEOUT | GENERIC | UNAVAILABLE

fun e2s :: "error_type \<Rightarrow> string" where
  "e2s ARROWHEAD = ''ARROWHEAD''"
| "e2s AUTH = ''AUTH''"
| "e2s BAD_PAYLOAD = ''BAD_PAYLOAD''"
| "e2s INVALID_PARAMETER = ''INVALID_PARAMETER''"
| "e2s DATA_NOT_FOUND = ''DATA_NOT_FOUND''"
| "e2s TIMEOUT = ''TIMEOUT''"
| "e2s GENERIC = ''GENERIC''"
| "e2s UNAVAILABLE = ''UNAVAILABLE''"

text \<open>\<open>ErrorResponse::from_stock\<close>, in the build that sends error messages.\<close>

definition quoted :: "string \<Rightarrow> string" where
  "quoted s = DQUOTE # s @ [DQUOTE]"

definition error_from_stock :: "status_code \<Rightarrow> error_type \<Rightarrow> string \<Rightarrow> string \<Rightarrow> Response" where
  "error_from_stock sc et msg origin =
     new_Response sc
       (''{'' @ quoted ''errorMessage'' @ '':'' @ quoted msg
        @ '','' @ quoted ''errorCode'' @ '':'' @ int_str (sc_int sc)
        @ '','' @ quoted ''exceptionType'' @ '':'' @ quoted (e2s et)
        @ '','' @ quoted ''origin'' @ '': '' @ quoted origin @ ''}'')
       json_mime"

record CoreException =
  ce_sc :: status_code
  ce_et :: error_type
  ce_msg :: string
  ce_origin :: string

definition toResponse :: "CoreException \<Rightarrow> Response" where
  "toResponse e = error_from_stock (ce_sc e) (ce_et e) (ce_msg e) (ce_origin e)"

section \<open>Reading a response\<close>

text \<open>What a client does with the bytes: the lines up to the first empty one, then the body.\<close>

fun break_line :: "string \<Rightarrow> (string \<times> string) option" where
  "break_line (c # d # s) =
     (if c = CR \<and> d = LF then Some ([], s)
      else map_option (\<lambda>(l, r). (c # l, r)) (break_line (d # s)))"
| "break_line _ = None"

definition no_cr :: "string \<Rightarrow> bool" where
  "no_cr s \<longleftrightarrow> CR \<notin> set s"

lemma break_line_no_cr: "no_cr l \<Longrightarrow> break_line (l @ crlf @ s) = Some (l, s)"
proof (induction l)
  case Nil
  then show ?case by (simp add: crlf_def)
next
  case (Cons c l)
  then have "break_line (l @ crlf @ s) = Some (l, s)" by (simp add: no_cr_def)
  moreover obtain d t where "l @ crlf @ s = d # t" by (cases l) (auto simp: crlf_def)
  ultimately show ?case using Cons.prems by (auto simp: no_cr_def)
qed

lemma break_line_shorter: "break_line s = Some (l, r) \<Longrightarrow> length r < length s"
  by (induction s arbitrary: l rule: break_line.induct) (auto split: if_splits)

function read_head :: "string \<Rightarrow> (string list \<times> string) option" where
  "read_head s =
     (case break_line s of
        None \<Rightarrow> None
      | Some (l, r) \<Rightarrow>
          if l = [] then Some ([], r)
          else map_option (\<lambda>(ls, b). (l # ls, b)) (read_head r))"
  by auto
termination by (relation "measure length") (auto dest: break_line_shorter)

declare read_head.simps [simp del]

lemma read_head_lines:
  assumes "list_all (\<lambda>l. no_cr l \<and> l \<noteq> []) ls"
  shows "read_head (concat (map (\<lambda>l. l @ crlf) ls) @ crlf @ body) = Some (ls, body)"
  using assms
proof (induction ls)
  case Nil
  then show ?case
    using break_line_no_cr [of "[]" body] by (subst read_head.simps) (simp add: no_cr_def)
next
  case (Cons l ls)
  then show ?case
    using break_line_no_cr [of l "concat (map (\<lambda>l. l @ crlf) ls) @ crlf @ body"]
    by (subst read_head.simps) simp
qed

definition response_lines :: "bool \<Rightarrow> Response \<Rightarrow> string list" where
  "response_lines keep_alive r =
     [''HTTP/1.1 '' @ status_line (rs_status_code r),
      ''Connection: '' @ (if keep_alive then ''keep-alive'' else ''close'')]
     @ (if rs_allow r = [] then [] else [''Allow: '' @ rs_allow r])
     @ [''Content-Length: '' @ nat_str (length (rs_content r)), ''Content-Type: '' @ rs_mime_type r]"

lemma response_to_string_lines:
  "response_to_string k r = concat (map (\<lambda>l. l @ crlf) (response_lines k r)) @ crlf @ rs_content r"
  by (simp add: response_to_string_def response_lines_def)

lemma no_cr_append [simp]: "no_cr (s @ t) \<longleftrightarrow> no_cr s \<and> no_cr t"
  by (auto simp: no_cr_def)

lemma no_cr_Cons [simp]: "no_cr (c # t) \<longleftrightarrow> c \<noteq> CR \<and> no_cr t"
  by (auto simp: no_cr_def)

lemma no_cr_Nil [simp]: "no_cr []"
  by (simp add: no_cr_def)

lemma no_cr_nat_str [simp]: "no_cr (nat_str n)"
  using nat_str_digits [of n] isdigit_neq_special(4) by (auto simp: no_cr_def list_all_iff)

lemma status_lines_no_cr: "list_all (\<lambda>(c, l). no_cr l) status_lines"
  by code_simp

lemma no_cr_status_line [simp]: "no_cr (status_line sc)"
  using status_lines_no_cr map_of_SomeD [of status_lines "sc_int sc"]
  by (fastforce simp: status_line_def list_all_iff split: option.split)

lemma read_response:
  assumes "no_cr (rs_mime_type r)" "no_cr (rs_allow r)"
  shows "read_head (response_to_string k r) = Some (response_lines k r, rs_content r)"
  unfolding response_to_string_lines
  by (rule read_head_lines) (use assms in \<open>simp add: response_lines_def\<close>)

text \<open>The page of a stock reply shows the status line of its code.\<close>

lemma stock_reply_table: "stock_replies = map (\<lambda>(c, l). (c, html l)) status_lines"
  by code_simp

lemma stock_reply_line: "stock_reply sc = html (status_line sc)"
  unfolding stock_reply_def status_line_def stock_reply_table map_of_map
  by (simp split: option.split)

end
