(* ===== verification/Servlet.thy ===== *)
theory Servlet
  imports Http_Chunked Response
begin

text \<open>
  One connection of the HTTPS server (\<open>HTTPSServer::servlet\<close> of \<open>http/serv/HTTPSServer.h\<close>): read,
  parse, hand the request to the dispatcher, write the reply, and go on while the peer keeps the
  connection alive. OpenSSL and the sockets are the environment: what \<open>SSL_accept\<close>,
  \<open>SSL_get_peer_certificate\<close>, \<open>SSL_get_verify_result\<close>, \<open>SSL_read\<close> and \<open>SSL_write\<close> return is given
  by a record, and the dispatcher is a function on requests and the state of the system behind it.
\<close>

section \<open>The environment of a connection\<close>

record Peer =
  pe_accept :: int
  pe_cert :: "nat option"
  pe_verify_ok :: bool
  pe_addr :: string
  pe_reads :: "string list"
  pe_write :: "nat \<Rightarrow> string \<Rightarrow> cint"

text \<open>What the connection does, in order.\<close>

datatype event =
  Handled Request
| Reported string string
| Wrote string
| FreedCert nat
| Closed

type_synonym 'w handler = "Request \<Rightarrow> 'w \<Rightarrow> Response \<times> 'w"

record 'w Conn =
  cn_parser :: RequestParser
  cn_cert :: "nat option"
  cn_world :: 'w
  cn_trace :: "event list"
  cn_writes :: nat

datatype verdict = Continue | Stop | Throws exn

section \<open>The loop\<close>

definition emit :: "event \<Rightarrow> 'w Conn \<Rightarrow> 'w Conn" where
  "emit e cn = cn\<lparr>cn_trace := cn_trace cn @ [e]\<rparr>"

definition ssl_write :: "Peer \<Rightarrow> string \<Rightarrow> 'w Conn \<Rightarrow> cint \<times> 'w Conn" where
  "ssl_write pe s cn =
     (pe_write pe (cn_writes cn) s, emit (Wrote s) (cn\<lparr>cn_writes := cn_writes cn + 1\<rparr>))"

text \<open>
  \<open>SSL_write(...) < reply_str.length()\<close>: the \<open>int\<close> result is converted to \<open>size_t\<close> before the two
  are compared.
\<close>

definition short_write :: "cint \<Rightarrow> string \<Rightarrow> bool" where
  "short_write ret s \<longleftrightarrow> (scast ret :: size_t) < word_of_nat (length s)"

text \<open>The destructor of the request frees the certificate it owns.\<close>

definition destroy_request :: "Request \<Rightarrow> 'w Conn \<Rightarrow> 'w Conn" where
  "destroy_request req cn = (case rq_cert req of None \<Rightarrow> cn | Some c \<Rightarrow> emit (FreedCert c) cn)"

text \<open>
  A completed request: the dispatcher's reply is written, then the request goes out of scope.
  The result says whether the loop goes on.
\<close>

definition answer :: "'w handler \<Rightarrow> Peer \<Rightarrow> RequestParser \<Rightarrow> 'w Conn \<Rightarrow> bool \<times> 'w Conn" where
  "answer h pe p cn =
     (let (req, p) = request p;
          req = setCert (cn_cert cn) (req\<lparr>rq_remote_address := pe_addr pe\<rparr>);
          (resp, w) = h req (cn_world cn);
          keep = rb_keepAlive (rp_req p);
          reply_str = response_to_string keep resp;
          (ret, cn) = ssl_write pe reply_str (emit (Handled req) (cn\<lparr>cn_parser := p, cn_world := w\<rparr>));
          cn = destroy_request req cn
      in if short_write ret reply_str then (False, cn)
         else if keep then (True, cn\<lparr>cn_parser := reset p\<rparr>)
         else (False, cn))"

definition reject :: "Peer \<Rightarrow> 'w Conn \<Rightarrow> 'w Conn" where
  "reject pe cn =
     snd (ssl_write pe (response_to_string False (from_stock BadRequest))
       (emit (Reported (pe_addr pe) ''Cannot parse request.'') cn))"

text \<open>
  The parser is a local variable of the servlet: an exception destroys it, and what is left of it
  is represented by a fresh one.
\<close>

definition unwind :: "'w Conn \<Rightarrow> 'w Conn" where
  "unwind cn = cn\<lparr>cn_parser := new_RequestParser 0 0\<rparr>"

text \<open>One buffer, with the jump back to \<open>keep_alive\<close> while bytes are left in it.\<close>

function serve_buffer :: "'w handler \<Rightarrow> Peer \<Rightarrow> 'w Conn \<Rightarrow> string \<Rightarrow> verdict \<times> 'w Conn" where
  "serve_buffer h pe cn s =
     (case parse (cn_parser cn) s of
        Inl e \<Rightarrow> (Throws e, unwind cn)
      | Inr (r, p, rest) \<Rightarrow>
          (case r of
             completed \<Rightarrow>
               (case answer h pe p (cn\<lparr>cn_parser := p\<rparr>) of
                  (False, cn') \<Rightarrow> (Stop, cn')
                | (True, cn') \<Rightarrow> if rest = [] then (Continue, cn') else serve_buffer h pe cn' rest)
           | failed \<Rightarrow> (Stop, reject pe (cn\<lparr>cn_parser := p\<rparr>))
           | incomplete \<Rightarrow> (Continue, cn\<lparr>cn_parser := p\<rparr>)))"
  by auto
termination
proof (relation "measure (\<lambda>(h, pe, cn, s). length s)")
qed (auto dest!: rp.run_split)

declare serve_buffer.simps [simp del]

text \<open>\<open>while ((len = SSL_read(...)) > 0)\<close>; an empty read ends the loop.\<close>

fun serve_reads :: "'w handler \<Rightarrow> Peer \<Rightarrow> 'w Conn \<Rightarrow> string list \<Rightarrow> verdict \<times> 'w Conn" where
  "serve_reads h pe cn [] = (Continue, cn)"
| "serve_reads h pe cn (b # bs) =
     (if b = [] then (Continue, cn)
      else case serve_buffer h pe cn b of
             (Continue, cn') \<Rightarrow> serve_reads h pe cn' bs
           | r \<Rightarrow> r)"

definition new_Conn :: "cint \<Rightarrow> cint \<Rightarrow> 'w \<Rightarrow> 'w Conn" where
  "new_Conn major minor w =
     \<lparr>cn_parser = new_RequestParser major minor, cn_cert = None, cn_world = w, cn_trace = [], cn_writes = 0\<rparr>"

text \<open>The peer's certificate is kept only if it was verified.\<close>

definition take_cert :: "Peer \<Rightarrow> 'w Conn \<Rightarrow> 'w Conn" where
  "take_cert pe cn =
     (case pe_cert pe of
        None \<Rightarrow> cn
      | Some c \<Rightarrow> if pe_verify_ok pe then cn\<lparr>cn_cert := Some c\<rparr> else emit (FreedCert c) cn)"

text \<open>
  The whole servlet. The two version numbers are the uninitialised fields of the parser's buffer.
  An exception leaves the function before the socket is closed.
\<close>

definition servlet :: "'w handler \<Rightarrow> Peer \<Rightarrow> cint \<Rightarrow> cint \<Rightarrow> 'w \<Rightarrow> verdict \<times> 'w Conn" where
  "servlet h pe major minor w =
     (let cn = new_Conn major minor w in
      if pe_accept pe \<noteq> 1 then (Stop, emit Closed cn)
      else case serve_reads h pe (take_cert pe cn) (pe_reads pe) of
             (Throws e, cn') \<Rightarrow> (Throws e, cn')
           | (v, cn') \<Rightarrow> (Stop, emit Closed cn'))"

section \<open>Reads and their boundaries\<close>

lemma serve_buffer_Nil [simp]: "serve_buffer h pe cn [] = (Continue, cn)"
  by (subst serve_buffer.simps) simp

lemma serve_buffer_append:
  "serve_buffer h pe cn (s @ t) =
     (case serve_buffer h pe cn s of
        (Continue, cn') \<Rightarrow> serve_buffer h pe cn' t
      | r \<Rightarrow> r)"
proof (induction h pe cn s rule: serve_buffer.induct)
  case (1 h pe cn s)
  show ?case
  proof (cases "parse (cn_parser cn) s")
    case (Inl e)
    then show ?thesis
      using rp.run_append [of "cn_parser cn" s t] by (subst (1 2) serve_buffer.simps) simp
  next
    case (Inr x)
    then obtain r p rest where x: "parse (cn_parser cn) s = Inr (r, p, rest)"
      by (cases x) auto
    note app = rp.run_append [of "cn_parser cn" s t, unfolded x, simplified]
    show ?thesis
    proof (cases r)
      case incomplete
      then have "serve_buffer h pe cn (s @ t) = serve_buffer h pe (cn\<lparr>cn_parser := p\<rparr>) t"
        using app by (subst (1 2) serve_buffer.simps)
          (simp add: unwind_def split: sum.split prod.split result_t.split)
      moreover have "serve_buffer h pe cn s = (Continue, cn\<lparr>cn_parser := p\<rparr>)"
        using incomplete x by (subst serve_buffer.simps) simp
      ultimately show ?thesis by simp
    next
      case failed
      then show ?thesis using x app by (subst (1 2) serve_buffer.simps) simp
    next
      case completed
      obtain go cn' where a: "answer h pe p (cn\<lparr>cn_parser := p\<rparr>) = (go, cn')" by fastforce
      have st: "serve_buffer h pe cn (s @ t) =
          (if go then if rest @ t = [] then (Continue, cn') else serve_buffer h pe cn' (rest @ t)
           else (Stop, cn'))"
        using completed x app a by (subst serve_buffer.simps) (simp split: bool.split)
      have s: "serve_buffer h pe cn s =
          (if go then if rest = [] then (Continue, cn') else serve_buffer h pe cn' rest else (Stop, cn'))"
        using completed x a by (subst serve_buffer.simps) (simp split: bool.split)
      show ?thesis
      proof (cases "go \<and> rest \<noteq> []")
        case True
        then show ?thesis
          using 1 [OF x refl refl completed a [symmetric]] st s a by simp
      next
        case False
        then show ?thesis using st s by (cases go; cases t) simp_all
      qed
    qed
  qed
qed

lemma serve_reads_concat:
  assumes "[] \<notin> set bs"
  shows "serve_reads h pe cn bs = serve_buffer h pe cn (concat bs)"
  using assms
proof (induction bs arbitrary: cn)
  case (Cons b bs)
  then show ?case
    by (auto simp: serve_buffer_append split: prod.split verdict.split)
qed simp

section \<open>Pipelined requests\<close>

text \<open>A request of a client that keeps the connection alive the way HTTP/1.1 does.\<close>

record Message =
  ms_method :: string
  ms_uri :: string
  ms_headers :: "Header list"
  ms_body :: string

definition not_connection :: "Header \<Rightarrow> bool" where
  "not_connection h \<longleftrightarrow> strcasecmp (hname h) ''Connection'' \<noteq> 0"

definition message_ok :: "Message \<Rightarrow> bool" where
  "message_ok m \<longleftrightarrow>
     method_ok (ms_method m) \<and> uri_ok (ms_uri m) \<and> list_all header_ok (ms_headers m)
     \<and> list_all neutral (ms_headers m) \<and> list_all not_connection (ms_headers m)
     \<and> (ms_body m = [] \<or> has_body (ms_method m)) \<and> length (ms_body m) < 2 ^ 31"

definition message_text :: "Message \<Rightarrow> string" where
  "message_text m =
     head_text (ms_method m) (ms_uri m) 1 1 (ms_headers m @ framing (ms_body m)) @ ms_body m"

definition message_request :: "string \<Rightarrow> nat option \<Rightarrow> Message \<Rightarrow> Request" where
  "message_request addr cert m =
     \<lparr>rq_remote_address = addr, rq_method = ms_method m, rq_uri = new_Uri (ms_uri m),
      rq_content = ms_body m, rq_cert = cert\<rparr>"

text \<open>What the peer should see: every request is handled once, in order, and answered.\<close>

definition freed :: "nat option \<Rightarrow> event list" where
  "freed cert = (case cert of None \<Rightarrow> [] | Some c \<Rightarrow> [FreedCert c])"

fun exchanges ::
  "'w handler \<Rightarrow> string \<Rightarrow> nat option \<Rightarrow> 'w \<Rightarrow> Message list \<Rightarrow> event list \<times> 'w" where
  "exchanges h addr cert w [] = ([], w)"
| "exchanges h addr cert w (m # ms) =
     (let req = message_request addr cert m; (resp, w') = h req w;
          (es, w'') = exchanges h addr cert w' ms
      in ([Handled req, Wrote (response_to_string True resp)] @ freed cert @ es, w''))"

definition full_writes :: "Peer \<Rightarrow> bool" where
  "full_writes pe \<longleftrightarrow> (\<forall>n s. \<not> short_write (pe_write pe n s) s)"

lemma find_none: "list_all not_connection hs \<Longrightarrow> find (\<lambda>h. strcasecmp (hname h) ''Connection'' = 0) hs = None"
  by (auto simp: find_None_iff list_all_iff not_connection_def)

lemma not_connection_framing: "list_all not_connection (framing b)"
proof -
  have "strcasecmp ''Content-Length'' ''Connection'' \<noteq> 0" by code_simp
  then show ?thesis by (simp add: framing_def content_length_def not_connection_def)
qed

lemma parse_message:
  assumes "message_ok m"
  shows "\<exists>q. parse (reset p) (message_text m @ rest) = Inr (completed, q, rest)
    \<and> is_request (rp_req q) (ms_method m) (ms_uri m) 1 1 (ms_headers m @ framing (ms_body m)) (ms_body m)
    \<and> rb_keepAlive (rp_req q)"
proof -
  let ?hs = "ms_headers m @ framing (ms_body m)"
  have ok: "method_ok (ms_method m)" "uri_ok (ms_uri m)" "list_all header_ok (ms_headers m)"
    "list_all neutral (ms_headers m)" using assms by (simp_all add: message_ok_def)
  have mode: "keep_alive_mode b 1 1 ?hs" for b
    using assms find_none [of ?hs] not_connection_framing
    by (simp add: keep_alive_mode_def message_ok_def)
  show ?thesis
  proof (cases "ms_body m = []")
    case True
    then show ?thesis
      using parse_request_no_body [OF ok, of 1 1 p rest] mode
      by (auto simp: message_text_def framing_def)
  next
    case False
    then show ?thesis
      using parse_request_body [OF ok, of 1 1 "ms_body m" p rest] mode assms
      by (auto simp: message_text_def message_ok_def)
  qed
qed

lemma answer_message:
  assumes "full_writes pe" "rb_keepAlive (rp_req q)"
    "is_request (rp_req q) (ms_method m) (ms_uri m) 1 1 hs (ms_body m)"
    "h (message_request (pe_addr pe) (cn_cert cn) m) (cn_world cn) = (resp, w)"
  shows "\<exists>cn' q'. answer h pe q cn = (True, cn') \<and> cn_parser cn' = reset q' \<and> cn_cert cn' = cn_cert cn
    \<and> cn_world cn' = w
    \<and> cn_trace cn' = cn_trace cn
        @ [Handled (message_request (pe_addr pe) (cn_cert cn) m), Wrote (response_to_string True resp)]
        @ freed (cn_cert cn)"
proof -
  have "setCert (cn_cert cn) ((to_request (rp_req q))\<lparr>rq_remote_address := pe_addr pe\<rparr>) =
      message_request (pe_addr pe) (cn_cert cn) m"
    using assms(3)
    by (simp add: setCert_def to_request_def new_Request_def message_request_def is_request_def)
  then show ?thesis
    using assms
    by (auto simp: answer_def request_def ssl_write_def emit_def destroy_request_def freed_def
        full_writes_def message_request_def split: option.split)
qed

lemma serve_message:
  assumes "full_writes pe" "message_ok m" "cn_parser cn = reset p"
    "h (message_request (pe_addr pe) (cn_cert cn) m) (cn_world cn) = (resp, w)"
  shows "\<exists>cn' q. serve_buffer h pe cn (message_text m @ rest) = serve_buffer h pe cn' rest
    \<and> cn_parser cn' = reset q \<and> cn_cert cn' = cn_cert cn \<and> cn_world cn' = w
    \<and> cn_trace cn' = cn_trace cn
        @ [Handled (message_request (pe_addr pe) (cn_cert cn) m), Wrote (response_to_string True resp)]
        @ freed (cn_cert cn)"
proof -
  obtain q where q: "parse (reset p) (message_text m @ rest) = Inr (completed, q, rest)"
    "is_request (rp_req q) (ms_method m) (ms_uri m) 1 1 (ms_headers m @ framing (ms_body m)) (ms_body m)"
    "rb_keepAlive (rp_req q)"
    using parse_message [OF assms(2), of p rest] by blast
  obtain cn' q' where a: "answer h pe q (cn\<lparr>cn_parser := q\<rparr>) = (True, cn')" "cn_parser cn' = reset q'"
    "cn_cert cn' = cn_cert cn" "cn_world cn' = w"
    "cn_trace cn' = cn_trace cn
        @ [Handled (message_request (pe_addr pe) (cn_cert cn) m), Wrote (response_to_string True resp)]
        @ freed (cn_cert cn)"
    using answer_message [OF assms(1) q(3,2), of h "cn\<lparr>cn_parser := q\<rparr>" resp w] assms(4) by auto
  have "serve_buffer h pe cn (message_text m @ rest) =
      (if rest = [] then (Continue, cn') else serve_buffer h pe cn' rest)"
    using q(1) a(1) assms(3) by (subst serve_buffer.simps) simp
  then have "serve_buffer h pe cn (message_text m @ rest) = serve_buffer h pe cn' rest"
    by (cases "rest = []") simp_all
  then show ?thesis using a by blast
qed

lemma serve_messages:
  assumes "full_writes pe" "list_all message_ok ms" "cn_parser cn = reset p"
    "exchanges h (pe_addr pe) (cn_cert cn) (cn_world cn) ms = (es, w)"
  shows "\<exists>cn' q. serve_buffer h pe cn (concat (map message_text ms)) = (Continue, cn')
    \<and> cn_parser cn' = reset q \<and> cn_world cn' = w \<and> cn_trace cn' = cn_trace cn @ es"
  using assms
proof (induction ms arbitrary: cn p es)
  case Nil
  then show ?case by auto
next
  case (Cons m ms)
  obtain resp w1 where h: "h (message_request (pe_addr pe) (cn_cert cn) m) (cn_world cn) = (resp, w1)"
    by fastforce
  obtain es' where es: "exchanges h (pe_addr pe) (cn_cert cn) w1 ms = (es', w)"
    "es = [Handled (message_request (pe_addr pe) (cn_cert cn) m), Wrote (response_to_string True resp)]
      @ freed (cn_cert cn) @ es'"
    using Cons.prems(4) h by (auto split: prod.splits)
  obtain cn1 q where c: "serve_buffer h pe cn (message_text m @ concat (map message_text ms)) =
      serve_buffer h pe cn1 (concat (map message_text ms))"
    "cn_parser cn1 = reset q" "cn_cert cn1 = cn_cert cn" "cn_world cn1 = w1"
    "cn_trace cn1 = cn_trace cn
        @ [Handled (message_request (pe_addr pe) (cn_cert cn) m), Wrote (response_to_string True resp)]
        @ freed (cn_cert cn)"
    using serve_message [of pe m cn p h resp w1 "concat (map message_text ms)"] Cons.prems(1-3) h
    by auto
  show ?case
    using Cons.IH [of cn1 q es'] Cons.prems c es by auto
qed

lemma new_Conn_reset: "cn_parser (new_Conn a b w) = reset (cn_parser (new_Conn a b w))"
  by (simp add: new_Conn_def new_RequestParser_def new_RequestBuffer_def reset_def clear_def)

text \<open>A whole connection whose peer sends only such requests, cut into reads in any way.\<close>

lemma servlet_messages:
  assumes "full_writes pe" "list_all message_ok ms" "pe_accept pe = 1" "pe_verify_ok pe"
    "[] \<notin> set (pe_reads pe)" "concat (pe_reads pe) = concat (map message_text ms)"
    "exchanges h (pe_addr pe) (pe_cert pe) w ms = (es, w')"
  shows "\<exists>cn. servlet h pe a b w = (Stop, cn) \<and> cn_trace cn = es @ [Closed] \<and> cn_world cn = w'"
proof -
  let ?cn = "take_cert pe (new_Conn a b w)"
  have "cn_parser ?cn = reset (cn_parser ?cn)" "cn_cert ?cn = pe_cert pe" "cn_world ?cn = w" "cn_trace ?cn = []"
    using new_Conn_reset [of a b w] assms(4)
    by (auto simp: take_cert_def new_Conn_def split: option.split)
  then obtain cn' where "serve_buffer h pe ?cn (concat (map message_text ms)) = (Continue, cn')"
    "cn_world cn' = w'" "cn_trace cn' = es"
    using serve_messages [OF assms(1,2), of ?cn "cn_parser ?cn" h es w'] assms(7) by auto
  then show ?thesis
    using assms(3,5,6) serve_reads_concat [of "pe_reads pe" h pe ?cn]
    by (simp add: servlet_def emit_def Let_def)
qed

lemma count_freed:
  "cert = Some c \<Longrightarrow> count_list (fst (exchanges h addr cert w ms)) (FreedCert c) = length ms"
proof (induction ms arbitrary: w)
  case (Cons m ms)
  then show ?case by (simp add: freed_def Let_def case_prod_beta)
qed simp

section \<open>Malformed requests and failed writes\<close>

lemma servlet_malformed:
  assumes "pe_accept pe = 1" "pe_reads pe = b # bs" "b \<noteq> []" "pe_cert pe = None"
    "parse (new_RequestParser major minor) b = Inr (failed, p, rest)"
  shows "\<exists>cn. servlet h pe major minor w = (Stop, cn) \<and> cn_world cn = w \<and> cn_trace cn =
    [Reported (pe_addr pe) ''Cannot parse request.'',
     Wrote (response_to_string False (from_stock BadRequest)), Closed]"
  using assms
  by (simp add: servlet_def take_cert_def new_Conn_def Let_def serve_buffer.simps reject_def
      ssl_write_def emit_def)

text \<open>\<open>SSL_write\<close> reports a failure by 0 or a negative result; the negative one looks like success.\<close>

lemma failed_write_unnoticed:
  assumes "length s < 2 ^ 63" "sint ret < 0"
  shows "\<not> short_write ret s"
proof -
  have "uint (scast ret :: size_t) = 2 ^ 64 + sint ret"
    using assms(2) sint_greater_eq [of ret]
    by (simp only: scast_eq uint_word_of_int)
      (simp add: mod_add_self2 [symmetric, of "sint ret"] del: mod_add_self2)
  moreover have "uint (word_of_nat (length s) :: size_t) = int (length s)"
    using assms(1) by (simp add: unsigned_of_nat take_bit_nat_eq_self)
  ultimately show ?thesis
    using assms(1) sint_greater_eq [of ret] by (simp add: short_write_def word_less_def)
qed

text \<open>A transport that sends every reply an \<open>int\<close> can count, and fails on longer ones.\<close>

definition sent_or_failed :: "nat \<Rightarrow> string \<Rightarrow> cint" where
  "sent_or_failed n s = (if length s < 2 ^ 31 then word_of_nat (length s) else - 1)"

lemma sent_or_failed_full: "pe_write pe = sent_or_failed \<Longrightarrow> full_writes pe"
proof -
  have "\<not> short_write (sent_or_failed n s) s" for n s
  proof (cases "length s < 2 ^ 31")
    case True
    then have "sint (word_of_nat (length s) :: cint) = int (length s)"
      by (simp add: signed_of_nat signed_take_bit_int_eq_self)
    then have "scast (word_of_nat (length s) :: cint) = (word_of_nat (length s) :: size_t)"
      by (simp only: scast_eq) simp
    then show ?thesis using True by (simp add: short_write_def sent_or_failed_def)
  next
    case False
    then show ?thesis by (simp add: short_write_def sent_or_failed_def word_n1_ge)
  qed
  then show "pe_write pe = sent_or_failed \<Longrightarrow> full_writes pe" by (simp add: full_writes_def)
qed

end
