(* ===== verification/Transition.thy ===== *)
theory Transition
  imports Main "HOL-Library.Multiset"
begin

text \<open>
  Transition systems for the concurrent parts of the program: the threads of the server and the
  clients of the database pool. A component gives its step relation and what holds of it step by
  step; the facts about whole runs are proved once, here.
\<close>

locale invariant_system =
  fixes step :: "'s \<Rightarrow> 's \<Rightarrow> bool"
    and inv :: "'s \<Rightarrow> bool"
  assumes step_keeps: "inv s \<Longrightarrow> step s t \<Longrightarrow> inv t"
begin

lemma run_keeps: "step\<^sup>*\<^sup>* s t \<Longrightarrow> inv s \<Longrightarrow> inv t"
  by (induction rule: rtranclp_induct) (auto intro: step_keeps)

end

text \<open>
  A system in which every step of a phase decreases a measure: the phase ends, and where it ends no
  step is possible.
\<close>

locale decreasing_system = invariant_system step inv
  for step :: "'s \<Rightarrow> 's \<Rightarrow> bool" and inv :: "'s \<Rightarrow> bool" +
  fixes phase :: "'s \<Rightarrow> bool"
    and weight :: "'s \<Rightarrow> nat"
  assumes phase_stable: "phase s \<Longrightarrow> step s t \<Longrightarrow> phase t"
    and weight_decreases: "inv s \<Longrightarrow> phase s \<Longrightarrow> step s t \<Longrightarrow> weight t < weight s"
begin

lemma steps_bounded:
  "(step ^^ n) s t \<Longrightarrow> inv s \<Longrightarrow> phase s \<Longrightarrow> weight t + n \<le> weight s"
proof (induction n arbitrary: t)
  case (Suc n)
  then obtain u where u: "(step ^^ n) s u" "step u t" by auto
  then have "step\<^sup>*\<^sup>* s u" by (simp add: relpowp_imp_rtranclp)
  then have "inv u" "phase u"
    using Suc.prems(2,3) run_keeps
    by (blast, induction rule: rtranclp_induct) (auto intro: phase_stable)
  then show ?case using Suc.IH [OF u(1) Suc.prems(2,3)] weight_decreases [OF _ _ u(2)] by simp
qed simp

lemma reaches_rest:
  assumes "inv s" "phase s"
  shows "\<exists>t. step\<^sup>*\<^sup>* s t \<and> (\<forall>u. \<not> step t u)"
  using assms
proof (induction "weight s" arbitrary: s rule: less_induct)
  case less
  show ?case
  proof (cases "\<exists>u. step s u")
    case True
    then obtain u where u: "step s u" by blast
    from less.hyps [OF weight_decreases [OF less.prems u] step_keeps [OF less.prems(1) u]
        phase_stable [OF less.prems(2) u]] u
    show ?thesis by (meson converse_rtranclp_into_rtranclp)
  qed auto
qed

end

end
