(* ===== verification/Server.thy ===== *)
theory Server
  imports Prelude Transition
begin

text \<open>
  The threads of the HTTPS server (\<open>HTTPSServer::run\<close> and \<open>run_internal\<close> of
  \<open>http/serv/HTTPSServer.h\<close>): the main loop that polls the listening socket and the signal
  descriptor, the pool of workers that take connections from a queue (mandatory parallelism), and
  the list of futures (optional parallelism). A connection is a number; serving it is one step, the
  servlet itself being the subject of its own theory. Waiting on the condition variable is waiting
  for its predicate.
\<close>

section \<open>State\<close>

datatype worker = Waiting | Serving nat | Exited

text \<open>
  A future of \<open>std::async\<close> without a policy runs on its own thread, or is deferred until somebody
  waits for it; the implementation may choose.
\<close>

datatype future = Running | Ready | Deferred

record Server =
  sv_queue :: "nat list"
  sv_stop :: bool
  sv_workers :: "worker list"
  sv_futures :: "(nat \<times> future) list"
  sv_looping :: bool
  sv_errors :: "(string \<times> string) list"
  sv_accepted :: "nat list"
  sv_taken :: "nat list"
  sv_served :: "nat list"

definition init_Server :: "nat \<Rightarrow> Server" where
  "init_Server thnum =
     \<lparr>sv_queue = [], sv_stop = False, sv_workers = replicate thnum Waiting, sv_futures = [],
      sv_looping = True, sv_errors = [], sv_accepted = [], sv_taken = [], sv_served = []\<rparr>"

section \<open>The main loop\<close>

text \<open>
  What \<open>poll\<close> reports: a failure; a readable signal descriptor, with whether the whole structure
  was read and the signal's number; a listening socket that is not readable; or a new connection,
  with the choice \<open>std::async\<close> makes for it.
\<close>

datatype poll_event = PollFailed | Signal bool int | NotReadable | Connection nat future

definition SIGINT :: int where "SIGINT = 2"
definition SIGQUIT :: int where "SIGQUIT = 3"

definition report_error :: "string \<Rightarrow> Server \<Rightarrow> Server" where
  "report_error reason sv = sv\<lparr>sv_errors := sv_errors sv @ [(''127.0.0.1'', reason)]\<rparr>"

text \<open>The futures that \<open>std::remove_if\<close> keeps.\<close>

definition unfinished :: "(nat \<times> future) list \<Rightarrow> (nat \<times> future) list" where
  "unfinished fs = filter (\<lambda>(_, f). \<not> (f = Ready \<or> f = Deferred)) fs"

fun poll_iteration :: "bool \<Rightarrow> poll_event \<Rightarrow> Server \<Rightarrow> Server" where
  "poll_iteration mandatory PollFailed sv =
     (report_error ''Polling failed.'' sv)\<lparr>sv_looping := False\<rparr>"
| "poll_iteration mandatory (Signal whole signo) sv =
     (let sv = (if whole then sv else report_error ''Error reading signal.'' sv);
          sv = (if signo = SIGINT \<or> signo = SIGQUIT then sv
                else report_error ''Unexpected signal caught.'' sv)
      in sv\<lparr>sv_looping := False\<rparr>)"
| "poll_iteration mandatory NotReadable sv = sv"
| "poll_iteration mandatory (Connection ssl policy) sv =
     (let sv = sv\<lparr>sv_accepted := sv_accepted sv @ [ssl]\<rparr> in
      if mandatory then sv\<lparr>sv_queue := sv_queue sv @ [ssl]\<rparr>
      else sv\<lparr>sv_futures := unfinished (sv_futures sv @ [(ssl, policy)])\<rparr>)"

text \<open>After the loop: the stop flag of the workers.\<close>

definition shutdown :: "Server \<Rightarrow> Server" where
  "shutdown sv = sv\<lparr>sv_stop := True\<rparr>"

section \<open>Workers and futures\<close>

text \<open>\<open>cond.wait\<close> lets a worker through when its predicate holds.\<close>

definition wakes :: "Server \<Rightarrow> bool" where
  "wakes sv \<longleftrightarrow> sv_stop sv \<or> sv_queue sv \<noteq> []"

definition set_worker :: "nat \<Rightarrow> worker \<Rightarrow> Server \<Rightarrow> Server" where
  "set_worker i w sv = sv\<lparr>sv_workers := (sv_workers sv)[i := w]\<rparr>"

definition worker_turn :: "nat \<Rightarrow> Server \<Rightarrow> Server" where
  "worker_turn i sv =
     (case sv_queue sv of
        [] \<Rightarrow> if sv_stop sv then set_worker i Exited sv else sv
      | ssl # q \<Rightarrow> set_worker i (Serving ssl) (sv\<lparr>sv_queue := q, sv_taken := sv_taken sv @ [ssl]\<rparr>))"

definition worker_done :: "nat \<Rightarrow> nat \<Rightarrow> Server \<Rightarrow> Server" where
  "worker_done i ssl sv = set_worker i Waiting (sv\<lparr>sv_served := sv_served sv @ [ssl]\<rparr>)"

inductive pool_step :: "Server \<Rightarrow> Server \<Rightarrow> bool" where
  poll: "sv_looping sv \<Longrightarrow> pool_step sv (poll_iteration True ev sv)"
| leave: "\<not> sv_looping sv \<Longrightarrow> \<not> sv_stop sv \<Longrightarrow> pool_step sv (shutdown sv)"
| turn: "i < length (sv_workers sv) \<Longrightarrow> sv_workers sv ! i = Waiting \<Longrightarrow> wakes sv
    \<Longrightarrow> pool_step sv (worker_turn i sv)"
| finish: "i < length (sv_workers sv) \<Longrightarrow> sv_workers sv ! i = Serving ssl
    \<Longrightarrow> pool_step sv (worker_done i ssl sv)"

definition future_done :: "nat \<Rightarrow> nat \<Rightarrow> Server \<Rightarrow> Server" where
  "future_done i ssl sv =
     sv\<lparr>sv_futures := (sv_futures sv)[i := (ssl, Ready)], sv_served := sv_served sv @ [ssl]\<rparr>"

text \<open>In the optional model a deferred task runs when the main thread waits for it.\<close>

inductive async_step :: "Server \<Rightarrow> Server \<Rightarrow> bool" where
  async_poll: "sv_looping sv \<Longrightarrow> async_step sv (poll_iteration False ev sv)"
| async_finish: "i < length (sv_futures sv) \<Longrightarrow> sv_futures sv ! i = (ssl, Running)
    \<Longrightarrow> async_step sv (future_done i ssl sv)"
| async_wait: "\<not> sv_looping sv \<Longrightarrow> i < length (sv_futures sv) \<Longrightarrow> sv_futures sv ! i = (ssl, Deferred)
    \<Longrightarrow> async_step sv (future_done i ssl sv)"

inductive_cases pool_stepE: "pool_step sv sv'"
inductive_cases async_stepE: "async_step sv sv'"

text \<open>\<open>run\<close> returns when every worker has been joined, or every future waited for.\<close>

definition pool_joined :: "Server \<Rightarrow> bool" where
  "pool_joined sv \<longleftrightarrow> sv_stop sv \<and> list_all (\<lambda>w. w = Exited) (sv_workers sv)"

definition async_joined :: "Server \<Rightarrow> bool" where
  "async_joined sv \<longleftrightarrow> \<not> sv_looping sv \<and> list_all (\<lambda>(_, f). f = Ready) (sv_futures sv)"

section \<open>The worker pool\<close>

fun in_service :: "worker \<Rightarrow> nat list" where
  "in_service (Serving ssl) = [ssl]"
| "in_service _ = []"

definition serving :: "Server \<Rightarrow> nat list" where
  "serving sv = concat (map in_service (sv_workers sv))"

definition pool_inv :: "Server \<Rightarrow> bool" where
  "pool_inv sv \<longleftrightarrow>
     sv_accepted sv = sv_taken sv @ sv_queue sv
     \<and> mset (sv_taken sv) = mset (sv_served sv) + mset (serving sv)
     \<and> (sv_stop sv \<longrightarrow> \<not> sv_looping sv)
     \<and> (Exited \<in> set (sv_workers sv) \<longrightarrow> sv_stop sv \<and> sv_queue sv = [])"

lemma mset_serving: "mset (serving sv) = sum_list (map (\<lambda>w. mset (in_service w)) (sv_workers sv))"
  by (simp add: serving_def mset_concat comp_def)

lemma sum_list_update_mset:
  fixes f :: "'a \<Rightarrow> 'b multiset"
  assumes "i < length xs"
  shows "sum_list (map f (xs[i := x])) + f (xs ! i) = sum_list (map f xs) + f x"
  using assms by (induction xs arbitrary: i) (auto split: nat.split simp: ac_simps)

lemma mset_serving_update:
  assumes "i < length (sv_workers sv)"
  shows "mset (serving (set_worker i w sv)) + mset (in_service (sv_workers sv ! i)) =
    mset (serving sv) + mset (in_service w)"
  using sum_list_update_mset [OF assms, of "\<lambda>w. mset (in_service w)" w]
  by (simp add: mset_serving set_worker_def)

lemma serving_frame [simp]:
  "serving (sv\<lparr>sv_queue := a\<rparr>) = serving sv" "serving (sv\<lparr>sv_taken := a\<rparr>) = serving sv"
  "serving (sv\<lparr>sv_served := a\<rparr>) = serving sv" "serving (sv\<lparr>sv_stop := b\<rparr>) = serving sv"
  "serving (sv\<lparr>sv_looping := b\<rparr>) = serving sv" "serving (sv\<lparr>sv_accepted := a\<rparr>) = serving sv"
  "serving (report_error s sv) = serving sv"
  by (simp_all add: serving_def report_error_def)

lemma poll_frame [simp]:
  "sv_workers (poll_iteration m ev sv) = sv_workers sv"
  "sv_stop (poll_iteration m ev sv) = sv_stop sv"
  "sv_taken (poll_iteration m ev sv) = sv_taken sv"
  "sv_served (poll_iteration m ev sv) = sv_served sv"
  by (cases ev; simp add: report_error_def Let_def)+

lemma poll_queue:
  "\<exists>new. sv_accepted (poll_iteration True ev sv) = sv_accepted sv @ new
     \<and> sv_queue (poll_iteration True ev sv) = sv_queue sv @ new"
  by (cases ev) (simp_all add: report_error_def Let_def)

lemma pool_inv_poll:
  assumes "pool_inv sv" "sv_looping sv"
  shows "pool_inv (poll_iteration True ev sv)"
proof -
  have "serving (poll_iteration True ev sv) = serving sv"
    by (simp add: serving_def)
  moreover have "\<not> sv_stop sv" "Exited \<notin> set (sv_workers sv)"
    using assms by (auto simp: pool_inv_def)
  ultimately show ?thesis
    using assms poll_queue [of ev sv] by (auto simp: pool_inv_def)
qed

lemma set_worker_simps [simp]:
  "sv_queue (set_worker i w sv) = sv_queue sv" "sv_stop (set_worker i w sv) = sv_stop sv"
  "sv_taken (set_worker i w sv) = sv_taken sv" "sv_served (set_worker i w sv) = sv_served sv"
  "sv_looping (set_worker i w sv) = sv_looping sv" "sv_accepted (set_worker i w sv) = sv_accepted sv"
  "sv_workers (set_worker i w sv) = (sv_workers sv)[i := w]"
  by (simp_all add: set_worker_def)

lemma exited_update: "Exited \<in> set (xs[i := w]) \<Longrightarrow> w \<noteq> Exited \<Longrightarrow> Exited \<in> set xs"
  by (metis insertE set_update_subset_insert subsetD)

lemma pool_inv_turn:
  assumes "pool_inv sv" "i < length (sv_workers sv)" "sv_workers sv ! i = Waiting" "wakes sv"
  shows "pool_inv (worker_turn i sv)"
proof (cases "sv_queue sv")
  case Nil
  then have "mset (serving (set_worker i Exited sv)) = mset (serving sv)"
    using mset_serving_update [OF assms(2), of Exited] assms(3) by simp
  then show ?thesis
    using Nil assms by (simp add: worker_turn_def wakes_def pool_inv_def)
next
  case (Cons ssl q)
  let ?sv = "sv\<lparr>sv_queue := q, sv_taken := sv_taken sv @ [ssl]\<rparr>"
  have "mset (serving (set_worker i (Serving ssl) ?sv)) = mset (serving sv) + {#ssl#}"
    using mset_serving_update [of i ?sv "Serving ssl"] assms(2,3) by simp
  moreover have "Exited \<notin> set (sv_workers sv)"
    using assms(1) Cons by (auto simp: pool_inv_def)
  ultimately show ?thesis
    using Cons assms exited_update [of "sv_workers sv" i "Serving ssl"]
    by (auto simp: worker_turn_def pool_inv_def)
qed

lemma pool_inv_finish:
  assumes "pool_inv sv" "i < length (sv_workers sv)" "sv_workers sv ! i = Serving ssl"
  shows "pool_inv (worker_done i ssl sv)"
proof -
  let ?sv = "sv\<lparr>sv_served := sv_served sv @ [ssl]\<rparr>"
  have "mset (serving (set_worker i Waiting ?sv)) + {#ssl#} = mset (serving sv)"
    using mset_serving_update [of i ?sv Waiting] assms(2,3) by simp
  then show ?thesis
    using assms(1) exited_update [of "sv_workers sv" i Waiting]
    by (auto simp: worker_done_def pool_inv_def)
qed

lemma pool_inv_shutdown: "pool_inv sv \<Longrightarrow> \<not> sv_looping sv \<Longrightarrow> pool_inv (shutdown sv)"
  by (simp add: pool_inv_def shutdown_def)

lemma pool_step_inv: "pool_inv sv \<Longrightarrow> pool_step sv sv' \<Longrightarrow> pool_inv sv'"
  by (erule pool_stepE)
    (auto simp: pool_inv_poll pool_inv_turn pool_inv_finish pool_inv_shutdown)

lemma pool_inv_init: "pool_inv (init_Server n)"
  by (simp add: pool_inv_def init_Server_def serving_def)

text \<open>
  After \<open>stop\<close> every step brings the pool closer to the end: a queued connection weighs more than
  one in service, which weighs more than an idle worker.
\<close>

fun worker_weight :: "worker \<Rightarrow> nat" where
  "worker_weight Waiting = 1"
| "worker_weight (Serving _) = 2"
| "worker_weight Exited = 0"

definition pool_weight :: "Server \<Rightarrow> nat" where
  "pool_weight sv = 2 * length (sv_queue sv) + sum_list (map worker_weight (sv_workers sv))"

lemma sum_list_update_nat:
  fixes f :: "'a \<Rightarrow> nat"
  assumes "i < length xs"
  shows "sum_list (map f (xs[i := x])) + f (xs ! i) = sum_list (map f xs) + f x"
  using assms by (induction xs arbitrary: i) (auto split: nat.split)

lemma weight_set_worker:
  "i < length (sv_workers sv) \<Longrightarrow>
    pool_weight (set_worker i w sv) + worker_weight (sv_workers sv ! i) = pool_weight sv + worker_weight w"
  using sum_list_update_nat [of i "sv_workers sv" worker_weight w] by (simp add: pool_weight_def)

lemma weight_turn:
  assumes "i < length (sv_workers sv)" "sv_workers sv ! i = Waiting" "sv_stop sv"
  shows "pool_weight (worker_turn i sv) < pool_weight sv"
proof (cases "sv_queue sv")
  case Nil
  then show ?thesis
    using weight_set_worker [OF assms(1), of Exited] assms by (simp add: worker_turn_def)
next
  case (Cons ssl q)
  let ?sv = "sv\<lparr>sv_queue := q, sv_taken := sv_taken sv @ [ssl]\<rparr>"
  have "pool_weight sv = pool_weight ?sv + 2"
    using Cons by (simp add: pool_weight_def)
  then show ?thesis
    using weight_set_worker [of i ?sv "Serving ssl"] assms Cons by (simp add: worker_turn_def)
qed

lemma weight_done:
  assumes "i < length (sv_workers sv)" "sv_workers sv ! i = Serving ssl"
  shows "pool_weight (worker_done i ssl sv) < pool_weight sv"
  using weight_set_worker [of i "sv\<lparr>sv_served := sv_served sv @ [ssl]\<rparr>" Waiting] assms
  by (simp add: worker_done_def pool_weight_def)

interpretation pool: decreasing_system pool_step pool_inv sv_stop pool_weight
proof
  fix sv sv'
  assume "pool_inv sv" "pool_step sv sv'"
  then show "pool_inv sv'" by (rule pool_step_inv)
next
  fix sv sv'
  assume "sv_stop sv" "pool_step sv sv'"
  then show "sv_stop sv'"
    by (auto elim!: pool_stepE simp: shutdown_def worker_turn_def worker_done_def split: list.split)
next
  fix sv sv'
  assume inv: "pool_inv sv" and stop: "sv_stop sv" and "pool_step sv sv'"
  from this(3) show "pool_weight sv' < pool_weight sv"
  proof (cases rule: pool_step.cases)
    case poll
    then show ?thesis using inv stop by (simp add: pool_inv_def)
  qed (use stop in \<open>simp_all add: weight_turn weight_done\<close>)
qed

lemma pool_progress:
  assumes "sv_stop sv" "\<not> pool_joined sv"
  shows "\<exists>sv'. pool_step sv sv'"
proof -
  obtain i where i: "i < length (sv_workers sv)" "sv_workers sv ! i \<noteq> Exited"
    using assms by (auto simp: pool_joined_def list_all_length)
  show ?thesis
  proof (cases "sv_workers sv ! i")
    case Waiting
    then show ?thesis using turn [OF i(1)] assms(1) by (auto simp: wakes_def)
  next
    case (Serving ssl)
    then show ?thesis using finish [OF i(1)] by blast
  qed (use i in simp)
qed

lemma in_service_exited: "list_all (\<lambda>w. w = Exited) ws \<Longrightarrow> concat (map in_service ws) = []"
  by (induction ws) auto

lemma joined_all_served:
  assumes "pool_inv sv" "pool_joined sv" "sv_workers sv \<noteq> []"
  shows "mset (sv_served sv) = mset (sv_accepted sv) \<and> sv_taken sv = sv_accepted sv"
proof -
  have "Exited \<in> set (sv_workers sv)"
    using assms(2,3) by (cases "sv_workers sv") (auto simp: pool_joined_def)
  then have "sv_queue sv = []" using assms(1) by (simp add: pool_inv_def)
  moreover have "serving sv = []"
    using assms(2) in_service_exited [of "sv_workers sv"] by (simp add: pool_joined_def serving_def)
  ultimately show ?thesis using assms(1) by (simp add: pool_inv_def)
qed

lemma pool_workers_length: "pool_step\<^sup>*\<^sup>* sv sv' \<Longrightarrow> length (sv_workers sv') = length (sv_workers sv)"
proof (induction rule: rtranclp_induct)
  case (step u v)
  then show ?case
    by (auto elim!: pool_stepE simp: shutdown_def worker_turn_def worker_done_def split: list.split)
qed simp

text \<open>Where a run of the workers after the stop flag ends, all of them have been joined.\<close>

lemma pool_rest_joined:
  assumes "0 < n" "pool_step\<^sup>*\<^sup>* (init_Server n) sv" "sv_stop sv" "pool_step\<^sup>*\<^sup>* sv sv'" "\<forall>u. \<not> pool_step sv' u"
  shows "pool_joined sv' \<and> mset (sv_served sv') = mset (sv_accepted sv') \<and> sv_taken sv' = sv_accepted sv'"
proof -
  have inv: "pool_inv sv'"
    using pool.run_keeps [OF assms(4) pool.run_keeps [OF assms(2) pool_inv_init]] .
  have "sv_stop sv'"
    using assms(4,3) by (induction rule: rtranclp_induct) (auto intro: pool.phase_stable)
  then have j: "pool_joined sv'" using pool_progress assms(5) by blast
  have "length (sv_workers sv') = n"
    using pool_workers_length [OF assms(4)] pool_workers_length [OF assms(2)] by (simp add: init_Server_def)
  then have "sv_workers sv' \<noteq> []" using assms(1) by auto
  then show ?thesis using joined_all_served [OF inv j] j by blast
qed

lemma accepted_grows: "pool_step\<^sup>*\<^sup>* sv sv' \<Longrightarrow> set (sv_accepted sv) \<subseteq> set (sv_accepted sv')"
proof (induction rule: rtranclp_induct)
  case (step u v)
  have "set (sv_accepted u) \<subseteq> set (sv_accepted v)"
    using step(2)
  proof cases
    case (poll ev)
    then show ?thesis by (cases ev) (auto simp: report_error_def Let_def)
  qed (auto simp: shutdown_def worker_turn_def worker_done_def split: list.split)
  then show ?case using step.IH by blast
qed simp

lemma pool_shutdown_bounded:
  assumes "pool_step\<^sup>*\<^sup>* (init_Server n) sv" "sv_stop sv" "(pool_step ^^ k) sv sv'"
  shows "k \<le> pool_weight sv"
  using pool.steps_bounded [OF assms(3) pool.run_keeps [OF assms(1) pool_inv_init] assms(2)] by simp

section \<open>The futures\<close>

text \<open>
  As long as no task is deferred, every accepted connection has been served or is a future that
  runs; the connections of erased futures are among those served.
\<close>

fun not_ready :: "nat \<times> future \<Rightarrow> nat list" where
  "not_ready (ssl, Ready) = []"
| "not_ready (ssl, f) = [ssl]"

definition async_pending :: "Server \<Rightarrow> nat list" where
  "async_pending sv = concat (map not_ready (sv_futures sv))"

definition async_inv :: "Server \<Rightarrow> bool" where
  "async_inv sv \<longleftrightarrow>
     mset (sv_accepted sv) = mset (sv_served sv) + mset (async_pending sv)
     \<and> list_all (\<lambda>(_, f). f \<noteq> Deferred) (sv_futures sv)"

text \<open>The steps of a library that starts every task on a thread of its own.\<close>

definition eager_step :: "Server \<Rightarrow> Server \<Rightarrow> bool" where
  "eager_step sv sv' \<longleftrightarrow>
     (sv_looping sv \<and> (\<exists>ev. (\<forall>ssl. ev \<noteq> Connection ssl Deferred \<and> ev \<noteq> Connection ssl Ready)
        \<and> sv' = poll_iteration False ev sv))
     \<or> (\<exists>i ssl. i < length (sv_futures sv) \<and> sv_futures sv ! i = (ssl, Running) \<and> sv' = future_done i ssl sv)"

lemma eager_is_async: "eager_step sv sv' \<Longrightarrow> async_step sv sv'"
  by (auto simp: eager_step_def intro: async_step.intros)

lemma pending_unfinished:
  "list_all (\<lambda>(_, f). f \<noteq> Deferred) fs \<Longrightarrow> concat (map not_ready (unfinished fs)) = concat (map not_ready fs)"
proof (induction fs)
  case (Cons x fs)
  then show ?case by (cases x; cases "snd x") (auto simp: unfinished_def)
qed (simp add: unfinished_def)

lemma mset_pending_update:
  assumes "i < length fs"
  shows "mset (concat (map not_ready (fs[i := f]))) + mset (not_ready (fs ! i)) =
    mset (concat (map not_ready fs)) + mset (not_ready f)"
  using sum_list_update_mset [OF assms, of "\<lambda>f. mset (not_ready f)" f] by (simp add: mset_concat comp_def)

lemma async_inv_poll:
  assumes "async_inv sv" "\<forall>ssl. ev \<noteq> Connection ssl Deferred \<and> ev \<noteq> Connection ssl Ready"
  shows "async_inv (poll_iteration False ev sv)"
proof (cases ev)
  case (Connection ssl f)
  then have f: "f = Running" using assms(2) by (cases f) auto
  have "list_all (\<lambda>(_, f). f \<noteq> Deferred) (sv_futures sv @ [(ssl, Running)])"
    using assms(1) by (simp add: async_inv_def)
  from pending_unfinished [OF this] show ?thesis
    using assms(1) Connection f by (auto simp: async_inv_def async_pending_def unfinished_def list_all_iff)
qed (use assms in \<open>auto simp: async_inv_def async_pending_def report_error_def Let_def\<close>)

lemma async_inv_done:
  assumes "async_inv sv" "i < length (sv_futures sv)" "sv_futures sv ! i = (ssl, Running)"
  shows "async_inv (future_done i ssl sv)"
proof -
  have "mset (concat (map not_ready ((sv_futures sv)[i := (ssl, Ready)]))) + {#ssl#} =
      mset (concat (map not_ready (sv_futures sv)))"
    using mset_pending_update [OF assms(2), of "(ssl, Ready)"] assms(3) by simp
  moreover have "list_all (\<lambda>(_, f). f \<noteq> Deferred) ((sv_futures sv)[i := (ssl, Ready)])"
    using assms(1,2) by (auto simp: async_inv_def list_all_length nth_list_update)
  ultimately show ?thesis
    using assms(1) by (simp add: async_inv_def async_pending_def future_done_def)
qed

interpretation futures: invariant_system eager_step async_inv
proof
  fix sv sv'
  assume "async_inv sv" "eager_step sv sv'"
  then show "async_inv sv'"
    by (auto simp: eager_step_def async_inv_poll async_inv_done)
qed

lemma async_joined_served:
  assumes "eager_step\<^sup>*\<^sup>* (init_Server 0) sv" "async_joined sv"
  shows "mset (sv_served sv) = mset (sv_accepted sv)"
proof -
  have "async_inv (init_Server 0)" by (simp add: async_inv_def init_Server_def async_pending_def)
  then have "async_inv sv" by (rule futures.run_keeps [OF assms(1)])
  moreover have "async_pending sv = []"
    using assms(2) by (auto simp: async_joined_def async_pending_def list_all_iff)
  ultimately show ?thesis by (simp add: async_inv_def)
qed

text \<open>A deferred task is erased at once, before anybody has waited for it.\<close>

lemma deferred_connection_lost:
  "\<exists>sv. async_step\<^sup>*\<^sup>* (init_Server 0) sv \<and> async_joined sv \<and> ssl \<in> set (sv_accepted sv)
     \<and> sv_served sv = []"
proof -
  let ?a = "poll_iteration False (Connection ssl Deferred) (init_Server 0)"
  let ?b = "poll_iteration False (Signal True SIGINT) ?a"
  have "async_step (init_Server 0) ?a" "async_step ?a ?b"
    by (rule async_poll; simp add: init_Server_def)+
  then have "async_step\<^sup>*\<^sup>* (init_Server 0) ?b"
    by (meson converse_rtranclp_into_rtranclp rtranclp.rtrancl_refl)
  moreover have "async_joined ?b \<and> ssl \<in> set (sv_accepted ?b) \<and> sv_served ?b = []"
    by (simp add: async_joined_def init_Server_def unfinished_def)
  ultimately show ?thesis by blast
qed

end
