(* ===== verification/DbPool.thy ===== *)
theory DbPool
  imports Transition
begin

text \<open>
  The database layer of \<open>db/DB.h\<close>: the pool of connections shared by the server's threads, the
  RAII handle that takes a database from the pool and gives it back, and the transaction lock.
  A database is its index in the pool's vector; a thread that waits for an idle database has no
  step until the stack of indices is not empty.
\<close>

section \<open>The pool\<close>

text \<open>
  \<open>dc_deleter\<close> says whether the handle's \<open>std::function\<close> is set. The handles are the live objects of
  all threads; \<open>po_lost\<close> records the indices taken by a constructor that did not complete.
\<close>

record DatabaseConnection =
  dc_idx :: nat
  dc_deleter :: bool

record DatabasePool =
  po_idxs :: "nat list"
  po_size :: nat
  po_conns :: "DatabaseConnection list"
  po_lost :: "nat list"

text \<open>The constructor pushes 0, 1, 2, \<dots>: the head of the list is the top of the stack.\<close>

definition new_DatabasePool :: "nat \<Rightarrow> DatabasePool" where
  "new_DatabasePool n = \<lparr>po_idxs = rev [0..<n], po_size = n, po_conns = [], po_lost = []\<rparr>"

definition default_DatabasePool :: "nat \<Rightarrow> DatabasePool" where
  "default_DatabasePool hardware_concurrency = new_DatabasePool (max hardware_concurrency 4)"

text \<open>\<open>None\<close>: the caller waits.\<close>

definition pool_lock :: "DatabasePool \<Rightarrow> (nat \<times> DatabasePool) option" where
  "pool_lock po =
     (case po_idxs po of [] \<Rightarrow> None | idx # rest \<Rightarrow> Some (idx, po\<lparr>po_idxs := rest\<rparr>))"

definition pool_unlock :: "nat \<Rightarrow> DatabasePool \<Rightarrow> DatabasePool" where
  "pool_unlock idx po = po\<lparr>po_idxs := idx # po_idxs po\<rparr>"

section \<open>Handles\<close>

definition add_conn :: "DatabaseConnection \<Rightarrow> DatabasePool \<Rightarrow> DatabasePool" where
  "add_conn c po = po\<lparr>po_conns := po_conns po @ [c]\<rparr>"

definition connect :: "DatabasePool \<Rightarrow> DatabasePool option" where
  "connect po =
     map_option (\<lambda>(idx, po'). add_conn \<lparr>dc_idx = idx, dc_deleter = True\<rparr> po') (pool_lock po)"

text \<open>
  The constructor with a transaction: when \<open>begin()\<close> throws, the object was never constructed and
  its destructor does not run.
\<close>

definition connect_transaction :: "bool \<Rightarrow> DatabasePool \<Rightarrow> DatabasePool option" where
  "connect_transaction begin_ok po =
     map_option (\<lambda>(idx, po').
       if begin_ok then add_conn \<lparr>dc_idx = idx, dc_deleter = True\<rparr> po'
       else po'\<lparr>po_lost := po_lost po' @ [idx]\<rparr>) (pool_lock po)"

text \<open>The move constructor of a compiler without guaranteed copy elision.\<close>

definition move_conn :: "nat \<Rightarrow> DatabasePool \<Rightarrow> DatabasePool" where
  "move_conn i po =
     add_conn (po_conns po ! i)
       (po\<lparr>po_conns := (po_conns po)[i := (po_conns po ! i)\<lparr>dc_deleter := False\<rparr>]\<rparr>)"

definition destroy_conn :: "nat \<Rightarrow> DatabasePool \<Rightarrow> DatabasePool" where
  "destroy_conn i po =
     (let c = po_conns po ! i;
          po' = po\<lparr>po_conns := take i (po_conns po) @ drop (Suc i) (po_conns po)\<rparr>
      in if dc_deleter c then pool_unlock (dc_idx c) po' else po')"

inductive db_step :: "DatabasePool \<Rightarrow> DatabasePool \<Rightarrow> bool" where
  db_connect: "connect po = Some po' \<Longrightarrow> db_step po po'"
| db_connect_transaction: "connect_transaction ok po = Some po' \<Longrightarrow> db_step po po'"
| db_move: "i < length (po_conns po) \<Longrightarrow> db_step po (move_conn i po)"
| db_destroy: "i < length (po_conns po) \<Longrightarrow> db_step po (destroy_conn i po)"

section \<open>Ownership\<close>

definition held :: "DatabasePool \<Rightarrow> nat list" where
  "held po = map dc_idx (filter dc_deleter (po_conns po))"

definition pool_ok :: "DatabasePool \<Rightarrow> bool" where
  "pool_ok po \<longleftrightarrow>
     mset (po_idxs po) + mset (held po) + mset (po_lost po) = mset [0..<po_size po]"

lemma new_pool_ok: "pool_ok (new_DatabasePool n)"
  by (simp add: pool_ok_def new_DatabasePool_def held_def)

lemma lock_ok:
  "pool_ok po \<Longrightarrow> pool_lock po = Some (idx, po') \<Longrightarrow>
    add_mset idx (mset (po_idxs po') + mset (held po') + mset (po_lost po')) = mset [0..<po_size po']"
  by (auto simp: pool_ok_def pool_lock_def held_def split: list.splits)

lemma connect_ok: "pool_ok po \<Longrightarrow> connect po = Some po' \<Longrightarrow> pool_ok po'"
  using lock_ok by (fastforce simp: connect_def add_conn_def pool_ok_def held_def)

lemma connect_transaction_ok:
  "pool_ok po \<Longrightarrow> connect_transaction b po = Some po' \<Longrightarrow> pool_ok po'"
  using lock_ok by (fastforce simp: connect_transaction_def add_conn_def pool_ok_def held_def split: if_splits)

lemma held_move:
  assumes "i < length cs"
  shows "mset (map dc_idx (filter dc_deleter (cs[i := (cs ! i)\<lparr>dc_deleter := False\<rparr>] @ [cs ! i]))) =
    mset (map dc_idx (filter dc_deleter cs))"
  using assms
proof (induction cs arbitrary: i)
  case (Cons c cs)
  then show ?case
  proof (cases i)
    case (Suc j)
    then show ?thesis using Cons.IH [of j] Cons.prems by (cases "dc_deleter (cs ! j)"; simp)
  qed simp
qed simp

lemma move_ok: "pool_ok po \<Longrightarrow> i < length (po_conns po) \<Longrightarrow> pool_ok (move_conn i po)"
  using held_move [of i "po_conns po"] by (simp add: move_conn_def add_conn_def pool_ok_def held_def)

lemma held_destroy:
  assumes "i < length cs"
  shows "mset (map dc_idx (filter dc_deleter cs)) =
    mset (map dc_idx (filter dc_deleter (take i cs @ drop (Suc i) cs)))
    + (if dc_deleter (cs ! i) then {#dc_idx (cs ! i)#} else {#})"
  by (subst id_take_nth_drop [OF assms]) simp

lemma destroy_ok: "pool_ok po \<Longrightarrow> i < length (po_conns po) \<Longrightarrow> pool_ok (destroy_conn i po)"
  using held_destroy [of i "po_conns po"]
  by (auto simp: destroy_conn_def pool_unlock_def pool_ok_def held_def Let_def)

interpretation dbp: invariant_system db_step pool_ok
proof
  fix po po'
  assume "pool_ok po" "db_step po po'"
  from this(2,1) show "pool_ok po'"
    by cases (auto intro: connect_ok connect_transaction_ok move_ok destroy_ok)
qed

lemma reachable_pool_ok: "db_step\<^sup>*\<^sup>* (new_DatabasePool n) po \<Longrightarrow> pool_ok po"
  using dbp.run_keeps new_pool_ok by blast

lemma pool_exclusive:
  assumes "pool_ok po"
  shows "distinct (held po @ po_idxs po @ po_lost po)"
    "set (held po @ po_idxs po @ po_lost po) = {0..<po_size po}"
proof -
  have m: "mset (held po @ po_idxs po @ po_lost po) = mset [0..<po_size po]"
    using assms by (simp add: pool_ok_def ac_simps)
  then have "distinct (held po @ po_idxs po @ po_lost po) \<longleftrightarrow> distinct [0..<po_size po]"
    by (rule mset_eq_imp_distinct_iff)
  then show "distinct (held po @ po_idxs po @ po_lost po)" by simp
  show "set (held po @ po_idxs po @ po_lost po) = {0..<po_size po}"
    using mset_eq_setD [OF m] by simp
qed

lemma step_size: "db_step po po' \<Longrightarrow> po_size po' = po_size po"
  by (induction rule: db_step.induct)
    (auto simp: connect_def connect_transaction_def pool_lock_def add_conn_def move_conn_def
      destroy_conn_def pool_unlock_def Let_def split: list.splits if_splits)

lemma reachable_size: "db_step\<^sup>*\<^sup>* po po' \<Longrightarrow> po_size po' = po_size po"
  by (induction rule: rtranclp_induct) (auto simp: step_size)

lemma waiting_has_holder:
  assumes "pool_ok po" "po_lost po = []" "0 < po_size po" "connect po = None"
  shows "\<exists>i < length (po_conns po). \<exists>po'. connect (destroy_conn i po) = Some po'"
proof -
  have "po_idxs po = []"
    using assms(4) by (simp add: connect_def pool_lock_def split: list.splits)
  then have "length (held po) = po_size po"
    using assms(1,2) mset_eq_length [of "held po" "[0..<po_size po]"] by (simp add: pool_ok_def)
  then have "filter dc_deleter (po_conns po) \<noteq> []"
    using assms(3) by (auto simp: held_def)
  then obtain i where i: "i < length (po_conns po)" "dc_deleter (po_conns po ! i)"
    by (auto simp: filter_empty_conv in_set_conv_nth)
  then show ?thesis
    by (intro exI [of _ i]) (simp add: destroy_conn_def pool_unlock_def connect_def pool_lock_def Let_def)
qed

text \<open>A throwing \<open>begin()\<close> costs the pool a database for good.\<close>

lemma lost_stays: "db_step po po' \<Longrightarrow> set (po_lost po) \<subseteq> set (po_lost po')"
  by (induction rule: db_step.induct)
    (auto simp: connect_def connect_transaction_def pool_lock_def add_conn_def move_conn_def
      destroy_conn_def pool_unlock_def Let_def split: list.splits if_splits)

lemma failed_begin_leaks:
  assumes "pool_ok po" "connect_transaction False po = Some po1" "db_step\<^sup>*\<^sup>* po1 po2"
  shows "\<exists>idx < po_size po. idx \<notin> set (po_idxs po2) \<and> idx \<notin> set (held po2)"
proof -
  obtain idx where idx: "idx \<in> set (po_lost po1)"
    using assms(2) by (fastforce simp: connect_transaction_def)
  have "set (po_lost po1) \<subseteq> set (po_lost po2)"
    using assms(3) by (induction rule: rtranclp_induct) (use lost_stays in blast)+
  then have l: "idx \<in> set (po_lost po2)" using idx by blast
  have s: "db_step po po1" using assms(2) by (rule db_connect_transaction)
  then have "pool_ok po2" using assms(1,3) dbp.run_keeps dbp.step_keeps by blast
  from pool_exclusive [OF this] l have "idx \<notin> set (po_idxs po2)" "idx \<notin> set (held po2)" "idx < po_size po2"
    by auto
  then show ?thesis using reachable_size [OF assms(3)] step_size [OF s] by auto
qed

section \<open>Transactions\<close>

text \<open>
  The operations of a database are state transformers that may throw. \<open>transaction_scope\<close> is a block
  that opens a \<open>TransactionLock\<close>: the body returns whether it reached \<open>commit()\<close>. A rollback that
  throws in the destructor terminates the program.
\<close>

type_synonym ('e, 'a, 'd) db_op = "'d \<Rightarrow> ('e + 'a) \<times> 'd"

datatype ('e, 'a) scope_result = Returned 'a | Raised 'e | Terminated

definition end_scope :: "('e, unit, 'd) db_op \<Rightarrow> bool \<Rightarrow> ('e, 'a) scope_result \<Rightarrow> 'd \<Rightarrow> ('e, 'a) scope_result \<times> 'd" where
  "end_scope rollback com r d =
     (if com then (r, d)
      else case rollback d of (Inl _, d') \<Rightarrow> (Terminated, d') | (Inr _, d') \<Rightarrow> (r, d'))"

definition transaction_scope ::
  "('e, unit, 'd) db_op \<Rightarrow> ('e, unit, 'd) db_op \<Rightarrow> ('e, unit, 'd) db_op \<Rightarrow> ('e, bool \<times> 'a, 'd) db_op
   \<Rightarrow> 'd \<Rightarrow> ('e, 'a) scope_result \<times> 'd" where
  "transaction_scope start commit rollback body d =
     (case start d of
        (Inl e, d1) \<Rightarrow> (Raised e, d1)
      | (Inr _, d1) \<Rightarrow>
          (case body d1 of
             (Inl e, d2) \<Rightarrow> end_scope rollback False (Raised e) d2
           | (Inr (reached, v), d2) \<Rightarrow>
               if reached then
                 (case commit d2 of
                    (Inl e, d3) \<Rightarrow> end_scope rollback False (Raised e) d3
                  | (Inr _, d3) \<Rightarrow> end_scope rollback True (Returned v) d3)
               else end_scope rollback False (Returned v) d2))"

text \<open>
  What the code relies on: \<open>committed\<close> is what other connections see. Starting a transaction and a
  commit or a start that fails do not change it, the statements of the body do not either, a
  commit publishes the working state, a rollback publishes nothing.
\<close>

definition transactional ::
  "('d \<Rightarrow> 's) \<Rightarrow> ('d \<Rightarrow> 's) \<Rightarrow> ('e, unit, 'd) db_op \<Rightarrow> ('e, unit, 'd) db_op \<Rightarrow> ('e, unit, 'd) db_op
   \<Rightarrow> ('e, bool \<times> 'a, 'd) db_op \<Rightarrow> bool" where
  "transactional committed working start commit rollback body \<longleftrightarrow>
     (\<forall>d. committed (snd (start d)) = committed d)
     \<and> (\<forall>d. committed (snd (body d)) = committed d)
     \<and> (\<forall>d. committed (snd (rollback d)) = committed d)
     \<and> (\<forall>d. committed (snd (commit d)) = (if isl (fst (commit d)) then committed d else working d))"

lemma transaction_atomic:
  assumes "transactional committed working start commit rollback body"
    "transaction_scope start commit rollback body d = (r, d')"
  shows "committed d' = committed d
    \<or> (\<exists>v. r = Returned v \<and> fst (body (snd (start d))) = Inr (True, v)
         \<and> committed d' = working (snd (body (snd (start d)))))"
proof -
  have laws: "committed (snd (start x)) = committed x" "committed (snd (body x)) = committed x"
    "committed (snd (rollback x)) = committed x"
    "committed (snd (commit x)) = (if isl (fst (commit x)) then committed x else working x)" for x
    using assms(1) by (simp_all add: transactional_def)
  have e: "end_scope rollback False q x = (r, d') \<Longrightarrow> committed d' = committed x" for q x
    using laws(3) [of x] by (auto simp: end_scope_def split: prod.splits sum.splits)
  show ?thesis
    using assms(2) laws(1) [of d] laws(2) [of "snd (start d)"] laws(4) [of "snd (body (snd (start d)))"] e
    by (auto simp: transaction_scope_def end_scope_def [of _ True] split: prod.splits sum.splits if_splits
        dest!: e)
qed

end
