(* ===== verification/MariaDB.thy ===== *)
theory MariaDB
  imports Numbers DbPool
begin

text \<open>
  The MariaDB backend of the database layer (\<open>db/MariaDB.h\<close>, \<open>db/DBException.h\<close>). The client
  library is a parameter: a record with the functions of its C interface the code calls, over the
  state of a connection. A write behind the end of a buffer, or reading a C string that has no
  terminator, is undefined behaviour and yields \<open>None\<close>.
\<close>

section \<open>The client library and exceptions\<close>

record 'm Mysql =
  my_query :: "string \<Rightarrow> 'm \<Rightarrow> bool \<times> 'm"
  my_errno :: "'m \<Rightarrow> nat"
  my_error :: "'m \<Rightarrow> string"
  my_store_result :: "'m \<Rightarrow> (nat \<times> string option list list) option \<times> 'm"
  my_field_count :: "'m \<Rightarrow> nat"
  my_affected_rows :: "'m \<Rightarrow> ulong"
  my_insert_id :: "'m \<Rightarrow> ulong"
  my_real_escape_string :: "string \<Rightarrow> string"

record DbException =
  ex_errc :: int
  ex_msg :: string
  ex_errno :: nat
  ex_error :: "string option"

definition plain_exception :: "int \<Rightarrow> string \<Rightarrow> DbException" where
  "plain_exception c m = \<lparr>ex_errc = c, ex_msg = m, ex_errno = 0, ex_error = None\<rparr>"

definition server_exception :: "'m Mysql \<Rightarrow> 'm \<Rightarrow> string \<Rightarrow> DbException" where
  "server_exception my s m =
     \<lparr>ex_errc = - 1, ex_msg = m, ex_errno = my_errno my s, ex_error = Some (my_error my s)\<rparr>"

section \<open>Statements\<close>

definition mdb_run :: "string \<Rightarrow> 'm Mysql \<Rightarrow> string \<Rightarrow> (DbException, unit, 'm) db_op" where
  "mdb_run msg my statement s =
     (case my_query my statement s of
        (True, s') \<Rightarrow> (Inl (server_exception my s' msg), s')
      | (False, s') \<Rightarrow> (Inr (), s'))"

definition mdb_query :: "'m Mysql \<Rightarrow> string \<Rightarrow> (DbException, unit, 'm) db_op" where
  "mdb_query = mdb_run ''Query failed.''"

definition mdb_query_and_check :: "'m Mysql \<Rightarrow> string \<Rightarrow> (DbException, ulong, 'm) db_op" where
  "mdb_query_and_check my statement s =
     (case mdb_run ''Query failed.'' my statement s of
        (Inl e, s') \<Rightarrow> (Inl e, s')
      | (Inr _, s') \<Rightarrow> (Inr (my_affected_rows my s'), s'))"

text \<open>
  \<open>insert\<close>: the result says whether the statement generated an identifier, and the new value of the
  target, narrowed to its type.
\<close>

definition mdb_insert :: "(ulong \<Rightarrow> 'i) \<Rightarrow> 'm Mysql \<Rightarrow> string \<Rightarrow> 'i \<Rightarrow> (DbException, bool \<times> 'i, 'm) db_op" where
  "mdb_insert narrow my statement target s =
     (case mdb_run ''Query failed.'' my statement s of
        (Inl e, s') \<Rightarrow> (Inl e, s')
      | (Inr _, s') \<Rightarrow>
          (case my_store_result my s' of
             (res, s'') \<Rightarrow>
               if res = None \<and> my_field_count my s'' = 0 \<and> my_insert_id my s'' \<noteq> 0
               then (Inr (True, narrow (my_insert_id my s'')), s'')
               else (Inr (False, target), s'')))"

definition mdb_insert_int :: "'m Mysql \<Rightarrow> string \<Rightarrow> cint \<Rightarrow> (DbException, bool \<times> cint, 'm) db_op" where
  "mdb_insert_int = mdb_insert ucast"

definition mdb_insert_long :: "'m Mysql \<Rightarrow> string \<Rightarrow> slong \<Rightarrow> (DbException, bool \<times> slong, 'm) db_op" where
  "mdb_insert_long = mdb_insert id"

definition mdb_begin :: "'m Mysql \<Rightarrow> (DbException, unit, 'm) db_op" where
  "mdb_begin my = mdb_run ''Starting transaction failed.'' my ''START TRANSACTION''"

definition mdb_rollback :: "'m Mysql \<Rightarrow> (DbException, unit, 'm) db_op" where
  "mdb_rollback my = mdb_run ''Transaction rollback failed.'' my ''ROLLBACK''"

definition mdb_commit :: "'m Mysql \<Rightarrow> (DbException, unit, 'm) db_op" where
  "mdb_commit my = mdb_run ''Transaction commit failed.'' my ''COMMIT''"

section \<open>Fetching one value\<close>

text \<open>
  \<open>fetch_impl\<close> with the converter of the result's type: the first column of the first row, if
  there is one and it is not NULL.
\<close>

definition fetch_impl ::
  "(string \<Rightarrow> 'r) \<Rightarrow> 'm Mysql \<Rightarrow> string \<Rightarrow> 'r \<Rightarrow> (DbException, bool \<times> 'r, 'm) db_op" where
  "fetch_impl conv my statement result s =
     (case my_query my statement s of
        (True, s1) \<Rightarrow> (Inl (plain_exception 1 ''Query error.''), s1)
      | (False, s1) \<Rightarrow>
          (case my_store_result my s1 of
             (None, s2) \<Rightarrow> (Inl (plain_exception 1 ''Cannot store result.''), s2)
           | (Some (num_fields, rows), s2) \<Rightarrow>
               if num_fields < 1 then (Inl (plain_exception 1 ''Wrong field number.''), s2)
               else case rows of
                 (Some v # _) # _ \<Rightarrow> (Inr (True, conv v), s2)
               | _ \<Rightarrow> (Inr (False, result), s2)))"

definition fetch_int :: "'m Mysql \<Rightarrow> string \<Rightarrow> cint \<Rightarrow> (DbException, bool \<times> cint, 'm) db_op" where
  "fetch_int = fetch_impl atoi"

definition fetch_long :: "'m Mysql \<Rightarrow> string \<Rightarrow> int \<Rightarrow> (DbException, bool \<times> int, 'm) db_op" where
  "fetch_long = fetch_impl atol"

definition fetch_string :: "'m Mysql \<Rightarrow> string \<Rightarrow> string \<Rightarrow> (DbException, bool \<times> string, 'm) db_op" where
  "fetch_string = fetch_impl cstr"

section \<open>Escaping\<close>

definition STRING_BUFFER_LEN :: nat where
  "STRING_BUFFER_LEN = 127"

text \<open>The library writes its result and a NUL into a buffer of \<open>n\<close> bytes, which is then read back.\<close>

definition through_buffer :: "nat \<Rightarrow> string \<Rightarrow> string option" where
  "through_buffer n s = (if length s + 1 \<le> n then Some (cstr s) else None)"

definition mdb_escape :: "'m Mysql \<Rightarrow> string \<Rightarrow> string option" where
  "mdb_escape my str =
     (let len = length str in
      if 2 * len \<le> STRING_BUFFER_LEN
      then through_buffer (STRING_BUFFER_LEN + 1) (my_real_escape_string my str)
      else through_buffer (2 * len + 1) (my_real_escape_string my str))"

text \<open>What the library documents: at most two bytes for one, and no NUL in the result.\<close>

definition escape_law :: "'m Mysql \<Rightarrow> bool" where
  "escape_law my \<longleftrightarrow>
     (\<forall>s. length (my_real_escape_string my s) \<le> 2 * length s \<and> no_nul (my_real_escape_string my s))"

lemma escape_in_bounds:
  assumes "escape_law my"
  shows "mdb_escape my str = Some (my_real_escape_string my str)"
proof -
  have "length (my_real_escape_string my str) \<le> 2 * length str" "no_nul (my_real_escape_string my str)"
    using assms by (simp_all add: escape_law_def)
  then show ?thesis by (simp add: mdb_escape_def through_buffer_def STRING_BUFFER_LEN_def Let_def)
qed

section \<open>Rows of a prepared statement\<close>

text \<open>\<open>MYSQL_NO_DATA\<close> is 100.\<close>

definition MYSQL_NO_DATA :: int where
  "MYSQL_NO_DATA = 100"

definition row_next :: "int \<Rightarrow> nat \<Rightarrow> DbException + bool" where
  "row_next status errno =
     (if status = 0 then Inr True
      else if status = MYSQL_NO_DATA then Inr False
      else Inl \<lparr>ex_errc = - 1, ex_msg = ''Statement fetch error 222.'', ex_errno = errno, ex_error = None\<rparr>)"

text \<open>
  \<open>Row::get\<close> for strings reads the column in pieces of \<open>STRING_BUFFER_LEN\<close> bytes through a buffer of
  one byte more, which is not initialised. \<open>column offset\<close> is what
  \<open>mysql_stmt_fetch_column\<close> delivers: an error (\<open>None\<close>), or the NULL flag, the length of the whole
  value and the bytes it wrote into the buffer.
\<close>

type_synonym fetch_column = "cint \<Rightarrow> (bool \<times> nat \<times> string) option"

definition overlay :: "string \<Rightarrow> string \<Rightarrow> string" where
  "overlay bytes buffer = bytes @ drop (length bytes) buffer"

definition c_string :: "string \<Rightarrow> string option" where
  "c_string buffer = (if NUL \<in> set buffer then Some (cstr buffer) else None)"

partial_function (option) get_string_loop ::
  "fetch_column \<Rightarrow> string \<Rightarrow> cint \<Rightarrow> string \<Rightarrow> (bool \<times> string) option" where
  "get_string_loop column buffer offset result =
     (case column offset of
        None \<Rightarrow> Some (False, result)
      | Some (is_null, len, bytes) \<Rightarrow>
          if is_null then Some (False, result)
          else
            let buffer = overlay bytes buffer in
            case c_string buffer of
              None \<Rightarrow> None
            | Some piece \<Rightarrow>
                let offset = offset + word_of_nat STRING_BUFFER_LEN in
                if unat offset < len then get_string_loop column buffer offset (result @ piece)
                else Some (True, result @ piece))"

definition get_string :: "fetch_column \<Rightarrow> string \<Rightarrow> (bool \<times> string) option" where
  "get_string column buffer = get_string_loop column buffer 0 []"

text \<open>
  A column that holds \<open>v\<close>: the bytes from the offset on, as many as fit, and a terminator when there
  is room for one.
\<close>

definition column_of :: "string \<Rightarrow> fetch_column" where
  "column_of v offset =
     (let rest = drop (unat offset) v in
      Some (False, length v,
        take STRING_BUFFER_LEN rest @ (if length rest < STRING_BUFFER_LEN then [NUL] else [])))"

lemma cstr_prefix: "no_nul s \<Longrightarrow> cstr (s @ NUL # t) = s"
proof -
  assume "no_nul s"
  then have "\<And>x. x \<in> set s \<Longrightarrow> x \<noteq> NUL" by (auto simp: no_nul_def)
  then show ?thesis unfolding cstr_def by (simp add: takeWhile_append2)
qed

lemma piece_read:
  assumes "no_nul v" "length buffer = 128" "buffer ! 127 = NUL" "column_of v offset = Some (n, l, bytes)"
  shows "c_string (overlay bytes buffer) = Some (take 127 (drop (unat offset) v))"
    "length (overlay bytes buffer) = 128" "overlay bytes buffer ! 127 = NUL"
proof -
  let ?rest = "drop (unat offset) v"
  have nn: "no_nul (take 127 ?rest)"
    using assms(1) unfolding no_nul_def by (meson in_set_dropD in_set_takeD)
  have b: "bytes = take 127 ?rest @ (if length ?rest < 127 then [NUL] else [])"
    using assms(4) by (auto simp: column_of_def STRING_BUFFER_LEN_def Let_def)
  have len: "length bytes \<le> 127" using b by (simp split: if_splits)
  show "length (overlay bytes buffer) = 128" "overlay bytes buffer ! 127 = NUL"
    using len assms(2,3) by (auto simp: overlay_def nth_append)
  have tail: "\<exists>t. overlay bytes buffer = take 127 ?rest @ NUL # t"
  proof (cases "length ?rest < 127")
    case True
    then show ?thesis using b by (simp add: overlay_def)
  next
    case False
    then have "drop (length bytes) buffer = [NUL]"
      using b assms(2,3) by (simp add: list_eq_iff_nth_eq)
    then show ?thesis using b False by (simp add: overlay_def)
  qed
  then show "c_string (overlay bytes buffer) = Some (take 127 ?rest)"
    using cstr_prefix [OF nn] by (auto simp: c_string_def)
qed

lemma get_string_loop_column:
  assumes "no_nul v" "length buffer = 128" "buffer ! 127 = NUL" "length v < 2 ^ 31"
    "unat offset \<le> length v"
  shows "get_string_loop (column_of v) buffer offset (take (unat offset) v) = Some (True, v)"
  using assms(2,3,5)
proof (induction "length v - unat offset" arbitrary: offset buffer rule: less_induct)
  case less
  let ?rest = "drop (unat offset) v"
  obtain bytes where c: "column_of v offset = Some (False, length v, bytes)"
    by (simp add: column_of_def Let_def)
  note p = piece_read [OF assms(1) less.prems(1,2) c]
  have o: "unat (offset + 127) = unat offset + 127"
    using less.prems(3) assms(4) by (simp add: unat_word_ariths)
  have acc: "take (unat offset) v @ take 127 ?rest = take (unat offset + 127) v"
    by (simp add: take_add)
  show ?case
  proof (cases "unat offset + 127 < length v")
    case True
    then show ?thesis
      using less.hyps [of "offset + 127" "overlay bytes buffer"] p o acc c
      by (subst get_string_loop.simps) (simp add: STRING_BUFFER_LEN_def Let_def)
  next
    case False
    then show ?thesis
      using p o acc c by (subst get_string_loop.simps) (simp add: STRING_BUFFER_LEN_def Let_def)
  qed
qed

lemma get_string_column:
  "no_nul v \<Longrightarrow> length v < 2 ^ 31 \<Longrightarrow> length buffer = 128 \<Longrightarrow> buffer ! 127 = NUL \<Longrightarrow>
    get_string (column_of v) buffer = Some (True, v)"
  using get_string_loop_column [of v buffer 0] by (simp add: get_string_def)

text \<open>With a stale last byte, a value of at least 127 bytes is read behind the end of the buffer.\<close>

lemma get_string_overrun:
  assumes "no_nul v" "127 \<le> length v" "length buffer = 128" "buffer ! 127 \<noteq> NUL"
  shows "get_string (column_of v) buffer = None"
proof -
  have "drop 127 buffer = [buffer ! 127]"
    using assms(3) by (simp add: list_eq_iff_nth_eq)
  then have "overlay (take 127 v) buffer = take 127 v @ [buffer ! 127]"
    using assms(2) by (simp add: overlay_def)
  moreover have "no_nul (take 127 v)"
    using assms(1) unfolding no_nul_def by (meson in_set_takeD)
  ultimately have "c_string (overlay (take 127 v) buffer) = None"
    using assms(4) by (auto simp: c_string_def no_nul_def)
  then show ?thesis
    using assms(2) unfolding get_string_def
    by (subst get_string_loop.simps) (simp add: column_of_def STRING_BUFFER_LEN_def Let_def)
qed

end
