(* ===== verification/Query.thy ===== *)
theory Query
  imports Uri_Laws
begin

text \<open>
  The query string of a management request: \<open>core/helpers/QueryString.h\<close> and
  \<open>core/helpers/CoreQueryStr.h\<close>, two readers over the same iteration of \<open>Uri::Parser\<close>. The
  iteration is a loop whose every step may touch the string, so it is a partial function; the
  laws of the iterator show that it always returns.
\<close>

section \<open>The reading loop\<close>

text \<open>
  \<open>store kv s\<close> is the body of the loop: the sinks applied to one pair, and whether the pair was
  refused. The result is the error flag and the fields.
\<close>

partial_function (option) read_query ::
  "(string \<times> string \<Rightarrow> 's \<Rightarrow> bool \<times> 's) \<Rightarrow> Parser \<Rightarrow> 's \<Rightarrow> (bool \<times> 's) option" where
  "read_query store p s =
     (if parser_bool p then
        Option.bind (parser_deref p) (\<lambda>kv.
          let (bad, s') = store kv s in
          if bad then Some (True, s')
          else Option.bind (parser_next p) (\<lambda>p'. read_query store p' s'))
      else Some (\<not> ps_ok p, s))"

text \<open>The chain of sinks: each is tried only when those before it did not take the key.\<close>

definition or_else :: "bool \<times> 'a \<times> bool \<Rightarrow> ('a \<Rightarrow> bool \<times> 'a \<times> bool) \<Rightarrow> bool \<times> 'a \<times> bool" where
  "or_else r k =
     (case r of (res, s, err) \<Rightarrow>
        if res then (res, s, err) else (case k s of (res', s', err') \<Rightarrow> (res', s', err \<or> err')))"

definition refused :: "bool \<times> 'a \<times> bool \<Rightarrow> bool \<times> 'a" where
  "refused r = (case r of (res, s, err) \<Rightarrow> (\<not> res \<or> err, s))"

section \<open>QueryString\<close>

record QueryString =
  qs_page :: string
  qs_item_per_page :: string
  qs_sort_field :: string
  qs_direction :: string

definition init_QueryString :: QueryString where
  "init_QueryString =
     \<lparr>qs_page = [], qs_item_per_page = [], qs_sort_field = ''id'', qs_direction = ''ASC''\<rparr>"

definition store_QueryString ::
  "string list \<Rightarrow> string \<times> string \<Rightarrow> QueryString \<Rightarrow> bool \<times> QueryString" where
  "store_QueryString il kv q = refused
     (or_else (or_else (or_else
       (let (r, t, e) = sink_as_ulong ''page'' kv (qs_page q) in (r, q\<lparr>qs_page := t\<rparr>, e))
       (\<lambda>q. let (r, t, e) = sink_as_ulong ''item_per_page'' kv (qs_item_per_page q)
            in (r, q\<lparr>qs_item_per_page := t\<rparr>, e)))
       (\<lambda>q. let (r, t, e) = sink_enum ''direction'' [''ASC'', ''DESC''] kv (qs_direction q)
            in (r, q\<lparr>qs_direction := t\<rparr>, e)))
       (\<lambda>q. let (r, t, e) = sink_order ''sort_field'' il kv (qs_sort_field q)
            in (r, q\<lparr>qs_sort_field := t\<rparr>, e)))"

definition new_QueryString :: "Uri \<Rightarrow> string list \<Rightarrow> (bool \<times> QueryString) option" where
  "new_QueryString u il = read_query (store_QueryString il) (new_Parser u) init_QueryString"

definition qs_isInvalid :: "QueryString \<Rightarrow> bool" where
  "qs_isInvalid q \<longleftrightarrow>
     (qs_page q = [] \<and> qs_item_per_page q \<noteq> []) \<or> (qs_page q \<noteq> [] \<and> qs_item_per_page q = [])"

section \<open>CoreQueryStr\<close>

record CoreQueryStr =
  cq_page :: ulong
  cq_item_per_page :: ulong
  cq_sort_field :: string
  cq_direction :: string

definition init_CoreQueryStr :: CoreQueryStr where
  "init_CoreQueryStr =
     \<lparr>cq_page = - 1, cq_item_per_page = - 1, cq_sort_field = ''id'', cq_direction = ''ASC''\<rparr>"

definition store_CoreQueryStr ::
  "string list \<Rightarrow> string \<times> string \<Rightarrow> CoreQueryStr \<Rightarrow> bool \<times> CoreQueryStr" where
  "store_CoreQueryStr il kv q = refused
     (or_else (or_else (or_else
       (let (r, t, e) = sink_ulong ''page'' kv (cq_page q) in (r, q\<lparr>cq_page := t\<rparr>, e))
       (\<lambda>q. let (r, t, e) = sink_ulong ''item_per_page'' kv (cq_item_per_page q)
            in (r, q\<lparr>cq_item_per_page := t\<rparr>, e)))
       (\<lambda>q. let (r, t, e) = sink_enum ''direction'' [''ASC'', ''DESC''] kv (cq_direction q)
            in (r, q\<lparr>cq_direction := t\<rparr>, e)))
       (\<lambda>q. let (r, t, e) = sink_enum ''sort_field'' il kv (cq_sort_field q)
            in (r, q\<lparr>cq_sort_field := t\<rparr>, e)))"

definition new_CoreQueryStr :: "Uri \<Rightarrow> string list \<Rightarrow> (bool \<times> CoreQueryStr) option" where
  "new_CoreQueryStr u il = read_query (store_CoreQueryStr il) (new_Parser u) init_CoreQueryStr"

definition hasPage :: "CoreQueryStr \<Rightarrow> bool" where
  "hasPage q \<longleftrightarrow> cq_page q \<noteq> - 1"

definition hasItemPerPage :: "CoreQueryStr \<Rightarrow> bool" where
  "hasItemPerPage q \<longleftrightarrow> cq_item_per_page q \<noteq> - 1"

definition cq_isInvalid :: "CoreQueryStr \<Rightarrow> bool" where
  "cq_isInvalid q \<longleftrightarrow> (\<not> hasPage q \<and> hasItemPerPage q) \<or> (hasPage q \<and> \<not> hasItemPerPage q)"

section \<open>The iterator\<close>

text \<open>
  While the iterator says it has a pair, \<open>val\<close> points at an equals sign strictly behind \<open>key\<close>.
\<close>

definition iter_inv :: "Parser \<Rightarrow> bool" where
  "iter_inv ps \<longleftrightarrow>
     no_nul (ps_key ps) \<and>
     (ps_ok ps \<and> ps_key ps \<noteq> [] \<longrightarrow>
        (case ps_val ps of None \<Rightarrow> False
         | Some val \<Rightarrow> val \<noteq> [] \<and> no_nul val \<and> length val < length (ps_key ps)))"

lemma scan_for_suffix: "\<exists>u. q = u @ scan_for c q \<and> c \<notin> set u"
proof (induction q)
  case (Cons d q)
  then obtain u where "q = u @ scan_for c q" "c \<notin> set u" by blast
  then show ?case by (cases "d = c") (auto intro: exI [of _ "[]"] exI [of _ "d # u"])
qed simp

lemma length_scan_for: "length (scan_for c q) \<le> length q"
  by (induction q) auto

lemma no_nul_scan_for [simp]: "no_nul q \<Longrightarrow> no_nul (scan_for c q)"
  by (induction q) auto

lemma scan_for_append [simp]: "c \<notin> set u \<Longrightarrow> scan_for c (u @ c # v) = c # v"
  by (induction u) auto

lemma scan_for_absent [simp]: "c \<notin> set u \<Longrightarrow> scan_for c u = []"
  by (induction u) auto

lemma new_Parser_inv [simp]: "iter_inv (new_Parser u)"
proof -
  let ?key = "scan_for (CHR ''?'') (cstr (drop (uri_p u) (uri_str u)))"
  have n: "no_nul ?key" by simp
  show ?thesis
  proof (cases ?key)
    case Nil
    then show ?thesis by (simp add: new_Parser_def iter_inv_def)
  next
    case (Cons c q)
    then have q: "no_nul q" using n by simp
    show ?thesis
      using Cons q star_NUL [of "scan_for (CHR ''='') q"] length_scan_for [of "CHR ''=''" q] n
      by (simp add: new_Parser_def iter_inv_def Let_def)
  qed
qed

lemma iter_bool: "iter_inv ps \<Longrightarrow> parser_bool ps \<longleftrightarrow> ps_ok ps \<and> ps_key ps \<noteq> []"
  by (simp add: iter_inv_def parser_bool_def star_NUL)

lemma iter_deref: "iter_inv ps \<Longrightarrow> parser_bool ps \<Longrightarrow> \<exists>kv. parser_deref ps = Some kv"
  by (auto simp: iter_bool iter_inv_def parser_deref_def succ_ptr_def Let_def neq_Nil_conv
      split: option.splits list.splits)

lemma iter_next:
  assumes "iter_inv ps" "parser_bool ps"
  shows "\<exists>ps'. parser_next ps = Some ps' \<and> iter_inv ps' \<and> length (ps_key ps') < length (ps_key ps)"
proof -
  obtain c v where v: "ps_val ps = Some (c # v)" "no_nul v" "length v + 1 < length (ps_key ps)"
    using assms by (auto simp: iter_bool iter_inv_def neq_Nil_conv split: option.splits)
  let ?key = "scan_for (CHR ''&'') v"
  have k: "no_nul ?key" "length ?key \<le> length v"
    using v(2) length_scan_for by auto
  show ?thesis
  proof (cases ?key)
    case Nil
    then show ?thesis using v by (auto simp: parser_next_def succ_ptr_def iter_inv_def)
  next
    case (Cons d r)
    then have r: "no_nul r" using k by simp
    show ?thesis
      using Cons v k r star_NUL [of "scan_for (CHR ''='') r"] length_scan_for [of "CHR ''=''" r]
      by (simp add: parser_next_def succ_ptr_def iter_inv_def Let_def)
  qed
qed

section \<open>Readers\<close>

text \<open>
  What the two readers share: a store that keeps a property of its fields whenever it accepts a
  pair. The loop then returns on every URI, and whatever it accepts has the property.
\<close>

locale query_reader =
  fixes store :: "string \<times> string \<Rightarrow> 's \<Rightarrow> bool \<times> 's"
    and good :: "'s \<Rightarrow> bool"
  assumes store_good: "good s \<Longrightarrow> store kv s = (False, s') \<Longrightarrow> good s'"
begin

lemma read_total:
  assumes "iter_inv p"
  shows "\<exists>err s'. read_query store p s = Some (err, s') \<and> (good s \<and> \<not> err \<longrightarrow> good s')"
  using assms
proof (induction "length (ps_key p)" arbitrary: p s rule: less_induct)
  case less
  show ?case
  proof (cases "parser_bool p")
    case False
    then show ?thesis by (simp add: read_query.simps)
  next
    case True
    obtain kv where kv: "parser_deref p = Some kv"
      using iter_deref [OF less.prems True] by blast
    obtain p' where p': "parser_next p = Some p'" "iter_inv p'" "length (ps_key p') < length (ps_key p)"
      using iter_next [OF less.prems True] by blast
    obtain bad s' where s': "store kv s = (bad, s')" by fastforce
    have eq: "read_query store p s = (if bad then Some (True, s') else read_query store p' s')"
      using True kv p'(1) s' by (subst read_query.simps) simp
    show ?thesis
    proof (cases bad)
      case True
      then show ?thesis using eq by auto
    next
      case False
      moreover obtain err t where "read_query store p' s' = Some (err, t)"
        "good s' \<and> \<not> err \<longrightarrow> good t" using less.hyps [OF p'(3,2)] by blast
      ultimately show ?thesis using eq s' store_good [of s kv s'] by auto
    qed
  qed
qed

end

text \<open>What an accepted \<open>QueryString\<close> guarantees to the code that builds SQL from it.\<close>

definition qs_good :: "string list \<Rightarrow> QueryString \<Rightarrow> bool" where
  "qs_good il q \<longleftrightarrow>
     (qs_page q = [] \<or> converts_ulong (qs_page q))
     \<and> (qs_item_per_page q = [] \<or> converts_ulong (qs_item_per_page q))
     \<and> qs_direction q \<in> {''ASC'', ''DESC''}
     \<and> (qs_sort_field q = ''id'' \<or> (\<exists>i < length il. qs_sort_field q = [char_of (49 + i)]))"

definition cq_good :: "string list \<Rightarrow> CoreQueryStr \<Rightarrow> bool" where
  "cq_good il q \<longleftrightarrow>
     cq_direction q \<in> {''ASC'', ''DESC''} \<and> cq_sort_field q \<in> insert ''id'' (set il)"

lemma order_index_nth:
  assumes "order_index (char_of (n + 48)) il v = Some c"
  shows "\<exists>i < length il. c = char_of (n + 49 + i)"
  using assms
proof (induction il arbitrary: n)
  case (Cons x xs)
  have [simp]: "(char_of (Suc ((n + 48) mod 256)) :: char) = char_of (n + 49)"
    by (rule code_eq_iff [THEN iffD1]) (simp add: mod_simps add.commute)
  show ?case
  proof (cases "v = x")
    case True
    then show ?thesis using Cons.prems by (auto simp: Let_def intro: exI [of _ 0])
  next
    case False
    then have "order_index (char_of (Suc n + 48)) xs v = Some c"
      using Cons.prems by (simp add: Let_def add.commute)
    from Cons.IH [OF this] obtain i where "i < length xs" "c = char_of (Suc n + 49 + i)" by blast
    then show ?thesis by (intro exI [of _ "Suc i"]) (simp add: add.commute add.left_commute)
  qed
qed simp

lemma char_of_48: "CHR ''0'' = char_of (0 + 48 :: nat)"
  by (rule code_eq_iff [THEN iffD1]) simp

lemma store_QueryString_good:
  "qs_good il q \<Longrightarrow> store_QueryString il kv q = (False, q') \<Longrightarrow> qs_good il q'"
  using order_index_nth [of 0 il "snd kv"]
  by (auto simp: qs_good_def store_QueryString_def refused_def or_else_def sink_as_ulong_def
      sink_enum_def sink_order_def char_of_48 Let_def split: if_splits option.splits)

lemma store_CoreQueryStr_good:
  "cq_good il q \<Longrightarrow> store_CoreQueryStr il kv q = (False, q') \<Longrightarrow> cq_good il q'"
  by (auto simp: cq_good_def store_CoreQueryStr_def refused_def or_else_def sink_ulong_def
      sink_enum_def Let_def split: if_splits prod.splits)

interpretation qsr: query_reader "store_QueryString il" "qs_good il"
  by unfold_locales (rule store_QueryString_good)

interpretation cqr: query_reader "store_CoreQueryStr il" "cq_good il"
  by unfold_locales (rule store_CoreQueryStr_good)

section \<open>Reading back an encoded query\<close>

text \<open>
  The encoding a client applies: letters and digits as they are, every other byte as a percent
  sign and two hexadecimal digits.
\<close>

definition hex_digit :: "nat \<Rightarrow> char" where
  "hex_digit d = (if d < 10 then char_of (48 + d) else char_of (55 + d))"

definition encode_char :: "char \<Rightarrow> string" where
  "encode_char c =
     (if isalnum c then [c] else [CHR ''%'', hex_digit (code c div 16), hex_digit (code c mod 16)])"

definition urlencode :: "string \<Rightarrow> string" where
  "urlencode s = concat (map encode_char s)"

definition pair_text :: "string \<times> string \<Rightarrow> string" where
  "pair_text kv = urlencode (fst kv) @ ''='' @ urlencode (snd kv)"

fun query_text :: "char \<Rightarrow> (string \<times> string) list \<Rightarrow> string" where
  "query_text sep [] = []"
| "query_text sep (kv # kvs) = sep # pair_text kv @ query_text (CHR ''&'') kvs"

lemma code_div_16 [simp]: "code c div 16 < 16"
  using code_less_256 [of c] by (simp add: less_mult_imp_div_less)

lemma from_hex_hex_digit [simp]: "d < 16 \<Longrightarrow> from_hex (hex_digit d) = d"
  by (auto simp: from_hex_def hex_digit_def isdigit_def)

lemma isalnum_neq:
  "isalnum c \<Longrightarrow> c \<noteq> CHR ''%''" "isalnum c \<Longrightarrow> c \<noteq> CHR ''+''" "isalnum c \<Longrightarrow> c \<noteq> CHR ''&''"
  "isalnum c \<Longrightarrow> c \<noteq> CHR ''=''" "isalnum c \<Longrightarrow> c \<noteq> CHR ''?''" "isalnum c \<Longrightarrow> c \<noteq> NUL"
  by (auto simp: isalnum_def isalpha_def isupper_def islower_def isdigit_def code_def)

lemma urldecode_alnum: "isalnum c \<Longrightarrow> urldecode (c # s) = c # urldecode s"
  using isalnum_neq [of c] by (auto split: list.split)

lemma urldecode_urlencode_append: "urldecode (urlencode s) = s"
proof (induction s)
  case (Cons c s)
  show ?case
  proof (cases "isalnum c")
    case True
    then show ?thesis
      using Cons urldecode_alnum [of c "urlencode s"] by (simp add: urlencode_def encode_char_def)
  next
    case False
    then show ?thesis
      using Cons by (simp add: urlencode_def encode_char_def code_div_16)
  qed
qed (simp add: urlencode_def)

lemma isalnum_hex_digit: "d < 16 \<Longrightarrow> isalnum (hex_digit d)"
  by (auto simp: hex_digit_def isalnum_def isalpha_def isupper_def isdigit_def)

lemma urlencode_chars: "c \<in> set (urlencode s) \<Longrightarrow> isalnum c \<or> c = CHR ''%''"
  by (auto simp: urlencode_def encode_char_def isalnum_hex_digit code_div_16 split: if_splits)

lemma urlencode_free [simp]:
  "CHR ''&'' \<notin> set (urlencode s)" "CHR ''='' \<notin> set (urlencode s)" "CHR ''?'' \<notin> set (urlencode s)"
  "no_nul (urlencode s)"
  using urlencode_chars [of "CHR ''&''" s] urlencode_chars [of "CHR ''=''" s]
    urlencode_chars [of "CHR ''?''" s] urlencode_chars [of NUL s] isalnum_neq(3-6)
  by (auto simp: no_nul_def)

lemma no_nul_query_text [simp]: "sep \<noteq> NUL \<Longrightarrow> no_nul (query_text sep kvs)"
  by (induction kvs arbitrary: sep) (auto simp: pair_text_def)

text \<open>The iterator stands at the first pair of \<open>kvs\<close>.\<close>

fun presents :: "Parser \<Rightarrow> (string \<times> string) list \<Rightarrow> bool" where
  "presents ps [] \<longleftrightarrow> ps_ok ps \<and> ps_key ps = []"
| "presents ps (kv # kvs) \<longleftrightarrow>
     ps_ok ps \<and> (\<exists>sep. sep \<noteq> NUL \<and> ps_key ps = query_text sep (kv # kvs))
     \<and> ps_val ps = Some (CHR ''='' # urlencode (snd kv) @ query_text (CHR ''&'') kvs)"

lemma scan_amp: "scan_for (CHR ''&'') (urlencode v @ query_text (CHR ''&'') kvs) = query_text (CHR ''&'') kvs"
  by (cases kvs) simp_all

lemma presents_new:
  assumes "uri_rest u = path @ query_text (CHR ''?'') kvs" "no_nul path" "CHR ''?'' \<notin> set path"
  shows "presents (new_Parser u) kvs"
proof -
  have "cstr (drop (uri_p u) (uri_str u)) = path @ query_text (CHR ''?'') kvs"
    using assms(1,2) by (simp add: uri_rest_def)
  then show ?thesis
    using assms(3) by (cases kvs) (auto simp: new_Parser_def pair_text_def star_def Let_def)
qed

lemma presents_deref: "presents ps (kv # kvs) \<Longrightarrow> parser_deref ps = Some kv"
  by (auto simp: parser_deref_def succ_ptr_def pair_text_def scan_amp Let_def
      urldecode_urlencode_append)

lemma presents_next:
  "presents ps (kv # kvs) \<Longrightarrow> \<exists>ps'. parser_next ps = Some ps' \<and> presents ps' kvs"
  by (cases kvs) (auto simp: parser_next_def succ_ptr_def pair_text_def scan_amp star_def Let_def)

fun store_all :: "(string \<times> string \<Rightarrow> 's \<Rightarrow> bool \<times> 's) \<Rightarrow> (string \<times> string) list \<Rightarrow> 's \<Rightarrow> bool \<times> 's" where
  "store_all store [] s = (False, s)"
| "store_all store (kv # kvs) s =
     (let (bad, s') = store kv s in if bad then (True, s') else store_all store kvs s')"

lemma read_query_presents:
  "presents ps kvs \<Longrightarrow> read_query store ps s = Some (store_all store kvs s)"
proof (induction kvs arbitrary: ps s)
  case Nil
  then show ?case by (subst read_query.simps) (simp add: parser_bool_def star_def)
next
  case (Cons kv kvs)
  obtain ps' where "parser_next ps = Some ps'" "presents ps' kvs"
    using presents_next [OF Cons.prems] by blast
  moreover have "parser_bool ps"
    using Cons.prems by (auto simp: parser_bool_def star_def)
  ultimately show ?case
    using presents_deref [OF Cons.prems] Cons.IH
    by (subst read_query.simps) (auto split: prod.split)
qed

end
