(* ===== verification/Core.thy ===== *)
theory Core
  imports Response DbPool
begin

text \<open>
  Dispatching a request to the endpoints of a core system: \<open>core/Core.h\<close>, \<open>core/CoreUtils.h\<close> and the
  routing tables of the services (\<open>core/apps/Authorization/Authorization.h\<close>,
  \<open>DevRegistry/DevRegistry.h\<close>, \<open>CertAuthority/CertAuthority.h\<close>, \<open>Orchestrator/Orchestrator.h\<close>,
  \<open>Gateway/Gateway.h\<close>). The endpoints are parameters here: functions on a request and the state of
  the system behind them. The pool of databases is part of the state, because every endpoint runs
  with a connection taken from it; \<open>None\<close> means that the request waits for a database (or that a
  read left the URI, which the laws exclude).
\<close>

section \<open>Handlers\<close>

type_synonym 'w endpoint = "Request \<Rightarrow> 'w \<Rightarrow> Response \<times> 'w"
type_synonym 'w state = "DatabasePool \<times> 'w"
type_synonym 'w outcome = "(Response \<times> 'w state) option"

definition reply :: "Response \<Rightarrow> 'w state \<Rightarrow> 'w outcome" where
  "reply r s = Some (r, s)"

text \<open>
  \<open>auto db = database();\<close> followed by a call of the endpoint: the connection is the newest handle of
  the pool and is destroyed when the call returns.
\<close>

definition with_database :: "'w endpoint \<Rightarrow> Request \<Rightarrow> 'w state \<Rightarrow> 'w outcome" where
  "with_database ep req s =
     (case connect (fst s) of
        None \<Rightarrow> None
      | Some po \<Rightarrow>
          (let (resp, w) = ep req (snd s) in Some (resp, destroy_conn (length (po_conns po) - 1) po, w)))"

definition invokeIf :: "string \<Rightarrow> Request \<Rightarrow> (Request \<Rightarrow> 'w state \<Rightarrow> 'w outcome) \<Rightarrow> 'w state \<Rightarrow> 'w outcome" where
  "invokeIf method req f s =
     (if rq_method req = method then f req s
      else if rq_method req = ''OPTIONS'' then reply (options OK method) s
      else reply (from_stock MethodNotAllowed) s)"

text \<open>The two overloads of \<open>Core::invoke\<close> that call \<open>handle\<close> of an endpoint.\<close>

definition invoke_method :: "'w endpoint \<Rightarrow> string \<Rightarrow> Request \<Rightarrow> 'w state \<Rightarrow> 'w outcome" where
  "invoke_method ep method req s =
     (if rq_method req = method then with_database ep req s
      else if rq_method req = ''OPTIONS'' then reply (options OK method) s
      else reply (from_stock MethodNotAllowed) s)"

definition invoke :: "'w endpoint \<Rightarrow> Request \<Rightarrow> 'w state \<Rightarrow> 'w outcome" where
  "invoke ep req s = with_database ep req s"

text \<open>\<open>Core::handle\<close>: the default implementation, by method. Each callback defaults to 404.\<close>

record 'w Callbacks =
  cb_get :: "Request \<Rightarrow> 'w state \<Rightarrow> 'w outcome"
  cb_delete :: "Request \<Rightarrow> 'w state \<Rightarrow> 'w outcome"
  cb_post :: "Request \<Rightarrow> 'w state \<Rightarrow> 'w outcome"
  cb_put :: "Request \<Rightarrow> 'w state \<Rightarrow> 'w outcome"
  cb_patch :: "Request \<Rightarrow> 'w state \<Rightarrow> 'w outcome"
  cb_head :: "Request \<Rightarrow> 'w state \<Rightarrow> 'w outcome"
  cb_options :: "Request \<Rightarrow> 'w state \<Rightarrow> 'w outcome"

definition not_found :: "Request \<Rightarrow> 'w state \<Rightarrow> 'w outcome" where
  "not_found req s = reply (from_stock NotFound) s"

definition default_callbacks :: "'w Callbacks" where
  "default_callbacks =
     \<lparr>cb_get = not_found, cb_delete = not_found, cb_post = not_found, cb_put = not_found,
      cb_patch = not_found, cb_head = not_found, cb_options = not_found\<rparr>"

definition core_handle :: "'w Callbacks \<Rightarrow> Request \<Rightarrow> 'w state \<Rightarrow> 'w outcome" where
  "core_handle cb req s =
     (let m = rq_method req in
      if m = ''GET'' then cb_get cb req s
      else if m = ''DELETE'' then cb_delete cb req s
      else if m = ''POST'' then cb_post cb req s
      else if m = ''PUT'' then cb_put cb req s
      else if m = ''PATCH'' then cb_patch cb req s
      else if m = ''HEAD'' then cb_head cb req s
      else if m = ''OPTIONS'' then cb_options cb req s
      else reply (from_stock MethodNotAllowed) s)"

section \<open>CRUD endpoints\<close>

record 'w Crud =
  cr_post :: "'w endpoint"
  cr_get :: "'w endpoint"
  cr_get_id :: "ulong \<Rightarrow> 'w endpoint"
  cr_put :: "ulong \<Rightarrow> 'w endpoint"
  cr_patch :: "ulong \<Rightarrow> 'w endpoint"
  cr_delete :: "ulong \<Rightarrow> 'w endpoint"

text \<open>
  With an identifier, the connection is taken before the method is looked at; a method that no branch
  handles gives it back unused.
\<close>

definition crud_id :: "'w Crud \<Rightarrow> ulong \<Rightarrow> 'w endpoint" where
  "crud_id ep ident req w =
     (let m = rq_method req in
      if m = ''GET'' then cr_get_id ep ident req w
      else if m = ''PUT'' then cr_put ep ident req w
      else if m = ''PATCH'' then cr_patch ep ident req w
      else if m = ''DELETE'' then cr_delete ep ident req w
      else (from_stock MethodNotAllowed, w))"

definition crudify :: "'w Crud \<Rightarrow> ulong \<Rightarrow> Request \<Rightarrow> 'w state \<Rightarrow> 'w outcome" where
  "crudify ep uninit req s =
     (if rq_method req = ''OPTIONS'' then reply (options OK ''GET, POST, PUT, PATCH, DELETE'') s
      else case uri_empty (rq_uri req) of
        None \<Rightarrow> None
      | Some True \<Rightarrow>
          if rq_method req = ''POST'' then with_database (cr_post ep) req s
          else if rq_method req = ''GET'' then with_database (cr_get ep) req s
          else reply (from_stock MethodNotAllowed) s
      | Some False \<Rightarrow>
          (case pathId (rq_uri req) uninit of
             None \<Rightarrow> None
           | Some (ok, ident) \<Rightarrow>
               if ok then with_database (crud_id ep ident) req s
               else reply (from_stock MethodNotAllowed) s))"

section \<open>Routing tables\<close>

text \<open>
  \<open>if (req.uri.compare(path)) return k(req);\<close> and the same for \<open>consume\<close>, in front of the rest of a
  handler. Both leave the position of the URI alone when they fail.
\<close>

definition on_compare ::
  "string \<Rightarrow> (Request \<Rightarrow> 'w state \<Rightarrow> 'w outcome) \<Rightarrow> (Request \<Rightarrow> 'w state \<Rightarrow> 'w outcome) \<Rightarrow> Request \<Rightarrow> 'w state \<Rightarrow> 'w outcome" where
  "on_compare path k otherwise req s =
     (case compare_lit path (rq_uri req) of
        None \<Rightarrow> None
      | Some (True, u) \<Rightarrow> k (req\<lparr>rq_uri := u\<rparr>) s
      | Some (False, u) \<Rightarrow> otherwise (req\<lparr>rq_uri := u\<rparr>) s)"

definition on_consume ::
  "string \<Rightarrow> (Request \<Rightarrow> 'w state \<Rightarrow> 'w outcome) \<Rightarrow> (Request \<Rightarrow> 'w state \<Rightarrow> 'w outcome) \<Rightarrow> Request \<Rightarrow> 'w state \<Rightarrow> 'w outcome" where
  "on_consume path k otherwise req s =
     (case consume_lit path (rq_uri req) of
        None \<Rightarrow> None
      | Some (True, u) \<Rightarrow> k (req\<lparr>rq_uri := u\<rparr>) s
      | Some (False, u) \<Rightarrow> otherwise (req\<lparr>rq_uri := u\<rparr>) s)"

definition urlEcho :: "Request \<Rightarrow> 'w state \<Rightarrow> 'w outcome" where
  "urlEcho req s = reply (from_stock OK) s"

definition echo_route :: "(Request \<Rightarrow> 'w state \<Rightarrow> 'w outcome) \<Rightarrow> Request \<Rightarrow> 'w state \<Rightarrow> 'w outcome" where
  "echo_route = on_compare ''/echo'' (\<lambda>req. invokeIf ''GET'' req urlEcho)"

text \<open>The gateway only answers to an echo.\<close>

definition gateway_handle :: "Request \<Rightarrow> 'w state \<Rightarrow> 'w outcome" where
  "gateway_handle = echo_route not_found"

record 'w AuthEndpoints =
  ae_intra :: "'w endpoint"
  ae_inter :: "'w endpoint"
  ae_intra_check :: "'w endpoint"
  ae_inter_check :: "'w endpoint"
  ae_token :: "'w endpoint"

definition urlPublicKey :: "Request \<Rightarrow> 'w state \<Rightarrow> 'w outcome" where
  "urlPublicKey req s = reply (from_stock OK) s"

definition authorization_handle :: "'w AuthEndpoints \<Rightarrow> Request \<Rightarrow> 'w state \<Rightarrow> 'w outcome" where
  "authorization_handle ep =
     echo_route
     (on_compare ''/publickey'' (\<lambda>req. invokeIf ''GET'' req urlPublicKey)
     (on_consume ''/mgmt/intracloud'' (invoke (ae_intra ep))
     (on_consume ''/mgmt/intercloud'' (invoke (ae_inter ep))
     (on_consume ''/intracloud/check'' (invoke_method (ae_intra_check ep) ''POST'')
     (on_consume ''/intercloud/check'' (invoke_method (ae_inter_check ep) ''POST'')
     (on_consume ''/token'' (invoke_method (ae_token ep) ''POST'')
     not_found))))))"

record 'w DevEndpoints =
  de_query :: "'w endpoint"
  de_register :: "'w endpoint"
  de_unregister :: "'w endpoint"
  de_device :: "'w endpoint"
  de_devices :: "'w Crud"
  de_registry :: "'w Crud"

definition devregistry_handle :: "'w DevEndpoints \<Rightarrow> ulong \<Rightarrow> Request \<Rightarrow> 'w state \<Rightarrow> 'w outcome" where
  "devregistry_handle ep uninit =
     echo_route
     (on_compare ''/query'' (invoke_method (de_query ep) ''POST'')
     (on_compare ''/register'' (invoke_method (de_register ep) ''POST'')
     (on_compare ''/unregister'' (invoke_method (de_unregister ep) ''DELETE'')
     (on_consume ''/mgmt/device'' (invoke_method (de_device ep) ''GET'')
     (on_consume ''/mgmt/devices'' (crudify (de_devices ep) uninit)
     (on_consume ''/mgmt'' (crudify (de_registry ep) uninit)
     not_found))))))"

record 'w CaEndpoints =
  ca_mgmt :: "'w endpoint"
  ca_check_trusted_key :: "Request \<Rightarrow> 'w state \<Rightarrow> 'w outcome"

definition urlCheckCertificate :: "Request \<Rightarrow> 'w state \<Rightarrow> 'w outcome" where
  "urlCheckCertificate req s = reply (from_stock NotImplemented) s"

definition certauthority_handle :: "'w CaEndpoints \<Rightarrow> Request \<Rightarrow> 'w state \<Rightarrow> 'w outcome" where
  "certauthority_handle ep =
     echo_route
     (on_consume ''/mgmt'' (with_database (ca_mgmt ep))
     (on_compare ''/checkTrustedKey'' (\<lambda>req. invokeIf ''POST'' req (ca_check_trusted_key ep))
     (on_compare ''/checkCertificate'' (\<lambda>req. invokeIf ''POST'' req urlCheckCertificate)
     not_found)))"

text \<open>The orchestrator overrides two callbacks of the default handler.\<close>

record 'w OrchEndpoints =
  oe_by_id :: "int \<Rightarrow> 'w endpoint"
  oe_orchestrate :: "'w endpoint"

definition orchestrator_get :: "'w OrchEndpoints \<Rightarrow> int \<Rightarrow> Request \<Rightarrow> 'w state \<Rightarrow> 'w outcome" where
  "orchestrator_get ep uninit =
     on_compare ''/echo'' (\<lambda>req. reply (ok_Response ''Got it!''))
     (on_consume ''/orchestration''
       (\<lambda>req s. case pathId_int (rq_uri req) uninit of
          None \<Rightarrow> None
        | Some (Inl _) \<Rightarrow> None
        | Some (Inr (ok, ident)) \<Rightarrow>
            if ok then with_database (oe_by_id ep ident) req s else not_found req s)
     not_found)"

definition orchestrator_post :: "'w OrchEndpoints \<Rightarrow> Request \<Rightarrow> 'w state \<Rightarrow> 'w outcome" where
  "orchestrator_post ep =
     on_compare ''/orchestration'' (with_database (oe_orchestrate ep)) not_found"

definition orchestrator_handle :: "'w OrchEndpoints \<Rightarrow> int \<Rightarrow> Request \<Rightarrow> 'w state \<Rightarrow> 'w outcome" where
  "orchestrator_handle ep uninit =
     core_handle (default_callbacks\<lparr>cb_get := orchestrator_get ep uninit, cb_post := orchestrator_post ep\<rparr>)"

section \<open>The contract of a handler\<close>

text \<open>
  A handler is orderly when, on a request with a well-formed URI, it answers unless it has to wait
  for a database, and leaves the pool as it was. Routing and invocation preserve this.
\<close>

definition orderly :: "(Request \<Rightarrow> 'w state \<Rightarrow> 'w outcome) \<Rightarrow> bool" where
  "orderly h \<longleftrightarrow>
     (\<forall>req s. uri_inv (rq_uri req) \<longrightarrow>
        (case h req s of
           None \<Rightarrow> po_idxs (fst s) = []
         | Some (resp, s') \<Rightarrow> fst s' = fst s))"

lemma orderlyI:
  assumes "\<And>req s. uri_inv (rq_uri req) \<Longrightarrow> h req s = None \<Longrightarrow> po_idxs (fst s) = []"
    "\<And>req s resp s'. uri_inv (rq_uri req) \<Longrightarrow> h req s = Some (resp, s') \<Longrightarrow> fst s' = fst s"
  shows "orderly h"
  unfolding orderly_def using assms by (auto split: option.split)

lemma orderly_reply [simp]: "orderly (\<lambda>req. reply r)"
  by (rule orderlyI) (auto simp: reply_def)

lemma orderly_not_found [simp]: "orderly not_found"
  by (rule orderlyI) (auto simp: not_found_def reply_def)

lemma with_database_some:
  assumes "po_idxs (fst s) \<noteq> []"
  shows "with_database ep req s = (let (resp, w) = ep req (snd s) in Some (resp, fst s, w))"
proof -
  obtain idx rest where i: "po_idxs (fst s) = idx # rest" using assms by (cases "po_idxs (fst s)") auto
  have "destroy_conn (length (po_conns (fst s)))
      (add_conn \<lparr>dc_idx = idx, dc_deleter = True\<rparr> (fst s\<lparr>po_idxs := rest\<rparr>)) = fst s"
    using i by (cases "fst s") (simp add: destroy_conn_def add_conn_def pool_unlock_def Let_def)
  then show ?thesis
    using i by (simp add: with_database_def connect_def pool_lock_def add_conn_def)
qed

lemma with_database_none: "po_idxs (fst s) = [] \<Longrightarrow> with_database ep req s = None"
  by (simp add: with_database_def connect_def pool_lock_def)

lemma orderly_with_database [simp]: "orderly (with_database ep)"
proof (rule orderlyI)
  fix req s
  assume "with_database ep req s = None"
  then show "po_idxs (fst s) = []"
    using with_database_some [of s ep req] by (cases "po_idxs (fst s)") (simp_all split: prod.splits)
next
  fix req s resp s'
  assume "with_database ep req s = Some (resp, s')"
  then show "fst s' = fst s"
    using with_database_some [of s ep req] with_database_none [of s ep req]
    by (cases "po_idxs (fst s) = []") (auto split: prod.splits)
qed

lemma orderly_invokeIf [simp]: "orderly f \<Longrightarrow> orderly (\<lambda>req. invokeIf m req f)"
  unfolding orderly_def by (auto simp: invokeIf_def reply_def)

lemma orderly_invoke_method [simp]: "orderly (invoke_method ep m)"
  using orderly_with_database [of ep] unfolding orderly_def by (auto simp: invoke_method_def reply_def)

lemma orderly_invoke [simp]: "orderly (invoke ep)"
  using orderly_with_database [of ep] by (simp add: invoke_def [abs_def])

lemma orderly_route:
  assumes "orderly k" "orderly h" "no_nul path"
  shows "orderly (on_compare path k h)" "orderly (on_consume path k h)"
proof -
  have a: "uri_inv u \<Longrightarrow> advance stop path u = (b, u') \<Longrightarrow> uri_inv u'" for stop u b u'
    using advance_inv [of u stop path] by simp
  have f: "advance stop path u = (False, u') \<Longrightarrow> u' = u" for stop u u'
    by (simp add: advance_def split: if_splits)
  show "orderly (on_compare path k h)"
    using assms a f unfolding orderly_def on_compare_def
    by (auto simp: compare_lit_correct [OF _ assms(3)] split: prod.split bool.split)
  show "orderly (on_consume path k h)"
    using assms a f unfolding orderly_def on_consume_def
    by (auto simp: consume_lit_correct [OF _ assms(3)] split: prod.split bool.split)
qed

lemma uri_empty_rest: "uri_inv u \<Longrightarrow> uri_empty u = Some (route_end (uri_rest u))"
  using str_at_rest [of u]
  by (cases "uri_rest u") (auto simp: uri_empty_def uri_inv_def uri_rest_def route_end_def star_def)

lemma pathId_total: "uri_inv u \<Longrightarrow> \<exists>ok v. pathId u value = Some (ok, v)"
proof -
  assume u: "uri_inv u"
  show ?thesis
  proof (cases "uri_rest u")
    case Nil
    then show ?thesis using str_at_rest [OF u] by (auto simp: pathId_def star_def)
  next
    case (Cons c t)
    then show ?thesis
      using str_at_rest [OF u] uri_rest_step [OF u Cons] by (auto simp: pathId_def star_def split: prod.split)
  qed
qed

lemma orderly_crudify [simp]: "orderly (crudify ep uninit)"
  unfolding orderly_def
proof (intro allI impI)
  fix req :: Request and s :: "'a state"
  assume u: "uri_inv (rq_uri req)"
  have wd: "case with_database e req s of None \<Rightarrow> po_idxs (fst s) = [] | Some (resp, s') \<Rightarrow> fst s' = fst s" for e
    using orderly_with_database [of e] u unfolding orderly_def by blast
  obtain ok v where "pathId (rq_uri req) uninit = Some (ok, v)"
    using pathId_total [OF u] by blast
  then show "case crudify ep uninit req s of None \<Rightarrow> po_idxs (fst s) = [] | Some (resp, s') \<Rightarrow> fst s' = fst s"
    using uri_empty_rest [OF u] wd by (simp add: crudify_def reply_def split: bool.split)
qed

lemma orderly_echo [simp]: "orderly h \<Longrightarrow> orderly (echo_route h)"
proof -
  assume "orderly h"
  moreover have "orderly (urlEcho :: Request \<Rightarrow> 'a state \<Rightarrow> 'a outcome)"
    by (rule orderlyI) (auto simp: urlEcho_def reply_def)
  ultimately show ?thesis by (simp add: echo_route_def orderly_route)
qed

lemma authorization_orderly: "orderly (authorization_handle ep)"
proof -
  have "orderly (urlPublicKey :: Request \<Rightarrow> 'a state \<Rightarrow> 'a outcome)"
    by (rule orderlyI) (auto simp: urlPublicKey_def reply_def)
  then show ?thesis by (simp add: authorization_handle_def orderly_route)
qed

lemma devregistry_orderly: "orderly (devregistry_handle ep uninit)"
  by (simp add: devregistry_handle_def orderly_route)

lemma certauthority_orderly:
  assumes "orderly (ca_check_trusted_key ep)"
  shows "orderly (certauthority_handle ep)"
proof -
  have "orderly (urlCheckCertificate :: Request \<Rightarrow> 'a state \<Rightarrow> 'a outcome)"
    by (rule orderlyI) (auto simp: urlCheckCertificate_def reply_def)
  then show ?thesis using assms by (simp add: certauthority_handle_def orderly_route)
qed

section \<open>Routes\<close>

text \<open>A route is taken exactly when the path matches up to the end of a segment.\<close>

lemma on_consume_hit:
  assumes "uri_inv (rq_uri req)" "no_nul path" "uri_rest (rq_uri req) = path @ t" "segment_end t"
  shows "on_consume path k h req s =
    k (req\<lparr>rq_uri := rq_uri req\<lparr>uri_p := uri_p (rq_uri req) + length path\<rparr>\<rparr>) s"
  using assms advance_rest [of "rq_uri req" path t segment_end]
  by (simp add: on_consume_def consume_lit_correct)

lemma on_consume_miss:
  assumes "uri_inv (rq_uri req)" "no_nul path" "\<nexists>t. uri_rest (rq_uri req) = path @ t \<and> segment_end t"
  shows "on_consume path k h req s = h req s"
  using assms by (auto simp: on_consume_def consume_lit_correct advance_def)

lemma on_compare_miss:
  assumes "uri_inv (rq_uri req)" "no_nul path" "\<nexists>t. uri_rest (rq_uri req) = path @ t \<and> route_end t"
  shows "on_compare path k h req s = h req s"
  using assms by (auto simp: on_compare_def compare_lit_correct advance_def)

text \<open>An identifier printed into the path of a CRUD request reaches the endpoint unchanged.\<close>

lemma crudify_id:
  assumes "uri_inv (rq_uri req)" "uri_rest (rq_uri req) = CHR ''/'' # ulong_str ident" "rq_method req \<noteq> ''OPTIONS''"
  shows "crudify ep uninit req s = with_database (crud_id ep ident) req s"
  using assms uri_empty_rest [OF assms(1)] pathId_ulong_str [OF assms(1,2)]
  by (simp add: crudify_def route_end_def)

lemma devregistry_devices:
  assumes "uri_inv (rq_uri req)" "uri_rest (rq_uri req) = ''/mgmt/devices/'' @ ulong_str ident"
    "rq_method req \<noteq> ''OPTIONS''"
  shows "\<exists>req'. rq_method req' = rq_method req \<and> rq_content req' = rq_content req
    \<and> devregistry_handle ep uninit req s = with_database (crud_id (de_devices ep) ident) req' s"
proof -
  let ?req = "req\<lparr>rq_uri := rq_uri req\<lparr>uri_p := uri_p (rq_uri req) + length ''/mgmt/devices''\<rparr>\<rparr>"
  have rest: "uri_rest (rq_uri ?req) = CHR ''/'' # ulong_str ident"
    and inv: "uri_inv (rq_uri ?req)"
    using rest_after [OF assms(1), of "''/mgmt/devices''" "CHR ''/'' # ulong_str ident"] assms(2)
    by (simp_all add: uri_inv_def)
  have "devregistry_handle ep uninit req s = crudify (de_devices ep) uninit ?req s"
    using assms(1,2) on_consume_hit [OF assms(1), of "''/mgmt/devices''" "CHR ''/'' # ulong_str ident"]
    by (simp add: devregistry_handle_def echo_route_def on_compare_miss on_consume_miss segment_end_def)
  also have "\<dots> = with_database (crud_id (de_devices ep) ident) ?req s"
    using inv rest assms(3) by (intro crudify_id) simp_all
  finally show ?thesis by (intro exI [of _ ?req]) simp
qed

end
