(* ===== verification/Json.thy ===== *)
theory Json
  imports Hex
begin

text \<open>
  The JSON reader and writer of \<open>utils/json/JsonView.h\<close>. The cursor \<open>str + i\<close> is the rest of the
  C string; \<open>i == N\<close> is the empty rest, where a read yields the terminator, and \<open>i--\<close> after a
  token puts its character back. The parser's \<open>failed\<close> flag keeps the first message and every caller
  leaves as soon as it is set: a failure is a result of its own. A read behind the terminator is
  \<open>Undefined\<close>. The nesting of values is followed with fuel; the laws show that the fuel the entry
  points give is always enough. A floating point node carries the literal that \<open>strtod\<close> converts.
\<close>

section \<open>Nodes\<close>

datatype json =
  JNull
| JBool bool
| JInt int
| JDouble string
| JString string
| JArray "json list"
| JObject "(string \<times> json) list"

datatype json_exn = BadVariant | NotFound | OutOfRangeAt

fun is_int :: "json \<Rightarrow> bool" where
  "is_int (JInt _) = True"
| "is_int _ = False"

fun is_number :: "json \<Rightarrow> bool" where
  "is_number (JInt _) = True"
| "is_number (JDouble _) = True"
| "is_number _ = False"

fun is_string :: "json \<Rightarrow> bool" where
  "is_string (JString _) = True"
| "is_string _ = False"

fun as_int :: "json \<Rightarrow> json_exn + int" where
  "as_int (JInt v) = Inr v"
| "as_int _ = Inl BadVariant"

fun as_string :: "json \<Rightarrow> json_exn + string" where
  "as_string (JString v) = Inr v"
| "as_string _ = Inl BadVariant"

fun as_array :: "json \<Rightarrow> json_exn + json list" where
  "as_array (JArray v) = Inr v"
| "as_array _ = Inl BadVariant"

fun as_object :: "json \<Rightarrow> json_exn + (string \<times> json) list" where
  "as_object (JObject v) = Inr v"
| "as_object _ = Inl BadVariant"

definition array_at :: "nat \<Rightarrow> json list \<Rightarrow> json_exn + json" where
  "array_at i xs = (if i < length xs then Inr (xs ! i) else Inl OutOfRangeAt)"

definition array_erase :: "nat \<Rightarrow> json list \<Rightarrow> json list" where
  "array_erase i xs = (if i < length xs then take i xs @ drop (Suc i) xs else xs)"

definition object_find :: "string \<Rightarrow> (string \<times> json) list \<Rightarrow> (string \<times> json) option" where
  "object_find key kvs = find (\<lambda>kv. fst kv = key) kvs"

definition object_at :: "string \<Rightarrow> (string \<times> json) list \<Rightarrow> json_exn + json" where
  "object_at key kvs = (case object_find key kvs of Some kv \<Rightarrow> Inr (snd kv) | None \<Rightarrow> Inl NotFound)"

fun object_erase :: "string \<Rightarrow> (string \<times> json) list \<Rightarrow> (string \<times> json) list" where
  "object_erase key [] = []"
| "object_erase key (kv # kvs) = (if fst kv = key then kvs else kv # object_erase key kvs)"

text \<open>
  \<open>value_or_null\<close> is \<open>noexcept\<close>: an exception inside it (\<open>Inl\<close>) terminates the program.
\<close>

definition value_or_null_at :: "nat \<Rightarrow> json \<Rightarrow> json_exn + json" where
  "value_or_null_at i v =
     (case as_array v of
        Inl e \<Rightarrow> Inl e
      | Inr a \<Rightarrow> if i > length a then Inr JNull else array_at i a)"

definition value_or_null :: "string \<Rightarrow> json \<Rightarrow> json_exn + json" where
  "value_or_null key v =
     (case as_object v of
        Inl e \<Rightarrow> Inl e
      | Inr ob \<Rightarrow> (case object_find key ob of None \<Rightarrow> Inr JNull | Some _ \<Rightarrow> object_at key ob))"

section \<open>Writing\<close>

definition hex4 :: "nat \<Rightarrow> string" where
  "hex4 n =
     [hex_char (n div 4096 mod 16), hex_char (n div 256 mod 16), hex_char (n div 16 mod 16), hex_char (n mod 16)]"

fun dump_chars :: "string \<Rightarrow> string" where
  "dump_chars [] = []"
| "dump_chars (ch # s) =
     (if ch = BSLASH then [BSLASH, BSLASH] @ dump_chars s
      else if ch = DQUOTE then [BSLASH, DQUOTE] @ dump_chars s
      else if ch = CHR 0x08 then BSLASH # ''b'' @ dump_chars s
      else if ch = CHR 0x0C then BSLASH # ''f'' @ dump_chars s
      else if ch = LF then BSLASH # ''n'' @ dump_chars s
      else if ch = CR then BSLASH # ''r'' @ dump_chars s
      else if ch = TAB then BSLASH # ''t'' @ dump_chars s
      else if code ch \<le> 0x1f then BSLASH # ''u'' @ hex4 (code ch) @ dump_chars s
      else case s of
        a # b # t \<Rightarrow>
          if code ch = 0xe2 \<and> code a = 0x80 \<and> code b = 0xa8 then BSLASH # ''u2028'' @ dump_chars t
          else if code ch = 0xe2 \<and> code a = 0x80 \<and> code b = 0xa9 then BSLASH # ''u2029'' @ dump_chars t
          else ch # dump_chars s
      | _ \<Rightarrow> ch # dump_chars s)"

definition dump_string :: "string \<Rightarrow> string" where
  "dump_string s = DQUOTE # dump_chars s @ [DQUOTE]"

fun join :: "string \<Rightarrow> string list \<Rightarrow> string" where
  "join sep [] = []"
| "join sep [x] = x"
| "join sep (x # y # xs) = x @ sep @ join sep (y # xs)"

text \<open>\<open>std::to_string(double)\<close> is a parameter, on literals.\<close>

fun dump :: "(string \<Rightarrow> string) \<Rightarrow> json \<Rightarrow> string" where
  "dump ds JNull = ''null''"
| "dump ds (JBool v) = (if v then ''true'' else ''false'')"
| "dump ds (JInt v) = int_str v"
| "dump ds (JDouble v) = ds v"
| "dump ds (JString v) = dump_string v"
| "dump ds (JArray a) = ''['' @ join '', '' (map (dump ds) a) @ '']''"
| "dump ds (JObject ob) =
     ''{'' @ join '', '' (map (\<lambda>(k, v). DQUOTE # k @ DQUOTE # '':'' @ dump ds v) ob) @ ''}''"

section \<open>Reading: tokens\<close>

datatype ParseMethod = STANDARD | NOTHROW | COMMENTS

datatype 'a jres = Done 'a string | Fail string | Undefined | NoFuel

fun jbind :: "'a jres \<Rightarrow> ('a \<Rightarrow> string \<Rightarrow> 'b jres) \<Rightarrow> 'b jres" where
  "jbind (Done v r) f = f v r"
| "jbind (Fail m) f = Fail m"
| "jbind Undefined f = Undefined"
| "jbind NoFuel f = NoFuel"

definition peek :: "string \<Rightarrow> char" where
  "peek s = (case s of [] \<Rightarrow> NUL | c # _ \<Rightarrow> c)"

definition in_range :: "int \<Rightarrow> int \<Rightarrow> int \<Rightarrow> bool" where
  "in_range x lower upper \<longleftrightarrow> lower \<le> x \<and> x \<le> upper"

definition esc :: "char \<Rightarrow> string" where
  "esc c =
     (if 0x20 \<le> code c \<and> code c \<le> 0x7f then CHR 0x27 # c # CHR 0x27 # '' ('' @ nat_str (code c) @ '')''
      else ''('' @ nat_str (code c) @ '')'')"

definition is_white :: "char \<Rightarrow> bool" where
  "is_white c \<longleftrightarrow> c = CHR '' '' \<or> c = CR \<or> c = LF \<or> c = TAB"

definition consume_whitespace :: "string \<Rightarrow> string" where
  "consume_whitespace s = dropWhile is_white s"

fun block_comment :: "string \<Rightarrow> bool jres" where
  "block_comment (c # d # t) =
     (if c = CHR ''*'' \<and> d = CHR ''/'' then Done True t else block_comment (d # t))"
| "block_comment _ = Fail ''Unexpected end of input inside multi-line comment.''"

definition consume_comment :: "string \<Rightarrow> bool jres" where
  "consume_comment s =
     (case s of
        [] \<Rightarrow> Done False s
      | c # s1 \<Rightarrow>
          if c \<noteq> CHR ''/'' then Done False s
          else case s1 of
            [] \<Rightarrow> Fail ''Unexpected end of input after start of comment.''
          | d # s2 \<Rightarrow>
              if d = CHR ''/'' then Done True (dropWhile (\<lambda>c. c \<noteq> LF) s2)
              else if d = CHR ''*'' then block_comment s2
              else Fail ''Malformed comment.'')"

lemma block_comment_shorter: "block_comment s = Done b r \<Longrightarrow> b \<and> length r < length s"
  by (induction s rule: block_comment.induct) (auto split: if_splits)

lemma consume_comment_shorter:
  "consume_comment s = Done b r \<Longrightarrow> (if b then length r < length s else r = s)"
  using length_dropWhile_le [of "\<lambda>c. c \<noteq> LF"]
  by (auto simp: consume_comment_def less_Suc_eq_le le_SucI split: list.splits if_splits
      dest!: block_comment_shorter)

text \<open>The \<open>do\<close> loop over comments.\<close>

function consume_comments :: "string \<Rightarrow> unit jres" where
  "consume_comments s =
     (case consume_comment s of
        Done found r \<Rightarrow>
          if found then consume_comments (consume_whitespace r) else Done () (consume_whitespace r)
      | Fail m \<Rightarrow> Fail m
      | Undefined \<Rightarrow> Undefined
      | NoFuel \<Rightarrow> NoFuel)"
  by auto
termination
proof (relation "measure length")
  fix s found r
  assume "consume_comment s = Done found r" "found"
  then have "length r < length s" using consume_comment_shorter by fastforce
  moreover have "length (consume_whitespace r) \<le> length r"
    by (simp add: consume_whitespace_def length_dropWhile_le)
  ultimately show "(consume_whitespace r, s) \<in> measure length" by simp
qed simp

declare consume_comments.simps [simp del]

definition consume_garbage :: "ParseMethod \<Rightarrow> string \<Rightarrow> unit jres" where
  "consume_garbage strategy s =
     (let s = consume_whitespace s in if strategy = COMMENTS then consume_comments s else Done () s)"

definition get_next_token :: "ParseMethod \<Rightarrow> string \<Rightarrow> char jres" where
  "get_next_token strategy s =
     jbind (consume_garbage strategy s) (\<lambda>_ r.
       case r of [] \<Rightarrow> Fail ''Unexpected end of input.'' | c # t \<Rightarrow> Done c t)"

section \<open>Reading: strings and numbers\<close>

text \<open>A key is a view of the source text: escapes are checked but not decoded.\<close>

definition bad_escape :: "char \<Rightarrow> string" where
  "bad_escape ch = ''Invalid escape character '' @ esc ch @ ''.''"

fun parse_key :: "string \<Rightarrow> string \<Rightarrow> string jres" where
  "parse_key acc [] = Fail ''Unexpected end of input in string.''"
| "parse_key acc (ch # r) =
     (if ch = DQUOTE then Done acc r
      else if ch \<noteq> BSLASH then parse_key (acc @ [ch]) r
      else case r of
        [] \<Rightarrow> Fail ''Unexpected end of input in string.''
      | e # t \<Rightarrow>
          if e = CHR ''u'' then
            (case t of
               a # b # c # d # t' \<Rightarrow> parse_key (acc @ [ch, e, a, b, c, d]) t'
             | _ \<Rightarrow> Fail (bad_escape e))
          else if e \<notin> set (''bfnrt/'' @ [DQUOTE, BSLASH]) then Fail (bad_escape e)
          else parse_key (acc @ [ch, e]) t)"

definition to_char :: "int \<Rightarrow> char" where
  "to_char n = char_of (nat (n mod 256))"

definition encode_utf8 :: "int \<Rightarrow> string" where
  "encode_utf8 pt =
     (if pt < 0 then []
      else if pt < 0x80 then [to_char pt]
      else if pt < 0x800 then [to_char (or (drop_bit 6 pt) 0xC0), to_char (or (and pt 0x3F) 0x80)]
      else if pt < 0x10000 then
        [to_char (or (drop_bit 12 pt) 0xE0), to_char (or (and (drop_bit 6 pt) 0x3F) 0x80),
         to_char (or (and pt 0x3F) 0x80)]
      else
        [to_char (or (drop_bit 18 pt) 0xF0), to_char (or (and (drop_bit 12 pt) 0x3F) 0x80),
         to_char (or (and (drop_bit 6 pt) 0x3F) 0x80), to_char (or (and pt 0x3F) 0x80)])"

definition is_hex :: "char \<Rightarrow> bool" where
  "is_hex c \<longleftrightarrow> in_range (c_int c) (c_int (CHR ''a'')) (c_int (CHR ''f''))
     \<or> in_range (c_int c) (c_int (CHR ''A'')) (c_int (CHR ''F''))
     \<or> in_range (c_int c) (c_int (CHR ''0'')) (c_int (CHR ''9''))"

text \<open>The code point of a \<open>\u\<close> escape joins a pending high surrogate, or becomes the pending one.\<close>

definition join_surrogates :: "string \<Rightarrow> int \<Rightarrow> int \<Rightarrow> string \<times> int" where
  "join_surrogates out last_cp codepoint =
     (if in_range last_cp 0xD800 0xDBFF \<and> in_range codepoint 0xDC00 0xDFFF then
        (out @ encode_utf8 (or (push_bit 10 (last_cp - 0xD800)) (codepoint - 0xDC00) + 0x10000), - 1)
      else (out @ encode_utf8 last_cp, codepoint))"

definition unescaped :: "char \<Rightarrow> char option" where
  "unescaped ch =
     (if ch = CHR ''b'' then Some (CHR 0x08)
      else if ch = CHR ''f'' then Some (CHR 0x0C)
      else if ch = CHR ''n'' then Some LF
      else if ch = CHR ''r'' then Some CR
      else if ch = CHR ''t'' then Some TAB
      else if ch = DQUOTE \<or> ch = BSLASH \<or> ch = CHR ''/'' then Some ch
      else None)"

text \<open>
  The four bytes behind \<open>\u\<close> are copied before anything is checked: with fewer than three left the
  copy reaches behind the terminator.
\<close>

fun parse_string :: "string \<Rightarrow> int \<Rightarrow> string \<Rightarrow> string jres" where
  "parse_string out last_cp [] = Fail ''Unexpected end of input in string.''"
| "parse_string out last_cp (ch # r) =
     (if ch = DQUOTE then Done (out @ encode_utf8 last_cp) r
      else if in_range (c_int ch) 0 0x1f then Fail (''Unescaped '' @ esc ch @ '' in string.'')
      else if ch \<noteq> BSLASH then parse_string (out @ encode_utf8 last_cp @ [ch]) (- 1) r
      else case r of
        [] \<Rightarrow> Fail ''Unexpected end of input in string.''
      | e # t \<Rightarrow>
          if e = CHR ''u'' then
            (case t of
               a # b # c # d # t' \<Rightarrow>
                 if list_all is_hex [a, b, c, d] then
                   (let (out', last') = join_surrogates out last_cp (fst (strtol 16 [a, b, c, d]))
                    in parse_string out' last' t')
                 else Fail (''Bad '' @ [BSLASH] @ ''u escape: '' @ [a, b, c, d] @ ''.'')
             | [a, b, c] \<Rightarrow> Fail (''Bad '' @ [BSLASH] @ ''u escape: '' @ [a, b, c, NUL] @ ''.'')
             | _ \<Rightarrow> Undefined)
          else case unescaped e of
            Some c \<Rightarrow> parse_string (out @ encode_utf8 last_cp @ [c]) (- 1) t
          | None \<Rightarrow> Fail (bad_escape e))"

text \<open>
  Numbers: at most nine characters without a fraction or an exponent are integers
  (\<open>numeric_limits<int>::digits10\<close>), anything else goes through \<open>strtod\<close>.
\<close>

definition digits10_int :: nat where
  "digits10_int = 9"

definition skip_digits :: "string \<Rightarrow> string" where
  "skip_digits s = dropWhile isdigit s"

definition number_integer_part :: "string \<Rightarrow> string + string" where
  "number_integer_part s =
     (if peek s = CHR ''0'' then
        (if isdigit (peek (tl s)) then Inl ''Leading zeroes are not permitted in numbers.'' else Inr (tl s))
      else if isdigit (peek s) then Inr (skip_digits s)
      else Inl (''Invalid '' @ esc (peek s) @ '' in number.''))"

definition number_fraction :: "string \<Rightarrow> string + string" where
  "number_fraction s =
     (if peek s = CHR ''.'' then
        (if isdigit (peek (tl s)) then Inr (skip_digits (tl s))
         else Inl ''At least one digit required in fractional part.'')
      else Inr s)"

definition number_exponent :: "string \<Rightarrow> string + string" where
  "number_exponent s =
     (if peek s = CHR ''e'' \<or> peek s = CHR ''E'' then
        (let t = tl s; t = (if peek t = CHR ''+'' \<or> peek t = CHR ''-'' then tl t else t)
         in if isdigit (peek t) then Inr (skip_digits t)
            else Inl ''At least one digit required in exponent.'')
      else Inr s)"

definition parse_number :: "string \<Rightarrow> json jres" where
  "parse_number s =
     (case number_integer_part (if peek s = CHR ''-'' then tl s else s) of
        Inl m \<Rightarrow> Fail m
      | Inr r \<Rightarrow>
          if peek r \<noteq> CHR ''.'' \<and> peek r \<noteq> CHR ''e'' \<and> peek r \<noteq> CHR ''E''
            \<and> length s - length r \<le> digits10_int
          then Done (JInt (atol s)) r
          else case number_fraction r of
            Inl m \<Rightarrow> Fail m
          | Inr r1 \<Rightarrow>
              (case number_exponent r1 of
                 Inl m \<Rightarrow> Fail m
               | Inr r2 \<Rightarrow> Done (JDouble (take (length s - length r2) s)) r2))"

definition expect :: "string \<Rightarrow> json \<Rightarrow> string \<Rightarrow> json jres" where
  "expect expected res s =
     (if take (length expected) s = expected then Done res (drop (length expected) s)
      else Fail (''Expected '' @ expected @ '', got '' @ take (length expected) s))"

section \<open>Reading: values\<close>

definition max_depth :: nat where
  "max_depth = 200"

function (sequential) parse_json :: "nat \<Rightarrow> ParseMethod \<Rightarrow> nat \<Rightarrow> string \<Rightarrow> json jres"
and parse_members :: "nat \<Rightarrow> ParseMethod \<Rightarrow> nat \<Rightarrow> (string \<times> json) list \<Rightarrow> char \<Rightarrow> string \<Rightarrow> json jres"
and parse_elements :: "nat \<Rightarrow> ParseMethod \<Rightarrow> nat \<Rightarrow> json list \<Rightarrow> string \<Rightarrow> json jres" where
  "parse_json 0 st depth s = NoFuel"
| "parse_json (Suc n) st depth s =
     (if max_depth < depth then Fail ''Exceeded maximum nesting depth.''
      else jbind (get_next_token st s) (\<lambda>ch r.
        if ch = CHR ''-'' \<or> isdigit ch then parse_number (ch # r)
        else if ch = CHR ''t'' then expect ''true'' (JBool True) (ch # r)
        else if ch = CHR ''f'' then expect ''false'' (JBool False) (ch # r)
        else if ch = CHR ''n'' then expect ''null'' JNull (ch # r)
        else if ch = DQUOTE then jbind (parse_string [] (- 1) r) (\<lambda>v. Done (JString v))
        else if ch = CHR ''{'' then
          jbind (get_next_token st r) (\<lambda>ch r.
            if ch = CHR ''}'' then Done (JObject []) r else parse_members n st depth [] ch r)
        else if ch = CHR ''['' then
          jbind (get_next_token st r) (\<lambda>ch r.
            if ch = CHR '']'' then Done (JArray []) r else parse_elements n st depth [] (ch # r))
        else Fail (''Expected value, got '' @ esc ch @ ''.'')))"
| "parse_members 0 st depth acc ch r = NoFuel"
| "parse_members (Suc n) st depth acc ch r =
     (if ch \<noteq> DQUOTE then Fail (''Expected '' @ [CHR 0x27, DQUOTE, CHR 0x27] @ '' in object, got '' @ esc ch @ ''.'')
      else jbind (parse_key [] r) (\<lambda>key r.
        jbind (get_next_token st r) (\<lambda>ch r.
          if ch \<noteq> CHR '':'' then
            Fail (''Expected '' @ [CHR 0x27, CHR '':'', CHR 0x27] @ '' in object, got '' @ esc ch @ ''.'')
          else jbind (parse_json n st (depth + 1) r) (\<lambda>val r.
            jbind (get_next_token st r) (\<lambda>ch r.
              if ch = CHR ''}'' then Done (JObject (acc @ [(key, val)])) r
              else if ch \<noteq> CHR '','' then
                Fail (''Expected '' @ [CHR 0x27, CHR '','', CHR 0x27] @ '' in object, got '' @ esc ch @ ''.'')
              else jbind (get_next_token st r) (\<lambda>ch r.
                parse_members n st depth (acc @ [(key, val)]) ch r))))))"
| "parse_elements 0 st depth acc s = NoFuel"
| "parse_elements (Suc n) st depth acc s =
     jbind (parse_json n st (depth + 1) s) (\<lambda>val r.
       jbind (get_next_token st r) (\<lambda>ch r.
         if ch = CHR '']'' then Done (JArray (acc @ [val])) r
         else if ch \<noteq> CHR '','' then
           Fail (''Expected '' @ [CHR 0x27, CHR '','', CHR 0x27] @ '' in list, got '' @ esc ch @ ''.'')
         else jbind (get_next_token st r) (\<lambda>ch r.
           parse_elements n st depth (acc @ [val]) (ch # r))))"
  by pat_completeness auto
termination
  by (relation "measure (case_sum fst (case_sum fst fst))") simp_all

section \<open>Entry points\<close>

definition json_fuel :: "string \<Rightarrow> nat" where
  "json_fuel s = 2 * length s + 1"

definition parser_parse :: "ParseMethod \<Rightarrow> string \<Rightarrow> json jres" where
  "parser_parse st s =
     jbind (parse_json (json_fuel s) st 0 s) (\<lambda>v r. jbind (consume_garbage st r) (\<lambda>_ r. Done v r))"

text \<open>The throwing entry point; the text of the exception is the result.\<close>

definition parse_throw_on_error :: "ParseMethod \<Rightarrow> string \<Rightarrow> (string + json) jres" where
  "parse_throw_on_error st data =
     (case parser_parse st (cstr data) of
        Done v r \<Rightarrow> Done (if r = [] then Inr v else Inl ''Unexpected trailing.'') []
      | Fail m \<Rightarrow> Done (Inl m) []
      | Undefined \<Rightarrow> Undefined
      | NoFuel \<Rightarrow> NoFuel)"

definition parse_or_null :: "ParseMethod \<Rightarrow> string \<Rightarrow> json jres" where
  "parse_or_null st data =
     (case parser_parse st (cstr data) of
        Done v r \<Rightarrow> Done (if r = [] then v else JNull) []
      | Fail m \<Rightarrow> Done JNull []
      | Undefined \<Rightarrow> Undefined
      | NoFuel \<Rightarrow> NoFuel)"

definition new_JsonView :: "string \<Rightarrow> ParseMethod \<Rightarrow> (string + json) jres" where
  "new_JsonView data method =
     (if method = NOTHROW then jbind (parse_or_null STANDARD data) (\<lambda>v. Done (Inr v))
      else parse_throw_on_error method data)"

end
