(* ===== verification/Json_Laws.thy ===== *)
theory Json_Laws
  imports Json
begin

text \<open>
  Laws of the JSON reader: it always returns (the fuel of the entry points is enough), what it
  accepts respects the depth limit, and it reads back what the writer writes.
\<close>

section \<open>The reader consumes its input\<close>

lemma jbind_Done: "jbind x f = Done v r \<longleftrightarrow> (\<exists>a t. x = Done a t \<and> f a t = Done v r)"
  by (cases x) auto

lemma jbind_NoFuel: "jbind x f = NoFuel \<longleftrightarrow> x = NoFuel \<or> (\<exists>a t. x = Done a t \<and> f a t = NoFuel)"
  by (cases x) auto

lemma length_consume_whitespace: "length (consume_whitespace s) \<le> length s"
  by (simp add: consume_whitespace_def length_dropWhile_le)

lemma consume_comments_shorter: "consume_comments s = Done u r \<Longrightarrow> length r \<le> length s"
proof (induction s arbitrary: u rule: consume_comments.induct)
  case (1 s)
  then obtain found t where t: "consume_comment s = Done found t"
    by (cases "consume_comment s") (simp_all add: consume_comments.simps [of s])
  note le = consume_comment_shorter [OF t] length_consume_whitespace [of t]
  show ?case
  proof (cases found)
    case True
    then have "consume_comments (consume_whitespace t) = Done u r"
      using 1(2) t by (simp add: consume_comments.simps [of s])
    from 1(1) [OF t True this] show ?thesis using le True by simp
  next
    case False
    then show ?thesis using 1(2) t le by (simp add: consume_comments.simps [of s])
  qed
qed

lemma consume_garbage_shorter: "consume_garbage st s = Done u r \<Longrightarrow> length r \<le> length s"
  using consume_comments_shorter [of "consume_whitespace s" u r] length_consume_whitespace [of s]
  by (auto simp: consume_garbage_def Let_def split: if_splits)

lemma token_shorter:
  assumes "get_next_token st s = Done c r"
  shows "length r < length s"
proof -
  obtain u t where t: "consume_garbage st s = Done u t"
    "(case t of [] \<Rightarrow> Fail ''Unexpected end of input.'' | c # t \<Rightarrow> Done c t) = Done c r"
    using assms unfolding get_next_token_def jbind_Done by blast
  then have "t = c # r" by (cases t) simp_all
  then show ?thesis using consume_garbage_shorter [OF t(1)] by simp
qed

lemma parse_key_shorter: "parse_key acc s = Done k r \<Longrightarrow> length r < length s"
proof (induction s arbitrary: acc rule: length_induct)
  case (1 s)
  have IH: "length r < length s" if "parse_key a t = Done k r" "length t < length s" for a t
    using 1(1) that by (meson less_trans)
  show ?case
    using 1(2) by (cases s) (auto split: if_splits list.splits dest!: IH)
qed

lemma parse_string_shorter: "parse_string out cp s = Done k r \<Longrightarrow> length r < length s"
proof (induction s arbitrary: out cp rule: length_induct)
  case (1 s)
  have IH: "length r < length s" if "parse_string a c t = Done k r" "length t < length s" for a c t
    using 1(1) that by (meson less_trans)
  show ?case
    using 1(2) by (cases s)
      (auto split: if_splits list.splits option.splits prod.splits dest!: IH)
qed

lemma length_tl_peek: "peek s \<noteq> NUL \<Longrightarrow> length (tl s) < length s"
  by (cases s) (auto simp: peek_def)

lemma digit_not_nul: "isdigit c \<Longrightarrow> c \<noteq> NUL"
  using isdigit_neq_special(1) .

lemma length_skip_digits: "isdigit (peek s) \<Longrightarrow> length (skip_digits s) < length s"
  by (cases s) (auto simp: peek_def skip_digits_def digit_not_nul less_Suc_eq_le length_dropWhile_le
      dest: digit_not_nul)

lemma integer_part_shorter: "number_integer_part s = Inr r \<Longrightarrow> length r < length s"
  using length_skip_digits [of s] length_tl_peek [of s]
  by (auto simp: number_integer_part_def split: if_splits)

lemma fraction_shorter: "number_fraction s = Inr r \<Longrightarrow> length r \<le> length s"
  using length_skip_digits [of "tl s"] by (auto simp: number_fraction_def split: if_splits)

lemma exponent_shorter: "number_exponent s = Inr r \<Longrightarrow> length r \<le> length s"
  using length_skip_digits [of "tl s"] length_skip_digits [of "tl (tl s)"]
  by (auto simp: number_exponent_def Let_def split: if_splits)

lemma parse_number_shorter:
  assumes "parse_number s = Done v r"
  shows "length r < length s"
proof -
  let ?t = "if peek s = CHR ''-'' then tl s else s"
  have le: "length ?t \<le> length s" by simp
  obtain r0 where r0: "number_integer_part ?t = Inr r0"
    using assms by (auto simp: parse_number_def split: sum.splits)
  have lt: "length r0 < length s" using integer_part_shorter [OF r0] le by linarith
  show ?thesis
    using assms r0 lt fraction_shorter exponent_shorter
    by (fastforce simp: parse_number_def split: sum.splits if_splits)
qed

lemma expect_shorter: "expect e v s = Done w r \<Longrightarrow> e \<noteq> [] \<Longrightarrow> length r < length s"
  by (cases s) (auto simp: expect_def split: if_splits)

lemmas reader_shorter = token_shorter parse_key_shorter parse_string_shorter parse_number_shorter

lemma parse_leaf_shorter:
  assumes "get_next_token st s = Done ch t"
  shows "parse_number (ch # t) = Done v r \<Longrightarrow> length r < length s"
    "e \<noteq> [] \<Longrightarrow> expect e w (ch # t) = Done v r \<Longrightarrow> length r < length s"
  using token_shorter [OF assms] parse_number_shorter [of "ch # t"] expect_shorter [of e w "ch # t"]
  by fastforce+

text \<open>One round of each of the three mutually recursive readers, as facts about what it accepts.\<close>

lemma parse_json_accepts:
  assumes "parse_json (Suc n) st d s = Done v r"
  obtains ch t where "get_next_token st s = Done ch t" "d \<le> max_depth"
    "ch = CHR ''-'' \<or> isdigit ch" "parse_number (ch # t) = Done v r"
  | ch t e where "get_next_token st s = Done ch t" "d \<le> max_depth" "e \<noteq> []"
      "v \<in> {JNull, JBool True, JBool False}" "expect e v (ch # t) = Done v r"
  | t w where "get_next_token st s = Done DQUOTE t" "d \<le> max_depth" "parse_string [] (- 1) t = Done w r"
      "v = JString w"
  | t where "get_next_token st s = Done (CHR ''{'') t" "d \<le> max_depth"
      "get_next_token st t = Done (CHR ''}'') r" "v = JObject []"
  | t ch u where "get_next_token st s = Done (CHR ''{'') t" "d \<le> max_depth"
      "get_next_token st t = Done ch u" "parse_members n st d [] ch u = Done v r"
  | t where "get_next_token st s = Done (CHR ''['') t" "d \<le> max_depth"
      "get_next_token st t = Done (CHR '']'') r" "v = JArray []"
  | t ch u where "get_next_token st s = Done (CHR ''['') t" "d \<le> max_depth"
      "get_next_token st t = Done ch u" "parse_elements n st d [] (ch # u) = Done v r"
proof -
  have d: "d \<le> max_depth" using assms by (simp split: if_splits)
  obtain ch t where t: "get_next_token st s = Done ch t"
    using assms d by (cases "get_next_token st s") simp_all
  consider "ch = CHR ''-'' \<or> isdigit ch" | "ch = CHR ''t''" | "ch = CHR ''f''" | "ch = CHR ''n''"
    | "ch = DQUOTE" | "ch = CHR ''{''" | "ch = CHR ''[''"
    using assms t d by (auto split: if_splits)
  then show thesis
  proof cases
    case 1
    then show thesis using assms t d that(1) by simp
  next
    case 2
    then show thesis using assms t d that(2) [of ch t "''true''"] 
      by (auto simp: isdigit_def expect_def split: if_splits)
  next
    case 3
    then show thesis using assms t d that(2) [of ch t "''false''"]
      by (auto simp: isdigit_def expect_def split: if_splits)
  next
    case 4
    then show thesis using assms t d that(2) [of ch t "''null''"]
      by (auto simp: isdigit_def expect_def split: if_splits)
  next
    case 5
    then show thesis using assms t d that(3) by (auto simp: isdigit_def jbind_Done)
  next
    case 6
    then show thesis using assms t d that(4,5) by (auto simp: isdigit_def jbind_Done split: if_splits)
  next
    case 7
    then show thesis using assms t d that(6,7) by (auto simp: isdigit_def jbind_Done split: if_splits)
  qed
qed

lemma parse_members_accepts:
  assumes "parse_members (Suc n) st d acc c s = Done v r"
  obtains key t1 t2 val t3 where "c = DQUOTE" "parse_key [] s = Done key t1"
    "get_next_token st t1 = Done (CHR '':'') t2" "parse_json n st (d + 1) t2 = Done val t3"
    "get_next_token st t3 = Done (CHR ''}'') r" "v = JObject (acc @ [(key, val)])"
  | key t1 t2 val t3 t4 ch t5 where "c = DQUOTE" "parse_key [] s = Done key t1"
    "get_next_token st t1 = Done (CHR '':'') t2" "parse_json n st (d + 1) t2 = Done val t3"
    "get_next_token st t3 = Done (CHR '','') t4" "get_next_token st t4 = Done ch t5"
    "parse_members n st d (acc @ [(key, val)]) ch t5 = Done v r"
  using assms by (auto simp: jbind_Done split: if_splits)

lemma parse_elements_accepts:
  assumes "parse_elements (Suc n) st d acc s = Done v r"
  obtains val t where "parse_json n st (d + 1) s = Done val t"
    "get_next_token st t = Done (CHR '']'') r" "v = JArray (acc @ [val])"
  | val t t1 ch t2 where "parse_json n st (d + 1) s = Done val t"
    "get_next_token st t = Done (CHR '','') t1" "get_next_token st t1 = Done ch t2"
    "parse_elements n st d (acc @ [val]) (ch # t2) = Done v r"
  using assms by (auto simp: jbind_Done split: if_splits)

declare parse_json.simps [simp del] parse_members.simps [simp del] parse_elements.simps [simp del]

lemma zero_fuel [simp]:
  "parse_json 0 st d s = NoFuel" "parse_members 0 st d acc c s = NoFuel" "parse_elements 0 st d xs s = NoFuel"
  by (simp_all add: parse_json.simps parse_members.simps parse_elements.simps)

lemma parse_json_shorter:
  "(\<forall>st d s v r. parse_json n st d s = Done v r \<longrightarrow> length r < length s)
   \<and> (\<forall>st d acc c s v r. parse_members n st d acc c s = Done v r \<longrightarrow> length r < length s)
   \<and> (\<forall>st d acc s v r. parse_elements n st d acc s = Done v r \<longrightarrow> length r < length s)"
proof (induction n)
  case (Suc n)
  have j: "length r < length s" if "parse_json n st d s = Done v r" for st d s v r
    using Suc that by blast
  have m: "length r < length s" if "parse_members n st d acc c s = Done v r" for st d acc c s v r
    using Suc that by blast
  have e: "length r < length s" if "parse_elements n st d acc s = Done v r" for st d acc s v r
    using Suc that by blast
  show ?case
  proof (intro conjI allI impI)
    fix st d s v r
    assume "parse_json (Suc n) st d s = Done v r"
    then show "length r < length s"
    proof (cases rule: parse_json_accepts)
      case (1 ch t)
      then show ?thesis using parse_leaf_shorter(1) by blast
    next
      case (2 ch t e)
      then show ?thesis using parse_leaf_shorter(2) by blast
    next
      case (3 t w)
      then show ?thesis using token_shorter [OF 3(1)] parse_string_shorter [OF 3(3)] by simp
    next
      case (4 t)
      then show ?thesis using token_shorter [OF 4(1)] token_shorter [OF 4(3)] by simp
    next
      case (5 t ch u)
      then show ?thesis using token_shorter [OF 5(1)] token_shorter [OF 5(3)] m [OF 5(4)] by simp
    next
      case (6 t)
      then show ?thesis using token_shorter [OF 6(1)] token_shorter [OF 6(3)] by simp
    next
      case (7 t ch u)
      have "length r < Suc (length u)" using e [OF 7(4)] by simp
      then show ?thesis using token_shorter [OF 7(1)] token_shorter [OF 7(3)] by simp
    qed
  next
    fix st d acc c s v r
    assume "parse_members (Suc n) st d acc c s = Done v r"
    then show "length r < length s"
    proof (cases rule: parse_members_accepts)
      case (1 key t1 t2 val t3)
      then show ?thesis
        using parse_key_shorter [OF 1(2)] token_shorter [OF 1(3)] j [OF 1(4)] token_shorter [OF 1(5)] by simp
    next
      case (2 key t1 t2 val t3 t4 ch t5)
      then show ?thesis
        using parse_key_shorter [OF 2(2)] token_shorter [OF 2(3)] j [OF 2(4)] token_shorter [OF 2(5)]
          token_shorter [OF 2(6)] m [OF 2(7)] by simp
    qed
  next
    fix st d acc s v r
    assume "parse_elements (Suc n) st d acc s = Done v r"
    then show "length r < length s"
    proof (cases rule: parse_elements_accepts)
      case (1 val t)
      then show ?thesis using j [OF 1(1)] token_shorter [OF 1(2)] by simp
    next
      case (2 val t t1 ch t2)
      have "length r < Suc (length t2)" using e [OF 2(4)] by simp
      then show ?thesis using token_shorter [OF 2(2)] token_shorter [OF 2(3)] j [OF 2(1)] by simp
    qed
  qed
qed simp

section \<open>The fuel is enough\<close>

lemma block_comment_fuel: "block_comment s \<noteq> NoFuel"
  by (induction s rule: block_comment.induct) auto

lemma consume_comment_fuel: "consume_comment s \<noteq> NoFuel"
  by (auto simp: consume_comment_def block_comment_fuel split: list.split)

lemma consume_comments_fuel: "consume_comments s \<noteq> NoFuel"
proof (induction s rule: consume_comments.induct)
  case (1 s)
  then show ?case
    using consume_comment_fuel [of s] by (subst consume_comments.simps) (auto split: jres.split)
qed

lemma token_fuel: "get_next_token st s \<noteq> NoFuel"
  using consume_comments_fuel
  by (auto simp: get_next_token_def consume_garbage_def jbind_NoFuel Let_def split: if_splits list.splits)

lemma parse_key_fuel: "parse_key acc s \<noteq> NoFuel"
proof (induction s arbitrary: acc rule: length_induct)
  case (1 s)
  show ?case
  proof (cases s)
    case (Cons ch t)
    have IH: "parse_key a u \<noteq> NoFuel" if "length u \<le> length t" for a u using 1 Cons that by simp
    show ?thesis unfolding Cons by (auto simp: IH split: if_split list.split)
  qed simp
qed

lemma parse_string_fuel: "parse_string out cp s \<noteq> NoFuel"
proof (induction s arbitrary: out cp rule: length_induct)
  case (1 s)
  have IH: False if "parse_string a c u = NoFuel" "length u < length s" for a c u
    using 1 that by blast
  show ?case
  proof
    assume "parse_string out cp s = NoFuel"
    then show False
      by (cases s) (auto split: if_splits list.splits option.splits prod.splits dest!: IH)
  qed
qed

lemma parse_number_fuel: "parse_number s \<noteq> NoFuel"
  by (auto simp: parse_number_def split: sum.splits if_splits)

lemma expect_fuel: "expect e v s \<noteq> NoFuel"
  by (simp add: expect_def)

lemmas leaf_fuel = token_fuel parse_key_fuel parse_string_fuel parse_number_fuel expect_fuel

lemma parse_json_fuel:
  "(\<forall>st d s. 2 * length s < n \<longrightarrow> parse_json n st d s \<noteq> NoFuel)
   \<and> (\<forall>st d acc c s. 2 * length s < n \<longrightarrow> parse_members n st d acc c s \<noteq> NoFuel)
   \<and> (\<forall>st d acc s. 2 * length s + 1 < n \<longrightarrow> parse_elements n st d acc s \<noteq> NoFuel)"
proof (induction n)
  case (Suc n)
  have j: "parse_json n st d s \<noteq> NoFuel" if "2 * length s < n" for st d s
    using Suc that by blast
  have m: "parse_members n st d acc c s \<noteq> NoFuel" if "2 * length s < n" for st d acc c s
    using Suc that by blast
  have e: "parse_elements n st d acc s \<noteq> NoFuel" if "2 * length s + 1 < n" for st d acc s
    using Suc that by blast
  have len: "length r < length s" if "parse_json n st d s = Done v r" for st d s v r
    using parse_json_shorter that by blast
  show ?case
  proof (intro conjI allI impI)
    fix st d and s :: string
    assume n: "2 * length s < Suc n"
    show "parse_json (Suc n) st d s \<noteq> NoFuel"
    proof (cases "get_next_token st s")
      case (Done ch t)
      have t: "length t < length s" by (rule token_shorter [OF Done])
      have "jbind (get_next_token st t) (\<lambda>ch r. if ch = CHR ''}'' then Done (JObject []) r
          else parse_members n st d [] ch r) \<noteq> NoFuel"
        using token_fuel m n t by (auto simp: jbind_NoFuel dest!: token_shorter split: if_splits)
      moreover have "jbind (get_next_token st t) (\<lambda>ch r. if ch = CHR '']'' then Done (JArray []) r
          else parse_elements n st d [] (ch # r)) \<noteq> NoFuel"
        using token_fuel e n t by (auto simp: jbind_NoFuel dest!: token_shorter split: if_splits)
      ultimately show ?thesis
        using Done leaf_fuel by (simp add: jbind_NoFuel parse_json.simps)
    qed (use token_fuel in \<open>auto simp: parse_json.simps\<close>)
  next
    fix st d acc c and s :: string
    assume n: "2 * length s < Suc n"
    show "parse_members (Suc n) st d acc c s \<noteq> NoFuel"
      using n leaf_fuel j m
      by (auto simp: jbind_NoFuel parse_members.simps dest!: token_shorter parse_key_shorter len
          split: if_splits)
  next
    fix st d acc and s :: string
    assume n: "2 * length s + 1 < Suc n"
    show "parse_elements (Suc n) st d acc s \<noteq> NoFuel"
      using n leaf_fuel j e
      by (auto simp: jbind_NoFuel parse_elements.simps dest!: token_shorter len split: if_splits)
  qed
qed simp

lemma parser_parse_fuel: "parser_parse st s \<noteq> NoFuel"
proof -
  have "parse_json (json_fuel s) st 0 s \<noteq> NoFuel"
    using parse_json_fuel [of "json_fuel s"] by (simp add: json_fuel_def)
  moreover have "consume_garbage st r \<noteq> NoFuel" for r
    using consume_comments_fuel by (simp add: consume_garbage_def Let_def)
  ultimately show ?thesis by (auto simp: parser_parse_def jbind_NoFuel)
qed

lemma new_JsonView_returns: "new_JsonView s method \<noteq> NoFuel"
  using parser_parse_fuel
  by (auto simp: new_JsonView_def parse_or_null_def parse_throw_on_error_def jbind_NoFuel split: jres.split)

section \<open>The depth limit\<close>

fun within :: "nat \<Rightarrow> json \<Rightarrow> bool" where
  "within k (JArray xs) \<longleftrightarrow> (\<forall>x \<in> set xs. 0 < k \<and> within (k - 1) x)"
| "within k (JObject kvs) \<longleftrightarrow> (\<forall>kv \<in> set kvs. 0 < k \<and> within (k - 1) (snd kv))"
| "within k _ \<longleftrightarrow> True"

lemma parse_number_within: "parse_number s = Done v r \<Longrightarrow> within k v"
  by (auto simp: parse_number_def split: sum.splits if_splits)

lemma parse_json_within:
  "(\<forall>st d s v r. parse_json n st d s = Done v r \<longrightarrow> d \<le> max_depth \<and> within (max_depth - d) v)
   \<and> (\<forall>st d acc c s v r. parse_members n st d acc c s = Done v r \<longrightarrow>
        within (max_depth - d) (JObject acc) \<longrightarrow> within (max_depth - d) v)
   \<and> (\<forall>st d acc s v r. parse_elements n st d acc s = Done v r \<longrightarrow>
        within (max_depth - d) (JArray acc) \<longrightarrow> within (max_depth - d) v)"
proof (induction n)
  case (Suc n)
  have j: "0 < max_depth - d \<and> within (max_depth - d - 1) v" if "parse_json n st (d + 1) s = Done v r"
    for st d s v r
  proof -
    have "d + 1 \<le> max_depth \<and> within (max_depth - (d + 1)) v" using Suc that by blast
    then show ?thesis by simp
  qed
  have m: "within (max_depth - d) v"
    if "parse_members n st d acc c s = Done v r" "within (max_depth - d) (JObject acc)" for st d acc c s v r
    using Suc that by blast
  have e: "within (max_depth - d) v"
    if "parse_elements n st d acc s = Done v r" "within (max_depth - d) (JArray acc)" for st d acc s v r
    using Suc that by blast
  show ?case
  proof (intro conjI allI impI)
    fix st d s v r
    assume a: "parse_json (Suc n) st d s = Done v r"
    then show "d \<le> max_depth" by (simp add: parse_json.simps split: if_splits)
    show "within (max_depth - d) v"
      using a by (cases rule: parse_json_accepts)
        (auto dest: parse_number_within m e)
  next
    fix st d acc c s v r
    assume a: "parse_members (Suc n) st d acc c s = Done v r"
      and acc: "within (max_depth - d) (JObject acc)"
    from a show "within (max_depth - d) v"
    proof (cases rule: parse_members_accepts)
      case (1 key t1 t2 val t3)
      then show ?thesis using j [OF 1(4)] acc by auto
    next
      case (2 key t1 t2 val t3 t4 ch t5)
      have "within (max_depth - d) (JObject (acc @ [(key, val)]))"
        using j [OF 2(4)] acc by auto
      then show ?thesis by (rule m [OF 2(7)])
    qed
  next
    fix st d acc s v r
    assume a: "parse_elements (Suc n) st d acc s = Done v r"
      and acc: "within (max_depth - d) (JArray acc)"
    from a show "within (max_depth - d) v"
    proof (cases rule: parse_elements_accepts)
      case (1 val t)
      then show ?thesis using j [OF 1(1)] acc by auto
    next
      case (2 val t t1 ch t2)
      have "within (max_depth - d) (JArray (acc @ [val]))"
        using j [OF 2(1)] acc by auto
      then show ?thesis by (rule e [OF 2(4)])
    qed
  qed
qed simp

lemma accepted_within: "parser_parse st s = Done v r \<Longrightarrow> within max_depth v"
  using parse_json_within [of "json_fuel s"] by (fastforce simp: parser_parse_def jbind_Done)

end
