(* ===== verification/Json_Roundtrip.thy ===== *)
theory Json_Roundtrip
  imports Json_Laws
begin

text \<open>
  What the JSON writer writes, the reader reads back: the same tree of values, for every tree
  without floating point nodes whose integers have at most nine characters, whose keys are well
  escaped and whose nesting respects the reader's limit.
\<close>

section \<open>Tokens\<close>

lemma token_here: "\<not> is_white c \<Longrightarrow> get_next_token STANDARD (c # r) = Done c r"
  by (simp add: get_next_token_def consume_garbage_def consume_whitespace_def)

lemma token_after_space: "\<not> is_white c \<Longrightarrow> get_next_token STANDARD (CHR '' '' # c # r) = Done c r"
  by (simp add: get_next_token_def consume_garbage_def consume_whitespace_def is_white_def)

lemma not_white [simp]:
  "\<not> is_white (CHR '','')" "\<not> is_white (CHR '':'')" "\<not> is_white (CHR ''['')" "\<not> is_white (CHR '']'')"
  "\<not> is_white (CHR ''{'')" "\<not> is_white (CHR ''}'')" "\<not> is_white DQUOTE" "\<not> is_white (CHR ''-'')"
  "\<not> is_white (CHR ''t'')" "\<not> is_white (CHR ''f'')" "\<not> is_white (CHR ''n'')"
  by (simp_all add: is_white_def)

lemma digit_not_white: "isdigit c \<Longrightarrow> \<not> is_white c"
  by (auto simp: isdigit_def is_white_def)

section \<open>Strings\<close>

lemma ishex_is_hex: "ishex c \<Longrightarrow> is_hex c"
  by (auto simp: ishex_def is_hex_def in_range_def isdigit_in_def digit_of_def c_int_def isdigit_def
      islower_def isupper_def isalnum_def isalpha_def split: if_splits)

lemma hex4_control:
  assumes "n \<le> 0x1f"
  shows "list_all is_hex (hex4 n)" "fst (strtol 16 (hex4 n)) = int n"
proof -
  show "list_all is_hex (hex4 n)"
    by (simp add: hex4_def ishex_is_hex)
  have "scan_int 16 (hex4 n) = Some (False, digits_value 16 0 (hex4 n), [])"
    by (rule scan_int_ishex) (simp_all add: hex4_def)
  moreover have "digits_value 16 0 (hex4 n) = n"
    using assms by (simp add: hex4_def div_mult_mod_eq)
  ultimately show "fst (strtol 16 (hex4 n)) = int n"
    using assms by (simp add: strtol_def signed_value_def LONG_MAX_def LONG_MIN_def)
qed

lemma strtol_2028: "fst (strtol 16 ''2028'') = 0x2028" "fst (strtol 16 ''2029'') = 0x2029"
  by code_simp+

lemma encode_2028:
  "encode_utf8 0x2028 = [char_of (0xe2 :: nat), char_of (0x80 :: nat), char_of (0xa8 :: nat)]"
  "encode_utf8 0x2029 = [char_of (0xe2 :: nat), char_of (0x80 :: nat), char_of (0xa9 :: nat)]"
  by code_simp+

lemma encode_small: "n < 0x80 \<Longrightarrow> encode_utf8 (int n) = [char_of n]"
  by (simp add: encode_utf8_def to_char_def nat_mod_distrib)

lemma encode_none [simp]: "encode_utf8 (- 1) = []"
  by (simp add: encode_utf8_def)

lemma join_not_low: "cp < 0xDC00 \<Longrightarrow> join_surrogates out lc cp = (out @ encode_utf8 lc, cp)"
  by (simp add: join_surrogates_def in_range_def)

lemma char_eq_code: "code c = n \<Longrightarrow> c = char_of n"
  by (metis char_of_code)

lemma parse_string_u:
  assumes "list_all is_hex [a, b, c, d]" "fst (strtol 16 [a, b, c, d]) = cp" "cp < 0xDC00"
  shows "parse_string out lc (BSLASH # CHR ''u'' # a # b # c # d # r) =
    parse_string (out @ encode_utf8 lc) cp r"
  using assms by (simp add: join_not_low in_range_def c_int_def)

lemma parse_string_escape:
  assumes "unescaped e = Some c" "e \<noteq> CHR ''u''"
  shows "parse_string out lc (BSLASH # e # r) = parse_string (out @ encode_utf8 lc @ [c]) (- 1) r"
  using assms by (simp add: in_range_def c_int_def)

lemma parse_string_plain:
  assumes "ch \<noteq> DQUOTE" "ch \<noteq> BSLASH" "\<not> code ch \<le> 0x1f"
  shows "parse_string out lc (ch # r) = parse_string (out @ encode_utf8 lc @ [ch]) (- 1) r"
proof -
  have "\<not> in_range (c_int ch) 0 0x1f"
    using assms code_less_256 [of ch] by (auto simp: in_range_def c_int_def simp del: code_less_256)
  then show ?thesis using assms by simp
qed

lemma hex4_Cons: "\<exists>a b c d. hex4 n = [a, b, c, d]"
  by (simp add: hex4_def)

lemma dump_escape:
  assumes "ch \<in> {BSLASH, DQUOTE, CHR 0x08, CHR 0x0C, LF, CR, TAB}"
  obtains e where "e \<noteq> CHR ''u''" "unescaped e = Some ch" "dump_chars (ch # t) = BSLASH # e # dump_chars t"
  using assms
    that [of BSLASH] that [of DQUOTE] that [of "CHR ''b''"] that [of "CHR ''f''"] that [of "CHR ''n''"]
    that [of "CHR ''r''"] that [of "CHR ''t''"]
  by (elim insertE emptyE) (simp_all add: unescaped_def)

lemma dump_plain:
  assumes "ch \<notin> {BSLASH, DQUOTE, CHR 0x08, CHR 0x0C, LF, CR, TAB}" "\<not> code ch \<le> 0x1f"
    "\<not> (\<exists>a b u. t = a # b # u \<and> code ch = 0xe2 \<and> code a = 0x80 \<and> code b \<in> {0xa8, 0xa9})"
  shows "dump_chars (ch # t) = ch # dump_chars t"
proof (cases "\<exists>a b u. t = a # b # u")
  case True
  then obtain a b u where "t = a # b # u" by blast
  then show ?thesis
    using assms by (subst dump_chars.simps) (simp del: dump_chars.simps, blast)
next
  case False
  then show ?thesis
    using assms by (subst dump_chars.simps) (simp del: dump_chars.simps split: list.split)
qed

lemma parse_string_control:
  assumes "code ch \<le> 0x1f"
  shows "parse_string out lc (BSLASH # ''u'' @ hex4 (code ch) @ r) =
    parse_string (out @ encode_utf8 lc) (int (code ch)) r"
proof -
  obtain a b c d where h: "hex4 (code ch) = [a, b, c, d]" using hex4_Cons by blast
  show ?thesis
    using parse_string_u [of a b c d "int (code ch)"] hex4_control [OF assms] assms h by simp
qed

lemma parse_string_dump:
  "parse_string out lc (dump_chars s @ DQUOTE # r) = Done (out @ encode_utf8 lc @ s) r"
proof (induction s arbitrary: out lc rule: length_induct)
  case (1 s)
  have IH: "parse_string out lc (dump_chars t @ DQUOTE # r) = Done (out @ encode_utf8 lc @ t) r"
    if "length t < length s" for t out lc using 1 that by blast
  show ?case
  proof (cases s)
    case Nil
    then show ?thesis by simp
  next
    case (Cons ch t)
    then have IHt: "parse_string out lc (dump_chars t @ DQUOTE # r) = Done (out @ encode_utf8 lc @ t) r"
      for out lc using IH by simp
    let ?E = "{BSLASH, DQUOTE, CHR 0x08, CHR 0x0C, LF, CR, TAB}"
    let ?sep = "\<lambda>a b u. t = a # b # u \<and> code ch = 0xe2 \<and> code a = 0x80 \<and> code b \<in> {0xa8, 0xa9}"
    consider (esc) "ch \<in> ?E" | (control) "ch \<notin> ?E" "code ch \<le> 0x1f"
      | (sep) a b u where "ch \<notin> ?E" "\<not> code ch \<le> 0x1f" "?sep a b u"
      | (plain) "ch \<notin> ?E" "\<not> code ch \<le> 0x1f" "\<not> (\<exists>a b u. ?sep a b u)"
      by blast
    then show ?thesis
    proof cases
      case esc
      then obtain e where "e \<noteq> CHR ''u''" "unescaped e = Some ch"
        "dump_chars (ch # t) = BSLASH # e # dump_chars t" by (rule dump_escape)
      then show ?thesis using Cons IHt parse_string_escape [of e ch] by simp
    next
      case control
      have "dump_chars (ch # t) = BSLASH # ''u'' @ hex4 (code ch) @ dump_chars t"
        using control by simp
      moreover have "encode_utf8 (int (code ch)) = [ch]" using encode_small [of "code ch"] control by simp
      ultimately show ?thesis
        using Cons IHt parse_string_control [OF control(2), of out lc "dump_chars t @ DQUOTE # r"]
        by (simp del: parse_string.simps)
    next
      case sep
      have u: "parse_string out lc (dump_chars u @ DQUOTE # r) = Done (out @ encode_utf8 lc @ u) r"
        for out lc using IH Cons sep(3) by simp
      have hex: "list_all is_hex ''2028''" "list_all is_hex ''2029''" by code_simp+
      have c: "ch = char_of (0xe2 :: nat)" "a = char_of (0x80 :: nat)"
        using sep(3) char_eq_code [of ch "0xe2"] char_eq_code [of a "0x80"] by auto
      consider "b = char_of (0xa8 :: nat)" "code b = 0xa8" | "b = char_of (0xa9 :: nat)" "code b = 0xa9"
        using sep(3) char_eq_code [of b "0xa8"] char_eq_code [of b "0xa9"] by blast
      then show ?thesis
      proof cases
        case 1
        have "dump_chars (ch # t) = BSLASH # ''u2028'' @ dump_chars u"
          using sep 1(2) by simp
        then show ?thesis
          using Cons u sep(3) c 1 encode_2028
            parse_string_u [OF hex(1) strtol_2028(1), of out lc "dump_chars u @ DQUOTE # r"]
          by (simp del: parse_string.simps dump_chars.simps)
      next
        case 2
        have "dump_chars (ch # t) = BSLASH # ''u2029'' @ dump_chars u"
          using sep 2(2) by simp
        then show ?thesis
          using Cons u sep(3) c 2 encode_2028
            parse_string_u [OF hex(2) strtol_2028(2), of out lc "dump_chars u @ DQUOTE # r"]
          by (simp del: parse_string.simps dump_chars.simps)
      qed
    next
      case plain
      have "ch \<noteq> DQUOTE" "ch \<noteq> BSLASH" using plain(1) by auto
      then show ?thesis
        using Cons IHt parse_string_plain [of ch out lc "dump_chars t @ DQUOTE # r"] dump_plain [OF plain] plain(2)
        by (simp del: parse_string.simps dump_chars.simps)
    qed
  qed
qed

section \<open>Keys\<close>

text \<open>A key as it stands in the text: no bare quote, and only the escapes JSON knows.\<close>

fun key_ok :: "string \<Rightarrow> bool" where
  "key_ok [] = True"
| "key_ok (c # r) =
     (if c = DQUOTE then False
      else if c \<noteq> BSLASH then key_ok r
      else case r of
        [] \<Rightarrow> False
      | e # t \<Rightarrow>
          if e = CHR ''u'' then (case t of _ # _ # _ # _ # t' \<Rightarrow> key_ok t' | _ \<Rightarrow> False)
          else e \<in> set (''bfnrt/'' @ [DQUOTE, BSLASH]) \<and> key_ok t)"

lemma key_ok_escape:
  assumes "key_ok (BSLASH # r)"
  obtains a b c d t where "r = CHR ''u'' # a # b # c # d # t" "key_ok t"
  | e t where "r = e # t" "e \<noteq> CHR ''u''" "e \<in> set (''bfnrt/'' @ [DQUOTE, BSLASH])" "key_ok t"
proof -
  obtain e t where r: "r = e # t" using assms by (cases r) simp_all
  show thesis
  proof (cases "e = CHR ''u''")
    case True
    then show thesis using assms r that(1) by (auto split: list.splits)
  next
    case False
    then show thesis using assms r that(2) [of e t] by simp
  qed
qed

lemma parse_key_ok_acc: "key_ok k \<Longrightarrow> parse_key acc (k @ DQUOTE # r) = Done (acc @ k) r"
proof (induction k arbitrary: acc rule: length_induct)
  case (1 k)
  have IH: "parse_key a (u @ DQUOTE # r) = Done (a @ u) r" if "key_ok u" "length u < length k" for a u
    using 1(1) that by blast
  show ?case
  proof (cases k)
    case (Cons ch t)
    show ?thesis
    proof (cases "ch = BSLASH")
      case True
      then have "key_ok (BSLASH # t)" using 1(2) Cons by simp
      then show ?thesis
        by (rule key_ok_escape) (use Cons True IH in auto)
    next
      case False
      then show ?thesis using 1(2) Cons IH [of t "acc @ [ch]"] by (auto split: if_splits)
    qed
  qed simp
qed

lemma parse_key_ok: "key_ok k \<Longrightarrow> parse_key [] (k @ DQUOTE # r) = Done k r"
  using parse_key_ok_acc [of k "[]"] by simp

section \<open>Numbers\<close>

text \<open>What may follow a value without changing how a number before it is read.\<close>

definition value_end :: "string \<Rightarrow> bool" where
  "value_end post \<longleftrightarrow> \<not> isdigit (peek post) \<and> peek post \<notin> {CHR ''.'', CHR ''e'', CHR ''E''}"

lemma nat_str_no_leading_zero: "0 < n \<Longrightarrow> hd (nat_str n) \<noteq> CHR ''0''"
proof (induction n rule: nat_str.induct)
  case (1 n)
  show ?case
  proof (cases "n < 10")
    case True
    have "digit_char n \<noteq> CHR ''0''"
    proof
      assume "digit_char n = CHR ''0''"
      then have "code (digit_char n) = 48" by simp
      then show False using True 1(2) by (simp only: code_digit_char)
    qed
    then show ?thesis using True by (subst nat_str.simps) simp
  next
    case False
    then show ?thesis using 1 by (subst nat_str.simps) simp
  qed
qed

lemma peek_append: "s \<noteq> [] \<Longrightarrow> peek (s @ t) = hd s"
  by (cases s) (simp_all add: peek_def)

lemma not_digit_hd: "\<not> isdigit (peek post) \<Longrightarrow> post = [] \<or> \<not> isdigit (hd post)"
  by (cases post) (auto simp: peek_def)

lemma nat_str_zero: "nat_str 0 = ''0''"
  using char_of_code [of "CHR ''0''"] by (simp add: nat_str.simps digit_char_def del: char_of_code)

lemma integer_part_nat_str:
  assumes "\<not> isdigit (peek post)"
  shows "number_integer_part (nat_str n @ post) = Inr post"
proof (cases "n = 0")
  case True
  then show ?thesis using assms nat_str_zero by (simp add: number_integer_part_def peek_def)
next
  case False
  obtain d ds where d: "nat_str n = d # ds" by (cases "nat_str n") simp_all
  then have "isdigit d" "d \<noteq> CHR ''0''"
    using nat_str_digits [of n] nat_str_no_leading_zero [of n] False by auto
  moreover have "dropWhile isdigit (nat_str n @ post) = post"
    using takeWhile_digits(2) [OF nat_str_digits not_digit_hd [OF assms]] .
  ultimately show ?thesis
    using d by (simp add: number_integer_part_def skip_digits_def peek_def)
qed

lemma cstr_append_no_nul: "no_nul s \<Longrightarrow> cstr (s @ t) = s @ cstr t"
  unfolding cstr_def no_nul_def by (subst takeWhile_append2) auto

lemma hd_cstr: "\<not> isdigit (peek post) \<Longrightarrow> cstr post = [] \<or> \<not> isdigit (hd (cstr post))"
  by (cases post) (auto simp: peek_def cstr_def)

lemma atol_int_str_append:
  assumes "\<not> isdigit (peek post)" "\<bar>v\<bar> < 2 ^ 63"
  shows "atol (int_str v @ post) = v"
proof -
  have r: "scan_int 10 (nat_str n @ cstr post) = Some (False, n, cstr post)" for n
    by (rule scan_int_nat_str [OF hd_cstr [OF assms(1)]])
  show ?thesis
  proof (cases "v < 0")
    case True
    have "scan_int 10 (CHR ''-'' # nat_str n @ cstr post) = Some (True, n, cstr post)" for n
      using r [of n] takeWhile_digits [OF nat_str_digits hd_cstr [OF assms(1)], of n]
      by (simp add: scan_int_def isspace_def)
    then show ?thesis
      using True assms(2)
      by (simp add: atol_def strtol_def int_str_def cstr_append_no_nul signed_value_def LONG_MAX_def
          LONG_MIN_def cstr_append_no_nul [of "CHR ''-'' # nat_str n" for n, simplified])
  next
    case False
    then show ?thesis
      using r assms(2)
      by (simp add: atol_def strtol_def int_str_def cstr_append_no_nul signed_value_def LONG_MAX_def
          LONG_MIN_def)
  qed
qed

lemma length_nat_str: "n < 10 ^ length (nat_str n)"
proof (induction n rule: nat_str.induct)
  case (1 n)
  show ?case
  proof (cases "n < 10")
    case True
    then show ?thesis by (subst nat_str.simps) simp
  next
    case False
    then have "n div 10 < 10 ^ length (nat_str (n div 10))" using 1 by simp
    then have "n < 10 * 10 ^ length (nat_str (n div 10))" by linarith
    then show ?thesis using False by (subst nat_str.simps) simp
  qed
qed

lemma short_int_small:
  assumes "length (int_str v) \<le> 9"
  shows "\<bar>v\<bar> < 10 ^ 9"
proof -
  have "nat \<bar>v\<bar> < 10 ^ length (nat_str (nat \<bar>v\<bar>))" by (rule length_nat_str)
  moreover have "length (nat_str (nat \<bar>v\<bar>)) \<le> 9"
    using assms by (auto simp: int_str_def split: if_splits)
  then have "(10 :: nat) ^ length (nat_str (nat \<bar>v\<bar>)) \<le> 10 ^ 9" by (rule power_increasing) simp
  ultimately have "nat \<bar>v\<bar> < 10 ^ 9" by (rule less_le_trans)
  then show ?thesis by simp
qed

lemma short_int_bound: "length (int_str v) \<le> 9 \<Longrightarrow> \<bar>v\<bar> < 2 ^ 63"
  using short_int_small [of v] by simp

lemma parse_number_int_str:
  assumes "length (int_str v) \<le> 9" "value_end post"
  shows "parse_number (int_str v @ post) = Done (JInt v) post"
proof -
  have nd: "\<not> isdigit (peek post)" using assms(2) by (simp add: value_end_def)
  have "(if peek (int_str v @ post) = CHR ''-'' then tl (int_str v @ post) else int_str v @ post) =
      nat_str (nat \<bar>v\<bar>) @ post"
  proof (cases "v < 0")
    case False
    obtain d ds where d: "nat_str (nat v) = d # ds" by (cases "nat_str (nat v)") simp_all
    then have "d \<noteq> CHR ''-''" using nat_str_digits [of "nat v"] isdigit_neq_special(2) by auto
    then show ?thesis using False d by (simp add: int_str_def peek_def)
  qed (simp add: int_str_def peek_def)
  then show ?thesis
    using integer_part_nat_str [OF nd] assms atol_int_str_append [OF nd short_int_bound [OF assms(1)]]
    by (simp add: parse_number_def value_end_def digits10_int_def)
qed

section \<open>Values\<close>

fun json_ok :: "json \<Rightarrow> bool" where
  "json_ok (JInt v) \<longleftrightarrow> length (int_str v) \<le> digits10_int"
| "json_ok (JDouble v) \<longleftrightarrow> False"
| "json_ok (JArray xs) \<longleftrightarrow> (\<forall>x \<in> set xs. json_ok x)"
| "json_ok (JObject kvs) \<longleftrightarrow> (\<forall>kv \<in> set kvs. key_ok (fst kv) \<and> json_ok (snd kv))"
| "json_ok _ \<longleftrightarrow> True"

lemma int_str_head: "\<exists>c r. int_str v = c # r \<and> (c = CHR ''-'' \<or> isdigit c)"
proof (cases "v < 0")
  case False
  then show ?thesis
    using nat_str_digits [of "nat v"] by (cases "nat_str (nat v)") (auto simp: int_str_def)
qed (simp add: int_str_def)

lemma dump_head:
  "json_ok v \<Longrightarrow> \<exists>c r. dump ds v = c # r \<and> \<not> is_white c \<and> c \<noteq> CHR '']''"
proof (cases v)
  case (JInt n)
  then show ?thesis using int_str_head [of n] digit_not_white by (auto simp: isdigit_def)
qed (simp_all add: dump_string_def)

lemma value_end_sep [simp]:
  "value_end (CHR '','' # r)" "value_end (CHR '']'' # r)" "value_end (CHR ''}'' # r)" "value_end []"
  by (simp_all add: value_end_def peek_def isdigit_def)

definition reads_back :: "(string \<Rightarrow> string) \<Rightarrow> json \<Rightarrow> bool" where
  "reads_back ds v \<longleftrightarrow>
     (\<forall>n d post. d \<le> max_depth \<and> within (max_depth - d) v \<and> value_end post
        \<and> 2 * length (dump ds v @ post) < n
        \<longrightarrow> parse_json n STANDARD d (dump ds v @ post) = Done v post)"

lemma reads_backD:
  "reads_back ds v \<Longrightarrow> 0 < max_depth - d \<Longrightarrow> within (max_depth - d - 1) v \<Longrightarrow> value_end post \<Longrightarrow>
    2 * length (dump ds v @ post) < n \<Longrightarrow>
    parse_json n STANDARD (Suc d) (dump ds v @ post) = Done v post"
  by (simp add: reads_back_def Suc_le_eq)

lemma parse_elements_join:
  assumes "xs \<noteq> []" "\<And>x. x \<in> set xs \<Longrightarrow> reads_back ds x \<and> json_ok x"
    "within (max_depth - d) (JArray xs)" "2 * length (join '', '' (map (dump ds) xs) @ '']'' @ post) + 1 < n"
  shows "parse_elements n STANDARD d acc (join '', '' (map (dump ds) xs) @ '']'' @ post) =
    Done (JArray (acc @ xs)) post"
  using assms
proof (induction xs arbitrary: acc n rule: induct_list012)
  case 1
  then show ?case by simp
next
  case (2 x)
  then obtain n' where n: "n = Suc n'" by (cases n) simp_all
  have "parse_json n' STANDARD (Suc d) (dump ds x @ '']'' @ post) = Done x ('']'' @ post)"
    using 2 n by (intro reads_backD) auto
  then show ?case
    using n by (simp add: parse_elements.simps token_here)
next
  case (3 x y xs)
  then obtain n' where n: "n = Suc n'" by (cases n) simp_all
  let ?rest = "join '', '' (map (dump ds) (y # xs)) @ '']'' @ post"
  have j: "parse_json n' STANDARD (Suc d) (dump ds x @ '', '' @ ?rest) = Done x ('', '' @ ?rest)"
    using 3 n by (intro reads_backD) auto
  have "\<exists>c r. join '', '' (map (dump ds) (y # xs)) = c # r \<and> \<not> is_white c"
    using dump_head [of y ds] 3(4) by (cases xs) auto
  then obtain c r where c: "?rest = c # r" "\<not> is_white c" by auto
  have "parse_elements n' STANDARD d (acc @ [x]) ?rest = Done (JArray ((acc @ [x]) @ (y # xs))) post"
    using 3 n by (intro 3(2)) auto
  then show ?case
    using n j c by (simp add: parse_elements.simps token_here token_after_space)
qed

definition member_text :: "(string \<Rightarrow> string) \<Rightarrow> string \<times> json \<Rightarrow> string" where
  "member_text ds kv = DQUOTE # fst kv @ DQUOTE # '':'' @ dump ds (snd kv)"

lemma dump_object: "dump ds (JObject kvs) = ''{'' @ join '', '' (map (member_text ds) kvs) @ ''}''"
proof -
  have "(\<lambda>(k, v). DQUOTE # k @ DQUOTE # '':'' @ dump ds v) = member_text ds"
    by (simp add: fun_eq_iff member_text_def)
  then show ?thesis by simp
qed

lemma parse_member:
  assumes "key_ok k" "parse_json n STANDARD (Suc d) (dump ds v @ post) = Done v post"
    "get_next_token STANDARD post = Done ch r" "json_ok v"
  shows "parse_members (Suc n) STANDARD d acc DQUOTE (k @ DQUOTE # '':'' @ dump ds v @ post) =
    (if ch = CHR ''}'' then Done (JObject (acc @ [(k, v)])) r
     else if ch \<noteq> CHR '','' then
       Fail (''Expected '' @ [CHR 0x27, CHR '','', CHR 0x27] @ '' in object, got '' @ esc ch @ ''.'')
     else jbind (get_next_token STANDARD r) (\<lambda>ch r. parse_members n STANDARD d (acc @ [(k, v)]) ch r))"
  using assms parse_key_ok [OF assms(1)] by (simp add: parse_members.simps token_here)

lemma parse_members_join:
  assumes "kvs \<noteq> []" "\<And>kv. kv \<in> set kvs \<Longrightarrow> reads_back ds (snd kv) \<and> json_ok (snd kv) \<and> key_ok (fst kv)"
    "within (max_depth - d) (JObject kvs)"
    "join '', '' (map (member_text ds) kvs) @ ''}'' @ post = DQUOTE # s" "2 * length s < n"
  shows "parse_members n STANDARD d acc DQUOTE s = Done (JObject (acc @ kvs)) post"
  using assms
proof (induction kvs arbitrary: acc n s rule: induct_list012)
  case 1
  then show ?case by simp
next
  case (2 kv)
  then obtain n' where n: "n = Suc n'" by (cases n) simp_all
  have s: "s = fst kv @ DQUOTE # '':'' @ dump ds (snd kv) @ ''}'' @ post"
    using 2(4) by (simp add: member_text_def)
  have "parse_json n' STANDARD (Suc d) (dump ds (snd kv) @ ''}'' @ post) = Done (snd kv) (''}'' @ post)"
    using 2 n s by (intro reads_backD) auto
  then show ?case
    using n s 2(2) [of kv] parse_member [of "fst kv" n' d ds "snd kv" "''}'' @ post" "CHR ''}''" post acc]
    by (simp add: token_here)
next
  case (3 kv kw kvs)
  then obtain n' where n: "n = Suc n'" by (cases n) simp_all
  let ?rest = "join '', '' (map (member_text ds) (kw # kvs)) @ ''}'' @ post"
  have s: "s = fst kv @ DQUOTE # '':'' @ dump ds (snd kv) @ '', '' @ ?rest"
    using 3(6) by (simp add: member_text_def [of ds kv])
  have "\<exists>r. ?rest = DQUOTE # r" by (cases kvs) (simp_all add: member_text_def)
  then obtain r where r: "?rest = DQUOTE # r" by blast
  have j: "parse_json n' STANDARD (Suc d) (dump ds (snd kv) @ '', '' @ ?rest) = Done (snd kv) ('', '' @ ?rest)"
    using 3 n s by (intro reads_backD) auto
  have "2 * length r < n'"
    using 3(7) n s arg_cong [OF r, of length] by simp
  then have "parse_members n' STANDARD d (acc @ [kv]) DQUOTE r = Done (JObject ((acc @ [kv]) @ (kw # kvs))) post"
    using 3 n s r by (intro 3(2)) auto
  then show ?case
    using n s j r 3(4) [of kv]
      parse_member [of "fst kv" n' d ds "snd kv" "'', '' @ ?rest" "CHR '',''" "CHR '' '' # ?rest" acc]
    by (simp add: token_here token_after_space)
qed

lemma parse_json_head:
  assumes "\<not> is_white c" "d \<le> max_depth"
  shows "parse_json (Suc n) STANDARD d (c # r) =
    (if c = CHR ''-'' \<or> isdigit c then parse_number (c # r)
     else if c = CHR ''t'' then expect ''true'' (JBool True) (c # r)
     else if c = CHR ''f'' then expect ''false'' (JBool False) (c # r)
     else if c = CHR ''n'' then expect ''null'' JNull (c # r)
     else if c = DQUOTE then jbind (parse_string [] (- 1) r) (\<lambda>v. Done (JString v))
     else if c = CHR ''{'' then
       jbind (get_next_token STANDARD r) (\<lambda>ch r.
         if ch = CHR ''}'' then Done (JObject []) r else parse_members n STANDARD d [] ch r)
     else if c = CHR ''['' then
       jbind (get_next_token STANDARD r) (\<lambda>ch r.
         if ch = CHR '']'' then Done (JArray []) r else parse_elements n STANDARD d [] (ch # r))
     else Fail (''Expected value, got '' @ esc c @ ''.''))"
  using assms by (simp add: parse_json.simps token_here)

lemma reads_backI:
  assumes "\<And>n d post. d \<le> max_depth \<Longrightarrow> within (max_depth - d) v \<Longrightarrow> value_end post \<Longrightarrow>
    2 * length (dump ds v @ post) \<le> n \<Longrightarrow> parse_json (Suc n) STANDARD d (dump ds v @ post) = Done v post"
  shows "reads_back ds v"
  unfolding reads_back_def
proof (intro allI impI)
  fix n d post
  assume "d \<le> max_depth \<and> within (max_depth - d) v \<and> value_end post \<and> 2 * length (dump ds v @ post) < n"
  then show "parse_json n STANDARD d (dump ds v @ post) = Done v post"
    using assms [of d post "n - 1"] by (cases n) simp_all
qed

lemma reads_back_leaf:
  "reads_back ds JNull" "reads_back ds (JBool b)" "reads_back ds (JString s)"
  by (rule reads_backI; simp add: parse_json_head isdigit_def expect_def dump_string_def
      parse_string_dump)+

lemma reads_back_int:
  assumes "length (int_str i) \<le> digits10_int"
  shows "reads_back ds (JInt i)"
proof (rule reads_backI)
  fix n d post
  assume "d \<le> max_depth" "value_end post"
  moreover obtain c r where c: "int_str i = c # r" "c = CHR ''-'' \<or> isdigit c"
    using int_str_head by blast
  moreover have "\<not> is_white c" using c(2) digit_not_white by auto
  ultimately show "parse_json (Suc n) STANDARD d (dump ds (JInt i) @ post) = Done (JInt i) post"
    using assms parse_number_int_str [of i post] by (simp add: parse_json_head digits10_int_def)
qed

lemma reads_back_array:
  assumes "\<And>x. x \<in> set xs \<Longrightarrow> reads_back ds x \<and> json_ok x"
  shows "reads_back ds (JArray xs)"
  unfolding reads_back_def
proof (intro allI impI)
  fix n d post
  assume a: "d \<le> max_depth \<and> within (max_depth - d) (JArray xs) \<and> value_end post
    \<and> 2 * length (dump ds (JArray xs) @ post) < n"
  then obtain n' where n: "n = Suc n'" by (cases n) simp_all
  show "parse_json n STANDARD d (dump ds (JArray xs) @ post) = Done (JArray xs) post"
  proof (cases xs)
    case Nil
    then show ?thesis using a n by (simp add: parse_json_head token_here isdigit_def)
  next
    case (Cons x ys)
    let ?s = "join '', '' (map (dump ds) xs) @ '']'' @ post"
    have "\<exists>c r. ?s = c # r \<and> \<not> is_white c \<and> c \<noteq> CHR '']''"
      using dump_head [of x ds] assms [of x] Cons by (cases ys) auto
    then obtain c r where c: "?s = c # r" "\<not> is_white c" "c \<noteq> CHR '']''" by blast
    have "parse_elements n' STANDARD d [] ?s = Done (JArray ([] @ xs)) post"
      using a n assms Cons by (intro parse_elements_join) auto
    then show ?thesis
      using a n c by (simp add: parse_json_head token_here isdigit_def)
  qed
qed

lemma reads_back_object:
  assumes "\<And>kv. kv \<in> set kvs \<Longrightarrow> reads_back ds (snd kv) \<and> json_ok (snd kv) \<and> key_ok (fst kv)"
  shows "reads_back ds (JObject kvs)"
  unfolding reads_back_def dump_object
proof (intro allI impI)
  fix n d post
  let ?t = "join '', '' (map (member_text ds) kvs) @ ''}''"
  assume a: "d \<le> max_depth \<and> within (max_depth - d) (JObject kvs) \<and> value_end post
    \<and> 2 * length ((''{'' @ ?t) @ post) < n"
  then obtain n' where n: "n = Suc n'" by (cases n) simp_all
  show "parse_json n STANDARD d ((''{'' @ ?t) @ post) = Done (JObject kvs) post"
  proof (cases kvs)
    case Nil
    then show ?thesis using a n by (simp add: parse_json_head token_here isdigit_def)
  next
    case (Cons kv kws)
    have "\<exists>s. ?t @ post = DQUOTE # s" using Cons by (cases kws) (simp_all add: member_text_def)
    then obtain s where s: "?t @ post = DQUOTE # s" by blast
    have "2 * length s < n'" using a n arg_cong [OF s, of length] by simp
    then have "parse_members n' STANDARD d [] DQUOTE s = Done (JObject ([] @ kvs)) post"
      using a n assms Cons s by (intro parse_members_join [where ds = ds]) auto
    then show ?thesis
      using a n s by (simp add: parse_json_head token_here isdigit_def)
  qed
qed

lemma json_ok_reads_back: "json_ok v \<Longrightarrow> reads_back ds v"
proof (induction v)
  case (JArray xs)
  then show ?case by (intro reads_back_array) auto
next
  case (JObject kvs)
  have "reads_back ds (snd kv) \<and> json_ok (snd kv) \<and> key_ok (fst kv)" if "kv \<in> set kvs" for kv
    using JObject that by (cases kv) fastforce
  then show ?case by (rule reads_back_object)
qed (simp_all add: reads_back_leaf reads_back_int)

lemma parse_dump:
  assumes "json_ok v" "within max_depth v"
  shows "parser_parse STANDARD (dump ds v) = Done v []"
proof -
  have "reads_back ds v" using assms(1) by (rule json_ok_reads_back)
  then have "parse_json (json_fuel (dump ds v)) STANDARD 0 (dump ds v @ []) = Done v []"
    using assms(2) unfolding reads_back_def json_fuel_def
    by (elim allE [of _ "2 * length (dump ds v) + 1"] allE [of _ 0] allE [of _ "[]"]) simp
  then show ?thesis
    by (simp add: parser_parse_def consume_garbage_def consume_whitespace_def)
qed

end
