(* ===== verification/Builder.thy ===== *)
theory Builder
  imports Json_Roundtrip
begin

text \<open>
  The JSON writer of the responses: \<open>utils/json/JsonBuilder.h\<close> and \<open>utils/common/CommonJsonBuilder.h\<close>.
  The builder writes into a \<open>std::ostringstream\<close>, a buffer with a put position, and takes back its
  last separator by seeking one character before the end and overwriting it. The laws relate this
  to the text of a JSON object, and to what the reader makes of it.
\<close>

section \<open>String streams\<close>

record ostream =
  os_buf :: string
  os_pos :: nat

definition os_put :: "string \<Rightarrow> ostream \<Rightarrow> ostream" where
  "os_put s os =
     \<lparr>os_buf = take (os_pos os) (os_buf os) @ s @ drop (os_pos os + length s) (os_buf os),
      os_pos = os_pos os + length s\<rparr>"

text \<open>\<open>out.seekp(-1, std::ios::end)\<close>; on an empty buffer the stream fails, which no builder reaches.\<close>

definition seek_back :: "ostream \<Rightarrow> ostream" where
  "seek_back os = os\<lparr>os_pos := length (os_buf os) - 1\<rparr>"

section \<open>Building an object\<close>

definition new_JsonBuilder :: ostream where
  "new_JsonBuilder = os_put ''{'' \<lparr>os_buf = ''{'', os_pos = 0\<rparr>"

definition builder_str :: "ostream \<Rightarrow> string" where
  "builder_str os = os_buf (os_put ''}'' (seek_back os))"

definition key_text :: "string \<Rightarrow> string" where
  "key_text key = DQUOTE # key @ [DQUOTE] @ '': ''"

text \<open>The overloads of \<open>write\<close>: a string is written between quotes as it is.\<close>

definition write_bool :: "string \<Rightarrow> bool \<Rightarrow> ostream \<Rightarrow> ostream" where
  "write_bool key value = os_put (key_text key @ (if value then ''true'' else ''false'') @ '','')"

definition write_string :: "string \<Rightarrow> string \<Rightarrow> ostream \<Rightarrow> ostream" where
  "write_string key value = os_put (key_text key @ (DQUOTE # value @ [DQUOTE]) @ '','')"

definition write_int :: "string \<Rightarrow> int \<Rightarrow> ostream \<Rightarrow> ostream" where
  "write_int key value = os_put (key_text key @ int_str value @ '','')"

definition write_null :: "string \<Rightarrow> ostream \<Rightarrow> ostream" where
  "write_null key = os_put (key_text key @ ''null,'')"

definition writeObj :: "string \<Rightarrow> string \<Rightarrow> ostream \<Rightarrow> ostream" where
  "writeObj key value = os_put (key_text key @ value @ '','')"

text \<open>\<open>operator<<\<close> with a field that may be null.\<close>

definition write_nullable :: "string \<Rightarrow> string \<Rightarrow> bool \<Rightarrow> ostream \<Rightarrow> ostream" where
  "write_nullable key value is_null os =
     (if is_null then write_null key os else write_string key value os)"

text \<open>\<open>write_val\<close> for strings escapes.\<close>

definition write_val :: "string \<Rightarrow> ostream \<Rightarrow> ostream" where
  "write_val value = os_put (dump_string value)"

section \<open>Arrays and nested objects\<close>

definition open_array :: "string \<Rightarrow> ostream \<Rightarrow> ostream" where
  "open_array key = os_put (DQUOTE # key @ [DQUOTE] @ '': ['')"

text \<open>\<open>to_array\<close> over a range with a function that writes one element.\<close>

fun put_elements :: "('a \<Rightarrow> ostream \<Rightarrow> ostream) \<Rightarrow> 'a list \<Rightarrow> ostream \<Rightarrow> ostream" where
  "put_elements f [] os = os"
| "put_elements f (x # xs) os = put_elements f xs (os_put '','' (f x os))"

definition to_array :: "string \<Rightarrow> ('a \<Rightarrow> ostream \<Rightarrow> ostream) \<Rightarrow> 'a list \<Rightarrow> ostream \<Rightarrow> ostream" where
  "to_array key f xs os =
     (let os = open_array key os;
          os = (if xs \<noteq> [] then seek_back (put_elements f xs os) else os)
      in os_put ''],'' os)"

definition to_array_strings :: "string \<Rightarrow> string list \<Rightarrow> ostream \<Rightarrow> ostream" where
  "to_array_strings key = to_array key write_val"

definition to_arrayObj :: "string \<Rightarrow> string list \<Rightarrow> ostream \<Rightarrow> ostream" where
  "to_arrayObj key = to_array key os_put"

text \<open>\<open>for_each\<close> over a range: every element becomes an object whose members \<open>f\<close> writes.\<close>

definition put_object :: "(ostream \<Rightarrow> ostream) \<Rightarrow> ostream \<Rightarrow> ostream" where
  "put_object f os = os_put ''},'' (seek_back (f (os_put ''{'' os)))"

fun put_objects :: "('a \<Rightarrow> ostream \<Rightarrow> ostream) \<Rightarrow> 'a list \<Rightarrow> ostream \<Rightarrow> ostream" where
  "put_objects f [] os = os"
| "put_objects f (x # xs) os = put_objects f xs (put_object (f x) os)"

definition for_each :: "string \<Rightarrow> 'a list \<Rightarrow> ('a \<Rightarrow> ostream \<Rightarrow> ostream) \<Rightarrow> ostream \<Rightarrow> ostream" where
  "for_each key xs f os =
     (let os = open_array key os;
          os = (if xs \<noteq> [] then seek_back (put_objects f xs os) else os)
      in os_put ''],'' os)"

datatype ControlResp = USE | CONT | LAST | SKIP

text \<open>
  \<open>take_while\<close> over the rows of a result: it stops in front of the first row that does not satisfy
  the predicate, which stays the current row. The last component is the rows from there on.
\<close>

fun take_rows :: "('r \<Rightarrow> bool) \<Rightarrow> ('r \<Rightarrow> ostream \<Rightarrow> ostream) \<Rightarrow> 'r list \<Rightarrow> ostream \<Rightarrow> ControlResp \<times> ostream \<times> 'r list" where
  "take_rows p f [] os = (CONT, os, [])"
| "take_rows p f (r # rs) os =
     (if \<not> p r then (USE, os, r # rs) else take_rows p f rs (put_object (f r) os))"

definition take_while :: "string \<Rightarrow> 'r list \<Rightarrow> ('r \<Rightarrow> bool) \<Rightarrow> ('r \<Rightarrow> ostream \<Rightarrow> ostream) \<Rightarrow> ostream \<Rightarrow> ControlResp \<times> ostream \<times> 'r list" where
  "take_while key rows p f os =
     (let os = open_array key os in
      if rows = [] then (CONT, os_put ''],'' os, [])
      else (let (res, os, rest) = take_rows p f rows os in (res, os_put ''],'' (seek_back os), rest)))"

text \<open>\<open>write_dictionary_items\<close> over a range; the function writes one member without its comma.\<close>

definition write_dictionary_items :: "string \<Rightarrow> 'a list \<Rightarrow> ('a \<Rightarrow> ostream \<Rightarrow> ostream) \<Rightarrow> ostream \<Rightarrow> ostream" where
  "write_dictionary_items key xs f os =
     (let os = os_put (DQUOTE # key @ [DQUOTE] @ '': {'') os;
          os = (if xs \<noteq> [] then seek_back (put_elements f xs os) else os)
      in os_put ''},'' (seek_back os))"

section \<open>Metadata of the database\<close>

text \<open>
  \<open>std::getline\<close> with a separator: the tokens of a text, where a separator at the very end does not
  start another token.
\<close>

fun getline_tokens :: "char \<Rightarrow> string \<Rightarrow> string \<Rightarrow> string list" where
  "getline_tokens sep acc [] = (if acc = [] then [] else [acc])"
| "getline_tokens sep acc (c # s) =
     (if c = sep then acc # getline_tokens sep [] s else getline_tokens sep (acc @ [c]) s)"

definition metadata_entry :: "string \<Rightarrow> string" where
  "metadata_entry token =
     (case getline_tokens (CHR ''='') [] token of
        key # value # _ \<Rightarrow>
          if key \<noteq> [] \<and> value \<noteq> [] then DQUOTE # key @ [DQUOTE] @ '':'' @ DQUOTE # value @ [DQUOTE] @ '',''
          else []
      | _ \<Rightarrow> [])"

definition dbMetadataToJsonMetadata :: "string \<Rightarrow> string" where
  "dbMetadataToJsonMetadata dbMeta =
     (let s = ''{'' @ concat (map metadata_entry (getline_tokens (CHR '','') [] dbMeta))
      in if length s \<noteq> 1 then butlast s @ ''}'' else s @ ''}'')"

section \<open>Appending\<close>

definition at_end :: "ostream \<Rightarrow> bool" where
  "at_end os \<longleftrightarrow> os_pos os = length (os_buf os)"

definition appended :: "ostream \<Rightarrow> string \<Rightarrow> ostream" where
  "appended os s = \<lparr>os_buf = os_buf os @ s, os_pos = length (os_buf os @ s)\<rparr>"

lemma appended_simps [simp]:
  "at_end (appended os s)" "appended (appended os s) t = appended os (s @ t)"
  "os_buf (appended os s) = os_buf os @ s"
  by (simp_all add: at_end_def appended_def)

lemma put_at_end [simp]: "at_end os \<Longrightarrow> os_put s os = appended os s"
  by (simp add: at_end_def os_put_def appended_def)

lemma put_over_last: "os_put (c # s) (seek_back (appended os (t @ [d]))) = appended os (t @ c # s)"
  by (simp add: seek_back_def os_put_def appended_def)

text \<open>A writer that appends a fixed text.\<close>

definition writes :: "(ostream \<Rightarrow> ostream) \<Rightarrow> string \<Rightarrow> bool" where
  "writes f s \<longleftrightarrow> (\<forall>os. at_end os \<longrightarrow> f os = appended os s)"

lemma writesD: "writes f s \<Longrightarrow> at_end os \<Longrightarrow> f os = appended os s"
  by (simp add: writes_def)

lemma put_elements_writes:
  "(\<And>x. x \<in> set xs \<Longrightarrow> writes (f x) (t x)) \<Longrightarrow> at_end os \<Longrightarrow>
    put_elements f xs os = appended os (concat (map (\<lambda>x. t x @ '','') xs))"
proof (induction xs arbitrary: os)
  case Nil
  then show ?case by (cases os) (simp add: appended_def at_end_def)
next
  case (Cons x xs)
  have "f x os = appended os (t x)" using Cons.prems by (simp add: writesD)
  then show ?case using Cons by simp
qed

lemma concat_commas:
  "xs \<noteq> [] \<Longrightarrow> concat (map (\<lambda>x. t x @ '','') xs) = join '','' (map t xs) @ '',''"
  by (induction xs rule: induct_list012) auto

lemma to_array_writes:
  assumes "\<And>x. x \<in> set xs \<Longrightarrow> writes (f x) (t x)"
  shows "writes (to_array key f xs) (key_text key @ ''['' @ join '','' (map t xs) @ ''],'')"
  unfolding writes_def
proof (intro allI impI)
  fix os
  assume e: "at_end os"
  let ?os = "appended os (key_text key @ ''['')"
  have o: "open_array key os = ?os" using e by (simp add: open_array_def key_text_def)
  show "to_array key f xs os = appended os (key_text key @ ''['' @ join '','' (map t xs) @ ''],'')"
  proof (cases "xs = []")
    case True
    then show ?thesis using o by (simp add: to_array_def)
  next
    case False
    have "put_elements f xs ?os = appended os ((key_text key @ ''['' @ join '','' (map t xs)) @ '','')"
      using put_elements_writes [of xs f t ?os] assms concat_commas [OF False] by simp
    then show ?thesis
      using o False put_over_last [of "CHR '']''" "'',''" os "key_text key @ ''['' @ join '','' (map t xs)" "CHR '',''"]
      by (simp add: to_array_def Let_def)
  qed
qed

text \<open>An object is well written when its function writes at least one member.\<close>

lemma put_object_writes:
  assumes "writes f (m @ '','')"
  shows "writes (put_object f) (''{'' @ m @ ''},'')"
  unfolding writes_def
proof (intro allI impI)
  fix os
  assume "at_end os"
  then have "f (os_put ''{'' os) = appended os ((''{'' @ m) @ '','')"
    using writesD [OF assms, of "appended os ''{''"] by simp
  then show "put_object f os = appended os (''{'' @ m @ ''},'')"
    using put_over_last [of "CHR ''}''" "'',''" os "''{'' @ m" "CHR '',''"] by (simp add: put_object_def)
qed

lemma put_objects_writes:
  assumes "\<And>x. x \<in> set xs \<Longrightarrow> writes (f x) (t x @ '','')" "at_end os"
  shows "put_objects f xs os = appended os (concat (map (\<lambda>x. (''{'' @ t x @ ''}'') @ '','') xs))"
  using assms
proof (induction xs arbitrary: os)
  case Nil
  then show ?case by (cases os) (simp add: appended_def at_end_def)
next
  case (Cons x xs)
  have "put_object (f x) os = appended os (''{'' @ t x @ ''},'')"
    using put_object_writes [of "f x" "t x"] Cons.prems by (simp add: writesD)
  then show ?case using Cons by simp
qed

lemma for_each_writes:
  assumes "\<And>x. x \<in> set xs \<Longrightarrow> writes (f x) (t x @ '','')"
  shows "writes (for_each key xs f)
    (key_text key @ ''['' @ join '','' (map (\<lambda>x. ''{'' @ t x @ ''}'') xs) @ ''],'')"
  unfolding writes_def
proof (intro allI impI)
  fix os
  assume e: "at_end os"
  let ?os = "appended os (key_text key @ ''['')" and ?t = "\<lambda>x. ''{'' @ t x @ ''}''"
  have o: "open_array key os = ?os" using e by (simp add: open_array_def key_text_def)
  show "for_each key xs f os = appended os (key_text key @ ''['' @ join '','' (map ?t xs) @ ''],'')"
  proof (cases "xs = []")
    case True
    then show ?thesis using o by (simp add: for_each_def)
  next
    case False
    have "put_objects f xs ?os = appended os ((key_text key @ ''['' @ join '','' (map ?t xs)) @ '','')"
      using put_objects_writes [of xs f t ?os] assms concat_commas [OF False, of ?t] by simp
    then show ?thesis
      using o False put_over_last [of "CHR '']''" "'',''" os "key_text key @ ''['' @ join '','' (map ?t xs)" "CHR '',''"]
      by (simp add: for_each_def Let_def)
  qed
qed

section \<open>Objects of scalar members\<close>

fun write_field :: "string \<times> json \<Rightarrow> ostream \<Rightarrow> ostream" where
  "write_field (k, JString v) os = write_string k v os"
| "write_field (k, JInt v) os = write_int k v os"
| "write_field (k, JBool v) os = write_bool k v os"
| "write_field (k, v) os = write_null k os"

fun value_text :: "json \<Rightarrow> string" where
  "value_text (JString v) = DQUOTE # v @ [DQUOTE]"
| "value_text (JInt v) = int_str v"
| "value_text (JBool v) = (if v then ''true'' else ''false'')"
| "value_text _ = ''null''"

definition field_text :: "string \<times> json \<Rightarrow> string" where
  "field_text kv = key_text (fst kv) @ value_text (snd kv)"

lemma write_field_writes: "writes (write_field kv) (field_text kv @ '','')"
  unfolding writes_def field_text_def
  by (cases kv; cases "snd kv")
    (simp_all add: write_string_def write_int_def write_bool_def write_null_def)

lemma fold_fields:
  "at_end os \<Longrightarrow> fold write_field kvs os = appended os (concat (map (\<lambda>kv. field_text kv @ '','') kvs))"
proof (induction kvs arbitrary: os)
  case Nil
  then show ?case by (cases os) (simp add: appended_def at_end_def)
next
  case (Cons kv kvs)
  then show ?case using writesD [OF write_field_writes] by simp
qed

lemma new_builder: "new_JsonBuilder = appended \<lparr>os_buf = [], os_pos = 0\<rparr> ''{''"
  by (simp add: new_JsonBuilder_def os_put_def appended_def)

lemma builder_text:
  assumes "kvs \<noteq> []"
  shows "builder_str (fold write_field kvs new_JsonBuilder) = ''{'' @ join '','' (map field_text kvs) @ ''}''"
proof -
  let ?e = "\<lparr>os_buf = [], os_pos = 0\<rparr>"
  have "fold write_field kvs new_JsonBuilder = appended ?e ((''{'' @ join '','' (map field_text kvs)) @ '','')"
    using fold_fields [of new_JsonBuilder kvs] concat_commas [OF assms, of field_text]
    by (simp add: new_builder)
  then show ?thesis
    using put_over_last [of "CHR ''}''" "[]" ?e "''{'' @ join '','' (map field_text kvs)" "CHR '',''"]
    by (simp add: builder_str_def)
qed

text \<open>Scalars whose text needs no escaping.\<close>

fun plain_scalar :: "json \<Rightarrow> bool" where
  "plain_scalar (JString s) \<longleftrightarrow> dump_chars s = s"
| "plain_scalar (JInt v) \<longleftrightarrow> length (int_str v) \<le> digits10_int"
| "plain_scalar (JBool v) \<longleftrightarrow> True"
| "plain_scalar JNull \<longleftrightarrow> True"
| "plain_scalar _ \<longleftrightarrow> False"

lemma plain_scalar_dump: "plain_scalar v \<Longrightarrow> value_text v = dump ds v \<and> json_ok v \<and> within k v"
  by (cases v) (simp_all add: dump_string_def)

lemma token_space: "get_next_token STANDARD (CHR '' '' # s) = get_next_token STANDARD s"
  by (simp add: get_next_token_def consume_garbage_def consume_whitespace_def is_white_def)

lemma parse_json_space: "parse_json (Suc n) STANDARD d (CHR '' '' # s) = parse_json (Suc n) STANDARD d s"
  by (simp add: parse_json.simps token_space)

lemma parse_json_scalar:
  assumes "plain_scalar v" "value_end post" "d < max_depth" "2 * length (value_text v @ post) < n"
  shows "parse_json n STANDARD (Suc d) (CHR '' '' # value_text v @ post) = Done v post"
proof -
  obtain n' where n: "n = Suc n'" using assms(4) by (cases n) simp_all
  have "reads_back (\<lambda>x. x) v" using plain_scalar_dump [OF assms(1)] json_ok_reads_back by blast
  then have "parse_json n STANDARD (Suc d) (dump (\<lambda>x. x) v @ post) = Done v post"
    using assms plain_scalar_dump [OF assms(1), of "\<lambda>x. x"] by (intro reads_backD) auto
  then show ?thesis
    using n parse_json_space plain_scalar_dump [OF assms(1), of "\<lambda>x. x"] by simp
qed

lemma parse_members_fields:
  assumes "kvs \<noteq> []" "\<And>kv. kv \<in> set kvs \<Longrightarrow> plain_scalar (snd kv) \<and> key_ok (fst kv)" "d < max_depth"
    "join '','' (map field_text kvs) @ ''}'' @ post = DQUOTE # s" "2 * length s < n"
  shows "parse_members n STANDARD d acc DQUOTE s = Done (JObject (acc @ kvs)) post"
  using assms
proof (induction kvs arbitrary: acc n s rule: induct_list012)
  case 1
  then show ?case by simp
next
  case (2 kv)
  then obtain n' where n: "n = Suc n'" by (cases n) simp_all
  have s: "s = fst kv @ DQUOTE # '':'' @ CHR '' '' # value_text (snd kv) @ ''}'' @ post"
    using 2(4) by (simp add: field_text_def key_text_def)
  have "parse_json n' STANDARD (Suc d) (CHR '' '' # value_text (snd kv) @ ''}'' @ post) =
      Done (snd kv) (''}'' @ post)"
    using 2 n s by (intro parse_json_scalar) auto
  then show ?case
    using n s 2(2) [of kv] parse_key_ok [of "fst kv"] by (simp add: parse_members.simps token_here)
next
  case (3 kv kw kvs)
  then obtain n' where n: "n = Suc n'" by (cases n) simp_all
  let ?rest = "join '','' (map field_text (kw # kvs)) @ ''}'' @ post"
  have s: "s = fst kv @ DQUOTE # '':'' @ CHR '' '' # value_text (snd kv) @ '','' @ ?rest"
    using 3(6) by (simp add: field_text_def [of kv] key_text_def)
  have "\<exists>r. ?rest = DQUOTE # r" by (cases kvs) (simp_all add: field_text_def key_text_def)
  then obtain r where r: "?rest = DQUOTE # r" by blast
  have j: "parse_json n' STANDARD (Suc d) (CHR '' '' # value_text (snd kv) @ '','' @ ?rest) =
      Done (snd kv) ('','' @ ?rest)"
    using 3 n s by (intro parse_json_scalar) auto
  have "2 * length r < n'" using 3(7) n s arg_cong [OF r, of length] by simp
  then have "parse_members n' STANDARD d (acc @ [kv]) DQUOTE r = Done (JObject ((acc @ [kv]) @ (kw # kvs))) post"
    using 3 n s r by (intro 3(2)) auto
  then show ?case
    using n s j r 3(4) [of kv] parse_key_ok [of "fst kv"] by (simp add: parse_members.simps token_here)
qed

lemma builder_parses:
  assumes "kvs \<noteq> []" "\<And>kv. kv \<in> set kvs \<Longrightarrow> plain_scalar (snd kv) \<and> key_ok (fst kv)"
  shows "parser_parse STANDARD (builder_str (fold write_field kvs new_JsonBuilder)) = Done (JObject kvs) []"
proof -
  let ?t = "join '','' (map field_text kvs) @ ''}'' @ []"
  have "\<exists>s. ?t = DQUOTE # s"
    using assms(1) by (induction kvs rule: induct_list012) (simp_all add: field_text_def key_text_def)
  then obtain s where s: "?t = DQUOTE # s" by blast
  have "parse_members (2 * length (DQUOTE # s) + 2) STANDARD 0 [] DQUOTE s = Done (JObject ([] @ kvs)) []"
    using assms s by (intro parse_members_fields) (simp_all add: max_depth_def)
  then have "parse_json (json_fuel (CHR ''{'' # DQUOTE # s)) STANDARD 0 (CHR ''{'' # DQUOTE # s) = Done (JObject kvs) []"
    by (simp add: json_fuel_def parse_json_head token_here isdigit_def)
  then show ?thesis
    using builder_text [OF assms(1)] s
    by (simp add: parser_parse_def consume_garbage_def consume_whitespace_def)
qed

section \<open>Texts the builder gets wrong\<close>

text \<open>A string member is not escaped: a value can close its quotes and add members of its own.\<close>

lemma write_string_injection:
  "parser_parse STANDARD (builder_str (write_string ''name''
      (''x'' @ [DQUOTE] @ '','' @ [DQUOTE] @ ''admin'' @ [DQUOTE] @ '': true,'' @ [DQUOTE] @ ''y'' @ [DQUOTE] @ '':'' @ [DQUOTE])
      new_JsonBuilder)) =
   Done (JObject [(''name'', JString ''x''), (''admin'', JBool True), (''y'', JString [])]) []"
  by code_simp

lemma empty_builder: "builder_str new_JsonBuilder = ''}''"
  by (simp add: builder_str_def new_JsonBuilder_def os_put_def seek_back_def)

text \<open>The opening bracket is taken for a separator when nothing was written behind it.\<close>

lemma take_while_none:
  assumes "at_end os" "\<not> p r"
  shows "take_while key (r # rs) p f os =
    (USE, appended os (DQUOTE # key @ [DQUOTE] @ '': ],''), r # rs)"
  using assms put_over_last [of "CHR '']''" "'',''" os "DQUOTE # key @ [DQUOTE] @ '': ''" "CHR ''[''"]
  by (simp add: take_while_def open_array_def)

lemma write_dictionary_items_empty:
  assumes "at_end os"
  shows "write_dictionary_items key [] f os = appended os (DQUOTE # key @ [DQUOTE] @ '': },'')"
  using assms put_over_last [of "CHR ''}''" "'',''" os "DQUOTE # key @ [DQUOTE] @ '': ''" "CHR ''{''"]
  by (simp add: write_dictionary_items_def)

text \<open>A value that contains a quote, a comma and a quoted name writes exactly the text of two members.\<close>

lemma string_value_forges:
  assumes "at_end os"
  shows "write_string key (x @ [DQUOTE] @ '','' @ key_text name @ [DQUOTE] @ y) os =
    write_string name y (write_string key x os)"
  using assms by (simp add: write_string_def)

end
