(* ===== verification/IniFile.thy ===== *)
theory IniFile
  imports Prelude
begin

text \<open>
  The configuration files of the boot code (\<open>utils/inifile.h\<close>, \<open>utils/inifile.cpp\<close>): the sections of
  an INI file are collected as raw text, and the text of a section is parsed on demand into a
  dictionary of options. The file system is a parameter, a map from names to contents.
  \<open>parse_opt\<close> works in place on a copy of its argument; what it writes stays behind what it reads
  next, so the model returns the names and values instead of writing them.
\<close>

section \<open>Options\<close>

definition SQUOTE :: char where
  "SQUOTE = CHR 0x27"

text \<open>The name of a parameter, and the text behind the blanks that follow it.\<close>

definition opt_name :: "string \<Rightarrow> string \<times> string" where
  "opt_name s =
     (let p = (\<lambda>c. c \<noteq> CHR ''='' \<and> \<not> isspace c) in
      (takeWhile p s, dropWhile isspace (dropWhile p s)))"

fun plain_value :: "string \<Rightarrow> string \<times> string" where
  "plain_value [] = ([], [])"
| "plain_value (c # s) =
     (if isspace c then ([], s)
      else if c = BSLASH then
        (case s of [] \<Rightarrow> ([], []) | d # t \<Rightarrow> (let (v, r) = plain_value t in (d # v, r)))
      else (let (v, r) = plain_value s in (c # v, r)))"

text \<open>\<open>None\<close>: the closing quote is missing.\<close>

fun quoted_value :: "string \<Rightarrow> (string \<times> string) option" where
  "quoted_value [] = None"
| "quoted_value (c # s) =
     (if c = BSLASH then
        (case s of [] \<Rightarrow> None | d # t \<Rightarrow> map_option (\<lambda>(v, r). (d # v, r)) (quoted_value t))
      else if c = SQUOTE then Some ([], s)
      else map_option (\<lambda>(v, r). (c # v, r)) (quoted_value s))"

definition opt_value :: "string \<Rightarrow> (string \<times> string) option" where
  "opt_value s =
     (case s of
        c # t \<Rightarrow> if c = SQUOTE then quoted_value t else Some (plain_value s)
      | [] \<Rightarrow> Some (plain_value s))"

lemma opt_name_rest: "length (snd (opt_name s)) \<le> length s"
  unfolding opt_name_def Let_def snd_conv
  by (meson length_dropWhile_le le_trans)

lemma plain_value_rest: "length (snd (plain_value s)) \<le> length s"
proof (induction s rule: plain_value.induct)
  case (2 c s)
  consider "isspace c" | "\<not> isspace c" "c = BSLASH" "s = []"
    | d t where "\<not> isspace c" "c = BSLASH" "s = d # t" | "\<not> isspace c" "c \<noteq> BSLASH"
    by (metis list.exhaust)
  then show ?case
  proof cases
    case (3 d t)
    have "length (snd (plain_value t)) \<le> length t" using 2(1) 3 by simp
    then show ?thesis using 3 by (simp add: split_beta)
  next
    case 4
    have "length (snd (plain_value s)) \<le> length s" using 2(2) 4 by simp
    then show ?thesis using 4 by (simp add: split_beta)
  qed simp_all
qed simp

lemma quoted_value_rest: "quoted_value s = Some (v, r) \<Longrightarrow> length r \<le> length s"
proof (induction s arbitrary: v rule: quoted_value.induct)
  case (2 c s)
  consider "c = BSLASH" "s = []" | d t where "c = BSLASH" "s = d # t"
    | "c \<noteq> BSLASH" "c = SQUOTE" | "c \<noteq> BSLASH" "c \<noteq> SQUOTE"
    by (metis list.exhaust)
  then show ?case
  proof cases
    case (2 d t)
    then obtain v' where "quoted_value t = Some (v', r)" using "2.prems" by auto
    then show ?thesis using "2.IH"(1) [of d t v'] 2 by simp
  next
    case 4
    then obtain v' where "quoted_value s = Some (v', r)" using "2.prems" by auto
    then show ?thesis using "2.IH"(2) [of v'] 4 by simp
  qed (use "2.prems" in simp_all)
qed simp

lemma opt_value_rest: "opt_value s = Some (v, r) \<Longrightarrow> length r \<le> length s"
  using plain_value_rest [of s] quoted_value_rest [of "tl s" v r]
  by (auto simp: opt_value_def split: list.splits if_splits)

lemma parse_opts_rest:
  assumes "opt_name (c # t) = (name, e # r)" "opt_value (dropWhile isspace r) = Some (v, r')"
  shows "length r' < Suc (length t)"
proof -
  have "length r' \<le> length (dropWhile isspace r)" using assms(2) by (rule opt_value_rest)
  also have "\<dots> \<le> length r" by (rule length_dropWhile_le)
  also have "\<dots> < Suc (length t)" using opt_name_rest [of "c # t"] assms(1) by simp
  finally show ?thesis .
qed

text \<open>A malformed text yields no options at all.\<close>

function parse_opts :: "(string \<rightharpoonup> string) \<Rightarrow> string \<Rightarrow> (string \<rightharpoonup> string)" where
  "parse_opts acc s =
     (case s of
        [] \<Rightarrow> acc
      | c # t \<Rightarrow>
          if isspace c then parse_opts acc t
          else case opt_name s of
            (name, rest) \<Rightarrow>
              (case rest of
                 [] \<Rightarrow> Map.empty
               | e # r \<Rightarrow>
                   if e \<noteq> CHR ''='' then Map.empty
                   else case opt_value (dropWhile isspace r) of
                     None \<Rightarrow> Map.empty
                   | Some (v, r') \<Rightarrow> parse_opts (acc(name \<mapsto> v)) r'))"
  by auto
termination
  by (relation "measure (\<lambda>(acc, s). length s)") (auto dest: parse_opts_rest [OF sym])

declare parse_opts.simps [simp del]

definition parse_opt :: "string \<Rightarrow> (string \<rightharpoonup> string)" where
  "parse_opt opts = parse_opts Map.empty (cstr opts)"

section \<open>Sections\<close>

record INIFile =
  ini_in :: "string option"
  ini_values :: "string \<rightharpoonup> string"

datatype ini_exn = CannotOpen | CannotRead

definition ini_default :: INIFile where
  "ini_default = \<lparr>ini_in = None, ini_values = Map.empty\<rparr>"

definition new_INIFile :: "(string \<rightharpoonup> string) \<Rightarrow> string \<Rightarrow> ini_exn + INIFile" where
  "new_INIFile fs name =
     (case fs name of None \<Rightarrow> Inl CannotOpen | Some text \<Rightarrow> Inr (ini_default\<lparr>ini_in := Some text\<rparr>))"

definition ini_clear :: "string option \<Rightarrow> INIFile \<Rightarrow> INIFile" where
  "ini_clear sec ini =
     (case sec of
        None \<Rightarrow> ini\<lparr>ini_values := Map.empty\<rparr>
      | Some s \<Rightarrow> ini\<lparr>ini_values := (ini_values ini)(s := None)\<rparr>)"

definition ini_close :: "INIFile \<Rightarrow> INIFile" where
  "ini_close ini = ini\<lparr>ini_values := Map.empty, ini_in := None\<rparr>"

text \<open>\<open>values[section]\<close> creates an empty entry for a section that is not there.\<close>

definition values_at :: "string \<Rightarrow> (string \<rightharpoonup> string) \<Rightarrow> string" where
  "values_at sec m = (case m sec of None \<Rightarrow> [] | Some v \<Rightarrow> v)"

definition append_value :: "string \<Rightarrow> string \<Rightarrow> (string \<rightharpoonup> string) \<Rightarrow> (string \<rightharpoonup> string)" where
  "append_value sec conf m =
     (let val = values_at sec m in m(sec \<mapsto> (if val \<noteq> [] then val @ '' '' else val) @ conf))"

definition ini_append :: "string \<Rightarrow> string \<Rightarrow> INIFile \<Rightarrow> INIFile" where
  "ini_append sec conf ini = ini\<lparr>ini_values := append_value sec conf (ini_values ini)\<rparr>"

definition ini_prepend :: "string \<Rightarrow> string \<Rightarrow> INIFile \<Rightarrow> INIFile" where
  "ini_prepend sec conf ini =
     (let val = values_at sec (ini_values ini) in
      ini\<lparr>ini_values := (ini_values ini)(sec \<mapsto> conf @ (if val \<noteq> [] then '' '' @ val else val))\<rparr>)"

text \<open>Loading another file: the old one is closed first, also when the new one cannot be opened.\<close>

definition ini_load :: "(string \<rightharpoonup> string) \<Rightarrow> string \<Rightarrow> INIFile \<Rightarrow> ini_exn option \<times> INIFile" where
  "ini_load fs name ini =
     (if fs name = None then Some CannotOpen else None, ini\<lparr>ini_in := fs name\<rparr>)"

definition ini_reset :: "(string \<rightharpoonup> string) \<Rightarrow> string \<Rightarrow> INIFile \<Rightarrow> ini_exn option \<times> INIFile" where
  "ini_reset fs name ini =
     (case ini_load fs name ini of
        (Some e, ini') \<Rightarrow> (Some e, ini')
      | (None, ini') \<Rightarrow> (None, ini_clear None ini'))"

text \<open>
  The characters of a section tag behind its bracket; \<open>check\<close> says that the closing bracket was seen.
  \<open>None\<close>: the file is malformed.
\<close>

fun section_tag :: "bool \<Rightarrow> string \<Rightarrow> string \<Rightarrow> string option" where
  "section_tag check gr [] = (if check then Some gr else None)"
| "section_tag check gr (c # s) =
     (if check \<and> (c = CHR ''#'' \<or> c \<noteq> CHR '';'') then Some gr
      else if check \<and> \<not> isblank c then None
      else if c = CHR '']'' then section_tag True gr s
      else section_tag check (gr @ [c]) s)"

definition skipped_line :: "string \<Rightarrow> bool" where
  "skipped_line line \<longleftrightarrow>
     (case line of
        [] \<Rightarrow> True
      | c # t \<Rightarrow> c = CHR '';'' \<or> (c = CHR ''#'' \<and> (case t of [] \<Rightarrow> False | d # _ \<Rightarrow> d = CHR '' '')))"

fun parse_lines :: "string option \<Rightarrow> bool \<Rightarrow> string \<Rightarrow> string list \<Rightarrow> (string \<rightharpoonup> string) \<Rightarrow> bool \<times> (string \<rightharpoonup> string)" where
  "parse_lines sec collect gr [] m = (True, m)"
| "parse_lines sec collect gr (line # ls) m =
     (if skipped_line line then parse_lines sec collect gr ls m
      else if hd line = CHR ''['' then
        (case section_tag False [] (tl line) of
           None \<Rightarrow> (False, m)
         | Some gr' \<Rightarrow> parse_lines sec (case sec of None \<Rightarrow> True | Some s \<Rightarrow> gr' = s) gr' ls m)
      else parse_lines sec collect gr ls (if collect then append_value gr line m else m))"

text \<open>\<open>std::getline\<close>: a last line without a newline counts, an empty one does not.\<close>

fun file_lines :: "string \<Rightarrow> string \<Rightarrow> string list" where
  "file_lines acc [] = (if acc = [] then [] else [acc])"
| "file_lines acc (c # s) = (if c = LF then acc # file_lines [] s else file_lines (acc @ [c]) s)"

definition ini_parse :: "string option \<Rightarrow> bool \<Rightarrow> INIFile \<Rightarrow> (ini_exn + bool) \<times> INIFile" where
  "ini_parse sec strict ini =
     (case ini_in ini of
        None \<Rightarrow> (Inl CannotRead, ini)
      | Some text \<Rightarrow>
          (case parse_lines sec (sec = None \<or> \<not> strict) [] (file_lines [] text) (ini_values ini) of
             (ok, m) \<Rightarrow> (Inr ok, ini\<lparr>ini_values := m\<rparr>)))"

definition parse_all :: "INIFile \<Rightarrow> (ini_exn + bool) \<times> INIFile" where
  "parse_all = ini_parse None False"

definition ini_to_string :: "string \<Rightarrow> INIFile \<Rightarrow> string" where
  "ini_to_string sec ini = values_at sec (ini_values ini)"

text \<open>\<open>options\<close> goes through \<open>values[section]\<close> and so may add an empty section.\<close>

definition ini_options :: "string \<Rightarrow> INIFile \<Rightarrow> (string \<rightharpoonup> string) \<times> INIFile" where
  "ini_options sec ini =
     (let v = values_at sec (ini_values ini) in
      (parse_opt v, ini\<lparr>ini_values := (ini_values ini)(sec \<mapsto> v)\<rparr>))"

section \<open>Writing options and reading them back\<close>

definition escape_value :: "string \<Rightarrow> string" where
  "escape_value v = concat (map (\<lambda>c. if c = BSLASH \<or> c = SQUOTE then [BSLASH, c] else [c]) v)"

definition option_text :: "string \<times> string \<Rightarrow> string" where
  "option_text kv = fst kv @ ''='' @ [SQUOTE] @ escape_value (snd kv) @ [SQUOTE]"

definition name_ok :: "string \<Rightarrow> bool" where
  "name_ok k \<longleftrightarrow>
     k \<noteq> [] \<and> hd k \<notin> {CHR '';'', CHR ''['', CHR ''#''}
     \<and> list_all (\<lambda>c. c \<noteq> CHR ''='' \<and> \<not> isspace c \<and> c \<noteq> NUL) k"

definition store_options :: "(string \<rightharpoonup> string) \<Rightarrow> (string \<times> string) list \<Rightarrow> (string \<rightharpoonup> string)" where
  "store_options acc kvs = foldl (\<lambda>m (k, v). m(k \<mapsto> v)) acc kvs"

lemma store_options_simps [simp]:
  "store_options acc [] = acc"
  "store_options acc [kv] = acc(fst kv \<mapsto> snd kv)"
  "store_options acc (kvs @ [kv]) = (store_options acc kvs)(fst kv \<mapsto> snd kv)"
  by (simp_all add: store_options_def split_beta)

lemma not_space_chars [simp]: "\<not> isspace (CHR ''='')" "\<not> isspace SQUOTE" "isspace (CHR '' '')" "isspace LF"
  by (simp_all add: isspace_def SQUOTE_def code_def)

lemma SQUOTE_neq [simp]: "SQUOTE \<noteq> BSLASH" "BSLASH \<noteq> SQUOTE" "SQUOTE \<noteq> LF" "SQUOTE \<noteq> NUL"
  "LF \<noteq> SQUOTE" "NUL \<noteq> SQUOTE"
  by (simp_all add: SQUOTE_def)

lemma quoted_value_escape: "quoted_value (escape_value v @ SQUOTE # r) = Some (v, r)"
  by (induction v) (auto simp: escape_value_def)

lemma opt_name_text:
  assumes "name_ok k"
  shows "opt_name (k @ CHR ''='' # r) = (k, CHR ''='' # r)"
proof -
  let ?p = "\<lambda>c. c \<noteq> CHR ''='' \<and> \<not> isspace c"
  have p: "x \<in> set k \<Longrightarrow> ?p x" for x using assms by (auto simp: name_ok_def list_all_iff)
  show ?thesis
    using takeWhile_append2 [of k ?p "CHR ''='' # r"] dropWhile_append2 [of k ?p "CHR ''='' # r"] p
    by (simp add: opt_name_def Let_def)
qed

lemma parse_opts_space: "isspace c \<Longrightarrow> parse_opts acc (c # s) = parse_opts acc s"
  by (subst parse_opts.simps) simp

lemma parse_opts_option:
  assumes "name_ok (fst kv)"
  shows "parse_opts acc (option_text kv @ r) = parse_opts (acc(fst kv \<mapsto> snd kv)) r"
proof -
  let ?s = "option_text kv @ r"
  obtain c t where ct: "?s = c # t" "\<not> isspace c"
    using assms by (cases "fst kv") (auto simp: name_ok_def option_text_def)
  have "opt_name ?s = (fst kv, CHR ''='' # SQUOTE # escape_value (snd kv) @ SQUOTE # r)"
    using opt_name_text [OF assms] by (simp add: option_text_def)
  then have "opt_name (c # t) = (fst kv, CHR ''='' # SQUOTE # escape_value (snd kv) @ SQUOTE # r)"
    by (simp add: ct)
  then show ?thesis
    using ct by (subst ct(1), subst parse_opts.simps) (simp add: opt_value_def quoted_value_escape)
qed

text \<open>The text of a section as the parser accumulates it.\<close>

definition section_text :: "(string \<times> string) list \<Rightarrow> string" where
  "section_text kvs = foldl (\<lambda>t kv. (if t \<noteq> [] then t @ '' '' else t) @ option_text kv) [] kvs"

lemma section_text_simps [simp]:
  "section_text [] = []" "section_text [kv] = option_text kv"
  "section_text (kvs @ [kv]) =
     (if section_text kvs \<noteq> [] then section_text kvs @ '' '' else section_text kvs) @ option_text kv"
  by (simp_all add: section_text_def)

lemma section_text_Nil [simp]: "section_text kvs = [] \<longleftrightarrow> kvs = []"
  by (cases kvs rule: rev_cases) (simp_all add: option_text_def)

lemma parse_opts_section:
  "list_all (\<lambda>kv. name_ok (fst kv)) kvs \<Longrightarrow>
    parse_opts acc (section_text kvs @ r) = parse_opts (store_options acc kvs) r"
proof (induction kvs arbitrary: r rule: rev_induct)
  case (snoc kv kvs)
  then show ?case
    by (cases "kvs = []") (simp_all add: parse_opts_option parse_opts_space fun_upd_def)
qed simp

lemma no_nul_escape: "no_nul v \<Longrightarrow> no_nul (escape_value v)"
  by (auto simp: escape_value_def no_nul_def split: if_splits)

lemma no_nul_option: "name_ok (fst kv) \<Longrightarrow> no_nul (snd kv) \<Longrightarrow> no_nul (option_text kv)"
  using no_nul_escape by (auto simp: option_text_def name_ok_def no_nul_def list_all_iff)

lemma no_nul_section:
  "list_all (\<lambda>kv. name_ok (fst kv) \<and> no_nul (snd kv)) kvs \<Longrightarrow> no_nul (section_text kvs)"
  by (induction kvs rule: rev_induct) (auto simp: no_nul_option)

lemma parse_opt_section:
  assumes "list_all (\<lambda>kv. name_ok (fst kv) \<and> no_nul (snd kv)) kvs"
  shows "parse_opt (section_text kvs) = store_options Map.empty kvs"
proof -
  have "list_all (\<lambda>kv. name_ok (fst kv)) kvs" using assms by (auto simp: list_all_iff)
  from parse_opts_section [OF this, of Map.empty "[]"] show ?thesis
    using no_nul_section [OF assms] by (simp add: parse_opt_def) (simp add: parse_opts.simps)
qed

section \<open>Whole files\<close>

type_synonym ini_section = "string \<times> (string \<times> string) list"

definition section_ok :: "ini_section \<Rightarrow> bool" where
  "section_ok sc \<longleftrightarrow>
     CHR '']'' \<notin> set (fst sc) \<and> LF \<notin> set (fst sc)
     \<and> list_all (\<lambda>kv. name_ok (fst kv) \<and> no_nul (snd kv) \<and> LF \<notin> set (snd kv)) (snd sc)"

definition section_lines :: "ini_section \<Rightarrow> string list" where
  "section_lines sc = (''['' @ fst sc @ '']'') # map option_text (snd sc)"

definition ini_text :: "ini_section list \<Rightarrow> string" where
  "ini_text scs = concat (map (\<lambda>l. l @ [LF]) (concat (map section_lines scs)))"

definition options_of :: "string \<Rightarrow> ini_section list \<Rightarrow> (string \<times> string) list" where
  "options_of sec scs = concat (map snd (filter (\<lambda>sc. fst sc = sec) scs))"

lemma file_lines_line: "LF \<notin> set l \<Longrightarrow> file_lines acc (l @ LF # s) = (acc @ l) # file_lines [] s"
  by (induction l arbitrary: acc) auto

lemma file_lines_lines:
  "list_all (\<lambda>l. LF \<notin> set l) ls \<Longrightarrow> file_lines [] (concat (map (\<lambda>l. l @ [LF]) ls)) = ls"
  by (induction ls) (simp_all add: file_lines_line)

lemma name_ok_no_LF: "name_ok k \<Longrightarrow> LF \<notin> set k"
  unfolding name_ok_def list_all_iff using not_space_chars(4) by blast

lemma LF_escape [simp]: "LF \<in> set (escape_value v) \<longleftrightarrow> LF \<in> set v"
  by (auto simp: escape_value_def)

lemma LF_option: "name_ok (fst kv) \<Longrightarrow> LF \<notin> set (snd kv) \<Longrightarrow> LF \<notin> set (option_text kv)"
  using name_ok_no_LF by (auto simp: option_text_def)

lemma section_lines_LF: "section_ok sc \<Longrightarrow> list_all (\<lambda>l. LF \<notin> set l) (section_lines sc)"
  by (auto simp: section_ok_def section_lines_def list_all_iff LF_option)

lemma file_lines_text:
  assumes "list_all section_ok scs"
  shows "file_lines [] (ini_text scs) = concat (map section_lines scs)"
  unfolding ini_text_def
  using assms section_lines_LF by (intro file_lines_lines) (fastforce simp: list_all_iff)

lemma section_tag_name:
  "CHR '']'' \<notin> set s \<Longrightarrow> section_tag False gr (s @ '']'') = Some (gr @ s)"
  by (induction s arbitrary: gr) auto

lemma section_tag_rest:
  "CHR '']'' \<notin> set s \<Longrightarrow> c \<noteq> CHR '';'' \<Longrightarrow> section_tag False gr (s @ CHR '']'' # c # t) = Some (gr @ s)"
  by (induction s arbitrary: gr) auto

lemma option_line:
  assumes "name_ok (fst kv)"
  shows "\<not> skipped_line (option_text kv)" "hd (option_text kv) \<noteq> CHR ''[''"
  using assms by (cases "fst kv"; simp add: name_ok_def option_text_def skipped_line_def)+

lemma parse_option_lines:
  "list_all (\<lambda>kv. name_ok (fst kv)) kvs \<Longrightarrow>
    parse_lines None True gr (map option_text kvs @ ls) m =
      parse_lines None True gr ls (foldl (\<lambda>m kv. append_value gr (option_text kv) m) m kvs)"
  by (induction kvs arbitrary: m) (simp_all add: option_line)

lemma values_at_append:
  "values_at sec (append_value gr conf m) =
     (if sec = gr then (if values_at sec m \<noteq> [] then values_at sec m @ '' '' else values_at sec m) @ conf
      else values_at sec m)"
  by (simp add: append_value_def values_at_def Let_def)

lemma section_text_snoc:
  "section_text (old @ kvs @ [kv]) =
     (if section_text (old @ kvs) \<noteq> [] then section_text (old @ kvs) @ '' '' else section_text (old @ kvs))
       @ option_text kv"
  using section_text_simps(3) [of "old @ kvs" kv] by simp

lemma values_at_fold:
  assumes "values_at sec m = section_text old"
  shows "values_at sec (foldl (\<lambda>m kv. append_value gr (option_text kv) m) m kvs) =
    section_text (if sec = gr then old @ kvs else old)"
proof (induction kvs rule: rev_induct)
  case (snoc kv kvs)
  then show ?case by (cases "sec = gr") (auto simp: values_at_append section_text_snoc)
qed (simp add: assms)

lemma parse_section_lines:
  assumes "list_all section_ok scs" "\<And>sec. values_at sec m = section_text (old sec)"
  shows "\<exists>m'. parse_lines None c gr (concat (map section_lines scs)) m = (True, m')
    \<and> (\<forall>sec. values_at sec m' = section_text (old sec @ options_of sec scs))"
  using assms
proof (induction scs arbitrary: m c gr old)
  case (Cons sc scs)
  let ?m = "foldl (\<lambda>m kv. append_value (fst sc) (option_text kv) m) m (snd sc)"
  let ?old = "\<lambda>sec. if sec = fst sc then old sec @ snd sc else old sec"
  have "CHR '']'' \<notin> set (fst sc)" and kvs: "list_all (\<lambda>kv. name_ok (fst kv)) (snd sc)"
    using Cons.prems(1) by (auto simp: section_ok_def list_all_iff)
  then have step: "parse_lines None c gr (concat (map section_lines (sc # scs))) m =
      parse_lines None True (fst sc) (concat (map section_lines scs)) ?m"
    by (simp add: section_lines_def skipped_line_def section_tag_name parse_option_lines)
  have "values_at sec ?m = section_text (?old sec)" for sec
    using values_at_fold [OF Cons.prems(2) [of sec], of "fst sc" "snd sc"] by simp
  from Cons.IH [OF _ this, of True "fst sc"] Cons.prems(1)
  show ?case unfolding step by (fastforce simp: options_of_def)
qed (simp add: options_of_def)

lemma ini_round_trip:
  assumes "list_all section_ok scs" "ini_in ini = Some (ini_text scs)" "ini_values ini = Map.empty"
  shows "\<exists>ini'. parse_all ini = (Inr True, ini')
    \<and> (\<forall>sec. fst (ini_options sec ini') = store_options Map.empty (options_of sec scs))"
proof -
  have "values_at sec (ini_values ini) = section_text ((\<lambda>_. []) sec)" for sec
    by (simp add: assms(3) values_at_def)
  from parse_section_lines [OF assms(1) this, of True "[]"] obtain m' where
    m: "parse_lines None True [] (file_lines [] (ini_text scs)) (ini_values ini) = (True, m')"
    and v: "values_at sec m' = section_text (options_of sec scs)" for sec
    by (auto simp: file_lines_text [OF assms(1)])
  have "list_all (\<lambda>kv. name_ok (fst kv) \<and> no_nul (snd kv)) (options_of sec scs)" for sec
    using assms(1) by (fastforce simp: options_of_def section_ok_def list_all_iff)
  then show ?thesis
    using m v by (simp add: parse_all_def ini_parse_def assms(2) ini_options_def parse_opt_section)
qed

section \<open>What a parse may change\<close>

lemma parse_lines_frame:
  "parse_lines (Some s) collect gr ls m = (ok, m') \<Longrightarrow> (collect \<Longrightarrow> gr \<noteq> sec) \<Longrightarrow> sec \<noteq> s \<Longrightarrow> m' sec = m sec"
proof (induction "Some s" collect gr ls m rule: parse_lines.induct)
  case (2 collect gr line ls m)
  then show ?case
    by (auto simp: append_value_def Let_def split: if_splits option.splits)
qed simp

end
