(* ===== verification/Rows.thy ===== *)
theory Rows
  imports Builder
begin

text \<open>
  Results of the database and the part of \<open>utils/json/JsonBuilder.h\<close> that writes them: the members
  taken from the columns of a row, and the loops over rows, with and without a function that moves
  the cursor itself. A result is the list of the rows from the current one on; the backends store
  the whole result before the first row is read, so moving on does not fail, and an exhausted cursor
  stays exhausted. A null \<open>unique_ptr\<close> is the empty list. The laws say which JSON value a reader
  finds in the text.
\<close>

section \<open>Rows\<close>

text \<open>
  The overloads of \<open>get\<close> (\<open>db/DB.h\<close>): whether the column is not NULL, and the value the target has
  afterwards.
\<close>

record Row =
  get_int :: "nat \<Rightarrow> bool \<times> int"
  get_long :: "nat \<Rightarrow> bool \<times> int"
  get_str :: "nat \<Rightarrow> bool \<times> string"

text \<open>
  The structures a response declares for its members (\<open>ID\<close>, \<open>CreatedAt\<close>, \<dots>): a key, the type of
  the value, and whether there is a member \<open>is_null\<close>.
\<close>

datatype field_type = LongField | IntField | StringField | BoolField

record Field =
  fd_key :: string
  fd_type :: field_type
  fd_nullable :: bool

definition write_item :: "Field \<Rightarrow> Row \<Rightarrow> nat \<Rightarrow> ostream \<Rightarrow> ostream" where
  "write_item fd row i os =
     (case fd_type fd of
        LongField \<Rightarrow>
          (let (not_null, val) = get_long row i in
           if fd_nullable fd \<and> \<not> not_null then write_null (fd_key fd) os else write_int (fd_key fd) val os)
      | IntField \<Rightarrow>
          (let (not_null, val) = get_int row i in
           if fd_nullable fd \<and> \<not> not_null then write_null (fd_key fd) os else write_int (fd_key fd) val os)
      | StringField \<Rightarrow>
          (let (not_null, val) = get_str row i in
           if fd_nullable fd \<and> \<not> not_null then write_null (fd_key fd) os else write_string (fd_key fd) val os)
      | BoolField \<Rightarrow>
          (let (not_null, val) = get_int row i in
           if fd_nullable fd \<and> \<not> not_null then write_null (fd_key fd) os else write_bool (fd_key fd) (val \<noteq> 0) os))"

fun write_items :: "Field list \<Rightarrow> Row \<Rightarrow> nat \<Rightarrow> ostream \<Rightarrow> ostream" where
  "write_items [] row i os = os"
| "write_items (h # t) row i os = write_items t row (i + 1) (write_item h row i os)"

definition write_items_object :: "string \<Rightarrow> Field list \<Rightarrow> Row \<Rightarrow> nat \<Rightarrow> ostream \<Rightarrow> ostream" where
  "write_items_object key fds row i os =
     os_put ''},'' (seek_back (write_items fds row i (os_put (DQUOTE # key @ [DQUOTE] @ '': {'') os)))"

section \<open>Loops over rows\<close>

fun rows_loop :: "(Row \<Rightarrow> ostream \<Rightarrow> ostream) \<Rightarrow> Row list \<Rightarrow> ostream \<Rightarrow> ostream" where
  "rows_loop f [] os = os"
| "rows_loop f (r # rs) os = rows_loop f rs (put_object (f r) os)"

definition for_each_row :: "string \<Rightarrow> Row list \<Rightarrow> (Row \<Rightarrow> ostream \<Rightarrow> ostream) \<Rightarrow> ostream \<Rightarrow> ostream" where
  "for_each_row key rows f os =
     (let os = open_array key os;
          os = (if rows \<noteq> [] then seek_back (rows_loop f rows os) else os)
      in os_put ''],'' os)"

text \<open>
  The other overload: the function sees the cursor, may move it, and says how to go on. \<open>USE\<close> calls
  it again on the current row; the loop does not end if it keeps doing so, which is \<open>None\<close>.
\<close>

type_synonym cursor_fun = "Row list \<Rightarrow> ostream \<Rightarrow> ControlResp \<times> ostream \<times> Row list"

partial_function (option) control_loop :: "cursor_fun \<Rightarrow> Row list \<Rightarrow> ostream \<Rightarrow> ostream option" where
  "control_loop f rows os =
     (case f rows (os_put ''{'' os) of
        (res, os, rows) \<Rightarrow>
          (let os = seek_back os;
               os = (if res \<noteq> SKIP then os_put ''},'' os else os)
           in if res = USE then control_loop f rows os
              else if res = LAST then Some os
              else case rows of
                r # r' # rs \<Rightarrow> control_loop f (r' # rs) os
              | _ \<Rightarrow> Some os))"

definition for_each_control :: "string \<Rightarrow> Row list \<Rightarrow> cursor_fun \<Rightarrow> ostream \<Rightarrow> ostream option" where
  "for_each_control key rows f os =
     (let os = open_array key os in
      if rows = [] then Some (os_put ''],'' os)
      else map_option (\<lambda>os. os_put ''],'' (seek_back os)) (control_loop f rows os))"

text \<open>\<open>take_while_raw\<close>: the function writes to the stream itself.\<close>

fun take_rows_raw :: "(Row \<Rightarrow> bool) \<Rightarrow> (Row \<Rightarrow> ostream \<Rightarrow> ostream) \<Rightarrow> cursor_fun" where
  "take_rows_raw p f [] os = (CONT, os, [])"
| "take_rows_raw p f (r # rs) os =
     (if \<not> p r then (USE, os, r # rs) else take_rows_raw p f rs (f r os))"

definition take_while_raw :: "string \<Rightarrow> Row list \<Rightarrow> (Row \<Rightarrow> bool) \<Rightarrow> (Row \<Rightarrow> ostream \<Rightarrow> ostream) \<Rightarrow> ostream \<Rightarrow> ControlResp \<times> ostream \<times> Row list" where
  "take_while_raw key rows p f os =
     (let os = open_array key os in
      if rows = [] then (CONT, os_put ''],'' os, [])
      else (let (res, os, rest) = take_rows_raw p f rows os in (res, os_put ''],'' (seek_back os), rest)))"

section \<open>Texts the JSON reader understands\<close>

definition view_text :: "string \<Rightarrow> json \<Rightarrow> bool" where
  "view_text t v \<longleftrightarrow>
     (\<exists>c r. t = c # r \<and> \<not> is_white c \<and> c \<noteq> CHR '']'')
     \<and> (\<forall>n d post. d \<le> max_depth \<and> within (max_depth - d) v \<and> value_end post \<and> 2 * length (t @ post) < n
          \<longrightarrow> parse_json n STANDARD d (t @ post) = Done v post)"

lemma view_textD:
  "view_text t v \<Longrightarrow> 0 < max_depth - d \<Longrightarrow> within (max_depth - d - 1) v \<Longrightarrow> value_end post \<Longrightarrow>
    2 * length (t @ post) < n \<Longrightarrow> parse_json n STANDARD (Suc d) (t @ post) = Done v post"
  by (simp add: view_text_def Suc_le_eq)

lemma view_text_head: "view_text t v \<Longrightarrow> \<exists>c r. t = c # r \<and> \<not> is_white c \<and> c \<noteq> CHR '']''"
  by (simp add: view_text_def)

lemma view_text_scalar: "plain_scalar v \<Longrightarrow> view_text (value_text v) v"
  using plain_scalar_dump [of v "\<lambda>x. x" 0] json_ok_reads_back [of v "\<lambda>x. x"] dump_head [of v "\<lambda>x. x"]
  by (simp add: view_text_def reads_back_def)

lemma join_head: "view_text t v \<Longrightarrow> \<exists>c r. join '','' (t # ts) @ s = c # r \<and> \<not> is_white c \<and> c \<noteq> CHR '']''"
  using view_text_head [of t v] by (cases ts) auto

lemma parse_elements_text:
  assumes "list_all2 view_text ts xs" "xs \<noteq> []" "within (max_depth - d) (JArray xs)"
    "2 * length (join '','' ts @ '']'' @ post) + 1 < n"
  shows "parse_elements n STANDARD d acc (join '','' ts @ '']'' @ post) = Done (JArray (acc @ xs)) post"
  using assms
proof (induction ts xs arbitrary: acc n rule: list_all2_induct)
  case Nil
  then show ?case by simp
next
  case (Cons t ts x xs)
  then obtain n' where n: "n = Suc n'" by (cases n) simp_all
  show ?case
  proof (cases xs)
    case Nil
    then have ts: "ts = []" using Cons.hyps(2) by simp
    have "parse_json n' STANDARD (Suc d) (t @ '']'' @ post) = Done x ('']'' @ post)"
      using Cons n ts by (intro view_textD) auto
    then show ?thesis using n ts Nil by (simp add: parse_elements.simps token_here)
  next
    case (Cons y ys)
    then obtain u us where ts: "ts = u # us" and u: "view_text u y"
      using Cons.hyps(2) by (auto simp: list_all2_Cons2)
    let ?rest = "join '','' ts @ '']'' @ post"
    have j: "parse_json n' STANDARD (Suc d) (t @ '','' @ ?rest) = Done x ('','' @ ?rest)"
      using Cons.hyps Cons.prems n ts by (intro view_textD) auto
    obtain c r where c: "?rest = c # r" "\<not> is_white c"
      using join_head [OF u] ts by metis
    have "parse_elements n' STANDARD d (acc @ [x]) ?rest = Done (JArray ((acc @ [x]) @ xs)) post"
      using Cons.prems n ts Cons by (intro Cons.IH) auto
    then show ?thesis
      using n j c ts by (simp add: parse_elements.simps token_here)
  qed
qed

lemma view_text_array:
  assumes "list_all2 view_text ts xs"
  shows "view_text (''['' @ join '','' ts @ '']'') (JArray xs)"
proof -
  have "parse_json n STANDARD d ((''['' @ join '','' ts @ '']'') @ post) = Done (JArray xs) post"
    if a: "d \<le> max_depth" "within (max_depth - d) (JArray xs)"
      "2 * length ((''['' @ join '','' ts @ '']'') @ post) < n" for n d post
  proof -
    obtain n' where n: "n = Suc n'" using a(3) by (cases n) simp_all
    show ?thesis
    proof (cases xs)
      case Nil
      then show ?thesis using a n assms by (simp add: parse_json_head token_here isdigit_def)
    next
      case (Cons y ys)
      then obtain u us where ts: "ts = u # us" and u: "view_text u y"
        using assms by (auto simp: list_all2_Cons2)
      obtain c r where c: "join '','' ts @ '']'' @ post = c # r" "\<not> is_white c" "c \<noteq> CHR '']''"
        using join_head [OF u] ts by metis
      have "parse_elements n' STANDARD d [] (join '','' ts @ '']'' @ post) = Done (JArray ([] @ xs)) post"
        using a n assms Cons by (intro parse_elements_text) auto
      then show ?thesis using a n c by (simp add: parse_json_head token_here isdigit_def)
    qed
  qed
  then show ?thesis by (simp add: view_text_def)
qed

text \<open>A member: its text, with at most a blank behind the colon, and its key and value.\<close>

definition view_member :: "string \<Rightarrow> string \<times> json \<Rightarrow> bool" where
  "view_member m kv \<longleftrightarrow>
     (\<exists>sp t. m = DQUOTE # fst kv @ [DQUOTE] @ '':'' @ sp @ t \<and> (sp = [] \<or> sp = '' '')
        \<and> key_ok (fst kv) \<and> view_text t (snd kv))"

lemma parse_members_text:
  assumes "list_all2 view_member ms kvs" "kvs \<noteq> []" "within (max_depth - d) (JObject kvs)"
    "join '','' ms @ ''}'' @ post = DQUOTE # s" "2 * length s < n"
  shows "parse_members n STANDARD d acc DQUOTE s = Done (JObject (acc @ kvs)) post"
  using assms
proof (induction ms kvs arbitrary: acc n s rule: list_all2_induct)
  case Nil
  then show ?case by simp
next
  case (Cons m ms kv kvs)
  then obtain n' where n: "n = Suc n'" by (cases n) (auto simp: view_member_def)
  obtain sp t where t: "m = DQUOTE # fst kv @ [DQUOTE] @ '':'' @ sp @ t" "key_ok (fst kv)" "view_text t (snd kv)"
    and sp: "sp = [] \<or> sp = '' ''"
    using Cons.hyps(1) by (auto simp: view_member_def)
  let ?rest = "join '','' ms @ ''}'' @ post"
  have d: "d < max_depth" "within (max_depth - d - 1) (snd kv)" using Cons.prems(2) by auto
  show ?case
  proof (cases kvs)
    case Nil
    then have ms: "ms = []" using Cons.hyps(2) by simp
    have s: "s = fst kv @ DQUOTE # '':'' @ sp @ t @ ''}'' @ post"
      using Cons.prems(3) ms t(1) by simp
    have "parse_json n' STANDARD (Suc d) (t @ ''}'' @ post) = Done (snd kv) (''}'' @ post)"
      using d t(3) n s Cons.prems(4) by (intro view_textD) auto
    then have "parse_json n' STANDARD (Suc d) (sp @ t @ ''}'' @ post) = Done (snd kv) (''}'' @ post)"
      using sp by (cases n') (auto simp: parse_json_space)
    then show ?thesis
      using n s Nil ms parse_key_ok [OF t(2)] by (simp add: parse_members.simps token_here)
  next
    case (Cons kw kws)
    then obtain w ws where ms: "ms = w # ws" and w: "view_member w kw"
      using Cons.hyps(2) by (auto simp: list_all2_Cons2)
    have s: "s = fst kv @ DQUOTE # '':'' @ sp @ t @ '','' @ ?rest"
      using Cons.prems(3) ms t(1) by simp
    have "\<exists>r. ?rest = DQUOTE # r" using w ms by (cases ws) (auto simp: view_member_def)
    then obtain r where r: "?rest = DQUOTE # r" by blast
    have "parse_json n' STANDARD (Suc d) (t @ '','' @ ?rest) = Done (snd kv) ('','' @ ?rest)"
      using d t(3) n s Cons.prems(4) by (intro view_textD) auto
    then have j: "parse_json n' STANDARD (Suc d) (sp @ t @ '','' @ ?rest) = Done (snd kv) ('','' @ ?rest)"
      using sp by (cases n') (auto simp: parse_json_space)
    have "2 * length r < n'" using Cons.prems(4) n s arg_cong [OF r, of length] by simp
    then have "parse_members n' STANDARD d (acc @ [kv]) DQUOTE r = Done (JObject ((acc @ [kv]) @ kvs)) post"
      using Cons.prems(2) Cons r by (intro Cons.IH) auto
    then show ?thesis
      using n s j r parse_key_ok [OF t(2)] by (simp add: parse_members.simps token_here)
  qed
qed

lemma view_text_object:
  assumes "list_all2 view_member ms kvs"
  shows "view_text (''{'' @ join '','' ms @ ''}'') (JObject kvs)"
proof -
  have "parse_json n STANDARD d ((''{'' @ join '','' ms @ ''}'') @ post) = Done (JObject kvs) post"
    if a: "d \<le> max_depth" "within (max_depth - d) (JObject kvs)"
      "2 * length ((''{'' @ join '','' ms @ ''}'') @ post) < n" for n d post
  proof -
    obtain n' where n: "n = Suc n'" using a(3) by (cases n) simp_all
    show ?thesis
    proof (cases kvs)
      case Nil
      then show ?thesis using a n assms by (simp add: parse_json_head token_here isdigit_def)
    next
      case (Cons kv kws)
      then obtain w ws where ms: "ms = w # ws" and w: "view_member w kv"
        using assms by (auto simp: list_all2_Cons2)
      have "\<exists>s. join '','' ms @ ''}'' @ post = DQUOTE # s"
        using w ms by (cases ws) (auto simp: view_member_def)
      then obtain s where s: "join '','' ms @ ''}'' @ post = DQUOTE # s" by blast
      have "2 * length s < n'" using a n arg_cong [OF s, of length] by simp
      then have "parse_members n' STANDARD d [] DQUOTE s = Done (JObject ([] @ kvs)) post"
        using a assms Cons s by (intro parse_members_text) auto
      then show ?thesis using a n s by (simp add: parse_json_head token_here isdigit_def)
    qed
  qed
  then show ?thesis by (simp add: view_text_def)
qed

section \<open>Texts of the builder\<close>

text \<open>
  The texts the builder writes and the values they stand for: scalars that need no escaping, arrays and
  objects with commas between their parts, keys with at most a blank behind the colon. Each reader of the
  services understands these texts, the JSON reader here and \<open>gason\<close> in its own theory.
\<close>

inductive reads_text :: "string \<Rightarrow> json \<Rightarrow> bool" and reads_member :: "string \<Rightarrow> string \<times> json \<Rightarrow> bool" where
  reads_text_scalar: "plain_scalar v \<Longrightarrow> reads_text (value_text v) v"
| reads_text_array: "list_all2 reads_text ts xs \<Longrightarrow> reads_text (''['' @ join '','' ts @ '']'') (JArray xs)"
| reads_text_object: "list_all2 reads_member ms kvs \<Longrightarrow> reads_text (''{'' @ join '','' ms @ ''}'') (JObject kvs)"
| reads_memberI: "key_ok k \<Longrightarrow> reads_text t v \<Longrightarrow> reads_member (key_text k @ t) (k, v)"
| reads_memberI_tight: "key_ok k \<Longrightarrow> reads_text t v \<Longrightarrow> reads_member (DQUOTE # k @ [DQUOTE] @ '':'' @ t) (k, v)"

text \<open>
  What a reader of such texts must do, one rule for each rule of the grammar. A value must \<open>fit\<close> the reader, and
  the keys must suit it.
\<close>

locale text_reader =
  fixes reads :: "string \<Rightarrow> json \<Rightarrow> bool"
    and takes :: "string \<Rightarrow> string \<times> json \<Rightarrow> bool"
    and fits :: "json \<Rightarrow> bool"
    and suits :: "string \<Rightarrow> bool"
  assumes reads_scalar: "plain_scalar v \<Longrightarrow> fits v \<Longrightarrow> reads (value_text v) v"
    and reads_array: "list_all2 reads ts xs \<Longrightarrow> reads (''['' @ join '','' ts @ '']'') (JArray xs)"
    and reads_object: "list_all2 takes ms kvs \<Longrightarrow> reads (''{'' @ join '','' ms @ ''}'') (JObject kvs)"
    and takes_member: "key_ok k \<Longrightarrow> suits k \<Longrightarrow> reads t v \<Longrightarrow> sp = [] \<or> sp = '' '' \<Longrightarrow>
      takes (DQUOTE # k @ [DQUOTE] @ '':'' @ sp @ t) (k, v)"
    and fits_element: "fits (JArray xs) \<Longrightarrow> x \<in> set xs \<Longrightarrow> fits x"
    and fits_member: "fits (JObject kvs) \<Longrightarrow> kv \<in> set kvs \<Longrightarrow> suits (fst kv) \<and> fits (snd kv)"
begin

lemma understands:
  "reads_text t v \<Longrightarrow> fits v \<longrightarrow> reads t v"
  "reads_member m kv \<Longrightarrow> suits (fst kv) \<and> fits (snd kv) \<longrightarrow> takes m kv"
proof (induction rule: reads_text_reads_member.inducts)
  case (reads_text_array ts xs)
  have "list_all2 reads ts xs" if "fits (JArray xs)"
    using reads_text_array fits_element [OF that] by (auto simp: list_all2_conv_all_nth)
  then show ?case using reads_array by blast
next
  case (reads_text_object ms kvs)
  have "list_all2 takes ms kvs" if "fits (JObject kvs)"
    using reads_text_object fits_member [OF that] by (auto simp: list_all2_conv_all_nth)
  then show ?case using reads_object by blast
next
  case (reads_memberI k t v)
  then show ?case using takes_member [of k t v "'' ''"] by (simp add: key_text_def)
next
  case (reads_memberI_tight k t v)
  then show ?case using takes_member [of k t v "[]"] by simp
qed (simp add: reads_scalar)

end

interpretation view: text_reader view_text view_member "\<lambda>v. True" "\<lambda>k. True"
proof unfold_locales
  fix k t v sp
  assume "key_ok k" "view_text t v" "sp = [] \<or> sp = '' ''"
  then show "view_member (DQUOTE # k @ [DQUOTE] @ '':'' @ sp @ t) (k, v)" by (auto simp: view_member_def)
qed (simp_all add: view_text_scalar view_text_array [simplified] view_text_object [simplified])

lemma reads_text_parses:
  assumes "reads_text t v" "within max_depth v"
  shows "parser_parse STANDARD t = Done v []"
proof -
  have "view_text t v" using view.understands(1) [OF assms(1)] by simp
  then have "parse_json (json_fuel t) STANDARD 0 (t @ []) = Done v []"
    using assms(2) unfolding view_text_def json_fuel_def
    by (elim conjE allE [of _ "2 * length t + 1"] allE [of _ 0] allE [of _ "[]"]) simp
  then show ?thesis
    by (simp add: parser_parse_def consume_garbage_def consume_whitespace_def)
qed

section \<open>Writing members\<close>

definition writes_members :: "(ostream \<Rightarrow> ostream) \<Rightarrow> string list \<Rightarrow> bool" where
  "writes_members f ms \<longleftrightarrow> writes f (concat (map (\<lambda>m. m @ '','') ms))"

lemma writes_membersD:
  "writes_members f ms \<Longrightarrow> at_end os \<Longrightarrow> f os = appended os (concat (map (\<lambda>m. m @ '','') ms))"
  by (simp add: writes_members_def writesD)

lemma writes_members_comp:
  "writes_members f ms \<Longrightarrow> writes_members g ns \<Longrightarrow> writes_members (\<lambda>os. g (f os)) (ms @ ns)"
  by (simp add: writes_members_def writes_def)

lemma writes_members_nil: "writes_members (\<lambda>os. os) []"
  unfolding writes_members_def writes_def by (auto simp: appended_def at_end_def)

lemma writes_members_one: "writes f (m @ '','') \<Longrightarrow> writes_members f [m]"
  by (simp add: writes_members_def)

lemma members_joined: "ms \<noteq> [] \<Longrightarrow> concat (map (\<lambda>m. m @ '','') ms) = join '','' ms @ '',''"
  using concat_commas [of ms "\<lambda>m. m"] by simp

lemma put_over_comma:
  "ms \<noteq> [] \<Longrightarrow> os_put (c # s) (seek_back (appended os (t @ concat (map (\<lambda>m. m @ '','') ms))))
    = appended os (t @ join '','' ms @ c # s)"
  using put_over_last [of c s os "t @ join '','' ms" "CHR '',''"] by (simp add: members_joined)

lemma builder_members:
  assumes "writes_members f ms" "ms \<noteq> []"
  shows "builder_str (f new_JsonBuilder) = ''{'' @ join '','' ms @ ''}''"
  using assms writes_membersD [OF assms(1), of new_JsonBuilder]
    put_over_comma [OF assms(2), of "CHR ''}''" "[]" "\<lparr>os_buf = [], os_pos = 0\<rparr>" "''{''"]
  by (simp add: builder_str_def new_builder)

lemma put_object_members:
  assumes "writes_members f ms" "ms \<noteq> []"
  shows "writes (put_object f) ((''{'' @ join '','' ms @ ''}'') @ '','')"
  using put_object_writes [of f "join '','' ms"] assms by (simp add: writes_members_def members_joined)

text \<open>The members a row stands for.\<close>

definition item_json :: "Field \<Rightarrow> Row \<Rightarrow> nat \<Rightarrow> string \<times> json" where
  "item_json fd row i =
     (fd_key fd,
      case fd_type fd of
        LongField \<Rightarrow> if fd_nullable fd \<and> \<not> fst (get_long row i) then JNull else JInt (snd (get_long row i))
      | IntField \<Rightarrow> if fd_nullable fd \<and> \<not> fst (get_int row i) then JNull else JInt (snd (get_int row i))
      | StringField \<Rightarrow> if fd_nullable fd \<and> \<not> fst (get_str row i) then JNull else JString (snd (get_str row i))
      | BoolField \<Rightarrow> if fd_nullable fd \<and> \<not> fst (get_int row i) then JNull else JBool (snd (get_int row i) \<noteq> 0))"

fun items_json :: "Field list \<Rightarrow> Row \<Rightarrow> nat \<Rightarrow> (string \<times> json) list" where
  "items_json [] row i = []"
| "items_json (h # t) row i = item_json h row i # items_json t row (i + 1)"

lemma write_item_field: "write_item fd row i = write_field (item_json fd row i)"
  by (rule ext) (auto simp: write_item_def item_json_def Let_def split: field_type.splits prod.splits)

lemma write_item_members: "writes_members (write_item fd row i) [field_text (item_json fd row i)]"
  by (simp add: write_item_field writes_members_one write_field_writes)

lemma write_items_members: "writes_members (write_items fds row i) (map field_text (items_json fds row i))"
proof (induction fds arbitrary: i)
  case Nil
  then show ?case using writes_members_nil by simp
next
  case (Cons fd fds)
  then show ?case
    using writes_members_comp [OF write_item_members [of fd row i] Cons.IH [of "i + 1"]]
    by simp
qed

lemma items_json_nil [simp]: "items_json fds row i = [] \<longleftrightarrow> fds = []"
  by (cases fds) simp_all

definition object_member :: "string \<Rightarrow> string list \<Rightarrow> string" where
  "object_member key ms = key_text key @ ''{'' @ join '','' ms @ ''}''"

definition array_member :: "string \<Rightarrow> string list \<Rightarrow> string" where
  "array_member key ts = key_text key @ ''['' @ join '','' ts @ '']''"

lemma write_items_object_members:
  assumes "fds \<noteq> []"
  shows "writes_members (write_items_object key fds row i) [object_member key (map field_text (items_json fds row i))]"
proof (rule writes_members_one, unfold writes_def, intro allI impI)
  fix os
  assume "at_end os"
  then have "write_items fds row i (os_put (DQUOTE # key @ [DQUOTE] @ '': {'') os) =
      appended os ((key_text key @ ''{'') @ concat (map (\<lambda>m. m @ '','') (map field_text (items_json fds row i))))"
    using writes_membersD [OF write_items_members] by (simp add: key_text_def)
  then show "write_items_object key fds row i os =
      appended os (object_member key (map field_text (items_json fds row i)) @ '','')"
    using put_over_comma [of "map field_text (items_json fds row i)" "CHR ''}''" "'',''" os "key_text key @ ''{''"] assms
    by (simp add: write_items_object_def object_member_def)
qed

lemma rows_loop_objects: "rows_loop f rows os = put_objects f rows os"
  by (induction f rows os rule: rows_loop.induct) simp_all

lemma for_each_row_members:
  assumes "\<And>r. r \<in> set rows \<Longrightarrow> writes_members (f r) (ms r) \<and> ms r \<noteq> []"
  shows "writes_members (for_each_row key rows f)
    [array_member key (map (\<lambda>r. ''{'' @ join '','' (ms r) @ ''}'') rows)]"
proof -
  have "for_each_row key rows f = for_each key rows f"
    by (rule ext) (simp add: for_each_row_def for_each_def rows_loop_objects Let_def)
  moreover have "writes (for_each key rows f)
      (key_text key @ ''['' @ join '','' (map (\<lambda>r. ''{'' @ join '','' (ms r) @ ''}'') rows) @ ''],'')"
    using assms members_joined by (intro for_each_writes) (metis writes_members_def)
  ultimately show ?thesis by (simp add: writes_members_one array_member_def)
qed

section \<open>Runs of rows\<close>

text \<open>The rows of a result in runs with the same key, which is what the moving cursor computes.\<close>

function runs :: "(Row \<Rightarrow> 'k) \<Rightarrow> Row list \<Rightarrow> Row list list" where
  "runs k [] = []"
| "runs k (r # rs) = (r # takeWhile (\<lambda>x. k x = k r) rs) # runs k (dropWhile (\<lambda>x. k x = k r) rs)"
  by pat_completeness auto
termination
  by (relation "measure (length \<circ> snd)") (simp_all add: length_dropWhile_le less_Suc_eq_le)

lemma concat_runs: "concat (runs k rows) = rows"
  by (induction k rows rule: runs.induct) simp_all

lemma run_same_key: "run \<in> set (runs k rows) \<Longrightarrow> run \<noteq> [] \<and> (\<forall>r \<in> set run. k r = k (hd run))"
proof (induction k rows rule: runs.induct)
  case (2 k r rs)
  show ?case
  proof (cases "run = r # takeWhile (\<lambda>x. k x = k r) rs")
    case True
    have "\<forall>q \<in> set (takeWhile (\<lambda>x. k x = k r) rs). k q = k r"
      by (blast dest: set_takeWhileD)
    then have "\<forall>q \<in> set run. k q = k r" using True by (metis set_ConsD)
    moreover have "hd run = r" "run \<noteq> []" using True by simp_all
    ultimately show ?thesis by metis
  next
    case False
    then have "run \<in> set (runs k (dropWhile (\<lambda>x. k x = k r) rs))" using 2(2) by simp
    then show ?thesis by (rule 2(1))
  qed
qed simp

lemma rest_greater:
  fixes k :: "Row \<Rightarrow> 'k :: linorder"
  assumes "sorted (map k (r # rs))" "dropWhile (\<lambda>x. k x = k r) rs = rest"
  shows "sorted (map k rest)" "x \<in> set rest \<Longrightarrow> k r < k x"
proof -
  have ge: "k r \<le> k x" if "x \<in> set rs" for x using assms(1) that by simp
  have sub: "set rest \<subseteq> set rs" using assms(2) set_dropWhileD [of _ "\<lambda>x. k x = k r" rs] by auto
  show s: "sorted (map k rest)"
    using assms sorted_wrt_dropWhile [of "\<lambda>x y. k x \<le> k y" rs "\<lambda>x. k x = k r"] by (simp add: sorted_map)
  assume x: "x \<in> set rest"
  show "k r < k x"
  proof (cases rest)
    case (Cons y ys)
    then have "k y \<noteq> k r" using hd_dropWhile [of "\<lambda>x. k x = k r" rs] assms(2) by auto
    moreover have "k r \<le> k y" using ge [of y] Cons sub by simp
    moreover have "k y \<le> k x" using s Cons x by auto
    ultimately show ?thesis by simp
  qed (use x in simp)
qed

lemma run_subset: "run \<in> set (runs k rows) \<Longrightarrow> r \<in> set run \<Longrightarrow> r \<in> set rows"
  using concat_runs [of k rows] by (metis UN_I set_concat)

lemma runs_sorted:
  fixes k :: "Row \<Rightarrow> 'k :: linorder"
  shows "sorted (map k rows) \<Longrightarrow> sorted_wrt (<) (map (k \<circ> hd) (runs k rows))"
proof (induction k rows rule: runs.induct)
  case (2 k r rs)
  obtain rest where rest: "dropWhile (\<lambda>x. k x = k r) rs = rest" by blast
  note g = rest_greater [OF 2(2) rest]
  have "hd run \<in> set rest" if "run \<in> set (runs k rest)" for run
    using run_subset [OF that, of "hd run"] run_same_key [OF that] hd_in_set by blast
  then show ?case using g 2(1) rest by auto
qed simp

text \<open>With the rows in the order of the key, a run is all the rows with its key.\<close>

lemma sorted_run_filter:
  fixes k :: "Row \<Rightarrow> 'k :: linorder"
  shows "sorted (map k rows) \<Longrightarrow> run \<in> set (runs k rows) \<Longrightarrow> run = filter (\<lambda>r. k r = k (hd run)) rows"
proof (induction k rows rule: runs.induct)
  case (2 k r rs)
  obtain rest where rest: "dropWhile (\<lambda>x. k x = k r) rs = rest" by blast
  note g = rest_greater [OF 2(2) rest]
  have t: "takeWhile (\<lambda>x. k x = k r) rs = filter (\<lambda>x. k x = k r) rs"
    using g(2) rest by (intro takeWhile_eq_filter) (metis less_irrefl)
  have split: "rs = filter (\<lambda>x. k x = k r) rs @ rest"
    using takeWhile_dropWhile_id [of "\<lambda>x. k x = k r" rs] t rest by simp
  show ?case
  proof (cases "run \<in> set (runs k rest)")
    case True
    have "run \<noteq> []" using run_same_key [OF True] by blast
    then have h: "k r < k (hd run)" using run_subset [OF True] g(2) by simp
    have "filter (\<lambda>x. k x = k (hd run)) (filter (\<lambda>x. k x = k r) rs) = []"
      using h by (auto simp: filter_empty_conv)
    then have "filter (\<lambda>x. k x = k (hd run)) rs = filter (\<lambda>x. k x = k (hd run)) rest"
      using split by (metis append_Nil filter_append)
    then show ?thesis using 2(1) True rest g(1) h by simp
  next
    case False
    then have "run = r # filter (\<lambda>x. k x = k r) rs" using 2(3) rest t by simp
    then show ?thesis by simp
  qed
qed simp

lemma sorted_runs:
  fixes k :: "Row \<Rightarrow> 'k :: linorder"
  assumes "sorted (map k rows)"
  shows "runs k rows = map (\<lambda>p. filter (\<lambda>r. k r = p) rows) (sorted_list_of_set (k ` set rows))"
proof -
  let ?ps = "map (k \<circ> hd) (runs k rows)"
  have "p \<in> set ?ps \<longleftrightarrow> p \<in> k ` set rows" for p
  proof
    assume "p \<in> set ?ps"
    then obtain run where "run \<in> set (runs k rows)" "p = k (hd run)" by auto
    then show "p \<in> k ` set rows" using run_same_key run_subset hd_in_set by blast
  next
    assume "p \<in> k ` set rows"
    then obtain r where r: "r \<in> set rows" "p = k r" by blast
    then obtain run where "run \<in> set (runs k rows)" "r \<in> set run"
      using concat_runs [of k rows] by (metis UN_E set_concat)
    moreover from this have "k r = k (hd run)" using run_same_key by blast
    ultimately show "p \<in> set ?ps" using r(2) by (auto intro!: image_eqI [where x = run])
  qed
  then have "set ?ps = k ` set rows" by blast
  moreover have "sorted_list_of_set (set ?ps) = ?ps"
    using runs_sorted [OF assms] by (intro sorted_list_of_set.idem_if_sorted_distinct) (simp_all add: strict_sorted_iff)
  ultimately have ps: "?ps = sorted_list_of_set (k ` set rows)" by simp
  have "map (\<lambda>run. filter (\<lambda>r. k r = k (hd run)) rows) (runs k rows) = runs k rows"
    by (rule map_idI) (rule sorted_run_filter [OF assms, symmetric])
  then show ?thesis unfolding ps [symmetric] by (simp add: comp_def)
qed

lemma runs_Cons_nonempty [simp]: "runs k rows = [] \<longleftrightarrow> rows = []"
  by (cases rows) simp_all

text \<open>
  A function for the moving cursor that consumes one run, writes the members of its object and
  leaves the cursor on the first row behind it.
\<close>

definition takes_run :: "(Row \<Rightarrow> 'k) \<Rightarrow> (Row list \<Rightarrow> string list) \<Rightarrow> cursor_fun \<Rightarrow> bool" where
  "takes_run k ms f \<longleftrightarrow>
     (\<forall>r rs os. at_end os \<longrightarrow>
        f (r # rs) os =
          (let rest = dropWhile (\<lambda>x. k x = k r) rs;
               run = r # takeWhile (\<lambda>x. k x = k r) rs
           in (if rest = [] then CONT else USE,
               appended os (concat (map (\<lambda>m. m @ '','') (ms run))), rest)))"

lemma control_loop_runs:
  assumes "takes_run k ms f" "\<And>run. ms run \<noteq> []" "rows \<noteq> []" "at_end os"
  shows "control_loop f rows os =
    Some (appended os (concat (map (\<lambda>m. m @ '','') (map (\<lambda>run. ''{'' @ join '','' (ms run) @ ''}'') (runs k rows)))))"
  using assms(3,4)
proof (induction "length rows" arbitrary: rows os rule: less_induct)
  case less
  obtain r rs where rows: "rows = r # rs" using less.prems(1) by (cases rows) auto
  obtain rest run where rest: "dropWhile (\<lambda>x. k x = k r) rs = rest" "r # takeWhile (\<lambda>x. k x = k r) rs = run"
    by blast
  have ru: "runs k rows = run # runs k rest" using rows rest by simp
  let ?t = "\<lambda>run. ''{'' @ join '','' (ms run) @ ''}''"
  let ?os = "appended os (?t run @ '','')"
  have f: "f rows (os_put ''{'' os) = (if rest = [] then CONT else USE,
      appended os (''{'' @ concat (map (\<lambda>m. m @ '','') (ms run))), rest)"
    using assms(1) less.prems(2) rows rest unfolding takes_run_def by (simp add: Let_def del: dropWhile_eq_Nil_conv)
  have w: "os_put ''},'' (seek_back (appended os (''{'' @ concat (map (\<lambda>m. m @ '','') (ms run))))) = ?os"
    using put_over_comma [OF assms(2), of "CHR ''}''" "'',''" os "''{''" run] by simp
  show ?case
  proof (cases "rest = []")
    case True
    then have "control_loop f rows os = Some ?os"
      using f w by (subst control_loop.simps) (simp add: Let_def)
    then show ?thesis using ru True by simp
  next
    case False
    then have "control_loop f rows os = control_loop f rest ?os"
      using f w by (subst control_loop.simps) (simp add: Let_def)
    also have "\<dots> = Some (appended ?os (concat (map (\<lambda>m. m @ '','') (map ?t (runs k rest)))))"
      using False rows rest(1) length_dropWhile_le [of "\<lambda>x. k x = k r" rs] by (intro less.hyps) auto
    finally show ?thesis using ru by simp
  qed
qed

lemma for_each_control_runs:
  assumes "takes_run k ms f" "\<And>run. ms run \<noteq> []" "at_end os"
  shows "for_each_control key rows f os =
    Some (appended os (array_member key (map (\<lambda>run. ''{'' @ join '','' (ms run) @ ''}'') (runs k rows)) @ '',''))"
proof (cases "rows = []")
  case True
  then show ?thesis using assms(3) by (simp add: for_each_control_def open_array_def array_member_def key_text_def)
next
  case False
  let ?ts = "map (\<lambda>run. ''{'' @ join '','' (ms run) @ ''}'') (runs k rows)"
  have o: "open_array key os = appended os (key_text key @ ''['')"
    using assms(3) by (simp add: open_array_def key_text_def)
  have "control_loop f rows (open_array key os) =
      Some (appended os ((key_text key @ ''['') @ concat (map (\<lambda>m. m @ '','') ?ts)))"
    using control_loop_runs [OF assms(1,2) False, of "open_array key os"] o by simp
  moreover have "?ts \<noteq> []" using False by simp
  ultimately show ?thesis
    using put_over_comma [of ?ts "CHR '']''" "'',''" os "key_text key @ ''[''"] False
    by (simp add: for_each_control_def array_member_def Let_def)
qed

lemma take_rows_run:
  assumes "\<And>r. writes (f r) (t r @ '','')" "at_end os"
  shows "take_rows_raw p f rows os =
    (if dropWhile p rows = [] then CONT else USE,
     appended os (concat (map (\<lambda>m. m @ '','') (map t (takeWhile p rows)))), dropWhile p rows)"
  using assms(2)
proof (induction rows arbitrary: os)
  case Nil
  then show ?case by (cases os) (simp add: appended_def at_end_def)
next
  case (Cons r rs)
  then show ?case
    using writesD [OF assms(1) Cons.prems, of r] by (cases os) (auto simp: appended_def at_end_def)
qed

lemma take_rows_objects: "take_rows p f rows os = take_rows_raw p (\<lambda>r. put_object (f r)) rows os"
  by (induction p f rows os rule: take_rows.induct) simp_all

text \<open>On a row that satisfies the predicate, the array holds the whole run.\<close>

lemma take_while_raw_run:
  assumes "\<And>r. writes (f r) (t r @ '','')" "at_end os" "p r"
  shows "take_while_raw key (r # rs) p f os =
    (if dropWhile p rs = [] then CONT else USE,
     appended os (array_member key (map t (r # takeWhile p rs)) @ '',''), dropWhile p rs)"
proof -
  have "open_array key os = appended os (key_text key @ ''['')"
    using assms(2) by (simp add: open_array_def key_text_def)
  then show ?thesis
    using take_rows_run [of f t "open_array key os" p "r # rs"] assms(1,3)
      put_over_comma [of "map t (r # takeWhile p rs)" "CHR '']''" "'',''" os "key_text key @ ''[''"]
    by (simp add: take_while_raw_def array_member_def Let_def del: dropWhile_eq_Nil_conv)
qed

lemma take_while_run:
  fixes f :: "Row \<Rightarrow> ostream \<Rightarrow> ostream"
  assumes "\<And>r. writes_members (f r) (ms r) \<and> ms r \<noteq> []" "at_end os" "p r"
  shows "take_while key (r # rs) p f os =
    (if dropWhile p rs = [] then CONT else USE,
     appended os (array_member key (map (\<lambda>r. ''{'' @ join '','' (ms r) @ ''}'') (r # takeWhile p rs)) @ '',''),
     dropWhile p rs)"
proof -
  have "take_while key (r # rs) p f os = take_while_raw key (r # rs) p (\<lambda>r. put_object (f r)) os"
    by (simp add: take_while_def take_while_raw_def take_rows_objects)
  moreover have "writes (put_object (f x)) ((''{'' @ join '','' (ms x) @ ''}'') @ '','')" for x
    using put_object_members assms(1) by blast
  ultimately show ?thesis
    using take_while_raw_run [of "\<lambda>r. put_object (f r)" "\<lambda>r. ''{'' @ join '','' (ms r) @ ''}''" os p r key rs]
      assms(2,3) by presburger
qed

section \<open>What a reader finds in the members\<close>

lemma reads_field: "key_ok (fst kv) \<Longrightarrow> plain_scalar (snd kv) \<Longrightarrow> reads_member (field_text kv) kv"
  using reads_memberI [of "fst kv" "value_text (snd kv)" "snd kv"] by (simp add: field_text_def reads_text_scalar)

lemma reads_object_member:
  "key_ok key \<Longrightarrow> list_all2 reads_member ms kvs \<Longrightarrow> reads_member (object_member key ms) (key, JObject kvs)"
  using reads_memberI reads_text_object by (simp add: object_member_def)

lemma reads_array_member:
  "key_ok key \<Longrightarrow> list_all2 reads_text ts xs \<Longrightarrow> reads_member (array_member key ts) (key, JArray xs)"
  using reads_memberI reads_text_array by (simp add: array_member_def)

text \<open>The columns \<open>i\<close>, \<open>i + 1\<close>, \<dots> of a row hold values that need no escaping.\<close>

definition plain_items :: "Field list \<Rightarrow> Row \<Rightarrow> nat \<Rightarrow> bool" where
  "plain_items fds row i \<longleftrightarrow> (\<forall>kv \<in> set (items_json fds row i). plain_scalar (snd kv))"

lemma items_json_keys: "map fst (items_json fds row i) = map fd_key fds"
  by (induction fds arbitrary: i) (simp_all add: item_json_def)

lemma reads_items:
  assumes "plain_items fds row i" "\<And>fd. fd \<in> set fds \<Longrightarrow> key_ok (fd_key fd)"
  shows "list_all2 reads_member (map field_text (items_json fds row i)) (items_json fds row i)"
proof -
  have "key_ok (fst kv)" if "kv \<in> set (items_json fds row i)" for kv
  proof -
    have "fst kv \<in> set (map fst (items_json fds row i))" using that by simp
    then show ?thesis unfolding items_json_keys using assms(2) by auto
  qed
  then show ?thesis
    using assms(1) by (auto simp: list_all2_map1 plain_items_def reads_field intro!: list.rel_refl_strong)
qed

lemma within_items:
  assumes "plain_items fds row i"
  shows "\<forall>kv \<in> set (items_json fds row i). within k (snd kv)"
  using assms plain_scalar_dump by (auto simp: plain_items_def)

end
