(* ===== verification/Database.thy ===== *)
theory Database
  imports MariaDB Rows
begin

text \<open>
  The interface of a database (\<open>db::Database\<close> of \<open>db/DB.h\<close>) as the services use it: a record with
  its operations over the state of a connection. An operation may throw, a \<open>db::Exception\<close> or the
  \<open>std::runtime_error\<close> of a client. MariaDB provides the interface; what the services rely on
  beyond it, the isolation of a transaction, is stated once here. Besides, a client may fail to
  convert a number, with an exception of the standard library.
\<close>

section \<open>The interface\<close>

datatype failure = Db DbException | Runtime string | Conversion conv_error

record 'd Database =
  db_fetch :: "string \<Rightarrow> (failure, Row list, 'd) db_op"
  db_fetch_long :: "string \<Rightarrow> int \<Rightarrow> (failure, bool \<times> int, 'd) db_op"
  db_fetch_string :: "string \<Rightarrow> string \<Rightarrow> (failure, bool \<times> string, 'd) db_op"
  db_query :: "string \<Rightarrow> (failure, unit, 'd) db_op"
  db_query_and_check :: "string \<Rightarrow> (failure, ulong, 'd) db_op"
  db_insert :: "string \<Rightarrow> slong \<Rightarrow> (failure, bool \<times> slong, 'd) db_op"
  db_escape :: "string \<Rightarrow> string"
  db_begin :: "(failure, unit, 'd) db_op"
  db_commit :: "(failure, unit, 'd) db_op"
  db_rollback :: "(failure, unit, 'd) db_op"

text \<open>Sequencing operations that may throw.\<close>

definition db_ret :: "'a \<Rightarrow> ('e, 'a, 'd) db_op" where
  "db_ret v d = (Inr v, d)"

definition db_throw :: "'e \<Rightarrow> ('e, 'a, 'd) db_op" where
  "db_throw e d = (Inl e, d)"

definition db_bind :: "('e, 'a, 'd) db_op \<Rightarrow> ('a \<Rightarrow> ('e, 'b, 'd) db_op) \<Rightarrow> ('e, 'b, 'd) db_op" where
  "db_bind x f d = (case x d of (Inl e, d') \<Rightarrow> (Inl e, d') | (Inr v, d') \<Rightarrow> f v d')"

text \<open>A loop that runs an operation on every element of a range and collects the results.\<close>

fun db_each :: "('a \<Rightarrow> ('e, 'b, 'd) db_op) \<Rightarrow> 'a list \<Rightarrow> ('e, 'b list, 'd) db_op" where
  "db_each f [] = db_ret []"
| "db_each f (x # xs) = db_bind (f x) (\<lambda>y. db_bind (db_each f xs) (\<lambda>ys. db_ret (y # ys)))"

lemma db_bind_Inr:
  "db_bind x f d = (Inr v, d') \<longleftrightarrow> (\<exists>u d1. x d = (Inr u, d1) \<and> f u d1 = (Inr v, d'))"
  by (auto simp: db_bind_def split: prod.splits sum.splits)

lemma db_bind_snd:
  assumes "\<And>d. P (snd (x d)) = P d" "\<And>v d. P (snd (f v d)) = P d"
  shows "P (snd (db_bind x f d)) = P d"
  using assms(1) [of d] assms(2) by (auto simp: db_bind_def split: prod.splits sum.splits)

lemma db_each_snd:
  assumes "\<And>x d. P (snd (f x d)) = P d"
  shows "P (snd (db_each f xs d)) = P d"
proof (induction xs arbitrary: d)
  case Nil
  then show ?case by (simp add: db_ret_def)
next
  case (Cons x xs)
  have "P (snd (db_bind (db_each f xs) (\<lambda>ys. db_ret (y # ys)) d)) = P d" for y d
    using Cons by (intro db_bind_snd) (simp_all add: db_ret_def)
  then show ?case using assms by (simp add: db_bind_snd)
qed

section \<open>MariaDB as a database\<close>

text \<open>
  \<open>MariaDB::fetch(const char*)\<close> prepares a statement; it runs through the functions of the client
  library for statements. A null handle or a failing first fetch is handed to \<open>mysql_stmt_errno\<close>
  after it was closed or found null, which is undefined (\<open>None\<close>).
\<close>

record 'm Stmt =
  st_init :: "'m \<Rightarrow> bool \<times> 'm"
  st_prepare :: "string \<Rightarrow> 'm \<Rightarrow> bool \<times> 'm"
  st_execute :: "'m \<Rightarrow> bool \<times> 'm"
  st_store_fetch :: "'m \<Rightarrow> (int \<times> Row list) \<times> 'm"
  st_errno :: "'m \<Rightarrow> nat"
  st_error :: "'m \<Rightarrow> string"

definition new_Row :: "'m Stmt \<Rightarrow> 'm \<Rightarrow> (Row list \<times> 'm) option" where
  "new_Row st s =
     (case st_store_fetch st s of
        ((status, rows), s') \<Rightarrow>
          if status = 0 then Some (rows, s')
          else if status = MYSQL_NO_DATA then Some ([], s')
          else None)"

definition mdb_fetch :: "'m Stmt \<Rightarrow> string \<Rightarrow> 'm \<Rightarrow> ((DbException + Row list) \<times> 'm) option" where
  "mdb_fetch st statement s =
     (case st_init st s of
        (False, s1) \<Rightarrow> None
      | (True, s1) \<Rightarrow>
          (case st_prepare st statement s1 of
             (True, s2) \<Rightarrow>
               Some (Inl \<lparr>ex_errc = - 1, ex_msg = ''Cannot prepare the statement.'',
                  ex_errno = st_errno st s2, ex_error = Some (st_error st s2)\<rparr>, s2)
           | (False, s2) \<Rightarrow>
               (case st_execute st s2 of
                  (False, s3) \<Rightarrow> map_option (\<lambda>(rows, s4). (Inr rows, s4)) (new_Row st s3)
                | (True, s3) \<Rightarrow> Some (Inr [], s3))))"

text \<open>A statement whose execution fails looks like one without rows: nothing is thrown.\<close>

lemma failed_execute_is_empty:
  "st_init st s = (True, s1) \<Longrightarrow> st_prepare st q s1 = (False, s2) \<Longrightarrow> st_execute st s2 = (True, s3) \<Longrightarrow>
    mdb_fetch st q s = Some (Inr [], s3)"
  by (simp add: mdb_fetch_def)

text \<open>
  MariaDB behind the interface. A statement is passed as a C string, which ends at its first NUL. The rows come from a function that stands for a fetch with defined
  behaviour; escaping is the library's, by the law of its buffers.
\<close>

definition db_exn :: "(DbException, 'a, 'd) db_op \<Rightarrow> (failure, 'a, 'd) db_op" where
  "db_exn x d = (case x d of (Inl e, d') \<Rightarrow> (Inl (Db e), d') | (Inr v, d') \<Rightarrow> (Inr v, d'))"

definition mariadb :: "(string \<Rightarrow> (DbException, Row list, 'm) db_op) \<Rightarrow> 'm Mysql \<Rightarrow> 'm Database" where
  "mariadb fetch my =
     \<lparr>db_fetch = (\<lambda>q. db_exn (fetch (cstr q))),
      db_fetch_long = (\<lambda>q v. db_exn (MariaDB.fetch_long my (cstr q) v)),
      db_fetch_string = (\<lambda>q v. db_exn (fetch_string my (cstr q) v)),
      db_query = (\<lambda>q. db_exn (mdb_query my (cstr q))),
      db_query_and_check = (\<lambda>q. db_exn (mdb_query_and_check my (cstr q))),
      db_insert = (\<lambda>q v. db_exn (mdb_insert_long my (cstr q) v)),
      db_escape = my_real_escape_string my,
      db_begin = db_exn (mdb_begin my),
      db_commit = db_exn (mdb_commit my),
      db_rollback = db_exn (mdb_rollback my)\<rparr>"

lemma mariadb_escape: "escape_law my \<Longrightarrow> mdb_escape my s = Some (db_escape (mariadb fetch my) s)"
  by (simp add: mariadb_def escape_in_bounds)

section \<open>Isolation\<close>

text \<open>
  What the services rely on: inside a transaction an insert does not change what other connections
  see, nor does beginning, rolling back or fetching rows; a commit that succeeds publishes the
  working state.
\<close>

definition isolates :: "('d \<Rightarrow> 's) \<Rightarrow> ('d \<Rightarrow> 's) \<Rightarrow> 'd Database \<Rightarrow> bool" where
  "isolates committed working db \<longleftrightarrow>
     (\<forall>d. committed (snd (db_begin db d)) = committed d)
     \<and> (\<forall>q v d. committed (snd (db_insert db q v d)) = committed d)
     \<and> (\<forall>q d. committed (snd (db_fetch db q d)) = committed d)
     \<and> (\<forall>d. committed (snd (db_rollback db d)) = committed d)
     \<and> (\<forall>d. committed (snd (db_commit db d)) =
          (if isl (fst (db_commit db d)) then committed d else working d))"

end
