(* ===== verification/AuthModels.thy ===== *)
theory AuthModels
  imports Json_Roundtrip
begin

text \<open>
  The requests of the authorization service: the models of
  \<open>core/apps/Authorization/requests/models\<close> with their validation rules, and the parsers of
  \<open>requests/parsers\<close> that build them from JSON. The members of type \<open>long\<close> are integers: the JSON
  reader only yields integers of at most nine characters. A parser that dereferences the end of a
  container has undefined behaviour, a result of its own.
\<close>

section \<open>Models\<close>

record IntraCloud =
  ic_consumerId :: ulong
  ic_providerIds :: "ulong list"
  ic_interfaceIds :: "ulong list"
  ic_serviceDefIds :: "ulong list"

record InterCloud =
  xc_cloudId :: int
  xc_providerIds :: "int list"
  xc_interfaceIds :: "int list"
  xc_serviceDefIds :: "int list"

text \<open>\<open>validate\<close>: a null pointer is \<open>None\<close>.\<close>

definition intra_validate :: "IntraCloud \<Rightarrow> string option" where
  "intra_validate m =
     (if 1 < length (ic_serviceDefIds m) then
        (if length (ic_providerIds m) \<noteq> 1 \<or> length (ic_interfaceIds m) \<noteq> 1
         then Some ''One provider ID, one interface ID with multiple service definition IDs'' else None)
      else if length (ic_serviceDefIds m) = 1 then
        (if ic_providerIds m = [] \<or> ic_interfaceIds m = []
         then Some ''Multiple provider IDs, multiple interface IDs with one service definition ID.'' else None)
      else Some ''Service Definition not given.'')"

definition inter_validate :: "InterCloud \<Rightarrow> string option" where
  "inter_validate m =
     (if 1 < length (xc_serviceDefIds m) then
        (if length (xc_providerIds m) \<noteq> 1 \<or> length (xc_interfaceIds m) \<noteq> 1
         then Some ''One provider ID, one interface ID with multiple service definition IDs'' else None)
      else if length (xc_serviceDefIds m) = 1 then
        (if xc_providerIds m = [] \<or> xc_interfaceIds m = []
         then Some ''Multiple provider IDs, multiple interface IDs with one service definition ID.'' else None)
      else Some ''Service Definition not given.'')"

record IntraCloudCheck =
  icc_address :: string
  icc_authenticationInfo :: string
  icc_port :: int
  icc_systemName :: string
  icc_providers :: "(ulong \<times> int list) list"
  icc_serviceDefinitionId :: int

record InterCloudCheck =
  xcc_name :: string
  xcc_authenticationInfo :: string
  xcc_op :: string
  xcc_neighbor :: bool
  xcc_secure :: bool
  xcc_gatekeeperRelayIds :: "int list"
  xcc_gatewayRelayIds :: "int list"
  xcc_providers :: "(int \<times> int list) list"
  xcc_serviceDefinitionId :: int

record TokenSystem =
  ts_address :: string
  ts_authenticationInfo :: string
  ts_systemName :: string
  ts_port :: int

record TokenRule =
  tr_consumer :: TokenSystem
  tr_service :: string
  tr_providers :: "(TokenSystem \<times> string list) list"

section \<open>Parsing\<close>

datatype 'a parsed = Parsed 'a | Throws string | Undef

fun pbind :: "'a parsed \<Rightarrow> ('a \<Rightarrow> 'b parsed) \<Rightarrow> 'b parsed" where
  "pbind (Parsed v) f = f v"
| "pbind (Throws m) f = Throws m"
| "pbind Undef f = Undef"

fun pmap :: "('a \<Rightarrow> 'b parsed) \<Rightarrow> 'a list \<Rightarrow> 'b list parsed" where
  "pmap f [] = Parsed []"
| "pmap f (x # xs) = pbind (f x) (\<lambda>y. pbind (pmap f xs) (\<lambda>ys. Parsed (y # ys)))"

text \<open>\<open>JsonView json{ json_str }\<close> and the test of its root.\<close>

definition root_object :: "string \<Rightarrow> string \<Rightarrow> (string \<times> json) list parsed" where
  "root_object msg json_str =
     (case new_JsonView json_str STANDARD of
        Done (Inr root) _ \<Rightarrow> (case root of JObject dict \<Rightarrow> Parsed dict | _ \<Rightarrow> Throws msg)
      | Done (Inl m) _ \<Rightarrow> Throws m
      | _ \<Rightarrow> Undef)"

definition int_element :: "string \<Rightarrow> json \<Rightarrow> int parsed" where
  "int_element msg x = (case x of JInt v \<Rightarrow> Parsed v | _ \<Rightarrow> Throws msg)"

definition id_list :: "string \<Rightarrow> (string \<times> json) list \<Rightarrow> int list parsed" where
  "id_list key dict =
     (case object_find key dict of
        Some (_, v) \<Rightarrow>
          (case v of
             JArray arr \<Rightarrow> pmap (int_element (''Format error: wrong number in '' @ key @ '' array.'')) arr
           | _ \<Rightarrow> Throws (''Format error: '' @ key @ '' should be an array.''))
      | None \<Rightarrow> Throws (''Format error: '' @ key @ '' is mandatory.''))"

definition intra_parse :: "string \<Rightarrow> IntraCloud parsed" where
  "intra_parse json_str =
     pbind (root_object ''Wrong json format.'' json_str) (\<lambda>dict.
       case object_find ''consumerId'' dict of
         None \<Rightarrow> Throws ''Format error: consumerId is missing.''
       | Some (_, v) \<Rightarrow>
           (case v of
              JInt consumerId \<Rightarrow>
                pbind (id_list ''providerIds'' dict) (\<lambda>providerIds.
                pbind (id_list ''interfaceIds'' dict) (\<lambda>interfaceIds.
                pbind (id_list ''serviceDefinitionIds'' dict) (\<lambda>serviceDefIds.
                  Parsed \<lparr>ic_consumerId = word_of_int consumerId, ic_providerIds = map word_of_int providerIds,
                    ic_interfaceIds = map word_of_int interfaceIds, ic_serviceDefIds = map word_of_int serviceDefIds\<rparr>)))
            | _ \<Rightarrow> Throws ''Format error: consumerId has wrong type.''))"

definition inter_parse :: "string \<Rightarrow> InterCloud parsed" where
  "inter_parse json_str =
     pbind (root_object ''Wrong json format.'' json_str) (\<lambda>dict.
       case object_find ''cloudId'' dict of
         None \<Rightarrow> Throws ''Format error: cloudId is missing.''
       | Some (_, v) \<Rightarrow>
           (case v of
              JInt cloudId \<Rightarrow>
                if cloudId < 0 then Throws ''Format error: cloudId should be positive.''
                else
                pbind (id_list ''providerIds'' dict) (\<lambda>providerIds.
                pbind (id_list ''interfaceIds'' dict) (\<lambda>interfaceIds.
                pbind (id_list ''serviceDefinitionIds'' dict) (\<lambda>serviceDefIds.
                  Parsed \<lparr>xc_cloudId = cloudId, xc_providerIds = providerIds,
                    xc_interfaceIds = interfaceIds, xc_serviceDefIds = serviceDefIds\<rparr>)))
            | _ \<Rightarrow> Throws ''Format error: cloudId has wrong type.''))"

subsection \<open>The check requests\<close>

text \<open>
  \<open>obj.find(key)\<close> is compared with \<open>dict.cend()\<close>, the end of another container: the test never
  holds, and a member that is not there is read from the end of \<open>obj\<close>.
\<close>

definition sub_member :: "string \<Rightarrow> (string \<times> json) list \<Rightarrow> json parsed" where
  "sub_member key obj = (case object_find key obj of Some (_, v) \<Rightarrow> Parsed v | None \<Rightarrow> Undef)"

definition wrong_type :: "string \<Rightarrow> string" where
  "wrong_type key = ''Format error: consumer/'' @ key @ '' has wrong type.''"

definition string_member :: "string \<Rightarrow> (string \<times> json) list \<Rightarrow> string parsed" where
  "string_member key obj =
     pbind (sub_member key obj) (\<lambda>v. case v of JString s \<Rightarrow> Parsed s | _ \<Rightarrow> Throws (wrong_type key))"

definition bool_member :: "string \<Rightarrow> (string \<times> json) list \<Rightarrow> bool parsed" where
  "bool_member key obj =
     pbind (sub_member key obj) (\<lambda>v. case v of JBool b \<Rightarrow> Parsed b | _ \<Rightarrow> Throws (wrong_type key))"

definition relay_ids :: "string \<Rightarrow> (string \<times> json) list \<Rightarrow> int list parsed" where
  "relay_ids key obj =
     pbind (sub_member key obj) (\<lambda>v.
       case v of
         JArray arr \<Rightarrow> pmap (int_element (''Format error: consumer/'' @ key @ '' should contain integers.'')) arr
       | _ \<Rightarrow> Throws (wrong_type key))"

definition provider_entry :: "json \<Rightarrow> (int \<times> int list) parsed" where
  "provider_entry x =
     (case x of
        JObject obj \<Rightarrow>
          (case object_find ''id'' obj of
             Some (_, JInt ident) \<Rightarrow>
               pbind (sub_member ''idList'' obj) (\<lambda>v.
                 case v of
                   JArray arr \<Rightarrow>
                     pbind (pmap (int_element ''Format error: providerIdsWithInterfaceIds/idList should contain integers.'') arr)
                       (\<lambda>idList. Parsed (ident, idList))
                 | _ \<Rightarrow> Throws ''Format error: providerIdsWithInterfaceIds/idList should be an array.'')
           | _ \<Rightarrow> Throws ''Format error: providerIdsWithInterfaceIds/id should be an int.'')
      | _ \<Rightarrow> Throws ''Format error: providerIdsWithInterfaceIdswrong should contain dictionaries.'')"

definition provider_entries :: "(string \<times> json) list \<Rightarrow> (int \<times> int list) list parsed" where
  "provider_entries dict =
     (case object_find ''providerIdsWithInterfaceIds'' dict of
        Some (_, v) \<Rightarrow>
          (case v of
             JArray arr \<Rightarrow> pmap provider_entry arr
           | _ \<Rightarrow> Throws ''Format error: providerIdsWithInterfaceIds should be an array.'')
      | None \<Rightarrow> Throws ''Format error: providerIds is mandatory.'')"

definition service_definition_id :: "(string \<times> json) list \<Rightarrow> int parsed" where
  "service_definition_id dict =
     (case object_find ''serviceDefinitionId'' dict of
        None \<Rightarrow> Throws ''Format error: consumerId is missing.''
      | Some (_, v) \<Rightarrow> int_element ''Format error: consumerId has wrong type.'' v)"

definition object_member_of :: "string \<Rightarrow> (string \<times> json) list \<Rightarrow> (string \<times> json) list parsed" where
  "object_member_of key dict =
     (case object_find key dict of
        None \<Rightarrow> Throws (''Format error: '' @ key @ '' is missing.'')
      | Some (_, v) \<Rightarrow>
          (case v of JObject obj \<Rightarrow> Parsed obj | _ \<Rightarrow> Throws (''Format error: '' @ key @ '' has wrong type.'')))"

definition intra_check_parse :: "string \<Rightarrow> IntraCloudCheck parsed" where
  "intra_check_parse json_str =
     pbind (root_object ''Wrong json format.'' json_str) (\<lambda>dict.
     pbind (service_definition_id dict) (\<lambda>serviceDefinitionId.
     pbind (object_member_of ''consumer'' dict) (\<lambda>obj.
     pbind (string_member ''address'' obj) (\<lambda>address.
     pbind (string_member ''authenticationInfo'' obj) (\<lambda>authenticationInfo.
     pbind (string_member ''systemName'' obj) (\<lambda>systemName.
     pbind (pbind (sub_member ''port'' obj) (int_element (wrong_type ''port''))) (\<lambda>port.
     pbind (provider_entries dict) (\<lambda>providers.
       Parsed \<lparr>icc_address = address, icc_authenticationInfo = authenticationInfo, icc_port = port,
         icc_systemName = systemName, icc_providers = map (\<lambda>(ident, l). (word_of_int ident, l)) providers,
         icc_serviceDefinitionId = serviceDefinitionId\<rparr>))))))))"

text \<open>The identifier passes through an \<open>unsigned long\<close> and back.\<close>

definition inter_check_parse :: "string \<Rightarrow> InterCloudCheck parsed" where
  "inter_check_parse json_str =
     pbind (root_object ''Wrong json format.'' json_str) (\<lambda>dict.
     pbind (service_definition_id dict) (\<lambda>serviceDefinitionId.
     pbind (object_member_of ''cloud'' dict) (\<lambda>obj.
     pbind (string_member ''name'' obj) (\<lambda>name.
     pbind (string_member ''authenticationInfo'' obj) (\<lambda>authenticationInfo.
     pbind (string_member ''operator'' obj) (\<lambda>op.
     pbind (bool_member ''neighbor'' obj) (\<lambda>neighbor.
     pbind (bool_member ''secure'' obj) (\<lambda>secure.
     pbind (relay_ids ''gatekeeperRelayIds'' obj) (\<lambda>gatekeeperRelayIds.
     pbind (relay_ids ''gatewayRelayIds'' obj) (\<lambda>gatewayRelayIds.
     pbind (provider_entries dict) (\<lambda>providers.
       Parsed \<lparr>xcc_name = name, xcc_authenticationInfo = authenticationInfo, xcc_op = op,
         xcc_neighbor = neighbor, xcc_secure = secure, xcc_gatekeeperRelayIds = gatekeeperRelayIds,
         xcc_gatewayRelayIds = gatewayRelayIds,
         xcc_providers = map (\<lambda>(ident, l). (sint (word_of_int ident :: ulong), l)) providers,
         xcc_serviceDefinitionId = serviceDefinitionId\<rparr>)))))))))))"

subsection \<open>The token requests\<close>

definition required_string :: "string \<Rightarrow> string \<Rightarrow> (string \<times> json) list \<Rightarrow> string parsed" where
  "required_string msg key dict =
     (case object_find key dict of Some (_, JString s) \<Rightarrow> Parsed s | _ \<Rightarrow> Throws msg)"

definition parseSystem :: "json \<Rightarrow> TokenSystem parsed" where
  "parseSystem node =
     (case node of
        JObject dict \<Rightarrow>
          pbind (required_string ''Wrong json format.2'' ''address'' dict) (\<lambda>address.
          let authenticationInfo =
            (case object_find ''authenticationInfo'' dict of Some (_, JString s) \<Rightarrow> s | _ \<Rightarrow> []) in
          pbind (required_string ''Wrong json format.3'' ''systemName'' dict) (\<lambda>systemName.
          case object_find ''port'' dict of
            Some (_, JInt port) \<Rightarrow>
              Parsed \<lparr>ts_address = address, ts_authenticationInfo = authenticationInfo,
                ts_systemName = systemName, ts_port = port\<rparr>
          | _ \<Rightarrow> Throws ''Wrong json format.4''))
      | _ \<Rightarrow> Throws ''Wrong json format.1'')"

definition string_element :: "string \<Rightarrow> json \<Rightarrow> string parsed" where
  "string_element msg x = (case x of JString s \<Rightarrow> Parsed s | _ \<Rightarrow> Throws msg)"

definition token_provider :: "json \<Rightarrow> (TokenSystem \<times> string list) parsed" where
  "token_provider x =
     (case x of
        JObject y \<Rightarrow>
          (case object_find ''provider'' y of
             None \<Rightarrow> Throws ''Wrong json format.9''
           | Some (_, p) \<Rightarrow>
               pbind (parseSystem p) (\<lambda>provider.
               case object_find ''serviceInterfaces'' y of
                 Some (_, JArray arr) \<Rightarrow>
                   pbind (pmap (string_element ''Wrong json format.12'') arr) (\<lambda>serviceInterfaces.
                     Parsed (provider, serviceInterfaces))
               | _ \<Rightarrow> Throws ''Wrong json format.11''))
      | _ \<Rightarrow> Throws ''Wrong json format.19'')"

definition token_parse :: "string \<Rightarrow> TokenRule parsed" where
  "token_parse json_str =
     pbind (root_object ''Wrong json format.5'' json_str) (\<lambda>dict.
       case object_find ''consumer'' dict of
         None \<Rightarrow> Throws ''Wrong json format.6''
       | Some (_, c) \<Rightarrow>
           pbind (parseSystem c) (\<lambda>consumer.
           pbind (required_string ''Wrong json format.7'' ''service'' dict) (\<lambda>service.
           case object_find ''providers'' dict of
             Some (_, JArray arr) \<Rightarrow>
               pbind (pmap token_provider arr) (\<lambda>providers.
                 Parsed \<lparr>tr_consumer = consumer, tr_service = service, tr_providers = providers\<rparr>)
           | _ \<Rightarrow> Throws ''Wrong json format.8'')))"

section \<open>What the parsers accept\<close>

text \<open>The value of the first member with a key.\<close>

definition member_of :: "(string \<times> json) list \<Rightarrow> string \<Rightarrow> json option" where
  "member_of dict key = map_option snd (object_find key dict)"

lemma pbind_Parsed: "pbind x f = Parsed v \<longleftrightarrow> (\<exists>u. x = Parsed u \<and> f u = Parsed v)"
  by (cases x) simp_all

lemma pbind_Undef: "pbind x f = Undef \<longleftrightarrow> x = Undef \<or> (\<exists>u. x = Parsed u \<and> f u = Undef)"
  by (cases x) simp_all

lemma pmap_Parsed: "pmap f xs = Parsed ys \<longleftrightarrow> list_all2 (\<lambda>x y. f x = Parsed y) xs ys"
  by (induction xs arbitrary: ys) (auto simp: pbind_Parsed list_all2_Cons1)

lemma int_element_Parsed: "int_element msg x = Parsed v \<longleftrightarrow> x = JInt v"
  by (cases x) (simp_all add: int_element_def)

lemma string_element_Parsed: "string_element msg x = Parsed v \<longleftrightarrow> x = JString v"
  by (cases x) (simp_all add: string_element_def)

lemma pmap_ints: "pmap (int_element msg) xs = Parsed vs \<longleftrightarrow> xs = map JInt vs"
  unfolding pmap_Parsed int_element_Parsed by (induction xs arbitrary: vs) (auto simp: list_all2_Cons1 Cons_eq_map_conv)

lemma root_object_Parsed:
  "root_object msg s = Parsed dict \<longleftrightarrow> parser_parse STANDARD (cstr s) = Done (JObject dict) []"
  unfolding root_object_def new_JsonView_def parse_throw_on_error_def
  by (cases "parser_parse STANDARD (cstr s)") (auto split: json.splits if_splits)

lemma id_list_Parsed: "id_list key dict = Parsed vs \<longleftrightarrow> member_of dict key = Some (JArray (map JInt vs))"
  unfolding id_list_def member_of_def
  by (cases "object_find key dict") (auto simp: pmap_ints split: json.splits)

lemma find_Parsed:
  "(case object_find key dict of None \<Rightarrow> Throws e | Some (k, v) \<Rightarrow> f v) = Parsed m \<longleftrightarrow>
    (\<exists>v. member_of dict key = Some v \<and> f v = Parsed m)"
  unfolding member_of_def by (cases "object_find key dict") (auto split: prod.splits)

lemma case_int_Parsed:
  "(case v of JInt c \<Rightarrow> f c | _ \<Rightarrow> Throws e) = Parsed m \<longleftrightarrow> (\<exists>c. v = JInt c \<and> f c = Parsed m)"
  by (cases v) simp_all

lemma if_Parsed: "(if b then Throws e else x) = Parsed m \<longleftrightarrow> \<not> b \<and> x = Parsed m"
  by simp

lemma map_JInt_eq [simp]: "map JInt xs = map JInt ys \<longleftrightarrow> xs = ys"
  by (simp add: inj_map_eq_map inj_def)

lemmas parsed_iffs = if_Parsed pbind_Parsed find_Parsed case_int_Parsed root_object_Parsed id_list_Parsed

text \<open>What the four members of a management request must be.\<close>

definition has_ids :: "(string \<times> json) list \<Rightarrow> int list \<Rightarrow> int list \<Rightarrow> int list \<Rightarrow> bool" where
  "has_ids dict ps is ss \<longleftrightarrow>
     member_of dict ''providerIds'' = Some (JArray (map JInt ps))
     \<and> member_of dict ''interfaceIds'' = Some (JArray (map JInt is))
     \<and> member_of dict ''serviceDefinitionIds'' = Some (JArray (map JInt ss))"

lemma intra_parse_accepts:
  "intra_parse s = Parsed m \<longleftrightarrow>
    (\<exists>dict c ps is ss. parser_parse STANDARD (cstr s) = Done (JObject dict) []
       \<and> member_of dict ''consumerId'' = Some (JInt c) \<and> has_ids dict ps is ss
       \<and> m = \<lparr>ic_consumerId = word_of_int c, ic_providerIds = map word_of_int ps,
              ic_interfaceIds = map word_of_int is, ic_serviceDefIds = map word_of_int ss\<rparr>)"
  unfolding intra_parse_def parsed_iffs has_ids_def by blast

lemma inter_parse_accepts:
  "inter_parse s = Parsed m \<longleftrightarrow>
    (\<exists>dict c ps is ss. parser_parse STANDARD (cstr s) = Done (JObject dict) []
       \<and> member_of dict ''cloudId'' = Some (JInt c) \<and> 0 \<le> c \<and> has_ids dict ps is ss
       \<and> m = \<lparr>xc_cloudId = c, xc_providerIds = ps, xc_interfaceIds = is, xc_serviceDefIds = ss\<rparr>)"
  unfolding inter_parse_def parsed_iffs has_ids_def by (auto simp: not_less)

text \<open>The two shapes of request that the validation lets through.\<close>

lemma intra_validate_ok:
  "intra_validate m = None \<longleftrightarrow>
    (length (ic_serviceDefIds m) = 1 \<and> ic_providerIds m \<noteq> [] \<and> ic_interfaceIds m \<noteq> [])
    \<or> (1 < length (ic_serviceDefIds m) \<and> length (ic_providerIds m) = 1 \<and> length (ic_interfaceIds m) = 1)"
  by (auto simp: intra_validate_def)

lemma inter_validate_ok:
  "inter_validate m = None \<longleftrightarrow>
    (length (xc_serviceDefIds m) = 1 \<and> xc_providerIds m \<noteq> [] \<and> xc_interfaceIds m \<noteq> [])
    \<or> (1 < length (xc_serviceDefIds m) \<and> length (xc_providerIds m) = 1 \<and> length (xc_interfaceIds m) = 1)"
  by (auto simp: inter_validate_def)

section \<open>Requests with undefined behaviour\<close>

definition of_kind :: "(json \<Rightarrow> bool) \<Rightarrow> (string \<times> json) list \<Rightarrow> string \<Rightarrow> bool" where
  "of_kind p obj key \<longleftrightarrow> (case member_of obj key of None \<Rightarrow> True | Some v \<Rightarrow> p v)"

lemma string_member_cases:
  assumes "of_kind is_string obj key"
  shows "string_member key obj = (case member_of obj key of Some (JString s) \<Rightarrow> Parsed s | _ \<Rightarrow> Undef)"
  using assms unfolding of_kind_def string_member_def sub_member_def member_of_def
  by (cases "object_find key obj") (auto split: json.splits)

lemma string_member_kind:
  assumes "of_kind is_string obj key"
  shows "string_member key obj = Undef \<and> member_of obj key = None \<or> (\<exists>s. string_member key obj = Parsed s)"
  using assms string_member_cases [OF assms] unfolding of_kind_def
  by (cases "member_of obj key") (auto split: json.splits)

lemma string_member_missing: "member_of obj key = None \<Longrightarrow> string_member key obj = Undef"
  by (simp add: string_member_def sub_member_def member_of_def)

text \<open>A check request whose consumer lacks one of its members, the others being of the right type.\<close>

lemma intra_check_missing:
  assumes "parser_parse STANDARD (cstr s) = Done (JObject dict) []"
    "member_of dict ''serviceDefinitionId'' = Some (JInt n)" "member_of dict ''consumer'' = Some (JObject obj)"
    "\<And>k. k \<in> {''address'', ''authenticationInfo'', ''systemName''} \<Longrightarrow> of_kind is_string obj k"
    "of_kind is_int obj ''port''"
    "\<exists>k \<in> {''address'', ''authenticationInfo'', ''systemName'', ''port''}. member_of obj k = None"
  shows "intra_check_parse s = Undef"
proof -
  have r: "root_object ''Wrong json format.'' s = Parsed dict" using assms(1) by (simp add: root_object_Parsed)
  have d: "service_definition_id dict = Parsed n" "object_member_of ''consumer'' dict = Parsed obj"
    using assms(2,3) by (auto simp: service_definition_id_def object_member_of_def member_of_def int_element_def)
  have port: "pbind (sub_member ''port'' obj) (int_element e) = Undef \<and> member_of obj ''port'' = None
      \<or> (\<exists>v. pbind (sub_member ''port'' obj) (int_element e) = Parsed v \<and> member_of obj ''port'' \<noteq> None)" for e
    using assms(5) unfolding of_kind_def sub_member_def member_of_def
    by (cases "object_find ''port'' obj") (auto simp: int_element_def split: json.splits)
  show ?thesis
    using string_member_kind [of obj "''address''"] string_member_kind [of obj "''authenticationInfo''"]
      string_member_kind [of obj "''systemName''"] port [of "wrong_type ''port''"] assms(4,6)
      string_member_missing [of obj]
    by (auto simp: intra_check_parse_def r d pbind_Undef)
qed

end
