(* ===== verification/AuthQueries.thy ===== *)
theory AuthQueries
  imports Database AuthModels Query
begin

text \<open>
  The statements of the authorization service, \<open>core/apps/Authorization/queries\<close>: management of the
  intra-cloud and inter-cloud rules (\<open>IntraCloud.h\<close>, \<open>InterCloud.h\<close>) and the checks against them
  (\<open>IntraCloudCheck.h\<close>, \<open>InterCloudCheck.h\<close>). The texts are those of the source, with the line
  breaks and the indentation of its raw strings, in the build without \<open>std::format\<close>.
\<close>

section \<open>Texts\<close>

definition sp :: "nat \<Rightarrow> string" where
  "sp n = replicate n (CHR '' '')"

definition sql :: "string list \<Rightarrow> string" where
  "sql = join [LF]"

text \<open>\<open>q[q.length()-1] = ')'\<close>\<close>

definition close_last :: "string \<Rightarrow> string" where
  "close_last q = butlast q @ '')''"

definition comma_list :: "string list \<Rightarrow> string" where
  "comma_list ts = concat (map (\<lambda>t. t @ '','') ts)"

text \<open>\<open>std::to_string(long)\<close> of an identifier that the database generated.\<close>

definition slong_str :: "slong \<Rightarrow> string" where
  "slong_str w = int_str (sint w)"

text \<open>
  Identifiers of systems, interfaces and services are \<open>unsigned long\<close> inside a cloud and \<open>long\<close>
  between clouds; a generated identifier is stored in a \<open>long\<close> that is not initialised before.
\<close>

text \<open>
  The body of the two loops of \<open>insRecord\<close>: a record, then a connection for each interface.
\<close>

definition insert_rule ::
  "slong \<Rightarrow> 'd Database \<Rightarrow> string \<Rightarrow> (slong \<Rightarrow> 'i \<Rightarrow> string) \<Rightarrow> 'i list \<Rightarrow> (failure, slong, 'd) db_op" where
  "insert_rule uninit db q iq ifaces =
     db_bind (db_insert db q uninit) (\<lambda>(ok, ident).
       if ok then
         db_bind (db_each (\<lambda>iface.
           db_bind (db_insert db (iq ident iface) uninit) (\<lambda>(ok, iid).
             if ok then db_ret () else db_throw (Runtime ''Cannot insert interface.''))) ifaces)
           (\<lambda>_. db_ret ident)
       else db_throw (Runtime ''Cannot insert record.''))"


section \<open>Intra-cloud rules\<close>

definition intra_getRecords_id :: "ulong \<Rightarrow> 'd Database \<Rightarrow> (failure, Row list, 'd) db_op" where
  "intra_getRecords_id ident db = db_fetch db (sql
     [''SELECT t2.id, t2.created_at, t2.updated_at,'',
      sp 51 @ ''t2.consumer_system_id, c1.system_name, c1.address, c1.port, c1.authentication_info, c1.created_at, c1.updated_at,'',
      sp 51 @ ''t2.provider_system_id, p1.system_name, p1.address, p1.port, p1.authentication_info, p1.created_at, p1.updated_at,'',
      sp 51 @ ''t2.service_id, s1.service_definition, s1.created_at, s1.updated_at,'',
      sp 51 @ ''t1.interface_id, s2.interface_name, s2.created_at, s2.updated_at'',
      [],
      sp 44 @ ''FROM authorization_intra_cloud_interface_connection t1'',
      sp 44 @ ''INNER JOIN authorization_intra_cloud t2 ON (t1.authorization_intra_cloud_id = t2.id)'',
      [],
      sp 44 @ ''INNER JOIN system_ c1 ON (c1.id = t2.consumer_system_id)'',
      sp 44 @ ''INNER JOIN system_ p1 ON (p1.id = t2.provider_system_id)'',
      sp 44 @ ''INNER JOIN service_definition s1 ON (s1.id = t2.service_id)'',
      sp 44 @ ''INNER JOIN service_interface s2 ON (s2.id = t1.interface_id)'',
      [],
      sp 44 @ ''WHERE t2.id = ''] @ ulong_str ident)"

text \<open>The counter is not initialised; it keeps its value when the query yields none.\<close>

definition intra_getRecords_count :: "int \<Rightarrow> 'd Database \<Rightarrow> (failure, int, 'd) db_op" where
  "intra_getRecords_count uninit db =
     db_bind (db_fetch_long db (sql
     [''SELECT COUNT(*)'',
      sp 38 @ ''FROM authorization_intra_cloud t2'',
      sp 38 @ ''INNER JOIN system_ c1 ON (c1.id = t2.consumer_system_id)'',
      sp 38 @ ''INNER JOIN system_ p1 ON (p1.id = t2.provider_system_id)'',
      sp 38 @ ''INNER JOIN service_definition s1 ON (s1.id = t2.service_id)'']) uninit)
       (\<lambda>(_, count). db_ret count)"

definition intra_getRecords_ids :: "slong list \<Rightarrow> 'd Database \<Rightarrow> (failure, Row list, 'd) db_op" where
  "intra_getRecords_ids ids db =
     db_fetch db (close_last (sql
     [''SELECT t2.id, t2.created_at, t2.updated_at,'',
      sp 45 @ ''t2.consumer_system_id, c1.system_name, c1.address, c1.port, c1.authentication_info, c1.created_at, c1.updated_at,'',
      sp 45 @ ''t2.provider_system_id, p1.system_name, p1.address, p1.port, p1.authentication_info, p1.created_at, p1.updated_at,'',
      sp 45 @ ''t2.service_id, s1.service_definition, s1.created_at, s1.updated_at,'',
      sp 45 @ ''t1.interface_id, s2.interface_name, s2.created_at, s2.updated_at'',
      [],
      sp 38 @ ''FROM authorization_intra_cloud_interface_connection t1'',
      sp 38 @ ''INNER JOIN authorization_intra_cloud t2 ON (t1.authorization_intra_cloud_id = t2.id)'',
      [],
      sp 38 @ ''INNER JOIN system_ c1 ON (c1.id = t2.consumer_system_id)'',
      sp 38 @ ''INNER JOIN system_ p1 ON (p1.id = t2.provider_system_id)'',
      sp 38 @ ''INNER JOIN service_definition s1 ON (s1.id = t2.service_id)'',
      sp 38 @ ''INNER JOIN service_interface s2 ON (s2.id = t1.interface_id)'',
      [],
      sp 38 @ ''WHERE t2.id IN ('']
     @ comma_list (map ulong_str ids)) @ '' ORDER BY t2.id'')"

definition intra_ordering :: "CoreQueryStr \<Rightarrow> string" where
  "intra_ordering qs =
     (if cq_sort_field qs = ''createdAt'' then '' ORDER BY tt2.created_at '' @ cq_direction qs @ '', tt2.id ASC'' else [])
     @ (if cq_sort_field qs = ''updatedAt'' then '' ORDER BY tt2.updated_at '' @ cq_direction qs @ '', tt2.id ASC''
        else if cq_direction qs = ''ASC'' then '' ORDER BY tt2.id ASC''
        else '' ORDER BY tt2.id DESC'')"

definition intra_getRecords_qs :: "CoreQueryStr \<Rightarrow> 'd Database \<Rightarrow> (failure, Row list, 'd) db_op" where
  "intra_getRecords_qs qs db =
     db_fetch db (sql
     [''SELECT t2.id, t2.created_at, t2.updated_at,'',
      sp 45 @ ''t2.consumer_system_id, c1.system_name, c1.address, c1.port, c1.authentication_info, c1.created_at, c1.updated_at,'',
      sp 45 @ ''t2.provider_system_id, p1.system_name, p1.address, p1.port, p1.authentication_info, p1.created_at, p1.updated_at,'',
      sp 45 @ ''t2.service_id, s1.service_definition, s1.created_at, s1.updated_at,'',
      sp 45 @ ''t1.interface_id, s2.interface_name, s2.created_at, s2.updated_at'',
      [],
      sp 38 @ ''FROM authorization_intra_cloud_interface_connection t1'',
      sp 38 @ ''INNER JOIN authorization_intra_cloud t2 ON (t1.authorization_intra_cloud_id = t2.id)'',
      [],
      sp 38 @ ''INNER JOIN system_ c1 ON (c1.id = t2.consumer_system_id)'',
      sp 38 @ ''INNER JOIN system_ p1 ON (p1.id = t2.provider_system_id)'',
      sp 38 @ ''INNER JOIN service_definition s1 ON (s1.id = t2.service_id)'',
      sp 38 @ ''INNER JOIN service_interface s2 ON (s2.id = t1.interface_id)'',
      [],
      sp 38 @ ''WHERE t2.id IN ('',
      sp 42 @ ''SELECT tt2.id'',
      sp 42 @ ''FROM authorization_intra_cloud tt2'']
     @ intra_ordering qs
     @ (if hasPage qs then '' LIMIT '' @ ulong_str (cq_item_per_page qs)
          @ '' OFFSET '' @ ulong_str (cq_page qs * cq_item_per_page qs) else [])
     @ '')''
     @ (if cq_sort_field qs = ''id''
        then (if cq_direction qs = ''ASC'' then '' ORDER BY t2.id ASC'' else '' ORDER BY t2.id DESC'')
        else []))"

definition intra_delRecord :: "ulong \<Rightarrow> 'd Database \<Rightarrow> (failure, bool, 'd) db_op" where
  "intra_delRecord ident db =
     db_bind (db_query_and_check db (''DELETE FROM authorization_intra_cloud WHERE id = '' @ ulong_str ident))
       (\<lambda>n. db_ret (n \<noteq> 0))"

definition intra_record_stmt :: "IntraCloud \<Rightarrow> ulong \<times> ulong \<Rightarrow> string" where
  "intra_record_stmt model ps =
     ''INSERT INTO authorization_intra_cloud (consumer_system_id, provider_system_id, service_id) VALUES (''
     @ ulong_str (ic_consumerId model) @ '','' @ ulong_str (fst ps) @ '','' @ ulong_str (snd ps) @ '')''"

definition intra_interface_stmt :: "slong \<Rightarrow> ulong \<Rightarrow> string" where
  "intra_interface_stmt ident iface =
     ''INSERT INTO authorization_intra_cloud_interface_connection (authorization_intra_cloud_id, interface_id) VALUES (''
     @ slong_str ident @ '','' @ ulong_str iface @ '')''"


definition intra_insert_one :: "slong \<Rightarrow> 'd Database \<Rightarrow> IntraCloud \<Rightarrow> ulong \<times> ulong \<Rightarrow> (failure, slong, 'd) db_op" where
  "intra_insert_one uninit db model ps =
     insert_rule uninit db (intra_record_stmt model ps) intra_interface_stmt (ic_interfaceIds model)"

definition intra_insert_body :: "slong \<Rightarrow> 'd Database \<Rightarrow> IntraCloud \<Rightarrow> (failure, slong list, 'd) db_op" where
  "intra_insert_body uninit db model =
     db_each (intra_insert_one uninit db model)
       [(provider, service). provider \<leftarrow> ic_providerIds model, service \<leftarrow> ic_serviceDefIds model]"

definition intra_insRecord :: "slong \<Rightarrow> 'd Database \<Rightarrow> IntraCloud \<Rightarrow> 'd \<Rightarrow> (failure, slong list) scope_result \<times> 'd" where
  "intra_insRecord uninit db model =
     transaction_scope (db_begin db) (db_commit db) (db_rollback db)
       (db_bind (intra_insert_body uninit db model) (\<lambda>ids. db_ret (True, ids)))"


section \<open>Inter-cloud rules\<close>

definition inter_getRecords_id :: "ulong \<Rightarrow> 'd Database \<Rightarrow> (failure, Row list, 'd) db_op" where
  "inter_getRecords_id ident db = db_fetch db (sql
     [''SELECT t2.id, t2.created_at, t2.updated_at,'',
      sp 51 @ ''t2.consumer_cloud_id, c1.name, c1.operator, c1.secure, c1.neighbor, c1.own_cloud, c1.authentication_info, c1.created_at, c1.updated_at,'',
      sp 51 @ ''t2.provider_system_id, p1.system_name, p1.address, p1.port, p1.authentication_info, p1.created_at, p1.updated_at,'',
      sp 51 @ ''t2.service_id, s1.service_definition, s1.created_at, s1.updated_at,'',
      sp 51 @ ''t1.interface_id, s2.interface_name, s2.created_at, s2.updated_at'',
      [],
      sp 44 @ ''FROM authorization_inter_cloud_interface_connection t1'',
      sp 44 @ ''INNER JOIN authorization_inter_cloud t2 ON (t1.authorization_inter_cloud_id = t2.id)'',
      [],
      sp 44 @ ''INNER JOIN cloud   c1 ON (c1.id = t2.consumer_cloud_id)'',
      sp 44 @ ''INNER JOIN system_ p1 ON (p1.id = t2.provider_system_id)'',
      sp 44 @ ''INNER JOIN service_definition s1 ON (s1.id = t2.service_id)'',
      sp 44 @ ''INNER JOIN service_interface s2 ON (s2.id = t1.interface_id)'',
      [],
      sp 44 @ ''WHERE t2.id = ''] @ ulong_str ident)"

definition inter_getRecords_count :: "int \<Rightarrow> 'd Database \<Rightarrow> (failure, int, 'd) db_op" where
  "inter_getRecords_count uninit db =
     db_bind (db_fetch_long db (sql
     [''SELECT COUNT(*)'',
      sp 38 @ ''FROM authorization_inter_cloud t2'',
      sp 38 @ ''INNER JOIN cloud   c1 ON (c1.id = t2.consumer_cloud_id)'',
      sp 38 @ ''INNER JOIN system_ p1 ON (p1.id = t2.provider_system_id)'',
      sp 38 @ ''INNER JOIN service_definition s1 ON (s1.id = t2.service_id)'']) uninit)
       (\<lambda>(_, count). db_ret count)"

definition inter_getRecords_ids :: "slong list \<Rightarrow> 'd Database \<Rightarrow> (failure, Row list, 'd) db_op" where
  "inter_getRecords_ids ids db =
     db_fetch db (close_last (sql
     [''SELECT t2.id, t2.created_at, t2.updated_at,'',
      sp 45 @ ''t2.consumer_cloud_id, c1.name, c1.operator, c1.secure, c1.neighbor, c1.own_cloud, c1.authentication_info, c1.created_at, c1.updated_at,'',
      sp 45 @ ''t2.provider_system_id, p1.system_name, p1.address, p1.port, p1.authentication_info, p1.created_at, p1.updated_at,'',
      sp 45 @ ''t2.service_id, s1.service_definition, s1.created_at, s1.updated_at,'',
      sp 45 @ ''t1.interface_id, s2.interface_name, s2.created_at, s2.updated_at'',
      [],
      sp 38 @ ''FROM authorization_inter_cloud_interface_connection t1'',
      sp 38 @ ''INNER JOIN authorization_inter_cloud t2 ON (t1.authorization_inter_cloud_id = t2.id)'',
      [],
      sp 38 @ ''INNER JOIN cloud   c1 ON (c1.id = t2.consumer_cloud_id)'',
      sp 38 @ ''INNER JOIN system_ p1 ON (p1.id = t2.provider_system_id)'',
      sp 38 @ ''INNER JOIN service_definition s1 ON (s1.id = t2.service_id)'',
      sp 38 @ ''INNER JOIN service_interface s2 ON (s2.id = t1.interface_id)'',
      [],
      sp 38 @ ''WHERE t2.id IN ('']
     @ comma_list (map slong_str ids)) @ '' ORDER BY t2.id'')"

definition inter_ordering :: "CoreQueryStr \<Rightarrow> string" where
  "inter_ordering qs =
     (if cq_sort_field qs = ''createdAt'' then '' ORDER BY tt2.created_at '' @ cq_direction qs @ '', tt2.id ASC'' else [])
     @ (if cq_sort_field qs = ''updatedAt'' then '' ORDER BY tt2.updated_at '' @ cq_direction qs @ '', tt2.id ASC''
        else if cq_direction qs = ''ASC'' then '' ORDER BY tt2.id ASC''
        else '' ORDER BY tt2.id DESC'')"

definition inter_getRecords_qs :: "CoreQueryStr \<Rightarrow> 'd Database \<Rightarrow> (failure, Row list, 'd) db_op" where
  "inter_getRecords_qs qs db =
     db_fetch db (sql
     [''SELECT t2.id, t2.created_at, t2.updated_at,'',
      sp 45 @ ''t2.consumer_cloud_id, c1.name, c1.operator, c1.secure, c1.neighbor, c1.own_cloud, c1.authentication_info, c1.created_at, c1.updated_at,'',
      sp 45 @ ''t2.provider_system_id, p1.system_name, p1.address, p1.port, p1.authentication_info, p1.created_at, p1.updated_at,'',
      sp 45 @ ''t2.service_id, s1.service_definition, s1.created_at, s1.updated_at,'',
      sp 45 @ ''t1.interface_id, s2.interface_name, s2.created_at, s2.updated_at'',
      [],
      sp 38 @ ''FROM authorization_inter_cloud_interface_connection t1'',
      sp 38 @ ''INNER JOIN authorization_inter_cloud t2 ON (t1.authorization_inter_cloud_id = t2.id)'',
      [],
      sp 38 @ ''INNER JOIN cloud   c1 ON (c1.id = t2.consumer_cloud_id)'',
      sp 38 @ ''INNER JOIN system_ p1 ON (p1.id = t2.provider_system_id)'',
      sp 38 @ ''INNER JOIN service_definition s1 ON (s1.id = t2.service_id)'',
      sp 38 @ ''INNER JOIN service_interface s2 ON (s2.id = t1.interface_id)'',
      [],
      sp 38 @ ''WHERE t2.id IN ('',
      sp 42 @ ''SELECT tt2.id'',
      sp 42 @ ''FROM authorization_inter_cloud tt2'']
     @ inter_ordering qs
     @ (if hasPage qs then '' LIMIT '' @ ulong_str (cq_item_per_page qs)
          @ '' OFFSET '' @ ulong_str (cq_page qs * cq_item_per_page qs) else [])
     @ '')''
     @ (if cq_sort_field qs = ''id''
        then (if cq_direction qs = ''ASC'' then '' ORDER BY t2.id ASC'' else '' ORDER BY t2.id DESC'')
        else []))"

definition inter_delRecord :: "ulong \<Rightarrow> 'd Database \<Rightarrow> (failure, bool, 'd) db_op" where
  "inter_delRecord ident db =
     db_bind (db_query_and_check db (''DELETE FROM authorization_inter_cloud WHERE id = '' @ ulong_str ident))
       (\<lambda>n. db_ret (n \<noteq> 0))"

definition inter_record_stmt :: "InterCloud \<Rightarrow> int \<times> int \<Rightarrow> string" where
  "inter_record_stmt model ps =
     ''INSERT INTO authorization_inter_cloud (consumer_cloud_id, provider_system_id, service_id) VALUES (''
     @ int_str (xc_cloudId model) @ '','' @ int_str (fst ps) @ '','' @ int_str (snd ps) @ '')''"

definition inter_interface_stmt :: "slong \<Rightarrow> int \<Rightarrow> string" where
  "inter_interface_stmt ident iface =
     ''INSERT INTO authorization_inter_cloud_interface_connection (authorization_inter_cloud_id, interface_id) VALUES (''
     @ slong_str ident @ '','' @ int_str iface @ '')''"


definition inter_insert_one :: "slong \<Rightarrow> 'd Database \<Rightarrow> InterCloud \<Rightarrow> int \<times> int \<Rightarrow> (failure, slong, 'd) db_op" where
  "inter_insert_one uninit db model ps =
     insert_rule uninit db (inter_record_stmt model ps) inter_interface_stmt (xc_interfaceIds model)"

definition inter_insert_body :: "slong \<Rightarrow> 'd Database \<Rightarrow> InterCloud \<Rightarrow> (failure, slong list, 'd) db_op" where
  "inter_insert_body uninit db model =
     db_each (inter_insert_one uninit db model)
       [(provider, service). provider \<leftarrow> xc_providerIds model, service \<leftarrow> xc_serviceDefIds model]"

definition inter_insRecord :: "slong \<Rightarrow> 'd Database \<Rightarrow> InterCloud \<Rightarrow> 'd \<Rightarrow> (failure, slong list) scope_result \<times> 'd" where
  "inter_insRecord uninit db model =
     transaction_scope (db_begin db) (db_commit db) (db_rollback db)
       (db_bind (inter_insert_body uninit db model) (\<lambda>ids. db_ret (True, ids)))"


section \<open>Checks\<close>

fun provider_clauses :: "('p \<Rightarrow> string) \<Rightarrow> bool \<Rightarrow> ('p \<times> int list) list \<Rightarrow> string \<Rightarrow> string" where
  "provider_clauses str first [] q = q"
| "provider_clauses str first (x # xs) q =
     provider_clauses str False xs
       (close_last (q @ (if \<not> first then '' OR '' else [])
          @ '' (p1.id = '' @ str (fst x) @ '' AND t1.interface_id IN (''
          @ comma_list (map int_str (snd x))) @ '')'')"

definition intra_check_query :: "'d Database \<Rightarrow> IntraCloudCheck \<Rightarrow> string" where
  "intra_check_query db model =
     provider_clauses ulong_str True (icc_providers model)
       (sql
       [''SELECT c1.id, c1.address, c1.port, c1.system_name, c1.authentication_info, c1.created_at, c1.updated_at,'',
        sp 45 @ ''p1.id AS provider, t1.interface_id AS interface'',
        [],
        sp 38 @ ''FROM authorization_intra_cloud_interface_connection t1'',
        sp 38 @ ''INNER JOIN authorization_intra_cloud t2 ON (t1.authorization_intra_cloud_id = t2.id)'',
        sp 38 @ ''INNER JOIN system_ c1 ON (c1.id = t2.consumer_system_id)'',
        sp 38 @ ''INNER JOIN system_ p1 ON (p1.id = t2.provider_system_id)'',
        [],
        sp 38 @ ''WHERE'']
       @ '' t2.service_id = '' @ int_str (icc_serviceDefinitionId model)
       @ '' AND c1.port = '' @ int_str (icc_port model)
       @ '' AND c1.address = '' @ db_escape db (icc_address model)
       @ '' AND c1.system_name = '' @ db_escape db (icc_systemName model)
       @ '' AND c1.authentication_info = '' @ db_escape db (icc_authenticationInfo model)
       @ '' AND ( '')
     @ '' ) ORDER BY p1.id ASC, t1.id ASC''"

definition intra_checkRule :: "'d Database \<Rightarrow> IntraCloudCheck \<Rightarrow> (failure, Row list, 'd) db_op" where
  "intra_checkRule db model = db_fetch db (intra_check_query db model)"

definition inter_check_query :: "'d Database \<Rightarrow> InterCloudCheck \<Rightarrow> string" where
  "inter_check_query db model =
     (let q = sql
       [''SELECT t2.consumer_cloud_id, c1.name, c1.operator, c1.secure, c1.neighbor, c1.own_cloud, c1.authentication_info, c1.created_at, c1.updated_at,'',
        sp 45 @ ''p1.id AS provider, t1.interface_id AS interface'',
        [],
        sp 38 @ ''FROM authorization_inter_cloud_interface_connection t1'',
        sp 38 @ ''INNER JOIN authorization_inter_cloud t2 ON (t1.authorization_inter_cloud_id = t2.id)'',
        sp 38 @ ''INNER JOIN cloud   c1 ON (c1.id = t2.consumer_cloud_id)'',
        sp 38 @ ''INNER JOIN system_ p1 ON (p1.id = t2.provider_system_id)'',
        [],
        sp 38 @ ''INNER JOIN cloud_gatekeeper_relay gk ON (gk.cloud_id = t2.consumer_cloud_id)'',
        sp 38 @ ''INNER JOIN cloud_gateway_relay    gw ON (gw.cloud_id = t2.consumer_cloud_id)'',
        [],
        sp 38 @ ''WHERE'']
            @ '' t2.service_id = '' @ int_str (xcc_serviceDefinitionId model)
            @ '' AND c1.neighbor = '' @ (if xcc_neighbor model then ''1'' else ''0'')
            @ '' AND c1.secure = '' @ (if xcc_secure model then ''1'' else ''0'')
            @ '' AND c1.operator = '' @ db_escape db (xcc_op model)
            @ '' AND c1.name = '' @ db_escape db (xcc_name model)
            @ '' AND c1.authentication_info = '' @ db_escape db (xcc_authenticationInfo model);
          q = close_last (q @ '' AND (gk.relay_id IN ('' @ comma_list (map int_str (xcc_gatekeeperRelayIds model)));
          q = close_last (q @ '') AND (gw.relay_id IN ('' @ comma_list (map int_str (xcc_gatewayRelayIds model)));
          q = q @ '') AND ( ''
      in provider_clauses int_str True (xcc_providers model) q @ '' ) ORDER BY p1.id ASC, t1.id ASC'')"

definition inter_checkRule :: "'d Database \<Rightarrow> InterCloudCheck \<Rightarrow> (failure, Row list, 'd) db_op" where
  "inter_checkRule db model = db_fetch db (inter_check_query db model)"

section \<open>Inserting rules\<close>

text \<open>A sequence of inserts that all succeed, each generating an identifier.\<close>

fun inserted :: "'d Database \<Rightarrow> slong \<Rightarrow> string list \<Rightarrow> 'd \<Rightarrow> 'd \<Rightarrow> bool" where
  "inserted db u [] d d' \<longleftrightarrow> d' = d"
| "inserted db u (q # qs) d d' \<longleftrightarrow> (\<exists>i d1. db_insert db q u d = (Inr (True, i), d1) \<and> inserted db u qs d1 d')"

lemma inserted_append: "inserted db u (xs @ ys) d d' \<longleftrightarrow> (\<exists>d1. inserted db u xs d d1 \<and> inserted db u ys d1 d')"
  by (induction xs arbitrary: d) auto

text \<open>The statements for a list of records and the identifiers generated for them.\<close>

definition rule_statements :: "('k \<Rightarrow> string) \<Rightarrow> (slong \<Rightarrow> string list) \<Rightarrow> 'k list \<Rightarrow> slong list \<Rightarrow> string list" where
  "rule_statements stmt conn ks ids = concat (map2 (\<lambda>k ident. stmt k # conn ident) ks ids)"

text \<open>
  What the two kinds of rules share: a record is inserted with one statement, and then a statement
  for each of its interfaces, which refers to the record by its new identifier.
\<close>

locale rule_table =
  fixes insert_one :: "slong \<Rightarrow> 'd Database \<Rightarrow> 'm \<Rightarrow> 'k \<Rightarrow> (failure, slong, 'd) db_op"
    and stmt :: "'m \<Rightarrow> 'k \<Rightarrow> string" and conn :: "'m \<Rightarrow> slong \<Rightarrow> string list"
  assumes one_inserts: "insert_one u db m k d = (Inr ident, d') \<Longrightarrow>
      inserted db u [stmt m k] d (snd (db_insert db (stmt m k) u d))
      \<and> fst (db_insert db (stmt m k) u d) = Inr (True, ident)
      \<and> inserted db u (conn m ident) (snd (db_insert db (stmt m k) u d)) d'"
    and one_keeps: "(\<And>q v d. P (snd (db_insert db q v d)) \<longleftrightarrow> P d) \<Longrightarrow> P (snd (insert_one u db m k d)) \<longleftrightarrow> P d"
begin

lemma each_inserts:
  "db_each (insert_one u db m) ks d = (Inr ids, d') \<Longrightarrow>
    length ids = length ks \<and> inserted db u (rule_statements (stmt m) (conn m) ks ids) d d'"
proof (induction ks arbitrary: ids d)
  case Nil
  then show ?case by (simp add: db_ret_def rule_statements_def)
next
  case (Cons k ks)
  then obtain ident js d1 where i: "insert_one u db m k d = (Inr ident, d1)"
    "db_each (insert_one u db m) ks d1 = (Inr js, d')" "ids = ident # js"
    by (auto simp: db_bind_Inr db_ret_def)
  have "inserted db u (stmt m k # conn m ident) d d1" using one_inserts [OF i(1)] by auto
  then show ?case using Cons.IH [OF i(2)] i(3) by (auto simp: rule_statements_def inserted_append)
qed

lemma scope_atomic:
  assumes "isolates committed working db"
    "transaction_scope (db_begin db) (db_commit db) (db_rollback db)
       (db_bind (db_each (insert_one u db m) ks) (\<lambda>ids. db_ret (True, ids))) d = (r, d')"
  shows "committed d' = committed d
    \<or> (\<exists>ids d2. r = Returned ids \<and> length ids = length ks
         \<and> inserted db u (rule_statements (stmt m) (conn m) ks ids) (snd (db_begin db d)) d2 \<and> committed d' = working d2)"
proof -
  let ?body = "db_bind (db_each (insert_one u db m) ks) (\<lambda>ids. db_ret (True, ids))"
  have "committed (snd (db_each (insert_one u db m) ks x)) = committed x" for x
  proof (rule db_each_snd [where P = committed])
    fix k y
    show "committed (snd (insert_one u db m k y)) = committed y"
      using one_keeps [of "\<lambda>z. committed z = committed y" db u m k y] assms(1)
      by (simp add: isolates_def)
  qed
  then have "committed (snd (?body x)) = committed x" for x
    by (intro db_bind_snd) (simp_all add: db_ret_def)
  then have "transactional committed working (db_begin db) (db_commit db) (db_rollback db) ?body"
    using assms(1) unfolding transactional_def isolates_def by blast
  from transaction_atomic [OF this assms(2)] show ?thesis
  proof (elim disjE exE conjE)
    fix v
    assume v: "r = Returned v" "fst (?body (snd (db_begin db d))) = Inr (True, v)"
      "committed d' = working (snd (?body (snd (db_begin db d))))"
    then have "db_each (insert_one u db m) ks (snd (db_begin db d)) = (Inr v, snd (?body (snd (db_begin db d))))"
      by (auto simp: db_bind_def db_ret_def split: prod.splits sum.splits)
    then show ?thesis using each_inserts v by blast
  qed simp
qed

end

lemma interfaces_inserted:
  "db_each (\<lambda>iface. db_bind (db_insert db (g iface) u) (\<lambda>(ok, iid).
      if ok then db_ret () else db_throw e)) js d = (Inr us, d') \<Longrightarrow> inserted db u (map g js) d d'"
proof (induction js arbitrary: us d)
  case Nil
  then show ?case by (simp add: db_ret_def)
next
  case (Cons j js)
  then show ?case
    by (auto simp: db_bind_Inr db_ret_def db_throw_def split: prod.splits if_splits)
qed

lemma insert_rule_inserts:
  assumes "insert_rule u db q iq js d = (Inr ident, d')"
  shows "\<exists>d1. db_insert db q u d = (Inr (True, ident), d1) \<and> inserted db u (map (iq ident) js) d1 d'"
  using assms interfaces_inserted
  by (fastforce simp: insert_rule_def db_bind_Inr db_ret_def db_throw_def split: prod.splits if_splits)

lemma insert_rule_keeps:
  assumes p: "\<And>q v d. P (snd (db_insert db q v d)) = P d"
  shows "P (snd (insert_rule u db q iq js d)) = P d"
proof -
  have "P (snd (db_each (\<lambda>j. db_bind (db_insert db (iq ident j) u) (\<lambda>(ok, iid).
      if ok then db_ret () else db_throw (Runtime e))) js d)) = P d" for ident e d
    using p by (intro db_each_snd db_bind_snd) (auto simp: db_ret_def db_throw_def split: prod.splits)
  then show ?thesis
    unfolding insert_rule_def using p
    by (intro db_bind_snd) (auto simp: db_ret_def db_throw_def db_bind_snd split: prod.splits)
qed

interpretation intra_rules: rule_table intra_insert_one intra_record_stmt
  "\<lambda>m ident. map (intra_interface_stmt ident) (ic_interfaceIds m)"
  by unfold_locales (fastforce dest: insert_rule_inserts simp: intra_insert_one_def,
      simp add: intra_insert_one_def insert_rule_keeps)

interpretation inter_rules: rule_table inter_insert_one inter_record_stmt
  "\<lambda>m ident. map (inter_interface_stmt ident) (xc_interfaceIds m)"
  by unfold_locales (fastforce dest: insert_rule_inserts simp: inter_insert_one_def,
      simp add: inter_insert_one_def insert_rule_keeps)

lemma intra_insRecord_atomic:
  assumes "isolates committed working db" "intra_insRecord u db model d = (r, d')"
  shows "committed d' = committed d
    \<or> (\<exists>ids d2. r = Returned ids \<and> length ids = length (ic_providerIds model) * length (ic_serviceDefIds model)
         \<and> inserted db u (rule_statements (intra_record_stmt model)
             (\<lambda>ident. map (intra_interface_stmt ident) (ic_interfaceIds model))
             (List.product (ic_providerIds model) (ic_serviceDefIds model)) ids) (snd (db_begin db d)) d2
         \<and> committed d' = working d2)"
  using intra_rules.scope_atomic [OF assms(1), of u model "List.product (ic_providerIds model) (ic_serviceDefIds model)" d r d']
    assms(2) by (simp add: intra_insRecord_def intra_insert_body_def product_concat_map [symmetric])

lemma inter_insRecord_atomic:
  assumes "isolates committed working db" "inter_insRecord u db model d = (r, d')"
  shows "committed d' = committed d
    \<or> (\<exists>ids d2. r = Returned ids \<and> length ids = length (xc_providerIds model) * length (xc_serviceDefIds model)
         \<and> inserted db u (rule_statements (inter_record_stmt model)
             (\<lambda>ident. map (inter_interface_stmt ident) (xc_interfaceIds model))
             (List.product (xc_providerIds model) (xc_serviceDefIds model)) ids) (snd (db_begin db d)) d2
         \<and> committed d' = working d2)"
  using inter_rules.scope_atomic [OF assms(1), of u model "List.product (xc_providerIds model) (xc_serviceDefIds model)" d r d']
    assms(2) by (simp add: inter_insRecord_def inter_insert_body_def product_concat_map [symmetric])

section \<open>The clauses of a check\<close>

definition provider_clause :: "('p \<Rightarrow> string) \<Rightarrow> 'p \<times> int list \<Rightarrow> string" where
  "provider_clause str x =
     '' (p1.id = '' @ str (fst x) @ '' AND t1.interface_id IN ('' @ join '','' (map int_str (snd x)) @ ''))''"

lemma comma_list_close: "ts \<noteq> [] \<Longrightarrow> close_last (q @ comma_list ts) = q @ join '','' ts @ '')''"
  using concat_commas [of ts "\<lambda>t. t"] by (simp add: close_last_def comma_list_def butlast_append)

lemma clauses_rest:
  assumes "\<And>x. x \<in> set xs \<Longrightarrow> snd x \<noteq> []"
  shows "provider_clauses str False xs q = q @ concat (map (\<lambda>x. '' OR '' @ provider_clause str x) xs)"
  using assms
proof (induction xs arbitrary: q)
  case (Cons x xs)
  then show ?case
    using comma_list_close [of "map int_str (snd x)" "q @ '' OR  (p1.id = '' @ str (fst x) @ '' AND t1.interface_id IN (''"]
    by (simp add: provider_clause_def)
qed simp

text \<open>With a non-empty list of interfaces for every provider, the clauses are a disjunction.\<close>

lemma provider_clauses_text:
  assumes "\<And>x. x \<in> set xs \<Longrightarrow> snd x \<noteq> []"
  shows "provider_clauses str True xs q = q @ join '' OR '' (map (provider_clause str) xs)"
proof (cases xs)
  case (Cons x ys)
  have "join sep (a # as) = a @ concat (map (\<lambda>t. sep @ t) as)" for sep a as
    by (induction "as" arbitrary: a) simp_all
  then show ?thesis
    using Cons assms clauses_rest [of ys] comma_list_close [of "map int_str (snd x)" "q @ '' (p1.id = '' @ str (fst x) @ '' AND t1.interface_id IN (''"]
    by (simp add: provider_clause_def comp_def)
qed simp

text \<open>An empty list closes the parenthesis that was just opened: the statement is no SQL.\<close>

lemma empty_interface_list:
  "provider_clauses str True [(p, [])] q = q @ '' (p1.id = '' @ str p @ '' AND t1.interface_id IN ))''"
  by (simp add: close_last_def comma_list_def butlast_append)

text \<open>Sorting by creation time asks for two orders at once.\<close>

lemma created_at_two_orders:
  "cq_sort_field qs = ''createdAt'' \<Longrightarrow> cq_direction qs = ''ASC'' \<Longrightarrow>
    intra_ordering qs = '' ORDER BY tt2.created_at ASC, tt2.id ASC ORDER BY tt2.id ASC''"
  by (simp add: intra_ordering_def)

end
