(* ===== verification/Endpoint.thy ===== *)
theory Endpoint
  imports Database Response
begin

text \<open>
  What the endpoints of the services share: the members of a response, and the run of an endpoint on
  a database. A run returns a value, raises an exception or ends the process, with the state of
  the database; \<open>None\<close> is undefined behaviour, or a loop that does not end. An answer is a run that
  returns a response.
\<close>

section \<open>Members of a response\<close>

definition field_of :: "string \<Rightarrow> field_type \<Rightarrow> Field" where
  "field_of key ty = \<lparr>fd_key = key, fd_type = ty, fd_nullable = False\<rparr>"

definition nullable_field :: "string \<Rightarrow> field_type \<Rightarrow> Field" where
  "nullable_field key ty = \<lparr>fd_key = key, fd_type = ty, fd_nullable = True\<rparr>"

section \<open>Runs\<close>

type_synonym ('a, 'd) action = "'d \<Rightarrow> ((failure, 'a) scope_result \<times> 'd) option"

definition act_ret :: "'a \<Rightarrow> ('a, 'd) action" where
  "act_ret v d = Some (Returned v, d)"

definition act_throw :: "failure \<Rightarrow> ('a, 'd) action" where
  "act_throw e d = Some (Raised e, d)"

definition act_undef :: "('a, 'd) action" where
  "act_undef d = None"

definition act_db :: "(failure, 'a, 'd) db_op \<Rightarrow> ('a, 'd) action" where
  "act_db x d = (case x d of (Inl e, d') \<Rightarrow> Some (Raised e, d') | (Inr v, d') \<Rightarrow> Some (Returned v, d'))"

definition act_bind :: "('a, 'd) action \<Rightarrow> ('a \<Rightarrow> ('b, 'd) action) \<Rightarrow> ('b, 'd) action" where
  "act_bind x f d =
     (case x d of
        None \<Rightarrow> None
      | Some (Returned v, d') \<Rightarrow> f v d'
      | Some (Raised e, d') \<Rightarrow> Some (Raised e, d')
      | Some (Terminated, d') \<Rightarrow> Some (Terminated, d'))"

text \<open>A value that the source would read through a null pointer is not there.\<close>

definition act_the :: "'a option \<Rightarrow> ('a, 'd) action" where
  "act_the x = (case x of None \<Rightarrow> act_undef | Some v \<Rightarrow> act_ret v)"

definition act_catch :: "(failure \<Rightarrow> ('a, 'd) action) \<Rightarrow> ('a, 'd) action \<Rightarrow> ('a, 'd) action" where
  "act_catch h x d =
     (case x d of Some (Raised e, d') \<Rightarrow> h e d' | y \<Rightarrow> y)"

lemma act_bind_ret [simp]: "act_bind (act_ret v) f = f v"
  by (rule ext) (simp add: act_bind_def act_ret_def)

lemma act_bind_undef [simp]: "act_bind act_undef f = act_undef"
  by (rule ext) (simp add: act_bind_def act_undef_def)

lemma act_bind_throw [simp]: "act_bind (act_throw e) f = act_throw e"
  by (rule ext) (simp add: act_bind_def act_throw_def)

lemma act_the_simps [simp]: "act_the (Some v) = act_ret v" "act_the None = act_undef"
  by (simp_all add: act_the_def)

section \<open>Answers\<close>

type_synonym 'd answer = "(Response, 'd) action"

definition answer_of :: "(failure, 'a, 'd) db_op \<Rightarrow> ('a \<Rightarrow> Response option) \<Rightarrow> 'd answer" where
  "answer_of x f d =
     (case x d of
        (Inl e, d') \<Rightarrow> Some (Raised e, d')
      | (Inr v, d') \<Rightarrow> map_option (\<lambda>r. (Returned r, d')) (f v))"

definition returns :: "Response \<Rightarrow> 'd answer" where
  "returns r d = Some (Returned r, d)"

text \<open>\<open>try { \<dots> } catch \<dots> { return r; }\<close>\<close>

definition catching :: "Response \<Rightarrow> 'd answer \<Rightarrow> 'd answer" where
  "catching r x d =
     (case x d of Some (Raised e, d') \<Rightarrow> Some (Returned r, d') | y \<Rightarrow> y)"

end
