(* ===== verification/AuthEndpoints.thy ===== *)
theory AuthEndpoints
  imports AuthQueries Endpoint
begin

text \<open>
  The endpoints of the authorization service, \<open>core/apps/Authorization/endpoints\<close>, with the members
  of their responses (\<open>responses\<close>). The laws relate the text of a response to the rows it was
  made from, as a reader of the JSON sees it.
\<close>

section \<open>Members of the responses\<close>

definition F_ID :: Field where "F_ID = field_of ''id'' LongField"
definition F_SystemName :: Field where "F_SystemName = field_of ''systemName'' StringField"
definition F_Address :: Field where "F_Address = field_of ''address'' StringField"
definition F_Port :: Field where "F_Port = field_of ''port'' LongField"
definition F_CreatedAt :: Field where "F_CreatedAt = field_of ''createdAt'' StringField"
definition F_UpdatedAt :: Field where "F_UpdatedAt = field_of ''updatedAt'' StringField"
definition F_ServiceDefinition :: Field where "F_ServiceDefinition = field_of ''serviceDefinition'' StringField"
definition F_InterfaceName :: Field where "F_InterfaceName = field_of ''interfaceName'' StringField"
definition F_Operator :: Field where "F_Operator = field_of ''operator'' StringField"
definition F_CloudName :: Field where "F_CloudName = field_of ''name'' StringField"
definition F_Secure :: Field where "F_Secure = field_of ''secure'' BoolField"
definition F_Neighbor :: Field where "F_Neighbor = field_of ''neighbor'' BoolField"
definition F_OwnCloud :: Field where "F_OwnCloud = field_of ''ownCloud'' BoolField"

definition F_AuthenticationInfo :: Field where
  "F_AuthenticationInfo = \<lparr>fd_key = ''authenticationInfo'', fd_type = StringField, fd_nullable = True\<rparr>"

lemmas field_defs = field_of_def F_ID_def F_SystemName_def F_Address_def F_Port_def F_CreatedAt_def
  F_UpdatedAt_def F_ServiceDefinition_def F_InterfaceName_def F_Operator_def F_CloudName_def F_Secure_def
  F_Neighbor_def F_OwnCloud_def F_AuthenticationInfo_def

text \<open>The lists of members that the endpoints ask for.\<close>

definition base_fields :: "Field list" where
  "base_fields = [F_ID, F_CreatedAt, F_UpdatedAt]"

definition system_fields :: "Field list" where
  "system_fields = [F_ID, F_SystemName, F_Address, F_Port, F_AuthenticationInfo, F_CreatedAt, F_UpdatedAt]"

definition cloud_fields :: "Field list" where
  "cloud_fields =
     [F_ID, F_CloudName, F_Operator, F_Secure, F_Neighbor, F_OwnCloud, F_AuthenticationInfo, F_CreatedAt, F_UpdatedAt]"

definition service_fields :: "Field list" where
  "service_fields = [F_ID, F_ServiceDefinition, F_CreatedAt, F_UpdatedAt]"

definition interface_fields :: "Field list" where
  "interface_fields = [F_ID, F_InterfaceName, F_CreatedAt, F_UpdatedAt]"

definition consumer_fields :: "Field list" where
  "consumer_fields = [F_ID, F_Address, F_Port, F_SystemName, F_AuthenticationInfo, F_CreatedAt, F_UpdatedAt]"

section \<open>Answers\<close>

definition bad_request :: "error_type \<Rightarrow> string \<Rightarrow> Response" where
  "bad_request et origin = error_from_stock BadRequest et ''Parameter error.'' origin"


section \<open>Management of the intra-cloud rules\<close>

text \<open>The members of a record that come from its first row.\<close>

definition intra_record_members :: "Row \<Rightarrow> ostream \<Rightarrow> ostream" where
  "intra_record_members r os =
     write_items_object ''serviceDefinition'' service_fields r 17
            (write_items_object ''providerSystem'' system_fields r 10
            (write_items_object ''consumerSystem'' system_fields r 3
            (write_items base_fields r 0 os)))"

definition intra_by_id_response :: "Row list \<Rightarrow> Response" where
  "intra_by_id_response rows =
     (case rows of
        [] \<Rightarrow> bad_request BAD_PAYLOAD ''/mgmt/intracloud''
      | row # _ \<Rightarrow>
          ok_Response (builder_str
            (for_each_row ''interfaces'' rows (\<lambda>r. write_items interface_fields r 21)
            (intra_record_members row new_JsonBuilder))))"

definition intra_getRecordById :: "ulong \<Rightarrow> 'd Database \<Rightarrow> 'd answer" where
  "intra_getRecordById ident db = answer_of (intra_getRecords_id ident db) (\<lambda>rows. Some (intra_by_id_response rows))"

text \<open>The function of the loop over all records; it is never called on an exhausted cursor.\<close>

definition intra_record :: cursor_fun where
  "intra_record rows os =
     (case rows of
        [] \<Rightarrow> (CONT, os, [])
      | r # _ \<Rightarrow>
          (let os = intra_record_members r os;
               ident = snd (get_long r 0)
           in take_while ''interfaces'' rows (\<lambda>rr. ident = snd (get_long rr 0))
                (\<lambda>rr. write_items interface_fields rr 21) os))"

definition intra_list_response :: "int \<Rightarrow> Row list \<Rightarrow> Response option" where
  "intra_list_response num rows =
     (if rows = [] then Some (bad_request BAD_PAYLOAD ''/mgmt/intracloud'')
      else map_option (\<lambda>os. ok_Response (builder_str os))
        (for_each_control ''data'' rows intra_record (write_int ''count'' num new_JsonBuilder)))"

definition intra_getRecordsByIds :: "slong list \<Rightarrow> 'd Database \<Rightarrow> 'd answer" where
  "intra_getRecordsByIds ids db =
     (if ids = [] then returns (ok_Response ''{}'')
      else answer_of (intra_getRecords_ids ids db) (intra_list_response (int (length ids))))"

definition intra_getRecordsByParams :: "int \<Rightarrow> CoreQueryStr \<Rightarrow> 'd Database \<Rightarrow> 'd answer" where
  "intra_getRecordsByParams uninit qs db =
     answer_of
       (db_bind (intra_getRecords_count uninit db) (\<lambda>num.
         db_bind (intra_getRecords_qs qs db) (\<lambda>rows. db_ret (num, rows))))
       (\<lambda>(num, rows). intra_list_response num rows)"

definition intra_delRecordById :: "ulong \<Rightarrow> 'd Database \<Rightarrow> 'd answer" where
  "intra_delRecordById ident db = answer_of (intra_delRecord ident db) (\<lambda>_. Some (from_stock OK))"

definition intra_postRecord :: "slong \<Rightarrow> IntraCloud \<Rightarrow> 'd Database \<Rightarrow> 'd answer" where
  "intra_postRecord uninit model db =
     catching (bad_request BAD_PAYLOAD ''/mgmt/intracloud'') (\<lambda>d.
       case intra_insRecord uninit db model d of
         (Returned ids, d') \<Rightarrow> intra_getRecordsByIds ids db d'
       | (Raised e, d') \<Rightarrow> Some (Raised e, d')
       | (Terminated, d') \<Rightarrow> Some (Terminated, d'))"

definition intra_handle :: "slong \<Rightarrow> 'd Database \<Rightarrow> Request \<Rightarrow> 'd answer" where
  "intra_handle uninit db req =
     (let bad = bad_request BAD_PAYLOAD ''/mgmt/intracloud'';
          otherwise = returns (bad_request UNAVAILABLE ''/mgmt/intracloud'')
      in if rq_method req = ''GET'' then
           (case uri_empty (rq_uri req) of
              None \<Rightarrow> (\<lambda>d. None)
            | Some True \<Rightarrow>
                (case new_CoreQueryStr (rq_uri req) [''id'', ''createdAt'', ''updatedAt''] of
                   None \<Rightarrow> (\<lambda>d. None)
                 | Some (error, qs) \<Rightarrow>
                     if error then returns bad
                     else if cq_isInvalid qs then returns bad
                     else intra_getRecordsByParams (sint uninit) qs db)
            | Some False \<Rightarrow>
                (case pathId (rq_uri req) 0 of
                   None \<Rightarrow> (\<lambda>d. None)
                 | Some (ok, ident) \<Rightarrow> if ok then intra_getRecordById ident db else otherwise))
         else if rq_method req = ''POST'' then
           (case intra_parse (rq_content req) of
              Parsed model \<Rightarrow>
                if intra_validate model = None then catching bad (intra_postRecord uninit model db) else returns bad
            | Throws _ \<Rightarrow> returns bad
            | Undef \<Rightarrow> (\<lambda>d. None))
         else if rq_method req = ''DELETE'' then
           (case pathId (rq_uri req) 0 of
              None \<Rightarrow> (\<lambda>d. None)
            | Some (ok, ident) \<Rightarrow> if ok then intra_delRecordById ident db else otherwise)
         else if rq_method req = ''OPTION'' then returns (options OK ''GET'')
         else otherwise)"


section \<open>Management of the inter-cloud rules\<close>

text \<open>The members of a record that come from its first row.\<close>

definition inter_record_members :: "Row \<Rightarrow> ostream \<Rightarrow> ostream" where
  "inter_record_members r os =
     write_items_object ''serviceDefinition'' service_fields r 19
            (write_items_object ''providerSystem'' system_fields r 12
            (write_items_object ''cloud'' cloud_fields r 3
            (write_items base_fields r 0 os)))"

definition inter_by_id_response :: "Row list \<Rightarrow> Response" where
  "inter_by_id_response rows =
     (case rows of
        [] \<Rightarrow> bad_request BAD_PAYLOAD ''/mgmt/intracloud''
      | row # _ \<Rightarrow>
          ok_Response (builder_str
            (for_each_row ''interfaces'' rows (\<lambda>r. write_items interface_fields r 23)
            (inter_record_members row new_JsonBuilder))))"

definition inter_getRecordById :: "ulong \<Rightarrow> 'd Database \<Rightarrow> 'd answer" where
  "inter_getRecordById ident db = answer_of (inter_getRecords_id ident db) (\<lambda>rows. Some (inter_by_id_response rows))"

text \<open>The function of the loop over all records; it is never called on an exhausted cursor.\<close>

definition inter_record :: cursor_fun where
  "inter_record rows os =
     (case rows of
        [] \<Rightarrow> (CONT, os, [])
      | r # _ \<Rightarrow>
          (let os = inter_record_members r os;
               ident = snd (get_long r 0)
           in take_while ''interfaces'' rows (\<lambda>rr. ident = snd (get_long rr 0))
                (\<lambda>rr. write_items interface_fields rr 23) os))"

definition inter_list_response :: "int \<Rightarrow> Row list \<Rightarrow> Response option" where
  "inter_list_response num rows =
     (if rows = [] then Some (bad_request BAD_PAYLOAD ''/mgmt/intracloud'')
      else map_option (\<lambda>os. ok_Response (builder_str os))
        (for_each_control ''data'' rows inter_record (write_int ''count'' num new_JsonBuilder)))"

definition inter_getRecordsByIds :: "slong list \<Rightarrow> 'd Database \<Rightarrow> 'd answer" where
  "inter_getRecordsByIds ids db =
     (if ids = [] then returns (ok_Response ''{}'')
      else answer_of (inter_getRecords_ids ids db) (inter_list_response (int (length ids))))"

definition inter_getRecordsByParams :: "int \<Rightarrow> CoreQueryStr \<Rightarrow> 'd Database \<Rightarrow> 'd answer" where
  "inter_getRecordsByParams uninit qs db =
     answer_of
       (db_bind (inter_getRecords_count uninit db) (\<lambda>num.
         db_bind (inter_getRecords_qs qs db) (\<lambda>rows. db_ret (num, rows))))
       (\<lambda>(num, rows). inter_list_response num rows)"

definition inter_delRecordById :: "ulong \<Rightarrow> 'd Database \<Rightarrow> 'd answer" where
  "inter_delRecordById ident db = answer_of (inter_delRecord ident db) (\<lambda>_. Some (from_stock OK))"

definition inter_postRecord :: "slong \<Rightarrow> InterCloud \<Rightarrow> 'd Database \<Rightarrow> 'd answer" where
  "inter_postRecord uninit model db =
     catching (bad_request BAD_PAYLOAD ''/mgmt/intracloud'') (\<lambda>d.
       case inter_insRecord uninit db model d of
         (Returned ids, d') \<Rightarrow> inter_getRecordsByIds ids db d'
       | (Raised e, d') \<Rightarrow> Some (Raised e, d')
       | (Terminated, d') \<Rightarrow> Some (Terminated, d'))"

definition inter_handle :: "slong \<Rightarrow> 'd Database \<Rightarrow> Request \<Rightarrow> 'd answer" where
  "inter_handle uninit db req =
     (let bad = bad_request BAD_PAYLOAD ''/mgmt/intercloud'';
          otherwise = returns (bad_request UNAVAILABLE ''/mgmt/intercloud'')
      in if rq_method req = ''GET'' then
           (case uri_empty (rq_uri req) of
              None \<Rightarrow> (\<lambda>d. None)
            | Some True \<Rightarrow>
                (case new_CoreQueryStr (rq_uri req) [''id'', ''createdAt'', ''updatedAt''] of
                   None \<Rightarrow> (\<lambda>d. None)
                 | Some (error, qs) \<Rightarrow>
                     if error then returns bad
                     else if cq_isInvalid qs then returns bad
                     else inter_getRecordsByParams (sint uninit) qs db)
            | Some False \<Rightarrow>
                (case pathId (rq_uri req) 0 of
                   None \<Rightarrow> (\<lambda>d. None)
                 | Some (ok, ident) \<Rightarrow> if ok then inter_getRecordById ident db else otherwise))
         else if rq_method req = ''POST'' then
           (case inter_parse (rq_content req) of
              Parsed model \<Rightarrow>
                if inter_validate model = None then catching bad (inter_postRecord uninit model db) else returns bad
            | Throws _ \<Rightarrow> returns bad
            | Undef \<Rightarrow> (\<lambda>d. None))
         else if rq_method req = ''DELETE'' then
           (case pathId (rq_uri req) 0 of
              None \<Rightarrow> (\<lambda>d. None)
            | Some (ok, ident) \<Rightarrow> if ok then inter_delRecordById ident db else otherwise)
         else if rq_method req = ''OPTION'' then returns (options OK ''GET'')
         else otherwise)"


section \<open>Checks inside the cloud\<close>

definition intra_check_group :: cursor_fun where
  "intra_check_group rows os =
     (case rows of
        [] \<Rightarrow> (CONT, os, [])
      | r # _ \<Rightarrow>
          (let ident = snd (get_long r 7)
           in take_while_raw ''idList'' rows (\<lambda>rr. ident = snd (get_long rr 7))
                (\<lambda>rr. os_put (int_str (snd (get_long rr 8)) @ '',''))
                (write_int ''id'' ident os)))"

definition intra_check_response :: "int \<Rightarrow> Row list \<Rightarrow> Response option" where
  "intra_check_response serviceDefinitionId rows =
     (case rows of
        [] \<Rightarrow> Some (ok_Response ''{}'')
      | row # _ \<Rightarrow>
          map_option (\<lambda>os. ok_Response (builder_str os))
            (for_each_control ''authorizedProviderIdsWithInterfaceIds'' rows intra_check_group
            (write_items_object ''consumer'' consumer_fields row 0
            (write_int ''serviceDefinitionId'' serviceDefinitionId new_JsonBuilder))))"

definition intra_check :: "IntraCloudCheck \<Rightarrow> 'd Database \<Rightarrow> 'd answer" where
  "intra_check model db =
     catching (bad_request BAD_PAYLOAD ''/mgmt/intracloud'')
       (answer_of (intra_checkRule db model) (intra_check_response (icc_serviceDefinitionId model)))"

text \<open>The models of the checks are always valid.\<close>

definition intra_check_handle :: "'d Database \<Rightarrow> Request \<Rightarrow> 'd answer" where
  "intra_check_handle db req =
     (case intra_check_parse (rq_content req) of
        Parsed model \<Rightarrow> catching (bad_request BAD_PAYLOAD ''/intracloud/check'') (intra_check model db)
      | Throws _ \<Rightarrow> returns (bad_request BAD_PAYLOAD ''/intracloud/check'')
      | Undef \<Rightarrow> (\<lambda>d. None))"


section \<open>Checks from another cloud\<close>

definition inter_check_group :: cursor_fun where
  "inter_check_group rows os =
     (case rows of
        [] \<Rightarrow> (CONT, os, [])
      | r # _ \<Rightarrow>
          (let ident = snd (get_long r 9)
           in take_while_raw ''idList'' rows (\<lambda>rr. ident = snd (get_long rr 9))
                (\<lambda>rr. os_put (int_str (snd (get_long rr 10)) @ '',''))
                (write_int ''id'' ident os)))"

definition inter_check_response :: "int \<Rightarrow> Row list \<Rightarrow> Response option" where
  "inter_check_response serviceDefinitionId rows =
     (case rows of
        [] \<Rightarrow> Some (ok_Response ''{}'')
      | row # _ \<Rightarrow>
          map_option (\<lambda>os. ok_Response (builder_str os))
            (for_each_control ''authorizedProviderIdsWithInterfaceIds'' rows inter_check_group
            (write_items_object ''cloud'' cloud_fields row 0
            (write_int ''serviceDefinitionId'' serviceDefinitionId new_JsonBuilder))))"

definition inter_check :: "InterCloudCheck \<Rightarrow> 'd Database \<Rightarrow> 'd answer" where
  "inter_check model db =
     catching (bad_request BAD_PAYLOAD ''/mgmt/intracloud'')
       (answer_of (inter_checkRule db model) (inter_check_response (xcc_serviceDefinitionId model)))"

text \<open>The models of the checks are always valid.\<close>

definition inter_check_handle :: "'d Database \<Rightarrow> Request \<Rightarrow> 'd answer" where
  "inter_check_handle db req =
     (case inter_check_parse (rq_content req) of
        Parsed model \<Rightarrow> catching (bad_request BAD_PAYLOAD ''/intercloud/check'') (inter_check model db)
      | Throws _ \<Rightarrow> returns (bad_request BAD_PAYLOAD ''/intercloud/check'')
      | Undef \<Rightarrow> (\<lambda>d. None))"


section \<open>Tokens\<close>

text \<open>The counter is shared by all the interfaces of a request.\<close>

fun put_tokens :: "nat \<Rightarrow> string list \<Rightarrow> ostream \<Rightarrow> nat \<times> ostream" where
  "put_tokens i [] os = (i, os)"
| "put_tokens i (data # xs) os =
     put_tokens (i + 1) xs
       (os_put '','' (os_put (key_text data @ DQUOTE # ''token'' @ nat_str i @ [DQUOTE]) os))"

definition write_tokens :: "string \<Rightarrow> nat \<Rightarrow> string list \<Rightarrow> ostream \<Rightarrow> nat \<times> ostream" where
  "write_tokens key i xs os =
     (let os = os_put (DQUOTE # key @ [DQUOTE] @ '': {'') os;
          (i, os) = (if xs \<noteq> [] then (let (i, os) = put_tokens i xs os in (i, seek_back os)) else (i, os))
      in (i, os_put ''},'' (seek_back os)))"

fun put_providers :: "nat \<Rightarrow> (TokenSystem \<times> string list) list \<Rightarrow> ostream \<Rightarrow> nat \<times> ostream" where
  "put_providers i [] os = (i, os)"
| "put_providers i (x # xs) os =
     (let os = os_put ''{'' os;
          os = write_int ''providerPort'' (ts_port (fst x))
              (write_string ''providerName'' (ts_systemName (fst x))
              (write_string ''providerAddress'' (ts_address (fst x)) os));
          (i, os) = write_tokens ''tokens'' i (snd x) os
      in put_providers i xs (os_put ''},'' (seek_back os)))"

definition generateTokens :: "TokenRule \<Rightarrow> Response" where
  "generateTokens model =
     (let os = open_array ''tokenData'' new_JsonBuilder;
          os = (if tr_providers model \<noteq> [] then seek_back (snd (put_providers 0 (tr_providers model) os)) else os)
      in ok_Response (builder_str (os_put ''],'' os)))"

definition token_handle :: "Request \<Rightarrow> 'd answer" where
  "token_handle req =
     (case token_parse (rq_content req) of
        Parsed model \<Rightarrow> returns (generateTokens model)
      | Throws _ \<Rightarrow> returns (bad_request BAD_PAYLOAD ''/token'')
      | Undef \<Rightarrow> (\<lambda>d. None))"

end
