(* ===== verification/AuthLaws.thy ===== *)
theory AuthLaws
  imports AuthEndpoints
begin

text \<open>
  Laws of the authorization service: the JSON values that a client reads in its responses, as
  functions of the rows, and the statements of its checks. Rows belong together when they are
  adjacent and agree in a column; the statements sort by that column.
\<close>

section \<open>The answer to a check\<close>

definition check_members :: "(Row \<Rightarrow> int) \<Rightarrow> (Row \<Rightarrow> int) \<Rightarrow> Row list \<Rightarrow> string list" where
  "check_members k g run =
     [field_text (''id'', JInt (k (hd run))), array_member ''idList'' (map (\<lambda>r. int_str (g r)) run)]"

definition check_json :: "(Row \<Rightarrow> int) \<Rightarrow> (Row \<Rightarrow> int) \<Rightarrow> Row list \<Rightarrow> json" where
  "check_json k g run =
     JObject [(''id'', JInt (k (hd run))), (''idList'', JArray (map (\<lambda>r. JInt (g r)) run))]"

lemma group_takes_run:
  assumes "\<And>r rs os. f (r # rs) os =
    take_while_raw ''idList'' (r # rs) (\<lambda>rr. k r = k rr) (\<lambda>rr. os_put (int_str (g rr) @ '',''))
      (write_int ''id'' (k r) os)"
  shows "takes_run k (check_members k g) f"
  unfolding takes_run_def
proof (intro allI impI)
  fix r rs os
  assume e: "at_end os"
  let ?p = "\<lambda>x. k x = k r"
  have p: "(\<lambda>rr. k r = k rr) = ?p" by auto
  have i: "write_int ''id'' (k r) os = appended os (field_text (''id'', JInt (k r)) @ '','')"
    using writesD [OF write_field_writes e, of "(''id'', JInt (k r))"] by simp
  have w: "writes (os_put (int_str (g x) @ '','')) (int_str (g x) @ '','')" for x
    by (simp add: writes_def)
  show "f (r # rs) os = (let rest = dropWhile ?p rs; run = r # takeWhile ?p rs
      in (if rest = [] then CONT else USE,
          appended os (concat (map (\<lambda>m. m @ '','') (check_members k g run))), rest))"
    unfolding assms p i Let_def
    using take_while_raw_run [of "\<lambda>rr. os_put (int_str (g rr) @ '','')" "\<lambda>rr. int_str (g rr)" _ ?p r "''idList''" rs, OF w]
    by (simp add: check_members_def del: dropWhile_eq_Nil_conv)
qed

lemma check_members_read:
  assumes "run \<noteq> []" "\<And>r. r \<in> set run \<Longrightarrow> plain_scalar (JInt (k r)) \<and> plain_scalar (JInt (g r))"
  shows "reads_text (''{'' @ join '','' (check_members k g run) @ ''}'') (check_json k g run)"
proof -
  have "list_all2 reads_text (map (\<lambda>r. int_str (g r)) run) (map (\<lambda>r. JInt (g r)) run)"
    using assms(2) reads_text_scalar [of "JInt (g _)"] by (auto simp: list_all2_map1 list_all2_map2 intro!: list.rel_refl_strong)
  then have "list_all2 reads_member (check_members k g run)
      [(''id'', JInt (k (hd run))), (''idList'', JArray (map (\<lambda>r. JInt (g r)) run))]"
    unfolding check_members_def using assms
    by (auto intro!: reads_field reads_array_member)
  then show ?thesis unfolding check_json_def by (rule reads_text_object)
qed

text \<open>The whole value, for the member that describes who asks.\<close>

definition check_answer :: "string \<Rightarrow> Field list \<Rightarrow> (Row \<Rightarrow> int) \<Rightarrow> (Row \<Rightarrow> int) \<Rightarrow> int \<Rightarrow> Row list \<Rightarrow> json" where
  "check_answer who fds k g sd rows =
     JObject [(''serviceDefinitionId'', JInt sd), (who, JObject (items_json fds (hd rows) 0)),
       (''authorizedProviderIdsWithInterfaceIds'', JArray (map (check_json k g) (runs k rows)))]"

lemma check_response_text:
  assumes "takes_run k (check_members k g) f" "rows \<noteq> []" "fds \<noteq> []" "key_ok who"
    "\<And>fd. fd \<in> set fds \<Longrightarrow> key_ok (fd_key fd)" "plain_items fds (hd rows) 0" "plain_scalar (JInt sd)"
    "\<And>r. r \<in> set rows \<Longrightarrow> plain_scalar (JInt (k r)) \<and> plain_scalar (JInt (g r))"
  shows "\<exists>os. for_each_control ''authorizedProviderIdsWithInterfaceIds'' rows f
        (write_items_object who fds (hd rows) 0 (write_int ''serviceDefinitionId'' sd new_JsonBuilder)) = Some os
      \<and> reads_text (builder_str os) (check_answer who fds k g sd rows)"
proof -
  let ?t = "\<lambda>run. ''{'' @ join '','' (check_members k g run) @ ''}''"
  let ?ms = "[field_text (''serviceDefinitionId'', JInt sd), object_member who (map field_text (items_json fds (hd rows) 0)),
    array_member ''authorizedProviderIdsWithInterfaceIds'' (map ?t (runs k rows))]"
  let ?e = "\<lparr>os_buf = [], os_pos = 0\<rparr>"
  let ?kvs = "[(''serviceDefinitionId'', JInt sd), (who, JObject (items_json fds (hd rows) 0)),
       (''authorizedProviderIdsWithInterfaceIds'', JArray (map (check_json k g) (runs k rows)))]"
  have b: "write_int ''serviceDefinitionId'' sd new_JsonBuilder =
      appended ?e (''{'' @ field_text (''serviceDefinitionId'', JInt sd) @ '','')"
    using writesD [OF write_field_writes, of new_JsonBuilder "(''serviceDefinitionId'', JInt sd)"]
    by (simp add: new_builder)
  have c: "for_each_control ''authorizedProviderIdsWithInterfaceIds'' rows f
      (write_items_object who fds (hd rows) 0 (write_int ''serviceDefinitionId'' sd new_JsonBuilder)) =
      Some (appended ?e (''{'' @ concat (map (\<lambda>m. m @ '','') ?ms)))"
    using writes_membersD [OF write_items_object_members [OF assms(3)]] for_each_control_runs [OF assms(1)] b
    by (simp add: check_members_def)
  have "builder_str (appended ?e (''{'' @ concat (map (\<lambda>m. m @ '','') ?ms))) = ''{'' @ join '','' ?ms @ ''}''"
    using put_over_comma [of ?ms "CHR ''}''" "[]" ?e "''{''"] by (simp add: builder_str_def)
  moreover have "reads_text (''{'' @ join '','' ?ms @ ''}'') (JObject ?kvs)"
  proof (rule reads_text_object)
    have "reads_text (?t run) (check_json k g run)" if "run \<in> set (runs k rows)" for run
    proof (rule check_members_read)
      show "run \<noteq> []" using run_same_key [OF that] by blast
      fix r
      assume "r \<in> set run"
      then have "r \<in> set rows" using that concat_runs [of k rows] by (metis UN_I set_concat)
      then show "plain_scalar (JInt (k r)) \<and> plain_scalar (JInt (g r))" by (rule assms(8))
    qed
    then have "list_all2 reads_text (map ?t (runs k rows)) (map (check_json k g) (runs k rows))"
      by (auto simp: list_all2_map1 list_all2_map2 intro!: list.rel_refl_strong)
    then show "list_all2 reads_member ?ms ?kvs"
      using assms(4-7) by (auto intro!: reads_field reads_array_member reads_object_member reads_items)
  qed
  ultimately show ?thesis using c by (auto simp: check_answer_def)
qed

lemma check_within: "plain_items fds (hd rows) 0 \<Longrightarrow> within max_depth (check_answer who fds k g sd rows)"
  using within_items [of fds "hd rows" 0] by (simp add: check_answer_def max_depth_def check_json_def)

lemma field_keys:
  "fd \<in> set (base_fields @ system_fields @ cloud_fields @ service_fields @ interface_fields @ consumer_fields) \<Longrightarrow>
    key_ok (fd_key fd)"
  by (auto simp: base_fields_def system_fields_def cloud_fields_def service_fields_def interface_fields_def
      consumer_fields_def field_defs)

lemma fields_nonempty [simp]:
  "base_fields \<noteq> []" "system_fields \<noteq> []" "cloud_fields \<noteq> []" "service_fields \<noteq> []" "interface_fields \<noteq> []"
  "consumer_fields \<noteq> []"
  by (simp_all add: base_fields_def system_fields_def cloud_fields_def service_fields_def interface_fields_def
      consumer_fields_def)

text \<open>The columns a check reads.\<close>

abbreviation long_at :: "nat \<Rightarrow> Row \<Rightarrow> int" where
  "long_at i r \<equiv> snd (get_long r i)"

definition plain_check :: "Field list \<Rightarrow> nat \<Rightarrow> nat \<Rightarrow> int \<Rightarrow> Row list \<Rightarrow> bool" where
  "plain_check fds kc gc sd rows \<longleftrightarrow>
     plain_items fds (hd rows) 0 \<and> plain_scalar (JInt sd)
     \<and> (\<forall>r \<in> set rows. plain_scalar (JInt (long_at kc r)) \<and> plain_scalar (JInt (long_at gc r)))"

lemma intra_check_text:
  assumes "rows \<noteq> []" "plain_check consumer_fields 7 8 sd rows"
  shows "\<exists>t. intra_check_response sd rows = Some (ok_Response t)
    \<and> reads_text t (check_answer ''consumer'' consumer_fields (long_at 7) (long_at 8) sd rows)"
proof -
  have "takes_run (long_at 7) (check_members (long_at 7) (long_at 8)) intra_check_group"
    by (rule group_takes_run) (simp add: intra_check_group_def Let_def)
  then have "\<exists>os. for_each_control ''authorizedProviderIdsWithInterfaceIds'' rows intra_check_group
        (write_items_object ''consumer'' consumer_fields (hd rows) 0 (write_int ''serviceDefinitionId'' sd new_JsonBuilder)) = Some os
      \<and> reads_text (builder_str os) (check_answer ''consumer'' consumer_fields (long_at 7) (long_at 8) sd rows)"
    using assms field_keys by (intro check_response_text) (auto simp: plain_check_def)
  then show ?thesis using assms(1) by (cases rows) (auto simp: intra_check_response_def)
qed

lemma inter_check_text:
  assumes "rows \<noteq> []" "plain_check cloud_fields 9 10 sd rows"
  shows "\<exists>t. inter_check_response sd rows = Some (ok_Response t)
    \<and> reads_text t (check_answer ''cloud'' cloud_fields (long_at 9) (long_at 10) sd rows)"
proof -
  have "takes_run (long_at 9) (check_members (long_at 9) (long_at 10)) inter_check_group"
    by (rule group_takes_run) (simp add: inter_check_group_def Let_def)
  then have "\<exists>os. for_each_control ''authorizedProviderIdsWithInterfaceIds'' rows inter_check_group
        (write_items_object ''cloud'' cloud_fields (hd rows) 0 (write_int ''serviceDefinitionId'' sd new_JsonBuilder)) = Some os
      \<and> reads_text (builder_str os) (check_answer ''cloud'' cloud_fields (long_at 9) (long_at 10) sd rows)"
    using assms field_keys by (intro check_response_text) (auto simp: plain_check_def)
  then show ?thesis using assms(1) by (cases rows) (auto simp: inter_check_response_def)
qed

section \<open>Records\<close>

text \<open>
  A record as a client reads it: members from the first of its rows, with the consumer under \<open>who\<close>,
  and one interface for every row. The columns of the provider, the service and the interface differ
  between the two kinds of rules.
\<close>

record Layout =
  ly_who :: string
  ly_fields :: "Field list"
  ly_provider :: nat
  ly_service :: nat
  ly_interface :: nat

definition intra_layout :: Layout where
  "intra_layout = \<lparr>ly_who = ''consumerSystem'', ly_fields = system_fields, ly_provider = 10, ly_service = 17, ly_interface = 21\<rparr>"

definition inter_layout :: Layout where
  "inter_layout = \<lparr>ly_who = ''cloud'', ly_fields = cloud_fields, ly_provider = 12, ly_service = 19, ly_interface = 23\<rparr>"

definition layout_ok :: "Layout \<Rightarrow> bool" where
  "layout_ok ly \<longleftrightarrow> key_ok (ly_who ly) \<and> ly_fields ly \<noteq> [] \<and> (\<forall>fd \<in> set (ly_fields ly). key_ok (fd_key fd))"

lemma layouts_ok [simp]: "layout_ok intra_layout" "layout_ok inter_layout"
  using field_keys by (auto simp: layout_ok_def intra_layout_def inter_layout_def)

definition header_json :: "Layout \<Rightarrow> Row \<Rightarrow> (string \<times> json) list" where
  "header_json ly r =
     items_json base_fields r 0
     @ [(ly_who ly, JObject (items_json (ly_fields ly) r 3)),
        (''providerSystem'', JObject (items_json system_fields r (ly_provider ly))),
        (''serviceDefinition'', JObject (items_json service_fields r (ly_service ly)))]"

definition record_json :: "Layout \<Rightarrow> Row list \<Rightarrow> (string \<times> json) list" where
  "record_json ly run =
     header_json ly (hd run)
     @ [(''interfaces'', JArray (map (\<lambda>r. JObject (items_json interface_fields r (ly_interface ly))) run))]"

definition header_text :: "Layout \<Rightarrow> Row \<Rightarrow> string list" where
  "header_text ly r =
     map field_text (items_json base_fields r 0)
     @ [object_member (ly_who ly) (map field_text (items_json (ly_fields ly) r 3)),
        object_member ''providerSystem'' (map field_text (items_json system_fields r (ly_provider ly))),
        object_member ''serviceDefinition'' (map field_text (items_json service_fields r (ly_service ly)))]"

definition interface_text :: "Layout \<Rightarrow> Row \<Rightarrow> string" where
  "interface_text ly r = ''{'' @ join '','' (map field_text (items_json interface_fields r (ly_interface ly))) @ ''}''"

definition record_text :: "Layout \<Rightarrow> Row list \<Rightarrow> string list" where
  "record_text ly run = header_text ly (hd run) @ [array_member ''interfaces'' (map (interface_text ly) run)]"

definition plain_row :: "Layout \<Rightarrow> Row \<Rightarrow> bool" where
  "plain_row ly r \<longleftrightarrow>
     plain_items base_fields r 0 \<and> plain_items (ly_fields ly) r 3 \<and> plain_items system_fields r (ly_provider ly)
     \<and> plain_items service_fields r (ly_service ly) \<and> plain_items interface_fields r (ly_interface ly)"

lemma header_read:
  assumes "layout_ok ly" "plain_row ly r"
  shows "list_all2 reads_member (header_text ly r) (header_json ly r)"
  unfolding header_text_def header_json_def
proof (rule list_all2_appendI)
  show "list_all2 reads_member (map field_text (items_json base_fields r 0)) (items_json base_fields r 0)"
    using assms field_keys by (intro reads_items) (auto simp: plain_row_def)
  have "list_all2 reads_member (map field_text (items_json (ly_fields ly) r 3)) (items_json (ly_fields ly) r 3)"
    "list_all2 reads_member (map field_text (items_json system_fields r (ly_provider ly))) (items_json system_fields r (ly_provider ly))"
    "list_all2 reads_member (map field_text (items_json service_fields r (ly_service ly))) (items_json service_fields r (ly_service ly))"
    using assms field_keys by (intro reads_items; auto simp: plain_row_def layout_ok_def)+
  then show "list_all2 reads_member
     [object_member (ly_who ly) (map field_text (items_json (ly_fields ly) r 3)),
      object_member ''providerSystem'' (map field_text (items_json system_fields r (ly_provider ly))),
      object_member ''serviceDefinition'' (map field_text (items_json service_fields r (ly_service ly)))]
     [(ly_who ly, JObject (items_json (ly_fields ly) r 3)),
      (''providerSystem'', JObject (items_json system_fields r (ly_provider ly))),
      (''serviceDefinition'', JObject (items_json service_fields r (ly_service ly)))]"
    using assms(1) by (auto simp: layout_ok_def intro!: reads_object_member)
qed

lemma interface_read:
  assumes "plain_row ly r"
  shows "reads_text (interface_text ly r) (JObject (items_json interface_fields r (ly_interface ly)))"
  unfolding interface_text_def using assms field_keys
  by (intro reads_text_object reads_items) (auto simp: plain_row_def)

lemma record_read:
  assumes "layout_ok ly" "run \<noteq> []" "\<And>r. r \<in> set run \<Longrightarrow> plain_row ly r"
  shows "reads_text (''{'' @ join '','' (record_text ly run) @ ''}'') (JObject (record_json ly run))"
proof (rule reads_text_object)
  have "list_all2 reads_text (map (interface_text ly) run)
      (map (\<lambda>r. JObject (items_json interface_fields r (ly_interface ly))) run)"
    using assms(3) interface_read by (auto simp: list_all2_map1 list_all2_map2 intro!: list.rel_refl_strong)
  then show "list_all2 reads_member (record_text ly run) (record_json ly run)"
    unfolding record_text_def record_json_def using header_read [OF assms(1)] assms(2,3)
    by (auto intro!: list_all2_appendI reads_array_member)
qed

text \<open>What writes a record: the members of its first row, and the loop over its rows.\<close>

definition header_writer :: "Layout \<Rightarrow> Row \<Rightarrow> ostream \<Rightarrow> ostream" where
  "header_writer ly r os =
     write_items_object ''serviceDefinition'' service_fields r (ly_service ly)
       (write_items_object ''providerSystem'' system_fields r (ly_provider ly)
       (write_items_object (ly_who ly) (ly_fields ly) r 3
       (write_items base_fields r 0 os)))"

lemma header_writes: "layout_ok ly \<Longrightarrow> writes_members (header_writer ly r) (header_text ly r)"
proof -
  assume "layout_ok ly"
  then have ne: "ly_fields ly \<noteq> []" by (simp add: layout_ok_def)
  note o = write_items_object_members
  have "writes_members (\<lambda>os. write_items_object (ly_who ly) (ly_fields ly) r 3 (write_items base_fields r 0 os))
      (map field_text (items_json base_fields r 0) @ [object_member (ly_who ly) (map field_text (items_json (ly_fields ly) r 3))])"
    by (rule writes_members_comp [OF write_items_members o [OF ne]])
  from writes_members_comp [OF writes_members_comp [OF this o [OF fields_nonempty(2)]] o [OF fields_nonempty(4)]]
  show ?thesis unfolding header_writer_def [abs_def] header_text_def by simp
qed

lemma record_takes_run:
  assumes "layout_ok ly" "\<And>r rs os. f (r # rs) os =
    take_while ''interfaces'' (r # rs) (\<lambda>rr. long_at 0 r = long_at 0 rr)
      (\<lambda>rr. write_items interface_fields rr (ly_interface ly)) (header_writer ly r os)"
  shows "takes_run (long_at 0) (record_text ly) f"
  unfolding takes_run_def
proof (intro allI impI)
  fix r rs os
  assume e: "at_end os"
  let ?p = "\<lambda>x. long_at 0 x = long_at 0 r"
  let ?i = "\<lambda>rr. map field_text (items_json interface_fields rr (ly_interface ly))"
  have p: "(\<lambda>rr. long_at 0 r = long_at 0 rr) = ?p" by auto
  have w: "writes_members (write_items interface_fields x (ly_interface ly)) (?i x) \<and> ?i x \<noteq> []" for x
    using write_items_members by simp
  show "f (r # rs) os = (let rest = dropWhile ?p rs; run = r # takeWhile ?p rs
      in (if rest = [] then CONT else USE,
          appended os (concat (map (\<lambda>m. m @ '','') (record_text ly run))), rest))"
    unfolding assms(2) p writes_membersD [OF header_writes [OF assms(1)] e] Let_def
    using take_while_run [of "\<lambda>rr. write_items interface_fields rr (ly_interface ly)" ?i _ ?p r "''interfaces''" rs, OF w]
    by (simp add: record_text_def interface_text_def [abs_def] del: dropWhile_eq_Nil_conv)
qed

definition list_json :: "Layout \<Rightarrow> int \<Rightarrow> Row list \<Rightarrow> json" where
  "list_json ly n rows =
     JObject [(''count'', JInt n), (''data'', JArray (map (\<lambda>run. JObject (record_json ly run)) (runs (long_at 0) rows)))]"

lemma record_within:
  assumes "plain_row ly (hd run)" "\<And>r. r \<in> set run \<Longrightarrow> plain_row ly r" "3 \<le> k"
  shows "within k (JObject (record_json ly run))"
  using within_items assms unfolding plain_row_def record_json_def header_json_def by fastforce

lemma list_response_json:
  assumes "layout_ok ly" "takes_run (long_at 0) (record_text ly) f" "plain_scalar (JInt n)"
    "\<And>r. r \<in> set rows \<Longrightarrow> plain_row ly r"
  shows "\<exists>os. for_each_control ''data'' rows f (write_int ''count'' n new_JsonBuilder) = Some os
      \<and> parser_parse STANDARD (builder_str os) = Done (list_json ly n rows) []"
proof -
  let ?t = "\<lambda>run. ''{'' @ join '','' (record_text ly run) @ ''}''" and ?e = "\<lparr>os_buf = [], os_pos = 0\<rparr>"
  let ?rs = "runs (long_at 0) rows"
  let ?ms = "[field_text (''count'', JInt n), array_member ''data'' (map ?t ?rs)]"
  let ?kvs = "[(''count'', JInt n), (''data'', JArray (map (\<lambda>run. JObject (record_json ly run)) ?rs))]"
  have mem: "run \<noteq> [] \<and> (\<forall>r \<in> set run. plain_row ly r)" if "run \<in> set ?rs" for run
    using run_same_key [OF that] assms(4) that concat_runs [of "long_at 0" rows] by (metis UN_I set_concat)
  have b: "write_int ''count'' n new_JsonBuilder = appended ?e (''{'' @ field_text (''count'', JInt n) @ '','')"
    using writesD [OF write_field_writes, of new_JsonBuilder "(''count'', JInt n)"] by (simp add: new_builder)
  have c: "for_each_control ''data'' rows f (write_int ''count'' n new_JsonBuilder) =
      Some (appended ?e (''{'' @ concat (map (\<lambda>m. m @ '','') ?ms)))"
    using for_each_control_runs [OF assms(2)] b by (simp add: record_text_def)
  have "builder_str (appended ?e (''{'' @ concat (map (\<lambda>m. m @ '','') ?ms))) = ''{'' @ join '','' ?ms @ ''}''"
    using put_over_comma [of ?ms "CHR ''}''" "[]" ?e "''{''"] by (simp add: builder_str_def)
  moreover have "reads_text (''{'' @ join '','' ?ms @ ''}'') (JObject ?kvs)"
  proof (rule reads_text_object)
    have "list_all2 reads_text (map ?t ?rs) (map (\<lambda>run. JObject (record_json ly run)) ?rs)"
      using record_read [OF assms(1)] mem by (auto simp: list_all2_map1 list_all2_map2 intro!: list.rel_refl_strong)
    then show "list_all2 reads_member ?ms ?kvs"
      using assms(3) by (auto intro!: reads_field reads_array_member)
  qed
  moreover have "within max_depth (JObject ?kvs)"
  proof -
    have "within 198 (JObject (record_json ly run))" if "run \<in> set ?rs" for run
      using mem [OF that] by (intro record_within) simp_all
    then show ?thesis by (simp add: max_depth_def)
  qed
  ultimately show ?thesis
    using c reads_text_parses [of "''{'' @ join '','' ?ms @ ''}''"] by (auto simp: list_json_def)
qed

lemma intra_list_json:
  assumes "rows \<noteq> []" "plain_scalar (JInt n)" "\<And>r. r \<in> set rows \<Longrightarrow> plain_row intra_layout r"
  shows "\<exists>resp. intra_list_response n rows = Some resp
    \<and> parser_parse STANDARD (rs_content resp) = Done (list_json intra_layout n rows) []"
proof -
  have "takes_run (long_at 0) (record_text intra_layout) intra_record"
    by (rule record_takes_run [OF layouts_ok(1)])
      (simp add: intra_record_def intra_record_members_def header_writer_def intra_layout_def Let_def)
  then show ?thesis
    using list_response_json [of intra_layout intra_record n rows] assms
    by (auto simp: intra_list_response_def ok_Response_def new_Response_def)
qed

lemma inter_list_json:
  assumes "rows \<noteq> []" "plain_scalar (JInt n)" "\<And>r. r \<in> set rows \<Longrightarrow> plain_row inter_layout r"
  shows "\<exists>resp. inter_list_response n rows = Some resp
    \<and> parser_parse STANDARD (rs_content resp) = Done (list_json inter_layout n rows) []"
proof -
  have "takes_run (long_at 0) (record_text inter_layout) inter_record"
    by (rule record_takes_run [OF layouts_ok(2)])
      (simp add: inter_record_def inter_record_members_def header_writer_def inter_layout_def Let_def)
  then show ?thesis
    using list_response_json [of inter_layout inter_record n rows] assms
    by (auto simp: inter_list_response_def ok_Response_def new_Response_def)
qed

text \<open>A single record is written by the plain loop.\<close>

lemma single_record_json:
  assumes "layout_ok ly" "rows \<noteq> []" "\<And>r. r \<in> set rows \<Longrightarrow> plain_row ly r"
  shows "parser_parse STANDARD (builder_str
      (for_each_row ''interfaces'' rows (\<lambda>r. write_items interface_fields r (ly_interface ly))
        (header_writer ly (hd rows) new_JsonBuilder))) = Done (JObject (record_json ly rows)) []"
proof -
  have "writes_members (for_each_row ''interfaces'' rows (\<lambda>r. write_items interface_fields r (ly_interface ly)))
      [array_member ''interfaces'' (map (interface_text ly) rows)]"
    using for_each_row_members [of rows _ "\<lambda>r. map field_text (items_json interface_fields r (ly_interface ly))"]
      write_items_members by (simp add: interface_text_def [abs_def])
  from writes_members_comp [OF header_writes [OF assms(1), of "hd rows"] this]
  have "writes_members (\<lambda>os. for_each_row ''interfaces'' rows (\<lambda>r. write_items interface_fields r (ly_interface ly))
      (header_writer ly (hd rows) os)) (record_text ly rows)"
    by (simp add: record_text_def)
  from builder_members [OF this]
  have "builder_str (for_each_row ''interfaces'' rows (\<lambda>r. write_items interface_fields r (ly_interface ly))
      (header_writer ly (hd rows) new_JsonBuilder)) = ''{'' @ join '','' (record_text ly rows) @ ''}''"
    by (simp add: record_text_def)
  moreover have "within max_depth (JObject (record_json ly rows))"
    using assms(2,3) by (intro record_within) (simp_all add: max_depth_def)
  ultimately show ?thesis
    using reads_text_parses record_read [OF assms] by simp
qed

lemma intra_by_id_json:
  assumes "rows \<noteq> []" "\<And>r. r \<in> set rows \<Longrightarrow> plain_row intra_layout r"
  shows "parser_parse STANDARD (rs_content (intra_by_id_response rows)) = Done (JObject (record_json intra_layout rows)) []"
  using single_record_json [OF layouts_ok(1) assms] assms(1)
  by (cases rows) (simp_all add: intra_by_id_response_def ok_Response_def new_Response_def
      header_writer_def intra_record_members_def intra_layout_def)

lemma inter_by_id_json:
  assumes "rows \<noteq> []" "\<And>r. r \<in> set rows \<Longrightarrow> plain_row inter_layout r"
  shows "parser_parse STANDARD (rs_content (inter_by_id_response rows)) = Done (JObject (record_json inter_layout rows)) []"
  using single_record_json [OF layouts_ok(2) assms] assms(1)
  by (cases rows) (simp_all add: inter_by_id_response_def ok_Response_def new_Response_def
      header_writer_def inter_record_members_def inter_layout_def)

section \<open>Tokens\<close>

definition plain_char :: "char \<Rightarrow> bool" where
  "plain_char c \<longleftrightarrow> 0x1f < code c \<and> code c < 0x80 \<and> c \<noteq> DQUOTE \<and> c \<noteq> BSLASH"

lemma dump_plain_chars: "(\<And>c. c \<in> set s \<Longrightarrow> plain_char c) \<Longrightarrow> dump_chars s = s"
proof (induction s)
  case (Cons c s)
  have c: "plain_char c" and s: "dump_chars s = s" using Cons by simp_all
  have n: "c \<notin> {BSLASH, DQUOTE, CHR 0x08, CHR 0x0C, LF, CR, TAB}" "\<not> code c \<le> 0x1f" "code c \<noteq> 0xe2"
    using c by (auto simp: plain_char_def)
  show ?case using s n dump_plain [OF n(1,2), of s] by (simp del: dump_chars.simps)
qed simp

lemma digit_plain: "isdigit c \<Longrightarrow> plain_char c"
  unfolding plain_char_def by (auto simp: isdigit_def)

lemma token_plain: "plain_scalar (JString (''token'' @ nat_str i))"
proof -
  have "plain_char c" if "c \<in> set (''token'' @ nat_str i)" for c
    using that digit_plain [of c] nat_str_digits [of i] by (auto simp: plain_char_def list_all_iff)
  then show ?thesis by (simp only: plain_scalar.simps dump_plain_chars)
qed

fun token_members :: "nat \<Rightarrow> string list \<Rightarrow> (string \<times> json) list" where
  "token_members i [] = []"
| "token_members i (x # xs) = (x, JString (''token'' @ nat_str i)) # token_members (i + 1) xs"

definition provider_json :: "nat \<Rightarrow> TokenSystem \<times> string list \<Rightarrow> (string \<times> json) list" where
  "provider_json i x =
     [(''providerAddress'', JString (ts_address (fst x))), (''providerName'', JString (ts_systemName (fst x))),
      (''providerPort'', JInt (ts_port (fst x))), (''tokens'', JObject (token_members i (snd x)))]"

fun providers_json :: "nat \<Rightarrow> (TokenSystem \<times> string list) list \<Rightarrow> json list" where
  "providers_json i [] = []"
| "providers_json i (x # xs) = JObject (provider_json i x) # providers_json (i + length (snd x)) xs"

definition provider_text :: "nat \<Rightarrow> TokenSystem \<times> string list \<Rightarrow> string list" where
  "provider_text i x =
     [field_text (''providerAddress'', JString (ts_address (fst x))),
      field_text (''providerName'', JString (ts_systemName (fst x))),
      field_text (''providerPort'', JInt (ts_port (fst x))),
      object_member ''tokens'' (map field_text (token_members i (snd x)))]"

fun providers_text :: "nat \<Rightarrow> (TokenSystem \<times> string list) list \<Rightarrow> string list" where
  "providers_text i [] = []"
| "providers_text i (x # xs) = (''{'' @ join '','' (provider_text i x) @ ''}'') # providers_text (i + length (snd x)) xs"

lemma put_tokens_text:
  "at_end os \<Longrightarrow> put_tokens i xs os =
    (i + length xs, appended os (concat (map (\<lambda>m. m @ '','') (map field_text (token_members i xs)))))"
proof (induction xs arbitrary: i os)
  case Nil
  then show ?case by (cases os) (simp add: appended_def at_end_def)
next
  case (Cons x xs)
  then show ?case by (simp add: field_text_def)
qed

lemma token_members_nil [simp]: "token_members i xs = [] \<longleftrightarrow> xs = []"
  by (cases xs) simp_all

lemma write_tokens_text:
  assumes "at_end os" "xs \<noteq> []"
  shows "write_tokens key i xs os =
    (i + length xs, appended os (object_member key (map field_text (token_members i xs)) @ '',''))"
proof -
  let ?ms = "map field_text (token_members i xs)" and ?os = "appended os (key_text key @ ''{'')"
  have "put_tokens i xs ?os = (i + length xs, appended os ((key_text key @ ''{'') @ concat (map (\<lambda>m. m @ '','') ?ms)))"
    by (subst put_tokens_text) simp_all
  moreover have "seek_back (seek_back y) = seek_back y" for y by (simp add: seek_back_def)
  moreover have "os_put (DQUOTE # key @ [DQUOTE] @ '': {'') os = ?os" using assms(1) by (simp add: key_text_def)
  ultimately show ?thesis
    using assms(2) put_over_comma [of ?ms "CHR ''}''" "'',''" os "key_text key @ ''{''"]
    by (simp add: write_tokens_def object_member_def Let_def)
qed

lemma put_providers_text:
  assumes "at_end os" "\<And>x. x \<in> set xs \<Longrightarrow> snd x \<noteq> []"
  shows "snd (put_providers i xs os) = appended os (concat (map (\<lambda>m. m @ '','') (providers_text i xs)))"
  using assms
proof (induction xs arbitrary: i os)
  case Nil
  then show ?case by (cases os) (simp add: appended_def at_end_def)
next
  case (Cons x xs)
  let ?os = "appended os ''{''"
  let ?f = "\<lambda>k v. field_text (k, v) @ '',''"
  let ?w = "write_int ''providerPort'' (ts_port (fst x)) (write_string ''providerName'' (ts_systemName (fst x))
      (write_string ''providerAddress'' (ts_address (fst x)) ?os))"
  have "?w = appended ?os (?f ''providerAddress'' (JString (ts_address (fst x)))
      @ ?f ''providerName'' (JString (ts_systemName (fst x))) @ ?f ''providerPort'' (JInt (ts_port (fst x))))"
    by (simp add: write_int_def write_string_def field_text_def)
  then have "write_tokens ''tokens'' i (snd x) ?w =
      (i + length (snd x), appended os (''{'' @ concat (map (\<lambda>m. m @ '','') (provider_text i x))))"
    using Cons.prems(2) [of x] by (simp add: write_tokens_text provider_text_def)
  moreover have "os_put ''},'' (seek_back (appended os (''{'' @ concat (map (\<lambda>m. m @ '','') (provider_text i x))))) =
      appended os ((''{'' @ join '','' (provider_text i x) @ ''}'') @ '','')"
    using put_over_comma [of "provider_text i x" "CHR ''}''" "'',''" os "''{''"] by (simp add: provider_text_def)
  ultimately show ?case
    using Cons.IH [of "appended os ((''{'' @ join '','' (provider_text i x) @ ''}'') @ '','')" "i + length (snd x)"] Cons.prems
    by (simp add: Let_def)
qed

text \<open>A provider whose text needs no escaping, with at least one interface.\<close>

definition plain_provider :: "TokenSystem \<times> string list \<Rightarrow> bool" where
  "plain_provider x \<longleftrightarrow>
     plain_scalar (JString (ts_address (fst x))) \<and> plain_scalar (JString (ts_systemName (fst x)))
     \<and> plain_scalar (JInt (ts_port (fst x))) \<and> snd x \<noteq> [] \<and> (\<forall>i \<in> set (snd x). key_ok i)"

lemma token_members_read:
  "(\<And>i. i \<in> set xs \<Longrightarrow> key_ok i) \<Longrightarrow>
    list_all2 reads_member (map field_text (token_members n xs)) (token_members n xs)"
  using token_plain by (induction xs arbitrary: n) (auto intro!: reads_field)

lemma providers_read:
  "(\<And>x. x \<in> set xs \<Longrightarrow> plain_provider x) \<Longrightarrow> list_all2 reads_text (providers_text i xs) (providers_json i xs)"
proof (induction xs arbitrary: i)
  case (Cons x xs)
  have x: "plain_provider x" using Cons.prems by simp
  then have "list_all2 reads_member (map field_text (token_members i (snd x))) (token_members i (snd x))"
    by (intro token_members_read) (auto simp: plain_provider_def)
  then have "list_all2 reads_member (provider_text i x) (provider_json i x)"
    unfolding provider_text_def provider_json_def using x
    by (auto simp: plain_provider_def intro!: reads_field reads_object_member)
  then show ?case using Cons by (simp add: reads_text_object [simplified])
qed simp

lemma token_members_within: "kv \<in> set (token_members i xs) \<Longrightarrow> within k (snd kv)"
  by (induction xs arbitrary: i) auto

lemma providers_within: "v \<in> set (providers_json i xs) \<Longrightarrow> within 198 v"
  by (induction xs arbitrary: i) (auto simp: provider_json_def dest!: token_members_within [where k = 196])

lemma generateTokens_json:
  assumes "\<And>x. x \<in> set (tr_providers model) \<Longrightarrow> plain_provider x"
  shows "parser_parse STANDARD (rs_content (generateTokens model)) =
    Done (JObject [(''tokenData'', JArray (providers_json 0 (tr_providers model)))]) []"
proof -
  let ?xs = "tr_providers model" and ?e = "\<lparr>os_buf = [], os_pos = 0\<rparr>"
  let ?ts = "providers_text 0 ?xs"
  have o: "open_array ''tokenData'' new_JsonBuilder = appended ?e (''{'' @ key_text ''tokenData'' @ ''['')"
    by (simp add: open_array_def new_builder key_text_def)
  have ne: "?ts = [] \<longleftrightarrow> ?xs = []" by (cases ?xs) simp_all
  have p: "snd (put_providers 0 ?xs (open_array ''tokenData'' new_JsonBuilder)) =
      appended ?e ((''{'' @ key_text ''tokenData'' @ ''['') @ concat (map (\<lambda>m. m @ '','') ?ts))"
    using assms put_providers_text [of "open_array ''tokenData'' new_JsonBuilder" ?xs 0] o
    by (auto simp: plain_provider_def)
  have "os_put ''],'' (if ?xs \<noteq> [] then seek_back (snd (put_providers 0 ?xs (open_array ''tokenData'' new_JsonBuilder)))
      else open_array ''tokenData'' new_JsonBuilder) =
      appended ?e (''{'' @ concat (map (\<lambda>m. m @ '','') [array_member ''tokenData'' ?ts]))"
    using p o ne put_over_comma [of ?ts "CHR '']''" "'',''" ?e "''{'' @ key_text ''tokenData'' @ ''[''"]
    by (cases "?xs = []") (simp_all add: array_member_def)
  then have "rs_content (generateTokens model) = ''{'' @ join '','' [array_member ''tokenData'' ?ts] @ ''}''"
    using put_over_comma [of "[array_member ''tokenData'' ?ts]" "CHR ''}''" "[]" ?e "''{''"]
    by (simp add: generateTokens_def Let_def ok_Response_def new_Response_def builder_str_def)
  moreover have "reads_text (''{'' @ join '','' [array_member ''tokenData'' ?ts] @ ''}'')
      (JObject [(''tokenData'', JArray (providers_json 0 ?xs))])"
    using reads_array_member [OF _ providers_read [of ?xs 0], of "''tokenData''"] assms
    by (intro reads_text_object) simp
  moreover have "within max_depth (JObject [(''tokenData'', JArray (providers_json 0 ?xs))])"
    using providers_within by (simp add: max_depth_def)
  ultimately show ?thesis using reads_text_parses by simp
qed

section \<open>The endpoints\<close>

lemma answer_of_keeps:
  assumes "\<And>d. P (snd (x d)) = P d" "answer_of x f d = Some (r, d')"
  shows "P d' = P d"
  using assms(1) [of d] assms(2) by (auto simp: answer_of_def split: prod.splits sum.splits)

lemma catching_Some: "catching resp x d = Some (r, d') \<Longrightarrow> \<exists>r0. x d = Some (r0, d')"
  by (auto simp: catching_def split: option.splits prod.splits scope_result.splits)

lemma ids_fetched:
  "\<exists>q. intra_getRecords_ids ids db = db_fetch db q" "\<exists>q. inter_getRecords_ids ids db = db_fetch db q"
  unfolding intra_getRecords_ids_def inter_getRecords_ids_def by (rule exI, rule refl)+

lemma by_ids_keeps:
  assumes "isolates committed working db"
  shows "intra_getRecordsByIds ids db d = Some (r, d') \<Longrightarrow> committed d' = committed d"
    "inter_getRecordsByIds ids db d = Some (r, d') \<Longrightarrow> committed d' = committed d"
proof -
  have f: "committed (snd (db_fetch db q x)) = committed x" for q x
    using assms unfolding isolates_def by blast
  show "intra_getRecordsByIds ids db d = Some (r, d') \<Longrightarrow> committed d' = committed d"
    using ids_fetched(1) [of ids db] answer_of_keeps [of committed, OF f]
    unfolding intra_getRecordsByIds_def by (auto simp: returns_def split: if_splits)
  show "inter_getRecordsByIds ids db d = Some (r, d') \<Longrightarrow> committed d' = committed d"
    using ids_fetched(2) [of ids db] answer_of_keeps [of committed, OF f]
    unfolding inter_getRecordsByIds_def by (auto simp: returns_def split: if_splits)
qed

text \<open>A POST leaves what others see alone, or adds all the records of a valid request.\<close>

lemma intra_post_atomic:
  assumes "isolates committed working db" "rq_method req = ''POST''" "intra_handle u db req d = Some (r, d')"
  shows "committed d' = committed d
    \<or> (\<exists>model ids d2. intra_parse (rq_content req) = Parsed model \<and> intra_validate model = None
         \<and> length ids = length (ic_providerIds model) * length (ic_serviceDefIds model)
         \<and> inserted db u (rule_statements (intra_record_stmt model)
             (\<lambda>ident. map (intra_interface_stmt ident) (ic_interfaceIds model))
             (List.product (ic_providerIds model) (ic_serviceDefIds model)) ids) (snd (db_begin db d)) d2
         \<and> committed d' = working d2)"
proof (cases "intra_parse (rq_content req)")
  case (Parsed model)
  show ?thesis
  proof (cases "intra_validate model = None")
    case True
    have "catching (bad_request BAD_PAYLOAD ''/mgmt/intracloud'') (intra_postRecord u model db) d = Some (r, d')"
      using assms(2,3) Parsed True by (simp add: intra_handle_def Let_def)
    then obtain r0 where p: "(case intra_insRecord u db model d of
         (Returned ids, d') \<Rightarrow> intra_getRecordsByIds ids db d'
       | (Raised e, d') \<Rightarrow> Some (Raised e, d') | (Terminated, d') \<Rightarrow> Some (Terminated, d')) = Some (r0, d')"
      unfolding intra_postRecord_def by (blast dest!: catching_Some)
    obtain r1 d1 where i: "intra_insRecord u db model d = (r1, d1)" by fastforce
    have "committed d' = committed d1"
      using p i by_ids_keeps(1) [OF assms(1)] by (auto split: scope_result.splits)
    then show ?thesis
      using intra_insRecord_atomic [OF assms(1) i] Parsed True by (elim disjE exE conjE) auto
  next
    case False
    then show ?thesis using assms(2,3) Parsed by (auto simp: intra_handle_def Let_def returns_def)
  qed
qed (use assms(2,3) in \<open>simp_all add: intra_handle_def Let_def returns_def\<close>)

lemma inter_post_atomic:
  assumes "isolates committed working db" "rq_method req = ''POST''" "inter_handle u db req d = Some (r, d')"
  shows "committed d' = committed d
    \<or> (\<exists>model ids d2. inter_parse (rq_content req) = Parsed model \<and> inter_validate model = None
         \<and> length ids = length (xc_providerIds model) * length (xc_serviceDefIds model)
         \<and> inserted db u (rule_statements (inter_record_stmt model)
             (\<lambda>ident. map (inter_interface_stmt ident) (xc_interfaceIds model))
             (List.product (xc_providerIds model) (xc_serviceDefIds model)) ids) (snd (db_begin db d)) d2
         \<and> committed d' = working d2)"
proof (cases "inter_parse (rq_content req)")
  case (Parsed model)
  show ?thesis
  proof (cases "inter_validate model = None")
    case True
    have "catching (bad_request BAD_PAYLOAD ''/mgmt/intercloud'') (inter_postRecord u model db) d = Some (r, d')"
      using assms(2,3) Parsed True by (simp add: inter_handle_def Let_def)
    then obtain r0 where p: "(case inter_insRecord u db model d of
         (Returned ids, d') \<Rightarrow> inter_getRecordsByIds ids db d'
       | (Raised e, d') \<Rightarrow> Some (Raised e, d') | (Terminated, d') \<Rightarrow> Some (Terminated, d')) = Some (r0, d')"
      unfolding inter_postRecord_def by (blast dest!: catching_Some)
    obtain r1 d1 where i: "inter_insRecord u db model d = (r1, d1)" by fastforce
    have "committed d' = committed d1"
      using p i by_ids_keeps(2) [OF assms(1)] by (auto split: scope_result.splits)
    then show ?thesis
      using inter_insRecord_atomic [OF assms(1) i] Parsed True by (elim disjE exE conjE) auto
  next
    case False
    then show ?thesis using assms(2,3) Parsed by (auto simp: inter_handle_def Let_def returns_def)
  qed
qed (use assms(2,3) in \<open>simp_all add: inter_handle_def Let_def returns_def\<close>)

text \<open>The answer to a check whose statement yields rows.\<close>

lemma intra_check_replies:
  assumes "intra_check_parse (rq_content req) = Parsed model"
    "db_fetch db (intra_check_query db model) d = (Inr rows, d')" "rows \<noteq> []"
    "plain_check consumer_fields 7 8 (icc_serviceDefinitionId model) rows"
  shows "\<exists>t. intra_check_handle db req d = Some (Returned (ok_Response t), d')
    \<and> reads_text t (check_answer ''consumer'' consumer_fields (long_at 7) (long_at 8) (icc_serviceDefinitionId model) rows)"
  using intra_check_text [OF assms(3,4)] assms(1,2)
  by (auto simp: intra_check_handle_def intra_check_def intra_checkRule_def catching_def answer_of_def)

lemma intra_check_answer:
  assumes "intra_check_parse (rq_content req) = Parsed model"
    "db_fetch db (intra_check_query db model) d = (Inr rows, d')" "rows \<noteq> []"
    "plain_check consumer_fields 7 8 (icc_serviceDefinitionId model) rows"
  shows "\<exists>resp. intra_check_handle db req d = Some (Returned resp, d')
    \<and> parser_parse STANDARD (rs_content resp) =
        Done (check_answer ''consumer'' consumer_fields (long_at 7) (long_at 8) (icc_serviceDefinitionId model) rows) []"
  using intra_check_replies [OF assms] reads_text_parses [OF _ check_within] assms(4)
  by (fastforce simp: plain_check_def ok_Response_def new_Response_def)

text \<open>
  The answer as a function of the set of rows: every provider once, in ascending order, with all the
  interfaces found for it. The statement sorts its rows by provider.
\<close>

definition check_spec :: "string \<Rightarrow> Field list \<Rightarrow> (Row \<Rightarrow> int) \<Rightarrow> (Row \<Rightarrow> int) \<Rightarrow> int \<Rightarrow> Row list \<Rightarrow> json" where
  "check_spec who fds k g sd rows =
     JObject [(''serviceDefinitionId'', JInt sd), (who, JObject (items_json fds (hd rows) 0)),
       (''authorizedProviderIdsWithInterfaceIds'',
        JArray (map (\<lambda>p. JObject [(''id'', JInt p),
                 (''idList'', JArray (map (\<lambda>r. JInt (g r)) (filter (\<lambda>r. k r = p) rows)))])
          (sorted_list_of_set (k ` set rows))))]"

lemma check_answer_spec:
  assumes "sorted (map k rows)"
  shows "check_answer who fds k g sd rows = check_spec who fds k g sd rows"
proof -
  have "k (hd (filter (\<lambda>r. k r = p) rows)) = p" if p: "p \<in> set (sorted_list_of_set (k ` set rows))" for p
  proof -
    have "filter (\<lambda>r. k r = p) rows \<noteq> []" using p by (auto simp: filter_empty_conv)
    then show ?thesis using hd_in_set [of "filter (\<lambda>r. k r = p) rows"] by auto
  qed
  then show ?thesis
    by (simp add: check_answer_def check_spec_def sorted_runs [OF assms] check_json_def)
qed

text \<open>The answer to a request for all records.\<close>

lemma intra_params_answer:
  assumes "intra_getRecords_count u db d = (Inr n, d1)" "intra_getRecords_qs qs db d1 = (Inr rows, d2)"
    "rows \<noteq> []" "plain_scalar (JInt n)" "\<And>r. r \<in> set rows \<Longrightarrow> plain_row intra_layout r"
  shows "\<exists>resp. intra_getRecordsByParams u qs db d = Some (Returned resp, d2)
    \<and> parser_parse STANDARD (rs_content resp) = Done (list_json intra_layout n rows) []"
  using intra_list_json [OF assms(3-5)] assms(1,2)
  by (auto simp: intra_getRecordsByParams_def answer_of_def db_bind_def db_ret_def)

lemma intra_check_undefined:
  "intra_check_parse (rq_content req) = Undef \<Longrightarrow> intra_check_handle db req d = None"
  by (simp add: intra_check_handle_def)

end
