(* ===== verification/AuthExamples.thy ===== *)
theory AuthExamples
  imports AuthLaws
begin

text \<open>
  A database that records its inserts, and requests to the authorization service, on which the
  properties of the service are applied.
\<close>

text \<open>The state: what other connections see, and the statements of the open transaction behind it.\<close>

definition log_database :: "(string list \<times> string list) Database" where
  "log_database =
     \<lparr>db_fetch = (\<lambda>q d. (Inr [], d)),
      db_fetch_long = (\<lambda>q v d. (Inr (False, v), d)),
      db_fetch_string = (\<lambda>q v d. (Inr (False, v), d)),
      db_query = (\<lambda>q d. (Inr (), d)),
      db_query_and_check = (\<lambda>q d. (Inr 0, d)),
      db_insert = (\<lambda>q v d. (Inr (True, word_of_nat (length (snd d) + 1)), (fst d, snd d @ [q]))),
      db_escape = (\<lambda>s. s),
      db_begin = (\<lambda>d. (Inr (), (fst d, fst d))),
      db_commit = (\<lambda>d. (Inr (), (snd d, snd d))),
      db_rollback = (\<lambda>d. (Inr (), (fst d, fst d)))\<rparr>"

text \<open>A request with a JSON text in which single quotes stand for double ones.\<close>

definition json_request :: "string \<Rightarrow> Request" where
  "json_request s = new_Request [] ''POST'' ''/'' (map (\<lambda>c. if c = CHR 0x27 then DQUOTE else c) s)"

definition rule_request :: Request where
  "rule_request = json_request
     ''{'consumerId':1,'providerIds':[2,3],'interfaceIds':[4],'serviceDefinitionIds':[5]}''"

definition rule_log :: "string list" where
  "rule_log =
     [''INSERT INTO authorization_intra_cloud (consumer_system_id, provider_system_id, service_id) VALUES (1,2,5)'',
      ''INSERT INTO authorization_intra_cloud_interface_connection (authorization_intra_cloud_id, interface_id) VALUES (1,4)'',
      ''INSERT INTO authorization_intra_cloud (consumer_system_id, provider_system_id, service_id) VALUES (1,3,5)'',
      ''INSERT INTO authorization_intra_cloud_interface_connection (authorization_intra_cloud_id, interface_id) VALUES (3,4)'']"

definition check_request :: Request where
  "check_request = json_request
     ''{'consumer':{'address':'h','authenticationInfo':'a','port':8080,'systemName':'s'},'serviceDefinitionId':3,'providerIdsWithInterfaceIds':[{'id':7,'idList':[1,2]}]}''"

definition check_row :: "int \<Rightarrow> int \<Rightarrow> Row" where
  "check_row p i =
     \<lparr>get_int = (\<lambda>c. (True, 1)),
      get_long = (\<lambda>c. (True, if c = 7 then p else if c = 8 then i else 5)),
      get_str = (\<lambda>c. (True, ''x''))\<rparr>"

definition check_rows :: "Row list" where
  "check_rows = [check_row 7 1, check_row 7 2, check_row 9 1]"

definition check_database :: "(string list \<times> string list) Database" where
  "check_database = log_database\<lparr>db_fetch := (\<lambda>q d. (Inr check_rows, d))\<rparr>"

definition check_model :: IntraCloudCheck where
  "check_model =
     \<lparr>icc_address = ''h'', icc_authenticationInfo = ''a'', icc_port = 8080, icc_systemName = ''s'',
      icc_providers = [(7, [1, 2])], icc_serviceDefinitionId = 3\<rparr>"

definition token_request :: Request where
  "token_request = json_request
     ''{'consumer':{'address':'h','systemName':'s','port':1},'service':'v','providers':[{'provider':{'address':'p','systemName':'t','port':2},'serviceInterfaces':['i','j']}]}''"

definition incomplete_check :: Request where
  "incomplete_check = json_request ''{'consumer':{'address':'h','port':1},'serviceDefinitionId':3}''"

lemma log_database_isolates: "isolates fst snd log_database"
  by (simp add: isolates_def log_database_def)

lemma rule_request_parsed:
  "intra_parse (rq_content rule_request) =
    Parsed \<lparr>ic_consumerId = 1, ic_providerIds = [2, 3], ic_interfaceIds = [4], ic_serviceDefIds = [5]\<rparr>"
  by code_simp

lemma rule_request_inserts:
  "intra_insRecord 0 log_database
     \<lparr>ic_consumerId = 1, ic_providerIds = [2, 3], ic_interfaceIds = [4], ic_serviceDefIds = [5]\<rparr> ([], []) =
   (Returned [1, 3], (rule_log, rule_log))"
  by code_simp

lemma rule_request_stored: "\<exists>r. intra_handle 0 log_database rule_request ([], []) = Some (r, (rule_log, rule_log))"
proof -
  obtain q where q: "intra_getRecords_ids [1, 3] log_database = db_fetch log_database q"
    using ids_fetched(1) by blast
  have "rq_method rule_request = ''POST''" by (simp add: rule_request_def json_request_def new_Request_def)
  then show ?thesis
    using rule_request_parsed rule_request_inserts q
    by (simp add: intra_handle_def intra_validate_def intra_postRecord_def intra_getRecordsByIds_def answer_of_def
        intra_list_response_def catching_def Let_def log_database_def)
qed

lemma qs_fetched:
  "\<exists>q. intra_getRecords_count u db = db_bind (db_fetch_long db q u) (\<lambda>(_, n). db_ret n)"
  "\<exists>q. intra_getRecords_qs qs db = db_fetch db q"
  unfolding intra_getRecords_count_def intra_getRecords_qs_def by (rule exI, rule refl)+

end
