(* ===== verification/Doubles.thy ===== *)
theory Doubles
  imports Json
begin

text \<open>
  The \<open>double\<close> arithmetic of \<open>string2double\<close> (\<open>inc/gason/gason.cpp\<close>): IEEE binary64 with rounding
  to the nearest, ties to even. A finite double is an integer times a power of two; the sign of
  zero is left out, no result of the sources depends on it. Decimal literals are read by the very
  sequence of rounded operations of the source; on integers below two to the 53rd none of them rounds.
\<close>

section \<open>Rounding\<close>

text \<open>\<open>Finite m e\<close> is \<open>m\<close> times two to the \<open>e\<close>; \<open>Infinite\<close> carries whether it is negative.\<close>

datatype double = Finite int int | Infinite bool | NotANumber

function bitlen :: "int \<Rightarrow> int" where
  "bitlen n = (if n \<le> 0 then 0 else 1 + bitlen (n div 2))"
  by auto
termination by (relation "measure nat") auto

declare bitlen.simps [simp del]

definition round_shift :: "int \<Rightarrow> nat \<Rightarrow> int" where
  "round_shift m s =
     (let q = m div 2 ^ s; r = m mod 2 ^ s; half = 2 ^ (s - 1)
      in if r > half \<or> (r = half \<and> odd q) then q + 1 else q)"

text \<open>53 bits of precision, exponents from -1074, values below two to the 1024.\<close>

definition round_double :: "int \<Rightarrow> int \<Rightarrow> double" where
  "round_double m e =
     (if m = 0 then Finite 0 0
      else
        (let a = \<bar>m\<bar>; q = max (e + bitlen a - 53) (- 1074);
             (a, e) = (if q \<le> e then (a, e) else (round_shift a (nat (q - e)), q))
         in if e + bitlen a > 1024 then Infinite (m < 0) else Finite (sgn m * a) e))"

definition d_int :: "int \<Rightarrow> double" where
  "d_int n = round_double n 0"

fun d_mult :: "double \<Rightarrow> double \<Rightarrow> double" where
  "d_mult (Finite m e) (Finite n f) = round_double (m * n) (e + f)"
| "d_mult (Infinite s) (Infinite t) = Infinite (s \<noteq> t)"
| "d_mult (Infinite s) (Finite n f) = (if n = 0 then NotANumber else Infinite (s \<noteq> (n < 0)))"
| "d_mult (Finite m e) (Infinite t) = (if m = 0 then NotANumber else Infinite ((m < 0) \<noteq> t))"
| "d_mult _ _ = NotANumber"

fun d_plus :: "double \<Rightarrow> double \<Rightarrow> double" where
  "d_plus (Finite m e) (Finite n f) =
     (let g = min e f in round_double (m * 2 ^ nat (e - g) + n * 2 ^ nat (f - g)) g)"
| "d_plus (Infinite s) (Infinite t) = (if s = t then Infinite s else NotANumber)"
| "d_plus (Infinite s) (Finite _ _) = Infinite s"
| "d_plus (Finite _ _) (Infinite t) = Infinite t"
| "d_plus _ _ = NotANumber"

fun d_neg :: "double \<Rightarrow> double" where
  "d_neg (Finite m e) = Finite (- m) e"
| "d_neg (Infinite s) = Infinite (\<not> s)"
| "d_neg NotANumber = NotANumber"

text \<open>The literal \<open>0.1\<close>.\<close>

definition d_tenth :: double where
  "d_tenth = Finite 3602879701896397 (- 55)"

text \<open>\<open>(int) x\<close>: towards zero; a value that \<open>int\<close> cannot hold is undefined.\<close>

fun d_to_int :: "double \<Rightarrow> int option" where
  "d_to_int (Finite m e) =
     (let t = (if 0 \<le> e then m * 2 ^ nat e else sgn m * (\<bar>m\<bar> div 2 ^ nat (- e)))
      in if INT_MIN \<le> t \<and> t \<le> INT_MAX then Some t else None)"
| "d_to_int _ = None"

section \<open>Decimal literals\<close>

definition d_digit :: "char \<Rightarrow> double" where
  "d_digit c = d_int (int (code c) - 48)"

fun read_integer :: "double \<Rightarrow> string \<Rightarrow> double \<times> string" where
  "read_integer x [] = (x, [])"
| "read_integer x (c # s) =
     (if isdigit c then read_integer (d_plus (d_mult x (d_int 10)) (d_digit c)) s else (x, c # s))"

fun read_fraction :: "double \<Rightarrow> double \<Rightarrow> string \<Rightarrow> double \<times> string" where
  "read_fraction x fraction [] = (x, [])"
| "read_fraction x fraction (c # s) =
     (if isdigit c then
        (let fraction = d_mult fraction d_tenth
         in read_fraction (d_plus x (d_mult (d_digit c) fraction)) fraction s)
      else (x, c # s))"

text \<open>The exponent is an \<open>unsigned int\<close> and wraps around.\<close>

fun read_exponent :: "32 word \<Rightarrow> string \<Rightarrow> 32 word \<times> string" where
  "read_exponent n [] = (n, [])"
| "read_exponent n (c # s) =
     (if isdigit c then read_exponent (n * 10 + word_of_int (int (code c) - 48)) s else (n, c # s))"

function power_loop :: "32 word \<Rightarrow> double \<Rightarrow> double \<Rightarrow> double" where
  "power_loop n base pw =
     (if n = 0 then pw
      else power_loop (drop_bit 1 n) (d_mult base base) (if and n 1 \<noteq> 0 then d_mult pw base else pw))"
  by auto
termination
  by (relation "measure (\<lambda>(n, _, _). unat n)") (simp_all add: drop_bit_Suc unat_div unat_gt_0)

declare power_loop.simps [simp del]

definition string2double :: "string \<Rightarrow> double \<times> string" where
  "string2double s =
     (let ch = peek s;
          s = (if ch = CHR ''-'' then tl s else s);
          (result, s) = read_integer (d_int 0) s;
          (result, s) = (if peek s = CHR ''.'' then read_fraction result (d_int 1) (tl s) else (result, s));
          (result, s) =
            (if peek s = CHR ''e'' \<or> peek s = CHR ''E'' then
               (let s = tl s;
                    (base, s) =
                      (if peek s = CHR ''+'' then (d_int 10, tl s)
                       else if peek s = CHR ''-'' then (d_tenth, tl s)
                       else (d_int 10, s));
                    (exponent, s) = read_exponent 0 s
                in (d_mult result (power_loop exponent base (d_int 1)), s))
             else (result, s))
      in (if ch = CHR ''-'' then d_neg result else result, s))"

section \<open>Exact integers\<close>

lemma bitlen_bound: "0 \<le> n \<Longrightarrow> n < 2 ^ k \<Longrightarrow> bitlen n \<le> int k"
proof (induction k arbitrary: n)
  case 0
  then show ?case by (simp add: bitlen.simps [of n])
next
  case (Suc k)
  then have "bitlen (n div 2) \<le> int k" by (intro Suc.IH) auto
  then show ?case by (simp add: bitlen.simps [of n])
qed

lemma round_exact:
  assumes "\<bar>m\<bar> < 2 ^ 53"
  shows "round_double m 0 = Finite m 0"
proof -
  have "bitlen \<bar>m\<bar> \<le> 53" using bitlen_bound [of "\<bar>m\<bar>" 53] assms by simp
  then show ?thesis by (auto simp: round_double_def Let_def sgn_mult_abs mult_sgn_abs)
qed

lemma d_int_exact: "\<bar>m\<bar> < 2 ^ 53 \<Longrightarrow> d_int m = Finite m 0"
  by (simp add: d_int_def round_exact)

lemma digits_value_mono: "list_all isdigit ds \<Longrightarrow> a \<le> digits_value 10 a ds"
proof (induction ds arbitrary: a)
  case (Cons c ds)
  then have "a * 10 + digit_of c \<le> digits_value 10 (a * 10 + digit_of c) ds" by simp
  then show ?case by (simp add: algebra_simps)
qed simp

text \<open>The digits of a number below two to the 53rd are read without rounding.\<close>

lemma read_integer_exact:
  assumes "list_all isdigit ds" "int (digits_value 10 a ds) < 2 ^ 53" "\<not> isdigit (peek r)"
  shows "read_integer (Finite (int a) 0) (ds @ r) = (Finite (int (digits_value 10 a ds)) 0, r)"
  using assms(1,2)
proof (induction ds arbitrary: a)
  case Nil
  then show ?case using assms(3) by (cases r) (simp_all add: peek_def)
next
  case (Cons c ds)
  have c: "isdigit c" "digit_of c = code c - 48" "48 \<le> code c" "code c \<le> 57"
    using Cons.prems(1) by (simp_all add: digit_of_def isdigit_def)
  have b: "a * 10 + digit_of c \<le> digits_value 10 (a * 10 + digit_of c) ds"
    using Cons.prems(1) digits_value_mono by simp
  have v: "digits_value 10 a (c # ds) = digits_value 10 (a * 10 + digit_of c) ds"
    by (simp add: algebra_simps)
  have "d_plus (d_mult (Finite (int a) 0) (d_int 10)) (d_digit c) = Finite (int (a * 10 + digit_of c)) 0"
    using b v c Cons.prems(2) by (simp add: d_digit_def d_int_exact round_exact)
  then show ?case using Cons.IH [of "a * 10 + digit_of c"] Cons.prems c(1) v by simp
qed

lemma string2double_exact:
  assumes "list_all isdigit ds" "int (digits_value 10 0 ds) < 2 ^ 53"
    "\<not> isdigit (peek r)" "peek r \<notin> {CHR ''.'', CHR ''e'', CHR ''E''}"
  shows "ds \<noteq> [] \<Longrightarrow> string2double (ds @ r) = (Finite (int (digits_value 10 0 ds)) 0, r)"
    and "string2double (CHR ''-'' # ds @ r) = (Finite (- int (digits_value 10 0 ds)) 0, r)"
proof -
  have i: "read_integer (d_int 0) (ds @ r) = (Finite (int (digits_value 10 0 ds)) 0, r)"
    using read_integer_exact [OF assms(1), of 0] assms by (simp add: d_int_exact)
  show "string2double (CHR ''-'' # ds @ r) = (Finite (- int (digits_value 10 0 ds)) 0, r)"
    using i assms(4) by (simp add: string2double_def peek_def [of "_ # _"])
  assume "ds \<noteq> []"
  then have "isdigit (peek (ds @ r))" using assms(1) by (cases ds) (simp_all add: peek_def)
  then have "peek (ds @ r) \<noteq> CHR ''-''" by (auto simp: isdigit_def)
  then show "string2double (ds @ r) = (Finite (int (digits_value 10 0 ds)) 0, r)"
    using i assms(4) by (simp add: string2double_def)
qed

text \<open>An integer literal is consumed and read exactly.\<close>

lemma string2double_int_str:
  assumes "\<bar>v\<bar> < 2 ^ 53" "\<not> isdigit (peek r)" "peek r \<notin> {CHR ''.'', CHR ''e'', CHR ''E''}"
  shows "string2double (int_str v @ r) = (Finite v 0, r)"
  using string2double_exact [OF nat_str_digits, of "nat \<bar>v\<bar>" r] assms by (cases "v < 0") (simp_all add: int_str_def)

lemma d_to_int_exact: "INT_MIN \<le> v \<Longrightarrow> v \<le> INT_MAX \<Longrightarrow> d_to_int (Finite v 0) = Some v"
  by simp

end
