(* ===== verification/Gason.thy ===== *)
theory Gason
  imports Doubles "HOL-Library.Sublist"
begin

text \<open>
  The destructive JSON reader \<open>inc/gason\<close> that the device registry, the service registry and the
  orchestrator use on the body of a request. A cursor is the rest of the buffer, whose end is the
  terminator of the string; the pointer one behind the terminator has no representation, and reading
  there is \<open>OutOfBounds\<close>. The reader overwrites a string with its decoded form, which never reaches
  the cursor, so a value holds the C string that is in the buffer at the end. A list of nodes that
  grows at its tail is a list; memory for nodes is taken from zones, which are modelled apart.
\<close>

section \<open>Values\<close>

datatype JsonValue =
  JSON_NUMBER double
| JSON_STRING string
| JSON_ARRAY "JsonValue list"
| JSON_OBJECT "(string \<times> JsonValue) list"
| JSON_TRUE
| JSON_FALSE
| JSON_NULL

datatype JsonParseStatus =
  JSON_PARSE_OK
| JSON_PARSE_BAD_NUMBER
| JSON_PARSE_BAD_STRING
| JSON_PARSE_BAD_IDENTIFIER
| JSON_PARSE_STACK_OVERFLOW
| JSON_PARSE_STACK_UNDERFLOW
| JSON_PARSE_MISMATCH_BRACKET
| JSON_PARSE_UNEXPECTED_CHARACTER
| JSON_PARSE_UNQUOTED_KEY
| JSON_PARSE_BREAKING_BAD

fun isNumber :: "JsonValue \<Rightarrow> bool" where
  "isNumber (JSON_NUMBER _) = True"
| "isNumber _ = False"

fun isString :: "JsonValue \<Rightarrow> bool" where
  "isString (JSON_STRING _) = True"
| "isString _ = False"

fun isObject :: "JsonValue \<Rightarrow> bool" where
  "isObject (JSON_OBJECT _) = True"
| "isObject _ = False"

text \<open>\<open>operator bool\<close>\<close>

definition present :: "JsonValue \<Rightarrow> bool" where
  "present v \<longleftrightarrow> v \<noteq> JSON_NULL"

text \<open>
  The conversions without a flag assert the type; a failed assertion ends the process or, with
  assertions compiled out, yields a pointer made of other bits: no value in either case.
\<close>

fun toString :: "JsonValue \<Rightarrow> string option" where
  "toString (JSON_STRING s) = Some s"
| "toString _ = None"

fun toInt :: "JsonValue \<Rightarrow> int option" where
  "toInt (JSON_NUMBER x) = d_to_int x"
| "toInt _ = None"

text \<open>
  The nodes an iterator visits. A node of an array has no key: the memory for it is not even
  allocated.
\<close>

fun nodes :: "JsonValue \<Rightarrow> (string option \<times> JsonValue) list" where
  "nodes (JSON_ARRAY vs) = map (\<lambda>v. (None, v)) vs"
| "nodes (JSON_OBJECT kvs) = map (\<lambda>(k, v). (Some k, v)) kvs"
| "nodes _ = []"

text \<open>
  \<open>strncmp(it->key, key, strlen(key)) == 0\<close>: the key of the node begins with the key that is asked
  for. On a node without a key this is undefined.
\<close>

fun child_loop :: "string \<Rightarrow> (string option \<times> JsonValue) list \<Rightarrow> JsonValue option" where
  "child_loop key [] = Some JSON_NULL"
| "child_loop key ((k, v) # ns) =
     (case k of
        None \<Rightarrow> None
      | Some k \<Rightarrow> if take (length key) k = key then Some v else child_loop key ns)"

definition child :: "string \<Rightarrow> JsonValue \<Rightarrow> JsonValue option" where
  "child key v = child_loop key (nodes v)"

definition json_at :: "JsonValue \<Rightarrow> nat \<Rightarrow> JsonValue" where
  "json_at v index =
     (case v of
        JSON_ARRAY vs \<Rightarrow> if index < length vs then vs ! index else JSON_NULL
      | _ \<Rightarrow> JSON_NULL)"

section \<open>Scanning\<close>

definition isdelim :: "char \<Rightarrow> bool" where
  "isdelim c \<longleftrightarrow> c = CHR '','' \<or> c = CHR '':'' \<or> c = CHR '']'' \<or> c = CHR ''}'' \<or> isspace c \<or> c = NUL"

definition isxdigit :: "char \<Rightarrow> bool" where
  "isxdigit c \<longleftrightarrow>
     (48 \<le> c_int c \<and> c_int c \<le> 57) \<or> (65 \<le> and (c_int c) (not 32) \<and> and (c_int c) (not 32) \<le> 70)"

definition char2int :: "char \<Rightarrow> int" where
  "char2int c = (if c_int c \<le> 57 then c_int c - 48 else and (c_int c) (not 32) - 65 + 10)"

definition put_codepoint :: "int \<Rightarrow> string" where
  "put_codepoint c =
     (if c < 0x80 then [to_char c]
      else if c < 0x800 then [to_char (or 0xC0 (drop_bit 6 c)), to_char (or 0x80 (and c 0x3F))]
      else
        [to_char (or 0xE0 (drop_bit 12 c)), to_char (or 0x80 (and (drop_bit 6 c) 0x3F)),
         to_char (or 0x80 (and c 0x3F))])"

text \<open>
  The loop over a string: what it has written, the rest, and whether it saw the closing quote; the
  loop also ends, without an error, at the terminator. \<open>None\<close> is a bad string.
\<close>

fun scan_string :: "string \<Rightarrow> string \<Rightarrow> (string \<times> string \<times> bool) option" where
  "scan_string out [] = Some (out, [], False)"
| "scan_string out (c # s) =
     (if c = NUL then Some (out, c # s, False)
      else if c = BSLASH then
        (case s of
           [] \<Rightarrow> None
         | e # t \<Rightarrow>
             if e = CHR ''u'' then
               (case t of
                  h1 # h2 # h3 # h4 # t' \<Rightarrow>
                    if list_all isxdigit [h1, h2, h3, h4]
                    then scan_string (out @ put_codepoint
                      (((char2int h1 * 16 + char2int h2) * 16 + char2int h3) * 16 + char2int h4)) t'
                    else None
                | _ \<Rightarrow> None)
             else
               (case unescaped e of
                  None \<Rightarrow> None
                | Some x \<Rightarrow> scan_string (out @ [x]) t))
      else if code c < 32 \<or> code c = 127 then None
      else if c = DQUOTE then Some (out, s, True)
      else scan_string (out @ [c]) s)"

text \<open>
  Behind the closing quote the loop writes a terminator; a string that is not closed runs on into
  the bytes that were not overwritten.
\<close>

definition buffer_string :: "string \<Rightarrow> string \<Rightarrow> bool \<Rightarrow> string" where
  "buffer_string s out closed = cstr (if closed then out else out @ drop (length out) s)"

text \<open>
  The cases of the switch that make a value without looking at the stack; \<open>c\<close> is the character at
  \<open>*endptr\<close>. Behind \<open>null\<close> the cursor moves four characters although three are left, past the
  delimiter; when that is the terminator, there is no cursor any more.
\<close>

definition scan_value :: "char \<Rightarrow> string \<Rightarrow> JsonParseStatus + (JsonValue \<times> string option)" where
  "scan_value c s =
     (if c = CHR ''-'' \<or> isdigit c then
        (if c = CHR ''-'' \<and> \<not> isdigit (peek s) \<and> peek s \<noteq> CHR ''.'' then Inl JSON_PARSE_BAD_NUMBER
         else
           (let (x, r) = string2double (c # s)
            in if isdelim (peek r) then Inr (JSON_NUMBER x, Some r) else Inl JSON_PARSE_BAD_NUMBER))
      else if c = DQUOTE then
        (case scan_string [] s of
           None \<Rightarrow> Inl JSON_PARSE_BAD_STRING
         | Some (out, r, closed) \<Rightarrow>
             if isdelim (peek r) then Inr (JSON_STRING (buffer_string s out closed), Some r)
             else Inl JSON_PARSE_BAD_STRING)
      else if c = CHR ''t'' then
        (if take 3 s = ''rue'' \<and> isdelim (peek (drop 3 s)) then Inr (JSON_TRUE, Some (drop 3 s))
         else Inl JSON_PARSE_BAD_IDENTIFIER)
      else if c = CHR ''f'' then
        (if take 4 s = ''alse'' \<and> isdelim (peek (drop 4 s)) then Inr (JSON_FALSE, Some (drop 4 s))
         else Inl JSON_PARSE_BAD_IDENTIFIER)
      else
        (if take 3 s = ''ull'' \<and> isdelim (peek (drop 3 s))
         then Inr (JSON_FALSE, if length s = 3 then None else Some (drop 4 s))
         else Inl JSON_PARSE_BAD_IDENTIFIER))"

section \<open>The parser\<close>

text \<open>A level of the stack: \<open>tags[pos]\<close>, \<open>keys[pos]\<close> and the nodes behind \<open>tails[pos]\<close>.\<close>

record frame =
  fr_object :: bool
  fr_key :: "string option"
  fr_nodes :: "(string \<times> JsonValue) list"

definition JSON_STACK_SIZE :: nat where "JSON_STACK_SIZE = 32"

definition new_frame :: "bool \<Rightarrow> frame" where
  "new_frame ob = \<lparr>fr_object = ob, fr_key = None, fr_nodes = []\<rparr>"

definition listToValue :: "frame \<Rightarrow> JsonValue" where
  "listToValue f = (if fr_object f then JSON_OBJECT (fr_nodes f) else JSON_ARRAY (map snd (fr_nodes f)))"

text \<open>
  The result of the parser: the status with the root, which is null unless the status is OK. A step
  of its loop ends it or goes on with a cursor, the stack (its top first) and the flag
  \<open>separator\<close>.
\<close>

datatype parse_result = Parse JsonParseStatus JsonValue | OutOfBounds

datatype step = Halt parse_result | Next "string option" "frame list" bool

definition fail :: "JsonParseStatus \<Rightarrow> step" where
  "fail st = Halt (Parse st JSON_NULL)"

text \<open>The end of the loop's body, which stores a value in the container on top of the stack.\<close>

definition store_value :: "JsonValue \<Rightarrow> string option \<Rightarrow> frame list \<Rightarrow> step" where
  "store_value v r stk =
     (case stk of
        [] \<Rightarrow> Halt (Parse JSON_PARSE_OK v)
      | f # fs \<Rightarrow>
          if fr_object f then
            (case fr_key f of
               None \<Rightarrow>
                 (case v of
                    JSON_STRING k \<Rightarrow> Next r (f\<lparr>fr_key := Some k\<rparr> # fs) False
                  | _ \<Rightarrow> fail JSON_PARSE_UNQUOTED_KEY)
             | Some k \<Rightarrow> Next r (f\<lparr>fr_key := None, fr_nodes := fr_nodes f @ [(k, v)]\<rparr> # fs) False)
          else Next r (f\<lparr>fr_nodes := fr_nodes f @ [([], v)]\<rparr> # fs) False)"

definition close_container :: "bool \<Rightarrow> string \<Rightarrow> frame list \<Rightarrow> step" where
  "close_container ob s stk =
     (case stk of
        [] \<Rightarrow> fail JSON_PARSE_STACK_UNDERFLOW
      | f # fs \<Rightarrow>
          if fr_object f \<noteq> ob then fail JSON_PARSE_MISMATCH_BRACKET
          else if ob \<and> fr_key f \<noteq> None then fail JSON_PARSE_UNEXPECTED_CHARACTER
          else store_value (listToValue f) (Some s) fs)"

definition open_container :: "bool \<Rightarrow> string \<Rightarrow> frame list \<Rightarrow> step" where
  "open_container ob s stk =
     (if length stk = JSON_STACK_SIZE then fail JSON_PARSE_STACK_OVERFLOW
      else Next (Some s) (new_frame ob # stk) True)"

text \<open>\<open>case ':'\<close> and \<open>case ','\<close>; with an empty stack they would read in front of \<open>keys\<close>.\<close>

definition separate :: "bool \<Rightarrow> string \<Rightarrow> frame list \<Rightarrow> bool \<Rightarrow> step" where
  "separate colon s stk separator =
     (if separator then fail JSON_PARSE_UNEXPECTED_CHARACTER
      else
        (case stk of
           [] \<Rightarrow> Halt OutOfBounds
         | f # fs \<Rightarrow>
             if (fr_key f = None) = colon then fail JSON_PARSE_UNEXPECTED_CHARACTER
             else Next (Some s) stk True))"

definition starts_value :: "char \<Rightarrow> bool" where
  "starts_value c \<longleftrightarrow> isdigit c \<or> c \<in> set [CHR ''-'', DQUOTE, CHR ''t'', CHR ''f'', CHR ''n'']"

definition parse_step :: "char \<Rightarrow> string \<Rightarrow> frame list \<Rightarrow> bool \<Rightarrow> step" where
  "parse_step c s stk separator =
     (if starts_value c then
        (case scan_value c s of
           Inl st \<Rightarrow> fail st
         | Inr (v, r) \<Rightarrow> store_value v r stk)
      else if c = CHR '']'' then close_container False s stk
      else if c = CHR ''}'' then close_container True s stk
      else if c = CHR ''['' then open_container False s stk
      else if c = CHR ''{'' then open_container True s stk
      else if c = CHR '':'' then separate True s stk separator
      else if c = CHR '','' then separate False s stk separator
      else if c = NUL then Next (Some s) stk separator
      else fail JSON_PARSE_UNEXPECTED_CHARACTER)"

text \<open>A step never moves the cursor back: the rest is a suffix of what was there.\<close>

lemma read_integer_suffix: "read_integer x s = (y, r) \<Longrightarrow> suffix r s"
  by (induction x s arbitrary: y r rule: read_integer.induct) (auto split: if_splits intro: suffix_ConsI)

lemma read_fraction_suffix: "read_fraction x f s = (y, r) \<Longrightarrow> suffix r s"
  by (induction x f s arbitrary: y r rule: read_fraction.induct)
    (auto simp: Let_def split: if_splits intro: suffix_ConsI)

lemma read_exponent_suffix: "read_exponent n s = (m, r) \<Longrightarrow> suffix r s"
  by (induction n s arbitrary: m r rule: read_exponent.induct) (auto split: if_splits intro: suffix_ConsI)

lemma string2double_suffix:
  assumes "string2double (c # s) = (x, r)" "c = CHR ''-'' \<or> isdigit c"
  shows "suffix r s"
proof -
  obtain y t where i: "read_integer (d_int 0) (if c = CHR ''-'' then s else c # s) = (y, t)" by fastforce
  have t: "suffix t s"
  proof (cases "c = CHR ''-''")
    case True
    then show ?thesis using i read_integer_suffix by auto
  next
    case False
    then have "read_integer (d_plus (d_mult (d_int 0) (d_int 10)) (d_digit c)) s = (y, t)"
      using i assms(2) by simp
    then show ?thesis by (rule read_integer_suffix)
  qed
  obtain z u where f: "(if peek t = CHR ''.'' then read_fraction y (d_int 1) (tl t) else (y, t)) = (z, u)"
    by fastforce
  have u: "suffix u t"
    using f read_fraction_suffix [of y "d_int 1" "tl t" z u]
      suffix_order.trans [OF _ suffix_tl, of u t] by (cases "peek t = CHR ''.''") auto
  have e: "read_exponent 0 w = (n, w') \<Longrightarrow> suffix w u \<Longrightarrow> suffix w' u" for w n w'
    using read_exponent_suffix suffix_order.trans by blast
  have w: "suffix (tl u) u" "suffix (tl (tl u)) u"
    using suffix_tl suffix_order.trans by blast+
  have "suffix r u"
    using assms(1) i f w
    by (auto simp: suffix_ConsI string2double_def Let_def peek_def [of "_ # _"] split: prod.splits if_splits dest!: e)
  then show ?thesis using t u suffix_order.trans by blast
qed

lemma scan_string_suffix: "scan_string out s = Some (o', r, b) \<Longrightarrow> suffix r s"
proof (induction out s arbitrary: o' r b rule: scan_string.induct)
  case (2 out c s)
  consider "c = NUL" | "c \<noteq> NUL" "c = BSLASH" | "c \<noteq> NUL" "c \<noteq> BSLASH" by blast
  then show ?case
  proof cases
    case 2
    with "2.prems" obtain e t where s: "s = e # t" by (cases s) auto
    show ?thesis
    proof (cases "e = CHR ''u''")
      case True
      then obtain h1 h2 h3 h4 t' where t: "t = h1 # h2 # h3 # h4 # t'" and x: "list_all isxdigit [h1, h2, h3, h4]"
        and r: "scan_string (out @ put_codepoint
          (((char2int h1 * 16 + char2int h2) * 16 + char2int h3) * 16 + char2int h4)) t' = Some (o', r, b)"
        using "2.prems" 2 s by (simp split: list.splits if_splits)
      have "suffix r t'" using "2.IH"(1) [OF 2 s True t refl refl refl x r] .
      then show ?thesis using s t by (simp add: suffix_ConsI)
    next
      case False
      then obtain x where x: "unescaped e = Some x" and r: "scan_string (out @ [x]) t = Some (o', r, b)"
        using "2.prems" 2 s by (simp split: option.splits)
      have "suffix r t" using "2.IH"(2) [OF 2 s False x r] .
      then show ?thesis using s by (simp add: suffix_ConsI)
    qed
  qed (use "2.prems" "2.IH"(3) in \<open>auto split: if_splits intro: suffix_ConsI\<close>)
qed simp

lemma scan_value_suffix: "scan_value c s = Inr (v, Some r) \<Longrightarrow> suffix r s"
  by (auto simp: scan_value_def split: if_splits prod.splits option.splits
      dest: string2double_suffix scan_string_suffix intro: suffix_drop)

lemma store_value_cursor: "store_value v r stk = Next r' stk' sep \<Longrightarrow> r' = r"
  by (auto simp: store_value_def fail_def split: list.splits if_splits option.splits JsonValue.splits)

lemma parse_step_suffix: "parse_step c s stk sep = Next (Some s') stk' sep' \<Longrightarrow> suffix s' s"
  by (auto simp: parse_step_def close_container_def open_container_def separate_def fail_def
      split: if_splits sum.splits list.splits dest: store_value_cursor scan_value_suffix)

text \<open>
  The loop. The spaces are skipped up to the terminator at most; when that is reached, the cursor
  moves behind it before the switch looks at it, and is read by the condition of the loop.
\<close>

function parse_loop :: "string \<Rightarrow> frame list \<Rightarrow> bool \<Rightarrow> parse_result" where
  "parse_loop cs stk separator =
     (if peek cs = NUL then Parse JSON_PARSE_BREAKING_BAD JSON_NULL
      else
        (case dropWhile isspace cs of
           [] \<Rightarrow> OutOfBounds
         | c # s \<Rightarrow>
             (case parse_step c s stk separator of
                Halt res \<Rightarrow> res
              | Next None _ _ \<Rightarrow> OutOfBounds
              | Next (Some s') stk' separator' \<Rightarrow> parse_loop s' stk' separator')))"
  by pat_completeness auto
termination
proof (relation "measure (\<lambda>(cs, _, _). length cs)", simp)
  fix cs c s stk sep r s' stk' sep'
  assume "dropWhile isspace cs = c # s" "parse_step c s stk sep = Next r stk' sep'" "r = Some s'"
  then have "length s' \<le> length s" "length (dropWhile isspace cs) = Suc (length s)"
    using suffix_length_le [OF parse_step_suffix, of c s stk sep s' stk' sep'] by simp_all
  then show "((s', stk', sep'), (cs, stk, sep)) \<in> measure (\<lambda>(cs, _, _). length cs)"
    using length_dropWhile_le [of isspace cs] by simp
qed

declare parse_loop.simps [simp del]

definition jsonParse :: "string \<Rightarrow> parse_result" where
  "jsonParse s = parse_loop s [] True"

end
