(* ===== verification/DevModels.thy ===== *)
theory DevModels
  imports Gason Endpoint
begin

text \<open>
  The requests of the device registry: \<open>core/apps/DevRegistry/models\<close> and \<open>parsers\<close>, and
  \<open>core/helpers/ModelBuilder.h\<close>, which runs the JSON reader and a parser on the body of a request.
  A \<open>const char*\<close> that may be null is an option. The builder assigns the model to storage in which
  none was constructed; the assignment is taken as its initialisation.
\<close>

section \<open>Models\<close>

record Device =
  dev_name :: "string option"
  mac_address :: "string option"
  address :: "string option"
  auth_info :: "string option"

definition device_validate :: "Device \<Rightarrow> string option" where
  "device_validate dev =
     (if dev_name dev = None then Some ''Device name must have value.''
      else if mac_address dev = None then Some ''Device MAC address must have value.''
      else if address dev = None then Some ''Device address must have value.''
      else None)"

record DeviceRegistry =
  dr_device :: Device
  dr_end_of_validity :: "string option"
  dr_version :: int
  dr_metadata :: string

definition registry_validate :: "DeviceRegistry \<Rightarrow> string option" where
  "registry_validate dr = device_validate (dr_device dr)"

section \<open>Parsers\<close>

text \<open>A parser builds a model, refuses the value, or breaks: its behaviour is undefined.\<close>

datatype 'a built = Built 'a | Refused | Broken

text \<open>\<open>if (auto node = root.child(key)) { if (!node.isString()) return false; \<dots> = node.toString(); }\<close>\<close>

definition read_text :: "string \<Rightarrow> JsonValue \<Rightarrow> (string option \<Rightarrow> 'a built) \<Rightarrow> 'a built" where
  "read_text key root k =
     (case child key root of
        None \<Rightarrow> Broken
      | Some node \<Rightarrow>
          if present node then (if isString node then k (toString node) else Refused) else k None)"

definition device_parse :: "JsonValue \<Rightarrow> Device built" where
  "device_parse root =
     read_text ''address'' root (\<lambda>addr.
     read_text ''deviceName'' root (\<lambda>nm.
     read_text ''macAddress'' root (\<lambda>mac.
     read_text ''authenticationInfo'' root (\<lambda>info.
       Built \<lparr>dev_name = nm, mac_address = mac, address = addr, auth_info = info\<rparr>))))"

text \<open>The loop over the members of the metadata; a value that is no string breaks it.\<close>

fun join_metadata :: "string \<Rightarrow> (string option \<times> JsonValue) list \<Rightarrow> string option" where
  "join_metadata acc [] = Some acc"
| "join_metadata acc ((k, v) # ns) =
     Option.bind k (\<lambda>k. Option.bind (toString v) (\<lambda>t. join_metadata (acc @ k @ ''='' @ t @ '', '') ns))"

definition pop2 :: "string \<Rightarrow> string" where
  "pop2 s = (if s \<noteq> [] then butlast (butlast s) else s)"

definition read_version :: "JsonValue \<Rightarrow> (int \<Rightarrow> 'a built) \<Rightarrow> 'a built" where
  "read_version root k =
     (case child ''version'' root of
        None \<Rightarrow> Broken
      | Some node \<Rightarrow>
          if present node then
            (if isNumber node then (case toInt node of None \<Rightarrow> Broken | Some v \<Rightarrow> k v) else Refused)
          else k 1)"

definition read_metadata :: "JsonValue \<Rightarrow> (string \<Rightarrow> 'a built) \<Rightarrow> 'a built" where
  "read_metadata root k =
     (case child ''metadata'' root of
        None \<Rightarrow> Broken
      | Some node \<Rightarrow>
          if present node then
            (if isObject node then
               (case join_metadata [] (nodes node) of None \<Rightarrow> Broken | Some m \<Rightarrow> k (pop2 m))
             else Refused)
          else k [])"

definition registry_parse :: "JsonValue \<Rightarrow> DeviceRegistry built" where
  "registry_parse root =
     (case child ''device'' root of
        None \<Rightarrow> Broken
      | Some device \<Rightarrow>
          if present device then
            (case device_parse device of
               Built dev \<Rightarrow>
                 read_version root (\<lambda>version.
                 read_text ''endOfValidity'' root (\<lambda>eov.
                 read_metadata root (\<lambda>meta.
                   Built \<lparr>dr_device = dev, dr_end_of_validity = eov, dr_version = version, dr_metadata = meta\<rparr>)))
             | Refused \<Rightarrow> Refused
             | Broken \<Rightarrow> Broken)
          else Refused)"

definition ModelBuilder :: "string \<Rightarrow> (JsonValue \<Rightarrow> 'm built) \<Rightarrow> 'm built" where
  "ModelBuilder data builder =
     (case jsonParse data of
        OutOfBounds \<Rightarrow> Broken
      | Parse st root \<Rightarrow> if st = JSON_PARSE_OK then builder root else Refused)"

end
