(* ===== verification/DevQueries.thy ===== *)
theory DevQueries
  imports DevModels
begin

text \<open>
  The statements of the device registry, \<open>core/apps/DevRegistry/queries\<close>. An identifier of the
  database is a \<open>long\<close>; the queries take it as an \<open>unsigned long\<close> of the same bits.
\<close>

section \<open>Shared texts\<close>

definition emptyToNull :: "'d Database \<Rightarrow> string option \<Rightarrow> string" where
  "emptyToNull db data = (case data of None \<Rightarrow> ''NULL'' | Some s \<Rightarrow> db_escape db s)"

text \<open>The page is a product of two \<open>unsigned long\<close>, which wraps around.\<close>

definition fetch_page :: "'d Database \<Rightarrow> string \<Rightarrow> string \<Rightarrow> string \<Rightarrow> (Row list, 'd) action" where
  "fetch_page db q page item_per_page =
     (if page = [] then act_db (db_fetch db q)
      else case stoul page of
        Inl e \<Rightarrow> act_throw (Conversion e)
      | Inr p \<Rightarrow>
          (case stoul item_per_page of
             Inl e \<Rightarrow> act_throw (Conversion e)
           | Inr i \<Rightarrow> act_db (db_fetch db (q @ '' LIMIT '' @ item_per_page @ '' OFFSET '' @ ulong_str (p * i)))))"

definition fetch_count :: "'d Database \<Rightarrow> string \<Rightarrow> (int, 'd) action" where
  "fetch_count db q = act_bind (act_db (db_fetch_long db q 0)) (\<lambda>(_, n). act_ret n)"

definition insert_device :: "'d Database \<Rightarrow> Device \<Rightarrow> string" where
  "insert_device db dev =
     ''INSERT INTO device (device_name, mac_address, address, authentication_info) VALUES (''
       @ emptyToNull db (dev_name dev) @ '', '' @ emptyToNull db (mac_address dev) @ '', ''
       @ emptyToNull db (address dev) @ '', '' @ emptyToNull db (auth_info dev) @ '')''"

section \<open>Devices\<close>

definition getDeviceCount :: "'d Database \<Rightarrow> (int, 'd) action" where
  "getDeviceCount db = fetch_count db ''SELECT COUNT(*) FROM device''"

definition getDevices :: "'d Database \<Rightarrow> string \<Rightarrow> string \<Rightarrow> string \<Rightarrow> string \<Rightarrow> (Row list, 'd) action" where
  "getDevices db page item_per_page sort_by sort_dir =
     fetch_page db
       (''SELECT id, created_at, updated_at, device_name, address, mac_address, authentication_info FROM device ORDER BY ''
          @ sort_by @ '' '' @ sort_dir) page item_per_page"

definition getDevice :: "'d Database \<Rightarrow> ulong \<Rightarrow> (Row list, 'd) action" where
  "getDevice db ident = act_db (db_fetch db
     (''SELECT id, created_at, updated_at, device_name, address, mac_address, authentication_info FROM device WHERE id = ''
        @ ulong_str ident))"

definition delDevice :: "'d Database \<Rightarrow> ulong \<Rightarrow> (unit, 'd) action" where
  "delDevice db ident = act_db (db_query db (''DELETE FROM device WHERE id = '' @ ulong_str ident))"

definition run_checked :: "'d Database \<Rightarrow> string \<Rightarrow> (bool, 'd) action" where
  "run_checked db q = act_bind (act_db (db_query_and_check db q)) (\<lambda>n. act_ret (n \<noteq> 0))"

definition putDevice :: "'d Database \<Rightarrow> ulong \<Rightarrow> Device \<Rightarrow> (bool, 'd) action" where
  "putDevice db ident dev = run_checked db
     (''UPDATE device SET device_name = '' @ emptyToNull db (dev_name dev)
        @ '', mac_address = '' @ emptyToNull db (mac_address dev)
        @ '', address = '' @ emptyToNull db (address dev)
        @ '', authentication_info = '' @ emptyToNull db (auth_info dev)
        @ '' WHERE id = '' @ ulong_str ident)"

definition assignment :: "'d Database \<Rightarrow> string \<Rightarrow> string option \<Rightarrow> string" where
  "assignment db column data = (case data of None \<Rightarrow> [] | Some s \<Rightarrow> '' '' @ column @ '' = '' @ db_escape db s @ '','')"

definition patch_text :: "'d Database \<Rightarrow> ulong \<Rightarrow> Device \<Rightarrow> string" where
  "patch_text db ident dev =
     butlast (''UPDATE device SET'' @ assignment db ''device_name'' (dev_name dev)
        @ assignment db ''mac_address'' (mac_address dev) @ assignment db ''address'' (address dev)
        @ assignment db ''authentication_info'' (auth_info dev))
     @ '' WHERE id = '' @ ulong_str ident"

definition patchDevice :: "'d Database \<Rightarrow> ulong \<Rightarrow> Device \<Rightarrow> (bool, 'd) action" where
  "patchDevice db ident dev = run_checked db (patch_text db ident dev)"

definition postDevice :: "'d Database \<Rightarrow> slong \<Rightarrow> Device \<Rightarrow> (bool \<times> slong, 'd) action" where
  "postDevice db ident dev = act_db (db_insert db (insert_device db dev) ident)"

section \<open>Registrations\<close>

definition registry_select :: string where
  "registry_select =
     ''SELECT t2.id, t2.created_at, t2.updated_at, t2.version, t2.end_of_validity, t1.id, t1.created_at, t2.updated_at, t1.device_name, t1.mac_address, t1.address, t1.authentication_info FROM device t1 INNER JOIN device_registry t2 ON (t1.id = t2.device_id)''"

definition registry_getById :: "'d Database \<Rightarrow> ulong \<Rightarrow> (Row list, 'd) action" where
  "registry_getById db ident = act_db (db_fetch db (registry_select @ '' WHERE t2.id = '' @ ulong_str ident))"

definition registry_getCount :: "'d Database \<Rightarrow> (int, 'd) action" where
  "registry_getCount db = fetch_count db ''SELECT COUNT(*) FROM device_registry''"

definition registry_getAll :: "'d Database \<Rightarrow> string \<Rightarrow> string \<Rightarrow> string \<Rightarrow> string \<Rightarrow> (Row list, 'd) action" where
  "registry_getAll db page item_per_page sort_by sort_dir =
     fetch_page db (registry_select @ '' ORDER BY '' @ sort_by @ '' '' @ sort_dir) page item_per_page"

definition remById :: "'d Database \<Rightarrow> ulong \<Rightarrow> (unit, 'd) action" where
  "remById db ident = act_db (db_query db (''DELETE FROM device_registry WHERE id = '' @ ulong_str ident))"

text \<open>
  The text of the insertion is written to the log; what is run is the selection, once more. A device
  without a name would be read through a null pointer.
\<close>

definition findOrCreateDevice :: "'d Database \<Rightarrow> Device \<Rightarrow> (int, 'd) action" where
  "findOrCreateDevice db dev =
     act_bind (act_the (dev_name dev)) (\<lambda>nm.
       let q = ''SELECT id FROM device WHERE device_name = '' @ db_escape db nm
             @ (case mac_address dev of None \<Rightarrow> [] | Some mac \<Rightarrow> '' AND mac_address = '' @ db_escape db mac)
       in act_bind (act_db (db_fetch_long db q 0)) (\<lambda>(found, ident).
            if found then act_ret ident
            else act_bind (act_db (db_insert db q (word_of_int ident))) (\<lambda>(_, ident). act_ret (sint ident))))"

definition postDeviceRegistry :: "'d Database \<Rightarrow> DeviceRegistry \<Rightarrow> (Row list, 'd) action" where
  "postDeviceRegistry db dr =
     act_bind (findOrCreateDevice db (dr_device dr)) (\<lambda>_.
       act_db (db_fetch db ''INSERT INTO device_registry *( VALUES ()''))"

text \<open>The update of a registration is empty.\<close>

definition putDeviceRegistry :: "ulong \<Rightarrow> DeviceRegistry \<Rightarrow> (unit, 'd) action" where
  "putDeviceRegistry ident dr = act_ret ()"

definition patchDeviceRegistry :: "'d Database \<Rightarrow> ulong \<Rightarrow> DeviceRegistry \<Rightarrow> (Row list, 'd) action" where
  "patchDeviceRegistry db ident dr =
     act_bind (findOrCreateDevice db (dr_device dr)) (\<lambda>_.
       act_db (db_fetch db (registry_select @ '' WHERE t2.id = '' @ ulong_str ident)))"

definition isDeviceRegistered :: "'d Database \<Rightarrow> ulong \<Rightarrow> (bool, 'd) action" where
  "isDeviceRegistered db ident =
     act_bind (act_db (db_fetch_long db (''SELECT id FROM device_registry WHERE device_id = '' @ ulong_str ident) 0))
       (\<lambda>(found, _). act_ret found)"

end
