(* ===== verification/DevEndpoints.thy ===== *)
theory DevEndpoints
  imports DevQueries Query
begin

text \<open>
  The endpoints of the device registry, \<open>core/apps/DevRegistry/endpoints\<close>, with the members of their
  responses (\<open>responses\<close>). The common name of a client's certificate is a parameter: it is read from
  the certificate by the TLS library.
\<close>

section \<open>Members of the responses\<close>

definition D_ID :: Field where "D_ID = field_of ''id'' LongField"
definition D_CreatedAt :: Field where "D_CreatedAt = field_of ''createdAt'' StringField"
definition D_UpdatedAt :: Field where "D_UpdatedAt = field_of ''updatedAt'' StringField"
definition D_Address :: Field where "D_Address = field_of ''address'' StringField"
definition D_AuthenticationInfo :: Field where "D_AuthenticationInfo = nullable_field ''authenticationInfo'' StringField"
definition D_DeviceName :: Field where "D_DeviceName = field_of ''deviceName'' StringField"
definition D_MacAddress :: Field where "D_MacAddress = field_of ''macAddress'' StringField"
definition D_EndOfValidity :: Field where "D_EndOfValidity = nullable_field ''endOfValidity'' StringField"
definition D_Version :: Field where "D_Version = field_of ''version'' IntField"

lemmas dev_field_defs = field_of_def nullable_field_def D_ID_def D_CreatedAt_def D_UpdatedAt_def D_Address_def
  D_AuthenticationInfo_def D_DeviceName_def D_MacAddress_def D_EndOfValidity_def D_Version_def

text \<open>The lists of members that the endpoints ask for.\<close>

definition device_fields :: "Field list" where
  "device_fields = [D_ID, D_CreatedAt, D_UpdatedAt, D_DeviceName, D_Address, D_MacAddress, D_AuthenticationInfo]"

definition registered_device_fields :: "Field list" where
  "registered_device_fields =
     [D_ID, D_CreatedAt, D_UpdatedAt, D_DeviceName, D_MacAddress, D_Address, D_AuthenticationInfo]"

definition registry_fields :: "Field list" where
  "registry_fields = [D_ID, D_Version, D_CreatedAt, D_UpdatedAt, D_EndOfValidity]"

definition registry_list_fields :: "Field list" where
  "registry_list_fields = [D_ID, D_CreatedAt, D_UpdatedAt, D_Version, D_EndOfValidity]"

definition bad_payload :: "string \<Rightarrow> string \<Rightarrow> Response" where
  "bad_payload msg origin = error_from_stock BadRequest BAD_PAYLOAD msg origin"

definition invalid_parameter :: "string \<Rightarrow> string \<Rightarrow> Response" where
  "invalid_parameter msg origin = error_from_stock BadRequest INVALID_PARAMETER msg origin"

section \<open>One device\<close>

definition device_response :: "string \<Rightarrow> Row list \<Rightarrow> Response" where
  "device_response origin rows =
     (case rows of
        [] \<Rightarrow> bad_payload ''Parameter error.'' origin
      | row # _ \<Rightarrow> ok_Response (builder_str (write_items device_fields row 0 new_JsonBuilder)))"

definition getDeviceById :: "string \<Rightarrow> 'd Database \<Rightarrow> ulong \<Rightarrow> 'd answer" where
  "getDeviceById origin db ident = act_bind (getDevice db ident) (\<lambda>rows. returns (device_response origin rows))"

definition device_handle :: "'d Database \<Rightarrow> Request \<Rightarrow> 'd answer" where
  "device_handle db req =
     (case pathId (rq_uri req) 0 of
        None \<Rightarrow> act_undef
      | Some (ok, ident) \<Rightarrow>
          if ok then getDeviceById ''/mgmt/device'' db ident
          else returns (bad_payload ''Parameter error.'' ''/mgmt/device''))"

section \<open>Requests with a model or a page\<close>

text \<open>What the handlers of POST, PATCH and PUT do with the body.\<close>

definition with_model ::
  "string \<Rightarrow> (JsonValue \<Rightarrow> 'm built) \<Rightarrow> ('m \<Rightarrow> string option) \<Rightarrow> Request \<Rightarrow> ('m \<Rightarrow> 'd answer) \<Rightarrow> 'd answer" where
  "with_model origin parser validate req k =
     (if rq_content req = [] then returns (bad_payload ''Request is empty.'' origin)
      else case ModelBuilder (rq_content req) parser of
        Broken \<Rightarrow> act_undef
      | Refused \<Rightarrow> returns (from_stock BadRequest)
      | Built model \<Rightarrow>
          (case validate model of
             Some err \<Rightarrow> returns (bad_payload err origin)
           | None \<Rightarrow> k model))"

text \<open>What the handlers of GET do with the query string, after they have counted the entries.\<close>

definition with_page ::
  "string \<Rightarrow> (int, 'd) action \<Rightarrow> Request \<Rightarrow> (int \<Rightarrow> QueryString \<Rightarrow> 'd answer) \<Rightarrow> 'd answer" where
  "with_page origin counting req k =
     act_bind counting (\<lambda>num.
       case new_QueryString (rq_uri req) [''id'', ''createdAt'', ''updatedAt''] of
         None \<Rightarrow> act_undef
       | Some (error, qs) \<Rightarrow>
           if error then returns (bad_payload ''Parameter error.'' origin)
           else if qs_isInvalid qs
           then returns (bad_payload ''Only both or none of page and size may be defined.'' origin)
           else k num qs)"

section \<open>Management of the devices\<close>

definition devices_response :: "int \<Rightarrow> Row list \<Rightarrow> Response" where
  "devices_response num rows =
     ok_Response (builder_str (for_each_row ''data'' rows (\<lambda>r. write_items device_fields r 0)
       (write_int ''count'' num new_JsonBuilder)))"

definition devices_get :: "'d Database \<Rightarrow> Request \<Rightarrow> 'd answer" where
  "devices_get db req =
     with_page ''/mgmt/devices'' (getDeviceCount db) req (\<lambda>num qs.
       act_bind (getDevices db (qs_page qs) (qs_item_per_page qs) (qs_sort_field qs) (qs_direction qs)) (\<lambda>rows.
         returns (devices_response num rows)))"

definition devices_get_id :: "'d Database \<Rightarrow> ulong \<Rightarrow> 'd answer" where
  "devices_get_id db ident = getDeviceById ''/mgmt/devices'' db ident"

definition devices_post :: "'d Database \<Rightarrow> Request \<Rightarrow> 'd answer" where
  "devices_post db req =
     with_model ''/mgmt/devices'' device_parse device_validate req (\<lambda>model.
       act_bind (postDevice db 0 model) (\<lambda>(ok, ident).
         if ok then getDeviceById ''/mgmt/devices'' db ident
         else returns (invalid_parameter ''Device not found.'' ''/mgmt/devices'')))"

definition devices_patch :: "'d Database \<Rightarrow> Request \<Rightarrow> ulong \<Rightarrow> 'd answer" where
  "devices_patch db req ident =
     with_model ''/mgmt/devices'' device_parse device_validate req (\<lambda>model.
       act_bind (patchDevice db ident model) (\<lambda>ok.
         if ok then getDeviceById ''/mgmt/devices'' db ident
         else returns (invalid_parameter ''Device not found.'' ''/mgmt/devices'')))"

definition devices_put :: "'d Database \<Rightarrow> Request \<Rightarrow> ulong \<Rightarrow> 'd answer" where
  "devices_put db req ident =
     with_model ''/mgmt/devices'' device_parse device_validate req (\<lambda>model.
       act_bind (putDevice db ident model) (\<lambda>ok.
         if ok then getDeviceById ''/mgmt/devices'' db ident
         else returns (invalid_parameter ''Device not found.'' ''/mgmt/devices'')))"

definition devices_delete :: "'d Database \<Rightarrow> ulong \<Rightarrow> 'd answer" where
  "devices_delete db ident = act_bind (delDevice db ident) (\<lambda>_. returns (from_stock OK))"

section \<open>Management of the registrations\<close>

definition registry_members :: "Field list \<Rightarrow> nat \<Rightarrow> Row \<Rightarrow> ostream \<Rightarrow> ostream" where
  "registry_members fds i row os =
     write_items_object ''device'' registered_device_fields row i (write_items fds row 0 os)"

definition registry_response :: "Row list \<Rightarrow> Response" where
  "registry_response rows =
     (case rows of
        [] \<Rightarrow> bad_payload ''Parameter error.'' ''/mgmt''
      | row # _ \<Rightarrow> ok_Response (builder_str (registry_members registry_fields 5 row new_JsonBuilder)))"

definition registry_byId :: "'d Database \<Rightarrow> ulong \<Rightarrow> 'd answer" where
  "registry_byId db ident = act_bind (registry_getById db ident) (\<lambda>rows. returns (registry_response rows))"

definition registry_get :: "'d Database \<Rightarrow> Request \<Rightarrow> 'd answer" where
  "registry_get db req =
     with_page ''/mgmt'' (registry_getCount db) req (\<lambda>num qs.
       act_bind (registry_getAll db (qs_page qs) (qs_item_per_page qs) (qs_sort_field qs) (qs_direction qs)) (\<lambda>rows.
         returns (case rows of
             [] \<Rightarrow> from_stock BadRequest
           | row # _ \<Rightarrow>
               ok_Response (builder_str (registry_members registry_list_fields 5 row
                 (write_int ''count'' num new_JsonBuilder))))))"

definition registry_get_id :: "ulong \<Rightarrow> 'd answer" where
  "registry_get_id ident = returns (from_stock BadRequest)"

text \<open>The identifier is passed by value and stays uninitialised.\<close>

definition registry_post :: "ulong \<Rightarrow> 'd Database \<Rightarrow> Request \<Rightarrow> 'd answer" where
  "registry_post uninit db req =
     with_model ''/mgmt'' registry_parse registry_validate req (\<lambda>model.
       act_bind (postDeviceRegistry db model) (\<lambda>rows.
         if rows \<noteq> [] then registry_byId db uninit
         else returns (invalid_parameter ''Device not found.'' ''/mgmt'')))"

text \<open>The bodies of \<open>handlePatch\<close> and \<open>handlePut\<close> are the same.\<close>

definition registry_put :: "'d Database \<Rightarrow> Request \<Rightarrow> ulong \<Rightarrow> 'd answer" where
  "registry_put db req ident =
     with_model ''/mgmt'' registry_parse registry_validate req (\<lambda>model.
       act_bind (registry_getById db ident) (\<lambda>rows.
         case rows of
           [] \<Rightarrow> returns (invalid_parameter ''Device Registry entry does not exist.'' ''/mgmt'')
         | row # _ \<Rightarrow>
             act_bind (findOrCreateDevice db (dr_device model)) (\<lambda>theDevId.
             act_bind
               (let (not_null, devId) = get_long row 5 in
                if not_null \<and> theDevId \<noteq> devId then isDeviceRegistered db (word_of_int theDevId) else act_ret False)
               (\<lambda>taken.
                  if taken then returns (invalid_parameter ''Device already registered.'' ''/mgmt'')
                  else act_bind (putDeviceRegistry ident model) (\<lambda>_. registry_byId db ident)))))"

definition registry_patch :: "'d Database \<Rightarrow> Request \<Rightarrow> ulong \<Rightarrow> 'd answer" where
  "registry_patch db req ident = registry_put db req ident"

definition registry_delete :: "'d Database \<Rightarrow> ulong \<Rightarrow> 'd answer" where
  "registry_delete db ident = act_bind (remById db ident) (\<lambda>_. returns (from_stock OK))"

section \<open>Exceptions of the client services\<close>

definition guarded :: "string \<Rightarrow> 'd answer \<Rightarrow> 'd answer" where
  "guarded origin = act_catch (\<lambda>e. returns
     (case e of
        Db _ \<Rightarrow> error_from_stock InternalServerError ARROWHEAD ''Database operation exception.'' origin
      | _ \<Rightarrow> error_from_stock InternalServerError GENERIC ''Unknow error.'' origin))"

section \<open>Unregistration\<close>

text \<open>The parameters: the name and the MAC address.\<close>

definition store_unregister :: "string \<times> string \<Rightarrow> string \<times> string \<Rightarrow> bool \<times> (string \<times> string)" where
  "store_unregister kv s = refused
     (or_else
       (let (r, t, e) = sink_string ''device_name'' kv (fst s) in (r, (t, snd s), e))
       (\<lambda>s. let (r, t, e) = sink_string ''mac_address'' kv (snd s) in (r, (fst s, t), e)))"

definition device_select :: "'d Database \<Rightarrow> string \<Rightarrow> string \<Rightarrow> string" where
  "device_select db nm mac =
     ''SELECT id FROM device WHERE device_name = '' @ db_escape db nm @ '' AND mac_address = '' @ db_escape db mac"

definition in_quotes :: "string \<Rightarrow> string" where
  "in_quotes s = CHR 0x27 # s @ [CHR 0x27]"

definition unregister_device :: "int \<Rightarrow> 'd Database \<Rightarrow> string \<Rightarrow> string \<Rightarrow> 'd answer" where
  "unregister_device uninit db nm mac =
     act_bind (act_db (db_fetch_long db (device_select db nm mac) uninit)) (\<lambda>(found, device_id).
       if \<not> found then
         returns (invalid_parameter
           (''Device entry with name '' @ in_quotes nm @ '' and MAC address '' @ in_quotes mac @ '' does not exist'') ''/unregister'')
       else act_bind (act_db (db_query db (''DELETE FROM device_registry WHERE device_id = '' @ int_str device_id)))
         (\<lambda>_. returns (from_stock OK)))"

definition unregister :: "(nat \<Rightarrow> string) \<Rightarrow> int \<Rightarrow> 'd Database \<Rightarrow> Request \<Rightarrow> 'd answer" where
  "unregister common_name uninit db req =
     (case read_query store_unregister (new_Parser (rq_uri req)) ([], []) of
        None \<Rightarrow> act_undef
      | Some (error, nm, mac) \<Rightarrow>
          if error then returns (bad_payload ''Parameter error.'' ''/unregister'')
          else if nm = [] \<or> mac = [] then
            returns (bad_payload ''Only both or none of page and size may be defined.'' ''/unregister'')
          else if (case rq_cert req of None \<Rightarrow> True | Some cert \<Rightarrow> nm \<noteq> common_name cert) then
            returns (error_from_stock BadRequest AUTH (''Cannot unregister someone else'' @ [CHR 0x27] @ ''s device.'') ''/unregister'')
          else unregister_device uninit db nm mac)"

definition unregister_handle :: "(nat \<Rightarrow> string) \<Rightarrow> int \<Rightarrow> 'd Database \<Rightarrow> Request \<Rightarrow> 'd answer" where
  "unregister_handle common_name uninit db req =
     guarded ''/unregister''
       (if rq_content req \<noteq> [] then returns (bad_payload ''Invalid payload for request.'' ''/unregister'')
        else unregister common_name uninit db req)"

section \<open>Queries\<close>

text \<open>
  A member that has to be a string if it is there; \<open>root.child\<close> on an array reads keys that are not
  there.
\<close>

definition node_of :: "string \<Rightarrow> JsonValue \<Rightarrow> (JsonValue \<Rightarrow> ('a, 'd) action) \<Rightarrow> ('a, 'd) action" where
  "node_of key root k = act_bind (act_the (child key root)) k"

definition mac_condition :: "'d Database \<Rightarrow> JsonValue \<Rightarrow> (string, 'd) action" where
  "mac_condition db root =
     node_of ''macAddressRequirement'' root (\<lambda>mac.
       if present mac then
         (if \<not> isString mac then act_throw (Runtime ''Mac address error'')
          else act_bind (act_the (toString mac)) (\<lambda>t. act_ret ('' AND t1.mac_address = '' @ db_escape db t)))
       else act_ret [])"

text \<open>The type of the address is looked at, but the request goes on.\<close>

definition address_condition :: "'d Database \<Rightarrow> JsonValue \<Rightarrow> (string, 'd) action" where
  "address_condition db root =
     node_of ''addressRequirement'' root (\<lambda>a.
       if present a
       then act_bind (act_the (toString a)) (\<lambda>t. act_ret ('' AND t1.address = '' @ db_escape db t))
       else act_ret [])"

definition version_bound :: "string \<Rightarrow> string \<Rightarrow> JsonValue \<Rightarrow> (string option, 'd) action" where
  "version_bound key text root =
     node_of key root (\<lambda>v.
       if present v then
         (if \<not> isNumber v then act_throw (Runtime ''Mac address error'')
          else act_bind (act_the (toInt v)) (\<lambda>n. act_ret (Some (text @ int_str n))))
       else act_ret None)"

definition version_condition :: "JsonValue \<Rightarrow> (string, 'd) action" where
  "version_condition root =
     act_bind (version_bound ''versionRequirement'' '' AND t1.version = '' root) (\<lambda>v.
       case v of
         Some t \<Rightarrow> act_ret t
       | None \<Rightarrow>
           act_bind (version_bound ''maxVersionRequirement'' '' AND t1.version <= '' root) (\<lambda>hi.
           act_bind (version_bound ''minVersionRequirement'' '' AND t1.version >= '' root) (\<lambda>lo.
             act_ret ((case hi of None \<Rightarrow> [] | Some t \<Rightarrow> t) @ (case lo of None \<Rightarrow> [] | Some t \<Rightarrow> t)))))"

definition query_getCount :: "'d Database \<Rightarrow> string \<Rightarrow> JsonValue \<Rightarrow> (int, 'd) action" where
  "query_getCount db device_name root =
     act_bind (mac_condition db root) (\<lambda>cond.
       fetch_count db
         (''SELECT COUNT(*) FROM device t1 INNER JOIN device_registry t2 ON (t1.id = t2.device_id) WHERE t1.device_name = ''
            @ db_escape db device_name @ cond))"

definition buildQuery :: "'d Database \<Rightarrow> string \<Rightarrow> JsonValue \<Rightarrow> (Row list, 'd) action" where
  "buildQuery db device_name root =
     act_bind (mac_condition db root) (\<lambda>mac.
     act_bind (address_condition db root) (\<lambda>addr.
     act_bind (version_condition root) (\<lambda>version.
       act_db (db_fetch db
         (''SELECT t2.id, t2.version, t2.created_at, t2.updated_at, t2.end_of_validity, t2.metadata, t1.id, t1.created_at, t2.updated_at, t1.device_name, t1.mac_address, t1.address, t1.authentication_info FROM device t1 INNER JOIN device_registry t2 ON (t1.id = t2.device_id) WHERE t1.device_name = ''
            @ db_escape db device_name @ mac @ addr @ version)))))"

text \<open>The members of the metadata: strings under keys that differ.\<close>

fun distinct_metadata :: "string list \<Rightarrow> (string option \<times> JsonValue) list \<Rightarrow> bool option" where
  "distinct_metadata seen [] = Some True"
| "distinct_metadata seen ((k, v) # ns) =
     (if isString v then Option.bind k (\<lambda>k. if k \<in> set seen then Some False else distinct_metadata (k # seen) ns)
      else Some False)"

definition query_response :: "int \<Rightarrow> Row list \<Rightarrow> Response" where
  "query_response num rows =
     ok_Response (builder_str (for_each_row ''deviceQueryData'' rows (registry_members registry_fields 6)
       (write_int ''unfilteredHits'' num new_JsonBuilder)))"

definition query :: "'d Database \<Rightarrow> Request \<Rightarrow> 'd answer" where
  "query db req =
     (case jsonParse (rq_content req) of
        OutOfBounds \<Rightarrow> act_undef
      | Parse st root \<Rightarrow>
          if st \<noteq> JSON_PARSE_OK then returns (from_stock BadRequest)
          else
            node_of ''deviceNameRequirement'' root (\<lambda>device_name.
              if \<not> isString device_name then returns (from_stock BadRequest)
              else
                node_of ''metadata'' root (\<lambda>meta.
                act_bind (act_the (distinct_metadata [] (nodes meta))) (\<lambda>ok.
                  if \<not> ok then returns (from_stock BadRequest)
                  else
                    act_catch
                      (\<lambda>e. case e of
                         Runtime _ \<Rightarrow> returns (bad_payload ''Invalid payload for request.'' ''/query'')
                       | _ \<Rightarrow> act_throw e)
                      (act_bind (act_the (toString device_name)) (\<lambda>nm.
                       act_bind (query_getCount db nm root) (\<lambda>num.
                       act_bind (buildQuery db nm root) (\<lambda>rows.
                         returns (query_response num rows)))))))))"

definition query_handle :: "'d Database \<Rightarrow> Request \<Rightarrow> 'd answer" where
  "query_handle db req =
     guarded ''/query''
       (if rq_content req = [] then returns (bad_payload ''Invalid payload for request.'' ''/query'')
        else query db req)"

section \<open>Registration\<close>

text \<open>A member that counts only when it is a string.\<close>

definition optional_text :: "string \<Rightarrow> JsonValue \<Rightarrow> (string, 'd) action" where
  "optional_text key v =
     node_of key v (\<lambda>node. act_ret (case toString node of None \<Rightarrow> [] | Some t \<Rightarrow> t))"

definition text_or_null :: "string \<Rightarrow> JsonValue \<Rightarrow> (string option, 'd) action" where
  "text_or_null key v =
     node_of key v (\<lambda>node.
       if present node then (if isString node then act_ret (toString node) else act_throw (Runtime ''x''))
       else act_ret None)"

definition register_findOrCreate :: "'d Database \<Rightarrow> JsonValue \<Rightarrow> (int, 'd) action" where
  "register_findOrCreate db device =
     act_bind (optional_text ''deviceName'' device) (\<lambda>nm.
       if nm = [] then act_throw (Runtime ''x'')
       else act_bind (optional_text ''macAddress'' device) (\<lambda>mac.
         if mac = [] then act_throw (Runtime ''x'')
         else act_bind (text_or_null ''address'' device) (\<lambda>addr.
         act_bind (text_or_null ''authenticationInfo'' device) (\<lambda>info.
         act_bind (act_db (db_fetch_long db (device_select db nm mac) 0)) (\<lambda>(found, ident).
           if \<not> found then
             act_bind (act_db (db_insert db
               (''INSERT INTO device (device_name, mac_address, address, authentication_info) VALES (''
                  @ db_escape db nm @ '', '' @ db_escape db mac @ '', '' @ emptyToNull db addr @ '', ''
                  @ emptyToNull db info @ '')'') (word_of_int ident)))
               (\<lambda>(_, ident). act_ret (sint ident))
           else
             act_bind (act_db (db_query db
               (''UPDATE device SET address = '' @ emptyToNull db addr @ '', authentication_info = '' @ emptyToNull db info)))
               (\<lambda>_. act_ret ident))))))"

text \<open>The loop over the metadata: the text so far, or that the request is refused.\<close>

fun register_metadata :: "string \<Rightarrow> (string option \<times> JsonValue) list \<Rightarrow> string option option" where
  "register_metadata acc [] = Some (Some acc)"
| "register_metadata acc ((k, v) # ns) =
     (case toString v of
        None \<Rightarrow> Some None
      | Some t \<Rightarrow> Option.bind k (\<lambda>k. register_metadata (acc @ '', '' @ k @ ''='' @ t) ns))"

definition register_version :: "JsonValue \<Rightarrow> (int, 'd) action" where
  "register_version root =
     node_of ''version'' root (\<lambda>v. if isNumber v then act_the (toInt v) else act_ret 1)"

definition register_insert :: "'d Database \<Rightarrow> int \<Rightarrow> string \<Rightarrow> int \<Rightarrow> string \<Rightarrow> string" where
  "register_insert db device_id metadata version eov =
     (if eov = [] then
        ''INSERT INTO device_registry (device_id, metadata, version) VALUES ('' @ int_str device_id @ '', ''
          @ db_escape db metadata @ '', '' @ int_str version @ '')''
      else
        ''INSERT INTO device_registry (device_id, metadata, version, end_of_validity) VALUES ('' @ int_str device_id
          @ '', '' @ db_escape db metadata @ '', '' @ int_str version @ '', '' @ in_quotes eov @ '')'')"

definition register_select :: "int \<Rightarrow> int \<Rightarrow> string" where
  "register_select device_id ident =
     ''SELECT t2.id, t2.version, t2.created_at, t2.updated_at, t2.end_of_validity, t1.id, t1.created_at, t2.updated_at, t1.device_name, t1.mac_address, t1.address, t1.authentication_info FROM device t1 INNER JOIN device_registry t2 ON (t1.id = t2.device_id) WHERE t1.id = ''
       @ int_str device_id @ '' AND t2.id = '' @ int_str ident"

text \<open>The part of \<open>process\<close> behind the lookup of the device, and the whole.\<close>

definition store_registration :: "'d Database \<Rightarrow> JsonValue \<Rightarrow> int \<Rightarrow> 'd answer" where
  "store_registration db root device_id =
     node_of ''metadata'' root (\<lambda>meta.
     act_bind (act_the (register_metadata [] (nodes meta))) (\<lambda>m.
       case m of
         None \<Rightarrow> returns (from_stock BadRequest)
       | Some metadata \<Rightarrow>
           act_bind (register_version root) (\<lambda>version.
           act_bind (optional_text ''endOfValidity'' root) (\<lambda>eov.
           act_bind (act_db (db_insert db (register_insert db device_id (pop2 metadata) version eov) 0)) (\<lambda>(_, ident).
           act_bind (act_db (db_fetch db (register_select device_id (sint ident)))) (\<lambda>rows.
             returns (case rows of
                 [] \<Rightarrow> from_stock BadRequest
               | row # _ \<Rightarrow> ok_Response (builder_str (registry_members registry_fields 5 row new_JsonBuilder)))))))))"

definition process :: "'d Database \<Rightarrow> Request \<Rightarrow> 'd answer" where
  "process db req =
     (case jsonParse (rq_content req) of
        OutOfBounds \<Rightarrow> act_undef
      | Parse st root \<Rightarrow>
          if st \<noteq> JSON_PARSE_OK then returns (from_stock BadRequest)
          else
            node_of ''device'' root (\<lambda>device.
              if \<not> isObject device then returns (from_stock BadRequest)
              else act_bind (register_findOrCreate db device) (store_registration db root)))"

definition register_handle :: "'d Database \<Rightarrow> Request \<Rightarrow> 'd answer" where
  "register_handle db req =
     guarded ''/register''
       (if rq_content req = [] then returns (bad_payload ''Invalid payload for request.'' ''/register'')
        else process db req)"

end
