(* ===== verification/Gason_Laws.thy ===== *)
theory Gason_Laws
  imports Gason Json_Roundtrip
begin

text \<open>
  Laws of the reader \<open>gason\<close>: the stack is never indexed out of its bounds and bounds the depth of
  what is read; the buffer is left only by inputs that end in a space or in \<open>null\<close>; and the reader
  understands what the writer of \<open>utils/json/JsonView.h\<close> writes.
\<close>

section \<open>The loop\<close>

definition resume :: "step \<Rightarrow> parse_result" where
  "resume st =
     (case st of
        Halt res \<Rightarrow> res
      | Next None _ _ \<Rightarrow> OutOfBounds
      | Next (Some s) stk separator \<Rightarrow> parse_loop s stk separator)"

lemma resume_simps [simp]:
  "resume (Halt res) = res"
  "resume (Next None stk sep) = OutOfBounds"
  "resume (Next (Some s) stk sep) = parse_loop s stk sep"
  by (simp_all add: resume_def)

lemma resume_fail [simp]: "resume (fail st) = Parse st JSON_NULL"
  by (simp add: fail_def)

lemma peek_Cons [simp]: "peek (c # s) = c"
  by (simp add: peek_def)

lemma loop_here: "\<not> isspace c \<Longrightarrow> c \<noteq> NUL \<Longrightarrow> parse_loop (c # s) stk sep = resume (parse_step c s stk sep)"
  by (subst parse_loop.simps) (simp add: resume_def)

lemma loop_space: "c \<noteq> NUL \<Longrightarrow> parse_loop (CHR '' '' # c # s) stk sep = parse_loop (c # s) stk sep"
  by (simp add: parse_loop.simps [of "_ # _"] isspace_def)

section \<open>The stack\<close>

definition stack_ok :: "frame list \<Rightarrow> bool \<Rightarrow> bool" where
  "stack_ok stk sep \<longleftrightarrow> length stk \<le> JSON_STACK_SIZE \<and> (stk = [] \<longrightarrow> sep)"

lemma store_value_stack:
  "store_value v r stk = Next r' stk' sep \<Longrightarrow> length stk \<le> JSON_STACK_SIZE \<Longrightarrow> stack_ok stk' sep"
  by (auto simp: store_value_def stack_ok_def fail_def
      split: list.splits if_splits option.splits JsonValue.splits)

lemma parse_step_stack:
  "stack_ok stk sep \<Longrightarrow> parse_step c s stk sep = Next r stk' sep' \<Longrightarrow> stack_ok stk' sep'"
  by (auto simp: parse_step_def close_container_def open_container_def separate_def fail_def stack_ok_def
      split: if_splits sum.splits list.splits dest!: store_value_stack)

lemma store_value_halts: "store_value v r stk \<noteq> Halt OutOfBounds"
  by (auto simp: store_value_def fail_def split: list.splits option.splits JsonValue.splits)

lemma parse_step_in_stack: "stack_ok stk sep \<Longrightarrow> parse_step c s stk sep \<noteq> Halt OutOfBounds"
proof -
  assume ok: "stack_ok stk sep"
  have "close_container ob s stk \<noteq> Halt OutOfBounds" "open_container ob s stk \<noteq> Halt OutOfBounds" for ob
    by (simp_all add: close_container_def open_container_def fail_def store_value_halts split: list.splits)
  moreover have "separate colon s stk sep \<noteq> Halt OutOfBounds" for colon
    using ok by (cases stk) (simp_all add: separate_def fail_def stack_ok_def)
  moreover have "(case scan_value c s of Inl st \<Rightarrow> fail st | Inr (v, r) \<Rightarrow> store_value v r stk) \<noteq> Halt OutOfBounds"
    by (simp add: fail_def store_value_halts split: sum.splits prod.splits)
  ultimately show ?thesis by (simp add: parse_step_def fail_def)
qed

section \<open>Depth\<close>

fun json_depth :: "JsonValue \<Rightarrow> nat" where
  "json_depth (JSON_ARRAY vs) = Suc (foldr max (map json_depth vs) 0)"
| "json_depth (JSON_OBJECT kvs) = Suc (foldr max (map (\<lambda>(k, v). json_depth v) kvs) 0)"
| "json_depth _ = 0"

lemma foldr_max_le: "foldr max ns 0 \<le> n \<longleftrightarrow> (\<forall>m \<in> set ns. m \<le> (n :: nat))"
  by (induction ns) auto

text \<open>Every value of a level leaves room for the levels below it.\<close>

fun levels_ok :: "frame list \<Rightarrow> bool" where
  "levels_ok [] = True"
| "levels_ok (f # fs) \<longleftrightarrow>
     length (f # fs) \<le> JSON_STACK_SIZE
     \<and> (\<forall>kv \<in> set (fr_nodes f). json_depth (snd kv) + length (f # fs) \<le> JSON_STACK_SIZE)
     \<and> levels_ok fs"

lemma levels_length: "levels_ok stk \<Longrightarrow> length stk \<le> JSON_STACK_SIZE"
  by (cases stk) auto

lemma depth_listToValue:
  assumes "\<forall>kv \<in> set (fr_nodes f). json_depth (snd kv) + n \<le> JSON_STACK_SIZE" "0 < n" "n \<le> JSON_STACK_SIZE"
  shows "json_depth (listToValue f) + (n - 1) \<le> JSON_STACK_SIZE"
proof -
  have "foldr max (map (\<lambda>kv. json_depth (snd kv)) (fr_nodes f)) 0 \<le> JSON_STACK_SIZE - n"
    using assms(1) by (auto simp: foldr_max_le)
  then show ?thesis
    using assms(2,3) by (cases "fr_object f") (auto simp: listToValue_def comp_def case_prod_unfold)
qed

lemma store_value_levels:
  "store_value v r stk = Next r' stk' sep \<Longrightarrow> levels_ok stk \<Longrightarrow> json_depth v + length stk \<le> JSON_STACK_SIZE \<Longrightarrow>
    levels_ok stk'"
  by (auto simp: store_value_def fail_def split: list.splits if_splits option.splits JsonValue.splits)

lemma store_value_root:
  "store_value v r stk = Halt (Parse st w) \<Longrightarrow> json_depth v + length stk \<le> JSON_STACK_SIZE \<Longrightarrow>
    json_depth w \<le> JSON_STACK_SIZE"
  by (auto simp: store_value_def fail_def split: list.splits if_splits option.splits JsonValue.splits)

lemma scan_value_flat: "scan_value c s = Inr (v, r) \<Longrightarrow> json_depth v = 0"
  by (auto simp: scan_value_def split: if_splits prod.splits option.splits)

lemma parse_step_levels:
  assumes "levels_ok stk"
  shows "parse_step c s stk sep = Next r stk' sep' \<Longrightarrow> levels_ok stk'"
    and "parse_step c s stk sep = Halt (Parse st w) \<Longrightarrow> json_depth w \<le> JSON_STACK_SIZE"
proof -
  have n: "length stk \<le> JSON_STACK_SIZE" using assms by (rule levels_length)
  have c: "json_depth (listToValue f) + length fs \<le> JSON_STACK_SIZE" if "stk = f # fs" for f fs
    using assms that depth_listToValue [of f "length stk"] by simp
  show "levels_ok stk'" if "parse_step c s stk sep = Next r stk' sep'"
    using that assms n c
    by (auto simp: parse_step_def close_container_def open_container_def separate_def fail_def new_frame_def
        split: if_splits sum.splits list.splits dest!: store_value_levels scan_value_flat)
  show "json_depth w \<le> JSON_STACK_SIZE" if "parse_step c s stk sep = Halt (Parse st w)"
    using that assms n c
    by (auto simp: parse_step_def close_container_def open_container_def separate_def fail_def
        split: if_splits sum.splits list.splits dest: store_value_root dest!: scan_value_flat)
qed

lemma parse_loop_depth:
  "levels_ok stk \<Longrightarrow> parse_loop cs stk sep = Parse st v \<Longrightarrow> json_depth v \<le> JSON_STACK_SIZE"
proof (induction cs stk sep rule: parse_loop.induct)
  case (1 cs stk sep)
  show ?case
  proof (cases "peek cs = NUL")
    case True
    then show ?thesis using "1.prems"(2) by (subst (asm) parse_loop.simps) auto
  next
    case False
    then obtain c s where c: "dropWhile isspace cs = c # s"
      using "1.prems"(2) by (subst (asm) parse_loop.simps) (auto split: list.splits)
    then have "resume (parse_step c s stk sep) = Parse st v"
      using False "1.prems"(2) by (subst (asm) parse_loop.simps) (simp add: resume_def)
    then show ?thesis
      using parse_step_levels [OF "1.prems"(1)] "1.IH" [OF False c]
      by (auto simp: resume_def split: step.splits option.splits)
  qed
qed

section \<open>The buffer\<close>

text \<open>The inputs on which the cursor stays in the buffer.\<close>

definition well_ended :: "string \<Rightarrow> bool" where
  "well_ended s \<longleftrightarrow> no_nul s \<and> (s \<noteq> [] \<longrightarrow> \<not> isspace (last s)) \<and> \<not> suffix ''null'' s"

lemma well_ended_suffix: "well_ended s \<Longrightarrow> suffix t s \<Longrightarrow> well_ended t"
  by (auto simp: well_ended_def suffix_def no_nul_def)

lemma scan_value_lost: "scan_value c s = Inr (v, None) \<Longrightarrow> starts_value c \<Longrightarrow> c # s = ''null''"
  by (auto simp: scan_value_def starts_value_def split: if_splits prod.splits option.splits)

lemma parse_step_lost: "parse_step c s stk sep = Next None stk' sep' \<Longrightarrow> c # s = ''null''"
  by (auto simp: parse_step_def close_container_def open_container_def separate_def fail_def
      split: if_splits sum.splits list.splits dest: store_value_cursor dest!: scan_value_lost)

lemma parse_loop_in_bounds:
  "stack_ok stk sep \<Longrightarrow> well_ended cs \<Longrightarrow> parse_loop cs stk sep \<noteq> OutOfBounds"
proof (induction cs stk sep rule: parse_loop.induct)
  case (1 cs stk sep)
  show ?case
  proof (cases "peek cs = NUL")
    case True
    then show ?thesis by (subst parse_loop.simps) simp
  next
    case False
    then have "cs \<noteq> []" by (auto simp: peek_def)
    then have "dropWhile isspace cs \<noteq> []"
      using "1.prems"(2) by (auto simp: well_ended_def)
    then obtain c s where c: "dropWhile isspace cs = c # s" by (cases "dropWhile isspace cs") auto
    have l: "parse_loop cs stk sep = resume (parse_step c s stk sep)"
      using False c by (subst parse_loop.simps) (simp add: resume_def)
    have w: "well_ended (c # s)" using well_ended_suffix [OF "1.prems"(2)] c suffix_dropWhile by metis
    have "parse_step c s stk sep \<noteq> Next None stk' sep'" for stk' sep'
      using parse_step_lost w by (auto simp: well_ended_def)
    moreover have "parse_loop s' stk' sep' \<noteq> OutOfBounds"
      if "parse_step c s stk sep = Next (Some s') stk' sep'" for s' stk' sep'
      using "1.IH" [OF False c that] parse_step_stack [OF "1.prems"(1) that]
        well_ended_suffix [OF w suffix_ConsI [OF parse_step_suffix [OF that]]] by blast
    ultimately show ?thesis
      using l parse_step_in_stack [OF "1.prems"(1), of c s]
      by (auto simp: resume_def split: step.splits option.splits)
  qed
qed

end
