(* ===== verification/Gason_Roundtrip.thy ===== *)
theory Gason_Roundtrip
  imports Gason_Laws
begin

text \<open>
  What the JSON writer of the services (\<open>dump\<close> of \<open>utils/json/JsonView.h\<close>) writes, the reader
  \<open>gason\<close> of a peer reads back as the same value; and what it makes of the members of an object.
\<close>

section \<open>Values both sides have\<close>

fun gason_value :: "json \<Rightarrow> JsonValue" where
  "gason_value (JBool b) = (if b then JSON_TRUE else JSON_FALSE)"
| "gason_value (JInt v) = JSON_NUMBER (Finite v 0)"
| "gason_value (JString s) = JSON_STRING s"
| "gason_value (JArray xs) = JSON_ARRAY (map gason_value xs)"
| "gason_value (JObject kvs) = JSON_OBJECT (map (\<lambda>(k, v). (k, gason_value v)) kvs)"
| "gason_value _ = JSON_NULL"

text \<open>A key is written as it is; in a string only NUL and DEL are lost.\<close>

definition plain_key :: "string \<Rightarrow> bool" where
  "plain_key k \<longleftrightarrow> (\<forall>c \<in> set k. 32 \<le> code c \<and> code c \<noteq> 127 \<and> c \<noteq> BSLASH \<and> c \<noteq> DQUOTE)"

definition plain_string :: "string \<Rightarrow> bool" where
  "plain_string s \<longleftrightarrow> (\<forall>c \<in> set s. c \<noteq> NUL \<and> code c \<noteq> 127)"

fun gason_ok :: "json \<Rightarrow> bool" where
  "gason_ok JNull \<longleftrightarrow> False"
| "gason_ok (JDouble _) \<longleftrightarrow> False"
| "gason_ok (JBool _) \<longleftrightarrow> True"
| "gason_ok (JInt v) \<longleftrightarrow> \<bar>v\<bar> < 2 ^ 53"
| "gason_ok (JString s) \<longleftrightarrow> plain_string s"
| "gason_ok (JArray xs) \<longleftrightarrow> (\<forall>x \<in> set xs. gason_ok x)"
| "gason_ok (JObject kvs) \<longleftrightarrow> (\<forall>kv \<in> set kvs. plain_key (fst kv) \<and> gason_ok (snd kv))"

section \<open>Strings\<close>

lemma scan_escape:
  "e \<noteq> CHR ''u'' \<Longrightarrow> unescaped e = Some x \<Longrightarrow> scan_string out (BSLASH # e # r) = scan_string (out @ [x]) r"
  by simp

lemma scan_u:
  assumes "list_all isxdigit [a, b, c, d]"
    "put_codepoint (((char2int a * 16 + char2int b) * 16 + char2int c) * 16 + char2int d) = t"
  shows "scan_string out (BSLASH # CHR ''u'' # a # b # c # d # r) = scan_string (out @ t) r"
  using assms by simp

lemma scan_plain:
  "32 \<le> code c \<Longrightarrow> code c \<noteq> 127 \<Longrightarrow> c \<noteq> BSLASH \<Longrightarrow> c \<noteq> DQUOTE \<Longrightarrow>
    scan_string out (c # r) = scan_string (out @ [c]) r"
  by auto

lemma scan_key: "plain_key k \<Longrightarrow> scan_string out (k @ DQUOTE # r) = Some (out @ k, r, True)"
proof (induction k arbitrary: out)
  case (Cons c k)
  then have "scan_string out ((c # k) @ DQUOTE # r) = scan_string (out @ [c]) (k @ DQUOTE # r)"
    using scan_plain [of c out "k @ DQUOTE # r"] by (simp add: plain_key_def)
  also have "\<dots> = Some (out @ c # k, r, True)"
    using Cons.IH [of "out @ [c]"] Cons.prems by (simp add: plain_key_def)
  finally show ?case .
qed simp

lemma hex_char_read:
  assumes "d < 16"
  shows "isxdigit (hex_char d) \<and> char2int (hex_char d) = int d"
proof -
  have "d \<in> {0, 1, 2, 3, 4, 5, 6, 7, 8, 9, 10, 11, 12, 13, 14, 15}" using assms by (simp; arith)
  then show ?thesis
    by (elim insertE emptyE) (simp_all add: isxdigit_def char2int_def c_int_def code_hex_char)
qed

lemma scan_hex4:
  assumes "n < 0x10000"
  shows "scan_string out (BSLASH # ''u'' @ hex4 n @ r) = scan_string (out @ put_codepoint (int n)) r"
proof -
  have d: "n div 256 = n div 16 div 16" "n div 4096 = n div 256 div 16"
    by (simp_all flip: div_mult2_eq)
  have "n div 4096 mod 16 = n div 256 div 16" using assms d(2) by simp
  then have "(((n div 4096 mod 16) * 16 + n div 256 mod 16) * 16 + n div 16 mod 16) * 16 + n mod 16 = n"
    by (simp only: div_mult_mod_eq d(1))
  from arg_cong [OF this, of int]
  have "((int (n div 4096 mod 16) * 16 + int (n div 256 mod 16)) * 16 + int (n div 16 mod 16)) * 16
      + int (n mod 16) = int n"
    by (simp only: of_nat_add of_nat_mult of_nat_numeral)
  moreover have "char2int (hex_char (k mod 16)) = int (k mod 16)" for k by (simp add: hex_char_read)
  ultimately show ?thesis
    unfolding hex4_def append.simps
    by (intro scan_u) (simp add: hex_char_read, simp only:)
qed

lemma scan_control:
  assumes "code ch \<le> 0x1f"
  shows "scan_string out (BSLASH # ''u'' @ hex4 (code ch) @ r) = scan_string (out @ [ch]) r"
  using scan_hex4 [of "code ch" out r] assms by (simp add: put_codepoint_def to_char_def)

lemma put_2028:
  "put_codepoint 0x2028 = [char_of (0xe2 :: nat), char_of (0x80 :: nat), char_of (0xa8 :: nat)]"
  "put_codepoint 0x2029 = [char_of (0xe2 :: nat), char_of (0x80 :: nat), char_of (0xa9 :: nat)]"
  by code_simp+

lemma scan_2028:
  "scan_string out (BSLASH # ''u2028'' @ r) = scan_string (out @ put_codepoint 0x2028) r"
  "scan_string out (BSLASH # ''u2029'' @ r) = scan_string (out @ put_codepoint 0x2029) r"
proof -
  have c: "char_of (48 :: nat) = CHR ''0''" "char_of (50 :: nat) = CHR ''2''" "char_of (56 :: nat) = CHR ''8''"
    "char_of (57 :: nat) = CHR ''9''"
    by code_simp+
  have "hex4 0x2028 = ''2028''" "hex4 0x2029 = ''2029''"
    by (simp_all add: hex4_def hex_char_def digit_char_def c)
  then show "scan_string out (BSLASH # ''u2028'' @ r) = scan_string (out @ put_codepoint 0x2028) r"
    "scan_string out (BSLASH # ''u2029'' @ r) = scan_string (out @ put_codepoint 0x2029) r"
    using scan_hex4 [of "0x2028" out r] scan_hex4 [of "0x2029" out r] by simp_all
qed

lemma scan_dump: "plain_string s \<Longrightarrow> scan_string out (dump_chars s @ DQUOTE # r) = Some (out @ s, r, True)"
proof (induction s arbitrary: out rule: length_induct)
  case (1 s)
  have IH: "scan_string out (dump_chars t @ DQUOTE # r) = Some (out @ t, r, True)"
    if "length t < length s" "set t \<subseteq> set s" for t out
    using 1 that by (auto simp: plain_string_def)
  show ?case
  proof (cases s)
    case (Cons ch t)
    have ch: "code ch \<noteq> 127" using "1.prems" Cons by (simp add: plain_string_def)
    have t: "scan_string out' (dump_chars t @ DQUOTE # r) = Some (out' @ t, r, True)" for out'
      using Cons by (intro IH) auto
    consider "ch \<in> {BSLASH, DQUOTE, CHR 0x08, CHR 0x0C, LF, CR, TAB}"
      | "ch \<notin> {BSLASH, DQUOTE, CHR 0x08, CHR 0x0C, LF, CR, TAB}" "code ch \<le> 0x1f"
      | a b u where "t = a # b # u" "ch \<notin> {BSLASH, DQUOTE, CHR 0x08, CHR 0x0C, LF, CR, TAB}" "code ch = 0xe2" "code a = 0x80" "code b \<in> {0xa8, 0xa9}"
      | "ch \<notin> {BSLASH, DQUOTE, CHR 0x08, CHR 0x0C, LF, CR, TAB}" "\<not> code ch \<le> 0x1f"
        "\<not> (\<exists>a b u. t = a # b # u \<and> code ch = 0xe2 \<and> code a = 0x80 \<and> code b \<in> {0xa8, 0xa9})" by blast
    then show ?thesis
    proof cases
      case 1
      then obtain e where "e \<noteq> CHR ''u''" "unescaped e = Some ch" "dump_chars (ch # t) = BSLASH # e # dump_chars t"
        by (rule dump_escape)
      then show ?thesis using Cons t scan_escape [of e ch out "dump_chars t @ DQUOTE # r"] by simp
    next
      case 2
      then have "dump_chars (ch # t) = BSLASH # ''u'' @ hex4 (code ch) @ dump_chars t" by simp
      then show ?thesis using Cons t scan_control [OF 2(2), of out "dump_chars t @ DQUOTE # r"] by simp
    next
      case 3
      have c: "ch = char_of (0xe2 :: nat)" "a = char_of (0x80 :: nat)"
        using 3(3,4) char_eq_code [of ch "0xe2"] char_eq_code [of a "0x80"] by auto
      have u: "scan_string out' (dump_chars u @ DQUOTE # r) = Some (out' @ u, r, True)" for out'
        using Cons 3(1) by (intro IH) auto
      consider "b = char_of (0xa8 :: nat)" "code b = 0xa8" | "b = char_of (0xa9 :: nat)" "code b = 0xa9"
        using 3(5) char_eq_code [of b "0xa8"] char_eq_code [of b "0xa9"] by blast
      then show ?thesis
      proof cases
        case 1
        have "dump_chars (ch # t) = BSLASH # ''u2028'' @ dump_chars u" using 3 1(2) by simp
        then show ?thesis
          using Cons u 3(1) c 1 scan_2028(1) [of out "dump_chars u @ DQUOTE # r"] put_2028
          by (simp del: scan_string.simps dump_chars.simps)
      next
        case 2
        have "dump_chars (ch # t) = BSLASH # ''u2029'' @ dump_chars u" using 3 2(2) by simp
        then show ?thesis
          using Cons u 3(1) c 2 scan_2028(2) [of out "dump_chars u @ DQUOTE # r"] put_2028
          by (simp del: scan_string.simps dump_chars.simps)
      qed
    next
      case 4
      have "scan_string out (ch # dump_chars t @ DQUOTE # r) = scan_string (out @ [ch]) (dump_chars t @ DQUOTE # r)"
        using 4(1,2) ch by (intro scan_plain) auto
      then show ?thesis using Cons t dump_plain [OF 4] by simp
    qed
  qed simp
qed

section \<open>Values\<close>

text \<open>A text that is read as a value, and a member, with at most a blank behind its colon.\<close>

definition gason_text :: "string \<Rightarrow> json \<Rightarrow> bool" where
  "gason_text t v \<longleftrightarrow>
     (\<exists>c r. t = c # r \<and> c \<noteq> NUL)
     \<and> (\<forall>stk sep r. json_depth (gason_value v) + length stk \<le> JSON_STACK_SIZE \<and> isdelim (peek r)
          \<longrightarrow> parse_loop (t @ r) stk sep = resume (store_value (gason_value v) (Some r) stk))"

definition gason_member :: "string \<Rightarrow> string \<times> json \<Rightarrow> bool" where
  "gason_member m kv \<longleftrightarrow>
     (\<exists>sp t. m = DQUOTE # fst kv @ [DQUOTE] @ '':'' @ sp @ t \<and> (sp = [] \<or> sp = '' '')
        \<and> plain_key (fst kv) \<and> gason_text t (snd kv))"

lemma gason_textD:
  "gason_text t v \<Longrightarrow> json_depth (gason_value v) + length stk \<le> JSON_STACK_SIZE \<Longrightarrow> isdelim (peek r) \<Longrightarrow>
    parse_loop (t @ r) stk sep = resume (store_value (gason_value v) (Some r) stk)"
  by (simp add: gason_text_def)

lemma gason_text_head: "gason_text t v \<Longrightarrow> \<exists>c r. t = c # r \<and> c \<noteq> NUL"
  by (simp add: gason_text_def)

lemma isdelim_simps [simp]:
  "isdelim (CHR '','')" "isdelim (CHR '':'')" "isdelim (CHR '']'')" "isdelim (CHR ''}'')" "isdelim NUL"
  by (simp_all add: isdelim_def)

lemma isdelim_number: "isdelim c \<Longrightarrow> \<not> isdigit c \<and> c \<notin> {CHR ''.'', CHR ''e'', CHR ''E''}"
proof -
  assume "isdelim c"
  then consider "c \<in> {CHR '','', CHR '':'', CHR '']'', CHR ''}'', NUL}" | "isspace c" unfolding isdelim_def by blast
  then show ?thesis
  proof cases
    case 1
    then show ?thesis by (elim insertE emptyE) (simp_all add: isdigit_def)
  next
    case 2
    then have "\<not> isspace (CHR ''.'') \<and> \<not> isspace (CHR ''e'') \<and> \<not> isspace (CHR ''E'')"
      by (simp add: isspace_def)
    then show ?thesis using 2 isspace_not_digit by blast
  qed
qed

lemma plain_key_no_nul: "plain_key k \<Longrightarrow> no_nul k"
  unfolding plain_key_def no_nul_def by (intro notI, drule (1) bspec) simp

lemma plain_string_no_nul: "plain_string k \<Longrightarrow> no_nul k"
  by (auto simp: plain_string_def no_nul_def)

lemma step_value:
  "starts_value c \<Longrightarrow> scan_value c s = Inr (v, r) \<Longrightarrow> parse_step c s stk sep = store_value v r stk"
  by (simp add: parse_step_def)

lemma value_here:
  "starts_value c \<Longrightarrow> scan_value c s = Inr (v, r) \<Longrightarrow> parse_loop (c # s) stk sep = resume (store_value v r stk)"
  using loop_here [of c s stk sep] step_value [of c s v r stk sep] isspace_not_digit [of c]
    isdigit_neq_special(1) [of c]
  by (auto simp: starts_value_def isspace_def)

lemma reads_int:
  assumes "\<bar>v\<bar> < 2 ^ 53"
  shows "gason_text (int_str v) (JInt v)"
proof -
  obtain c s where c: "int_str v = c # s" "c = CHR ''-'' \<or> isdigit c" using int_str_head by blast
  have "c = CHR ''-'' \<Longrightarrow> isdigit (peek (s @ r))" for r
  proof -
    assume "c = CHR ''-''"
    then have "s = nat_str (nat (- v))"
      using c(1) nat_str_digits [of "nat v"] by (auto simp: int_str_def isdigit_def split: if_splits)
    then show "isdigit (peek (s @ r))"
      using nat_str_digits [of "nat (- v)"] nat_str_nonempty [of "nat (- v)"]
      by (cases "nat_str (nat (- v))") (simp_all add: peek_append)
  qed
  then have "scan_value c (s @ r) = Inr (JSON_NUMBER (Finite v 0), Some r)" if "isdelim (peek r)" for r
    using string2double_int_str [OF assms, of r] isdelim_number [OF that] that c
    by (simp add: scan_value_def)
  moreover have "starts_value c" using c(2) by (auto simp: starts_value_def)
  ultimately show ?thesis using value_here c by (auto simp: gason_text_def isdigit_def)
qed

lemma reads_string:
  assumes "plain_string t"
  shows "gason_text (dump_string t) (JString t)"
proof -
  have "scan_value DQUOTE (dump_chars t @ DQUOTE # r) = Inr (JSON_STRING t, Some r)" if "isdelim (peek r)" for r
    using scan_dump [OF assms, of "[]" r] plain_string_no_nul [OF assms] that
    by (simp add: scan_value_def isdigit_def buffer_string_def)
  then show ?thesis
    using value_here [of DQUOTE] by (simp add: gason_text_def dump_string_def starts_value_def)
qed

lemma reads_bool: "gason_text (if b then ''true'' else ''false'') (JBool b)"
proof -
  have "scan_value (CHR ''t'') (''rue'' @ r) = Inr (JSON_TRUE, Some r)"
    "scan_value (CHR ''f'') (''alse'' @ r) = Inr (JSON_FALSE, Some r)" if "isdelim (peek r)" for r
    using that by (simp_all add: scan_value_def isdigit_def)
  then show ?thesis
    using value_here [of "CHR ''t''"] value_here [of "CHR ''f''"]
    by (simp add: gason_text_def starts_value_def)
qed

section \<open>Containers\<close>

lemma structural [simp]:
  "parse_loop (CHR '']'' # s) stk sep = resume (close_container False s stk)"
  "parse_loop (CHR ''}'' # s) stk sep = resume (close_container True s stk)"
  "parse_loop (CHR ''['' # s) stk sep = resume (open_container False s stk)"
  "parse_loop (CHR ''{'' # s) stk sep = resume (open_container True s stk)"
  "parse_loop (CHR '':'' # s) stk sep = resume (separate True s stk sep)"
  "parse_loop (CHR '','' # s) stk sep = resume (separate False s stk sep)"
  by (simp_all add: loop_here isspace_def parse_step_def starts_value_def isdigit_def)

lemma join_Cons: "join sep (x # xs) = x @ (if xs = [] then [] else sep @ join sep xs)"
  by (cases xs) simp_all

definition array_frame :: "JsonValue list \<Rightarrow> frame" where
  "array_frame vs = \<lparr>fr_object = False, fr_key = None, fr_nodes = map (Pair []) vs\<rparr>"

definition object_frame :: "(string \<times> JsonValue) list \<Rightarrow> frame" where
  "object_frame kvs = \<lparr>fr_object = True, fr_key = None, fr_nodes = kvs\<rparr>"

definition a_comma :: "string \<Rightarrow> bool" where
  "a_comma s \<longleftrightarrow> s = '','' \<or> s = '', ''"

lemma after_comma:
  assumes "a_comma s" "c \<noteq> NUL" "fr_key f = None"
  shows "parse_loop (s @ c # t) (f # fs) False = parse_loop (c # t) (f # fs) True"
  using assms by (auto simp: a_comma_def separate_def loop_space)

lemma reads_elements:
  assumes "list_all2 gason_text ts xs" "a_comma s"
    "\<And>x. x \<in> set xs \<Longrightarrow> json_depth (gason_value x) + length (f # fs) \<le> JSON_STACK_SIZE"
    "f = array_frame vs"
  shows "parse_loop (join s ts @ '']'' @ r) (f # fs) sep =
    resume (close_container False r (array_frame (vs @ map gason_value xs) # fs))"
  using assms
proof (induction ts xs arbitrary: f vs sep rule: list_all2_induct)
  case Nil
  then show ?case by simp
next
  case (Cons t ts x xs)
  let ?f = "array_frame (vs @ [gason_value x])"
  let ?rest = "(if ts = [] then [] else s @ join s ts) @ '']'' @ r"
  have "isdelim (peek ?rest)" using Cons.prems(1) by (auto simp: a_comma_def)
  then have "parse_loop (t @ ?rest) (f # fs) sep = resume (store_value (gason_value x) (Some ?rest) (f # fs))"
    using Cons.prems(2) by (intro gason_textD [OF Cons.hyps(1)]) simp_all
  also have "\<dots> = parse_loop ?rest (?f # fs) False"
    using Cons.prems(3) by (simp add: store_value_def array_frame_def)
  also have "\<dots> = resume (close_container False r (array_frame ((vs @ [gason_value x]) @ map gason_value xs) # fs))"
  proof (cases ts)
    case Nil
    then show ?thesis using Cons.hyps(2) by simp
  next
    case (Cons u us)
    then obtain y where "gason_text u y" using Cons.hyps(2) by (auto simp: list_all2_Cons1)
    then obtain c t where c: "join s ts @ '']'' @ r = c # t" "c \<noteq> NUL"
      using gason_text_head Cons by (fastforce simp: join_Cons)
    then have "parse_loop ?rest (?f # fs) False = parse_loop (c # t) (?f # fs) True"
      using Cons after_comma [OF Cons.prems(1) c(2), of ?f t fs] by (simp add: array_frame_def)
    also have "\<dots> = resume (close_container False r (array_frame ((vs @ [gason_value x]) @ map gason_value xs) # fs))"
      unfolding c(1) [symmetric] using Cons.prems by (intro Cons.IH) auto
    finally show ?thesis .
  qed
  finally show ?case by (simp add: join_Cons)
qed

lemma gason_array:
  assumes "list_all2 gason_text ts xs" "a_comma s"
  shows "gason_text (''['' @ join s ts @ '']'') (JArray xs)"
proof -
  have "parse_loop ((''['' @ join s ts @ '']'') @ r) stk sep =
      resume (store_value (gason_value (JArray xs)) (Some r) stk)"
    if d: "json_depth (gason_value (JArray xs)) + length stk \<le> JSON_STACK_SIZE" for stk sep r
  proof -
    have x: "json_depth (gason_value x) + length (new_frame False # stk) \<le> JSON_STACK_SIZE" if "x \<in> set xs" for x
    proof -
      have "foldr max (map json_depth (map gason_value xs)) 0 \<le> JSON_STACK_SIZE - length (new_frame False # stk)"
        using d by simp
      then show ?thesis using that d by (fastforce simp: foldr_max_le)
    qed
    have "parse_loop ((''['' @ join s ts @ '']'') @ r) stk sep =
        parse_loop (join s ts @ '']'' @ r) (new_frame False # stk) True"
      using d by (simp add: open_container_def)
    also have "\<dots> = resume (close_container False r (array_frame ([] @ map gason_value xs) # stk))"
      using assms x by (intro reads_elements) (auto simp: new_frame_def array_frame_def)
    finally show ?thesis by (simp add: close_container_def array_frame_def listToValue_def comp_def)
  qed
  then show ?thesis by (simp add: gason_text_def)
qed

text \<open>A key with its colon.\<close>

lemma reads_key:
  assumes "plain_key k" "f = object_frame kvs"
  shows "parse_loop (DQUOTE # k @ DQUOTE # '':'' @ s) (f # fs) sep =
    parse_loop s (f\<lparr>fr_key := Some k\<rparr> # fs) True"
proof -
  have "scan_value DQUOTE (k @ DQUOTE # '':'' @ s) = Inr (JSON_STRING k, Some ('':'' @ s))"
    using scan_key [OF assms(1), of "[]" "'':'' @ s"] plain_key_no_nul [OF assms(1)]
    by (simp add: scan_value_def isdigit_def buffer_string_def)
  then have "parse_loop (DQUOTE # k @ DQUOTE # '':'' @ s) (f # fs) sep =
      resume (store_value (JSON_STRING k) (Some ('':'' @ s)) (f # fs))"
    by (intro value_here) (simp_all add: starts_value_def)
  then show ?thesis
    using assms(2) by (simp add: store_value_def object_frame_def separate_def)
qed

lemma reads_one_member:
  assumes "gason_member m kv" "json_depth (gason_value (snd kv)) + length (f # fs) \<le> JSON_STACK_SIZE"
    "f = object_frame ws" "isdelim (peek r)"
  shows "parse_loop (m @ r) (f # fs) sep = parse_loop r (object_frame (ws @ [(fst kv, gason_value (snd kv))]) # fs) False"
proof -
  obtain sp t where t: "m = DQUOTE # fst kv @ [DQUOTE] @ '':'' @ sp @ t" "sp = [] \<or> sp = '' ''"
    "plain_key (fst kv)" "gason_text t (snd kv)"
    using assms(1) by (auto simp: gason_member_def)
  let ?f = "f\<lparr>fr_key := Some (fst kv)\<rparr>"
  obtain c u where c: "t = c # u" "c \<noteq> NUL" using gason_text_head [OF t(4)] by blast
  have "parse_loop (m @ r) (f # fs) sep = parse_loop (sp @ t @ r) (?f # fs) True"
    using reads_key [OF t(3) assms(3), of "sp @ t @ r" fs sep] t(1) by simp
  also have "\<dots> = parse_loop (t @ r) (?f # fs) True"
    using t(2) c by (auto simp: loop_space)
  also have "\<dots> = resume (store_value (gason_value (snd kv)) (Some r) (?f # fs))"
    using assms(2,4) by (intro gason_textD [OF t(4)]) simp_all
  also have "\<dots> = parse_loop r (object_frame (ws @ [(fst kv, gason_value (snd kv))]) # fs) False"
    using assms(3) by (simp add: store_value_def object_frame_def)
  finally show ?thesis .
qed

lemma reads_members:
  assumes "list_all2 gason_member ms kvs" "a_comma s"
    "\<And>kv. kv \<in> set kvs \<Longrightarrow> json_depth (gason_value (snd kv)) + length (f # fs) \<le> JSON_STACK_SIZE"
    "f = object_frame ws"
  shows "parse_loop (join s ms @ ''}'' @ r) (f # fs) sep =
    resume (close_container True r (object_frame (ws @ map (\<lambda>(k, v). (k, gason_value v)) kvs) # fs))"
  using assms
proof (induction ms kvs arbitrary: f ws sep rule: list_all2_induct)
  case Nil
  then show ?case by simp
next
  case (Cons m ms kv kvs)
  let ?v = "gason_value (snd kv)"
  let ?f = "object_frame (ws @ [(fst kv, ?v)])"
  let ?rest = "(if ms = [] then [] else s @ join s ms) @ ''}'' @ r"
  have "isdelim (peek ?rest)" using Cons.prems(1) by (auto simp: a_comma_def)
  then have "parse_loop (m @ ?rest) (f # fs) sep = parse_loop ?rest (?f # fs) False"
    using Cons.prems(2) by (intro reads_one_member [OF Cons.hyps(1) _ Cons.prems(3)]) simp_all
  also have "\<dots> = resume (close_container True r
      (object_frame ((ws @ [(fst kv, ?v)]) @ map (\<lambda>(k, v). (k, gason_value v)) kvs) # fs))"
  proof (cases ms)
    case Nil
    then show ?thesis using Cons.hyps(2) by simp
  next
    case (Cons w us)
    then have "\<exists>kw. gason_member w kw" using Cons.hyps(2) by (auto simp: list_all2_Cons1)
    then obtain t where t: "join s ms @ ''}'' @ r = DQUOTE # t"
      using Cons by (auto simp: join_Cons gason_member_def)
    then have "parse_loop ?rest (?f # fs) False = parse_loop (DQUOTE # t) (?f # fs) True"
      using Cons after_comma [OF Cons.prems(1), of DQUOTE ?f t fs] by (simp add: object_frame_def)
    also have "\<dots> = resume (close_container True r
        (object_frame ((ws @ [(fst kv, ?v)]) @ map (\<lambda>(k, v). (k, gason_value v)) kvs) # fs))"
      unfolding t [symmetric] using Cons.prems by (intro Cons.IH) auto
    finally show ?thesis .
  qed
  finally show ?case by (simp add: join_Cons case_prod_unfold)
qed

lemma gason_object:
  assumes "list_all2 gason_member ms kvs" "a_comma s"
  shows "gason_text (''{'' @ join s ms @ ''}'') (JObject kvs)"
proof -
  have "parse_loop ((''{'' @ join s ms @ ''}'') @ r) stk sep =
      resume (store_value (gason_value (JObject kvs)) (Some r) stk)"
    if d: "json_depth (gason_value (JObject kvs)) + length stk \<le> JSON_STACK_SIZE" for stk sep r
  proof -
    have x: "json_depth (gason_value (snd kv)) + length (new_frame True # stk) \<le> JSON_STACK_SIZE"
      if "kv \<in> set kvs" for kv
    proof -
      have "foldr max (map (\<lambda>kv. json_depth (gason_value (snd kv))) kvs) 0
          \<le> JSON_STACK_SIZE - length (new_frame True # stk)"
        using d by (simp add: comp_def case_prod_unfold)
      then show ?thesis using that d by (fastforce simp: foldr_max_le)
    qed
    have "parse_loop ((''{'' @ join s ms @ ''}'') @ r) stk sep =
        parse_loop (join s ms @ ''}'' @ r) (new_frame True # stk) True"
      using d by (simp add: open_container_def)
    also have "\<dots> = resume (close_container True r
        (object_frame ([] @ map (\<lambda>(k, v). (k, gason_value v)) kvs) # stk))"
      using assms x by (intro reads_members) (auto simp: new_frame_def object_frame_def)
    finally show ?thesis by (simp add: close_container_def object_frame_def listToValue_def)
  qed
  then show ?thesis by (simp add: gason_text_def)
qed

lemma gason_text_parses:
  assumes "gason_text t v" "json_depth (gason_value v) \<le> JSON_STACK_SIZE"
  shows "jsonParse t = Parse JSON_PARSE_OK (gason_value v)"
proof -
  have "parse_loop (t @ []) [] True = resume (store_value (gason_value v) (Some []) [])"
    using assms(2) by (intro gason_textD [OF assms(1)]) (simp_all add: peek_def)
  then show ?thesis by (simp add: jsonParse_def store_value_def)
qed

section \<open>What the JSON writer writes\<close>

lemma gason_ok_reads: "gason_ok v \<Longrightarrow> gason_text (dump ds v) v"
proof (induction v)
  case (JArray xs)
  then have "list_all2 gason_text (map (dump ds) xs) xs" by (auto simp: list_all2_map1 intro!: list.rel_refl_strong)
  then show ?case using gason_array [of "map (dump ds) xs" xs "'', ''"] by (simp add: a_comma_def)
next
  case (JObject kvs)
  have "gason_member (member_text ds kv) kv" if "kv \<in> set kvs" for kv
  proof -
    have "gason_text (dump ds (snd kv)) (snd kv)" "plain_key (fst kv)"
      using JObject that by (cases kv, fastforce)+
    then show ?thesis
      unfolding gason_member_def by (intro exI [of _ "[]"] exI [of _ "dump ds (snd kv)"]) (simp add: member_text_def)
  qed
  then have "list_all2 gason_member (map (member_text ds) kvs) kvs"
    by (auto simp: list_all2_map1 intro!: list.rel_refl_strong)
  then show ?case unfolding dump_object by (intro gason_object) (simp_all add: a_comma_def)
qed (simp_all add: reads_int reads_string reads_bool [simplified])

lemma gason_reads_dump:
  "gason_ok v \<Longrightarrow> json_depth (gason_value v) \<le> JSON_STACK_SIZE \<Longrightarrow>
    jsonParse (dump ds v) = Parse JSON_PARSE_OK (gason_value v)"
  by (intro gason_text_parses gason_ok_reads)

section \<open>Null, and input that ends in a space\<close>

text \<open>After the last member of an object, \<open>null\<close> swallows the closing brace.\<close>

lemma null_member:
  assumes "plain_key k"
  shows "jsonParse (''{'' @ DQUOTE # k @ DQUOTE # '':'' @ ''null}'') = Parse JSON_PARSE_BREAKING_BAD JSON_NULL"
proof -
  have n: "scan_value (CHR ''n'') ''ull}'' = Inr (JSON_FALSE, Some [])"
    by (simp add: scan_value_def isdigit_def)
  have "jsonParse (''{'' @ DQUOTE # k @ DQUOTE # '':'' @ ''null}'') =
      parse_loop (DQUOTE # k @ DQUOTE # '':'' @ ''null}'') (new_frame True # []) True"
    by (simp add: jsonParse_def open_container_def JSON_STACK_SIZE_def)
  also have "\<dots> = parse_loop ''null}'' ((new_frame True)\<lparr>fr_key := Some k\<rparr> # []) True"
    using assms by (intro reads_key) (auto simp: new_frame_def object_frame_def)
  also have "\<dots> = resume (store_value JSON_FALSE (Some []) ((new_frame True)\<lparr>fr_key := Some k\<rparr> # []))"
    using n by (intro value_here) (simp_all add: starts_value_def)
  finally show ?thesis
    by (simp add: store_value_def new_frame_def parse_loop.simps peek_def)
qed

lemma only_spaces:
  assumes "w \<noteq> []" "\<forall>c \<in> set w. isspace c"
  shows "jsonParse w = OutOfBounds"
proof -
  have "dropWhile isspace w = []" using assms(2) by simp
  moreover have "peek w \<noteq> NUL" using assms by (cases w) (auto simp: isspace_def)
  ultimately show ?thesis unfolding jsonParse_def parse_loop.simps [of w] by (simp del: dropWhile_eq_Nil_conv)
qed

section \<open>Members\<close>

lemma child_exact:
  assumes "\<And>k v. (k, v) \<in> set kvs \<Longrightarrow> prefix key k \<Longrightarrow> k = key"
  shows "child key (JSON_OBJECT kvs) = Some (case map_of kvs key of None \<Rightarrow> JSON_NULL | Some v \<Rightarrow> v)"
proof -
  have p: "take (length key) k = key \<longleftrightarrow> prefix key k" for k
    by (metis append_eq_conv_conj prefix_def)
  show ?thesis
    using assms unfolding child_def
  proof (induction kvs)
    case (Cons kv kvs)
    have "child_loop key (nodes (JSON_OBJECT kvs)) = Some (case map_of kvs key of None \<Rightarrow> JSON_NULL | Some v \<Rightarrow> v)"
      by (rule Cons.IH, rule Cons.prems) auto
    moreover have "prefix key (fst kv) \<longleftrightarrow> fst kv = key" using Cons.prems [of "fst kv" "snd kv"] by auto
    ultimately show ?case by (cases kv) (auto simp: p)
  qed simp
qed

lemma child_prefix: "child key (JSON_OBJECT ((key @ ext, v) # kvs)) = Some v"
  by (simp add: child_def)

lemma child_total: "(\<forall>vs. v = JSON_ARRAY vs \<longrightarrow> vs = []) \<Longrightarrow> \<exists>w. child key v = Some w"
proof (cases v)
  case (JSON_OBJECT kvs)
  have "\<exists>w. child key (JSON_OBJECT kvs) = Some w" by (induction kvs) (auto simp: child_def)
  then show ?thesis using JSON_OBJECT by simp
qed (auto simp: child_def)

end
