(* ===== verification/Trace.thy ===== *)
theory Trace
  imports Endpoint
begin

text \<open>
  The statements that an endpoint sends: a database that keeps them in front of another one, and
  rules for a property of all of them.
\<close>

section \<open>Traces of statements\<close>

text \<open>A database that keeps the statements it is sent, in front of another one.\<close>

definition logged :: "string \<Rightarrow> ('e, 'a, 'd) db_op \<Rightarrow> ('e, 'a, 'd \<times> string list) db_op" where
  "logged q x s = (case x (fst s) of (r, d) \<Rightarrow> (r, (d, snd s @ [q])))"

definition traced :: "'d Database \<Rightarrow> ('d \<times> string list) Database" where
  "traced db =
     \<lparr>db_fetch = (\<lambda>q. logged q (db_fetch db q)),
      db_fetch_long = (\<lambda>q v. logged q (db_fetch_long db q v)),
      db_fetch_string = (\<lambda>q v. logged q (db_fetch_string db q v)),
      db_query = (\<lambda>q. logged q (db_query db q)),
      db_query_and_check = (\<lambda>q. logged q (db_query_and_check db q)),
      db_insert = (\<lambda>q v. logged q (db_insert db q v)),
      db_escape = db_escape db,
      db_begin = logged ''START TRANSACTION'' (db_begin db),
      db_commit = logged ''COMMIT'' (db_commit db),
      db_rollback = logged ''ROLLBACK'' (db_rollback db)\<rparr>"

lemma traced_simps [simp]:
  "db_fetch (traced db) q = logged q (db_fetch db q)"
  "db_fetch_long (traced db) q v = logged q (db_fetch_long db q v)"
  "db_fetch_string (traced db) q t = logged q (db_fetch_string db q t)"
  "db_query (traced db) q = logged q (db_query db q)"
  "db_query_and_check (traced db) q = logged q (db_query_and_check db q)"
  "db_insert (traced db) q w = logged q (db_insert db q w)"
  "db_escape (traced db) = db_escape db"
  by (simp_all add: traced_def)

lemma act_db_logged:
  "act_db (logged q x) (d, l) =
    (case x d of (Inl e, d') \<Rightarrow> Some (Raised e, (d', l @ [q])) | (Inr v, d') \<Rightarrow> Some (Returned v, (d', l @ [q])))"
  by (simp add: act_db_def logged_def split: prod.splits sum.splits)

text \<open>Every statement of a run satisfies a predicate.\<close>

definition emits :: "(string \<Rightarrow> bool) \<Rightarrow> ('a, 'd \<times> string list) action \<Rightarrow> bool" where
  "emits P x \<longleftrightarrow>
     (\<forall>d l r d' l'. x (d, l) = Some (r, (d', l')) \<longrightarrow> (\<exists>qs. l' = l @ qs \<and> list_all P qs))"

named_theorems emits_intros \<open>statements sent by the parts of an endpoint\<close>

lemma emits_ret [emits_intros]: "emits P (act_ret v)"
  by (simp add: emits_def act_ret_def)

lemma emits_returns [emits_intros]: "emits P (returns r)"
  by (simp add: emits_def returns_def)

lemma emits_undef [emits_intros]: "emits P act_undef"
  by (simp add: emits_def act_undef_def)

lemma emits_throw [emits_intros]: "emits P (act_throw e)"
  by (simp add: emits_def act_throw_def)

lemma emits_the [emits_intros]: "emits P (act_the x)"
  by (cases x) (simp_all add: emits_ret emits_undef)

lemma emits_db [emits_intros]: "P q \<Longrightarrow> emits P (act_db (logged q x))"
  by (auto simp: emits_def act_db_logged split: prod.splits sum.splits)

lemma emits_bind [emits_intros]:
  assumes "emits P x" "\<And>v. emits P (f v)"
  shows "emits P (act_bind x f)"
  unfolding emits_def
proof (intro allI impI)
  fix d l r d' l'
  assume b: "act_bind x f (d, l) = Some (r, (d', l'))"
  then obtain r1 d1 l1 where x: "x (d, l) = Some (r1, (d1, l1))"
    by (auto simp: act_bind_def split: option.splits prod.splits)
  then obtain qs where qs: "l1 = l @ qs" "list_all P qs" using assms(1) by (fastforce simp: emits_def)
  show "\<exists>qs. l' = l @ qs \<and> list_all P qs"
  proof (cases r1)
    case (Returned v)
    then obtain qs' where "l' = l1 @ qs'" "list_all P qs'"
      using b x assms(2) [of v] by (fastforce simp: act_bind_def emits_def)
    then show ?thesis using qs by (intro exI [of _ "qs @ qs'"]) simp
  qed (use b x qs in \<open>auto simp: act_bind_def\<close>)
qed

lemma emits_catch [emits_intros]:
  assumes "emits P x" "\<And>e. emits P (h e)"
  shows "emits P (act_catch h x)"
  unfolding emits_def
proof (intro allI impI)
  fix d l r d' l'
  assume b: "act_catch h x (d, l) = Some (r, (d', l'))"
  then obtain r1 d1 l1 where x: "x (d, l) = Some (r1, (d1, l1))"
    by (auto simp: act_catch_def split: option.splits prod.splits)
  then obtain qs where qs: "l1 = l @ qs" "list_all P qs" using assms(1) by (fastforce simp: emits_def)
  show "\<exists>qs. l' = l @ qs \<and> list_all P qs"
  proof (cases r1)
    case (Raised e)
    then obtain qs' where "l' = l1 @ qs'" "list_all P qs'"
      using b x assms(2) [of e] by (fastforce simp: act_catch_def emits_def)
    then show ?thesis using qs by (intro exI [of _ "qs @ qs'"]) simp
  qed (use b x qs in \<open>auto simp: act_catch_def\<close>)
qed

text \<open>A statement that asks.\<close>

definition selects :: "string \<Rightarrow> bool" where
  "selects q \<longleftrightarrow> take 7 q = ''SELECT ''"

end
