(* ===== verification/DevLaws.thy ===== *)
theory DevLaws
  imports DevEndpoints Gason_Roundtrip Trace
begin

text \<open>
  Laws of the device registry: which statements its endpoints send, and what a client reads in their
  responses.
\<close>

section \<open>Changing a registration\<close>

lemma emits_model [emits_intros]:
  "(\<And>m. emits P (k m)) \<Longrightarrow> emits P (with_model origin parser validate req k)"
  by (auto simp: with_model_def intro!: emits_intros split: built.split option.split)

lemma findOrCreate_selects: "emits selects (findOrCreateDevice (traced db) dev)"
  by (auto simp: findOrCreateDevice_def Let_def selects_def intro!: emits_intros split: prod.split)

lemma registry_byId_selects: "emits selects (registry_byId (traced db) ident)"
  by (auto simp: registry_byId_def registry_getById_def registry_select_def selects_def intro!: emits_intros)

lemma isDeviceRegistered_selects: "emits selects (isDeviceRegistered (traced db) ident)"
  by (auto simp: isDeviceRegistered_def selects_def intro!: emits_intros split: prod.split)

lemma registry_put_selects: "emits selects (registry_put (traced db) req ident)"
proof -
  have "selects (registry_select @ '' WHERE t2.id = '' @ ulong_str ident)"
    by (simp add: selects_def registry_select_def)
  then show ?thesis
    unfolding registry_put_def registry_getById_def putDeviceRegistry_def traced_simps
    by (intro emits_intros)
      (auto intro!: emits_intros findOrCreate_selects registry_byId_selects isDeviceRegistered_selects
        split: list.split prod.split)
qed

section \<open>Unregistration\<close>

lemma act_bind_logged:
  "act_bind (act_db (logged q x)) f (d, l) =
    (case x d of (Inl e, d') \<Rightarrow> Some (Raised e, (d', l @ [q])) | (Inr v, d') \<Rightarrow> f v (d', l @ [q]))"
  by (simp add: act_bind_def act_db_logged split: prod.splits sum.splits)

definition unregister_delete :: "int \<Rightarrow> string" where
  "unregister_delete device_id = ''DELETE FROM device_registry WHERE device_id = '' @ int_str device_id"

text \<open>The statements of the part that has passed all the checks.\<close>

lemma unregister_device_log:
  assumes "unregister_device u (traced db) nm mac (d, []) = Some (r, (d', l))"
  shows "l = [device_select db nm mac]
    \<or> (\<exists>device_id d1. db_fetch_long db (device_select db nm mac) u d = (Inr (True, device_id), d1)
        \<and> l = [device_select db nm mac, unregister_delete device_id])"
proof -
  have s: "device_select (traced db) nm mac = device_select db nm mac" by (simp add: device_select_def)
  show ?thesis
    using assms unfolding unregister_device_def s traced_simps act_bind_logged
    by (auto simp: act_bind_logged returns_def unregister_delete_def split: prod.splits sum.splits if_splits)
qed

lemma guarded_Some: "guarded origin x d = Some (r, d') \<Longrightarrow> \<exists>r0. x d = Some (r0, d')"
  by (auto simp: guarded_def act_catch_def returns_def split: option.splits prod.splits scope_result.splits)

lemma unregister_log:
  assumes "unregister_handle common_name u (traced db) req (d, []) = Some (r, (d', l))" "l \<noteq> []"
  obtains cert mac where "rq_cert req = Some cert" "common_name cert \<noteq> []" "mac \<noteq> []"
    "l = [device_select db (common_name cert) mac]
     \<or> (\<exists>device_id d1. db_fetch_long db (device_select db (common_name cert) mac) u d = (Inr (True, device_id), d1)
         \<and> l = [device_select db (common_name cert) mac, unregister_delete device_id])"
proof -
  obtain r0 where r0: "(if rq_content req \<noteq> [] then returns (bad_payload ''Invalid payload for request.'' ''/unregister'')
      else unregister common_name u (traced db) req) (d, []) = Some (r0, (d', l))"
    using guarded_Some [OF assms(1) [unfolded unregister_handle_def]] by (elim exE)
  then have u: "unregister common_name u (traced db) req (d, []) = Some (r0, (d', l))"
    using assms(2) by (simp add: returns_def split: if_splits)
  then obtain error nm mac
    where q: "read_query store_unregister (new_Parser (rq_uri req)) ([], []) = Some (error, nm, mac)"
    unfolding unregister_def by (cases "read_query store_unregister (new_Parser (rq_uri req)) ([], [])")
      (auto simp: act_undef_def)
  have g: "\<not> error" "nm \<noteq> []" "mac \<noteq> []"
    using u assms(2) by (auto simp: unregister_def q returns_def split: if_splits)
  then obtain cert where c: "rq_cert req = Some cert" "nm = common_name cert"
    using u assms(2) by (cases "rq_cert req") (auto simp: unregister_def q returns_def split: if_splits)
  then have "unregister_device u (traced db) nm mac (d, []) = Some (r0, (d', l))"
    using u g by (simp add: unregister_def q)
  from unregister_device_log [OF this] c g show thesis
    by (intro that [of cert mac]) simp_all
qed

text \<open>Every request is answered: the reader of the parameters returns, exceptions become responses.\<close>

interpretation unr: query_reader store_unregister "\<lambda>_. True"
  by unfold_locales

lemma act_db_total: "\<exists>r d'. act_db x d = Some (r, d') \<and> r \<noteq> Terminated"
  by (auto simp: act_db_def split: prod.splits sum.splits)

lemma unregister_answers: "\<exists>r d'. unregister_handle common_name u db req d = Some (Returned r, d')"
proof -
  obtain error nm mac where q: "read_query store_unregister (new_Parser (rq_uri req)) ([], []) = Some (error, nm, mac)"
    using unr.read_total [OF new_Parser_inv, of "rq_uri req" "([], [])"] by auto
  have "\<exists>r d'. unregister_device u db nm mac d = Some (r, d') \<and> r \<noteq> Terminated"
    by (auto simp: unregister_device_def act_bind_def act_db_def returns_def split: prod.splits sum.splits)
  then have "\<exists>r d'. (if rq_content req \<noteq> [] then returns (bad_payload ''Invalid payload for request.'' ''/unregister'')
      else unregister common_name u db req) d = Some (r, d') \<and> r \<noteq> Terminated"
    using q by (auto simp: unregister_def returns_def split: option.splits)
  then show ?thesis
    by (auto simp: unregister_handle_def guarded_def act_catch_def returns_def split: scope_result.splits)
qed

section \<open>Responses\<close>

lemma dev_keys:
  "fd \<in> set device_fields \<Longrightarrow> key_ok (fd_key fd)"
  "fd \<in> set registered_device_fields \<Longrightarrow> key_ok (fd_key fd)"
  "fd \<in> set registry_fields \<Longrightarrow> key_ok (fd_key fd)"
  by (auto simp: device_fields_def registered_device_fields_def registry_fields_def dev_field_defs)

lemma dev_fields_nonempty [simp]: "device_fields \<noteq> []" "registered_device_fields \<noteq> []" "registry_fields \<noteq> []"
  by (simp_all add: device_fields_def registered_device_fields_def registry_fields_def)

definition device_json :: "Row \<Rightarrow> json" where
  "device_json row = JObject (items_json device_fields row 0)"

lemma device_read:
  assumes "plain_items device_fields row 0"
  shows "reads_text (''{'' @ join '','' (map field_text (items_json device_fields row 0)) @ ''}'') (device_json row)"
  unfolding device_json_def using reads_items [OF assms dev_keys(1)] by (intro reads_text_object)

lemma device_within: "plain_items device_fields row 0 \<Longrightarrow> within (Suc k) (device_json row)"
  using within_items [of device_fields row 0] by (auto simp: device_json_def)

lemma device_response_json:
  assumes "plain_items device_fields row 0"
  shows "parser_parse STANDARD (rs_content (device_response origin (row # rows))) = Done (device_json row) []"
proof -
  have "builder_str (write_items device_fields row 0 new_JsonBuilder) =
      ''{'' @ join '','' (map field_text (items_json device_fields row 0)) @ ''}''"
    by (intro builder_members [OF write_items_members]) simp
  moreover have "within max_depth (device_json row)"
    using device_within [OF assms, of 199] by (simp add: max_depth_def)
  ultimately show ?thesis
    using reads_text_parses [OF device_read [OF assms]]
    by (simp add: device_response_def ok_Response_def new_Response_def)
qed

definition devices_json :: "int \<Rightarrow> Row list \<Rightarrow> json" where
  "devices_json num rows = JObject [(''count'', JInt num), (''data'', JArray (map device_json rows))]"

lemma devices_response_json:
  assumes "plain_scalar (JInt num)" "\<And>r. r \<in> set rows \<Longrightarrow> plain_items device_fields r 0"
  shows "parser_parse STANDARD (rs_content (devices_response num rows)) = Done (devices_json num rows) []"
proof -
  let ?t = "\<lambda>r. ''{'' @ join '','' (map field_text (items_json device_fields r 0)) @ ''}''"
  let ?ms = "[field_text (''count'', JInt num), array_member ''data'' (map ?t rows)]"
  have c: "writes_members (write_int ''count'' num) [field_text (''count'', JInt num)]"
  proof -
    have "write_int ''count'' num = write_field (''count'', JInt num)" by (rule ext) simp
    then show ?thesis using write_field_writes by (simp add: writes_members_one)
  qed
  have "writes_members (for_each_row ''data'' rows (\<lambda>r. write_items device_fields r 0)) [array_member ''data'' (map ?t rows)]"
    using write_items_members by (intro for_each_row_members) simp
  from builder_members [OF writes_members_comp [OF c this]]
  have b: "builder_str (for_each_row ''data'' rows (\<lambda>r. write_items device_fields r 0)
      (write_int ''count'' num new_JsonBuilder)) = ''{'' @ join '','' ?ms @ ''}''" by simp
  have "list_all2 reads_text (map ?t rows) (map device_json rows)"
    using device_read assms(2) by (auto simp: list_all2_map1 list_all2_map2 intro!: list.rel_refl_strong)
  then have "reads_text (''{'' @ join '','' ?ms @ ''}'') (devices_json num rows)"
    using assms(1) unfolding devices_json_def
    by (intro reads_text_object) (auto intro!: reads_field reads_array_member)
  moreover have "within max_depth (devices_json num rows)"
    using device_within [OF assms(2), of _ 197] by (auto simp: devices_json_def max_depth_def)
  ultimately show ?thesis
    using b reads_text_parses by (simp add: devices_response_def ok_Response_def new_Response_def)
qed

text \<open>
  The statement for a page. The query string was checked to hold numbers, so their conversion does
  not throw.
\<close>

definition page_text :: "string \<Rightarrow> QueryString \<Rightarrow> string" where
  "page_text q qs =
     (if qs_page qs = [] then q
      else q @ '' LIMIT '' @ qs_item_per_page qs @ '' OFFSET ''
        @ ulong_str (projr (stoul (qs_page qs)) * projr (stoul (qs_item_per_page qs))))"

lemma new_QueryString_good: "new_QueryString u il = Some (False, qs) \<Longrightarrow> qs_good il qs"
  using qsr.read_total [OF new_Parser_inv [of u], of il init_QueryString]
  by (auto simp: new_QueryString_def qs_good_def init_QueryString_def)

lemma fetch_page_text:
  assumes "qs_good il qs" "\<not> qs_isInvalid qs"
  shows "fetch_page db q (qs_page qs) (qs_item_per_page qs) = act_db (db_fetch db (page_text q qs))"
proof (cases "qs_page qs = []")
  case False
  then have "converts_ulong (qs_page qs)" "converts_ulong (qs_item_per_page qs)"
    using assms by (auto simp: qs_good_def qs_isInvalid_def)
  then show ?thesis
    using False
    by (cases "stoul (qs_page qs)"; cases "stoul (qs_item_per_page qs)")
      (simp_all add: fetch_page_def page_text_def converts_ulong_def)
qed (simp add: fetch_page_def page_text_def)

definition devices_select :: "QueryString \<Rightarrow> string" where
  "devices_select qs =
     ''SELECT id, created_at, updated_at, device_name, address, mac_address, authentication_info FROM device ORDER BY ''
       @ qs_sort_field qs @ '' '' @ qs_direction qs"

lemma act_bind_db: "x d = (Inr v, d') \<Longrightarrow> act_bind (act_db x) f d = f v d'"
  by (simp add: act_bind_def act_db_def)

lemma devices_get_answer:
  assumes "new_QueryString (rq_uri req) [''id'', ''createdAt'', ''updatedAt''] = Some (False, qs)"
    "\<not> qs_isInvalid qs"
    "db_fetch_long db ''SELECT COUNT(*) FROM device'' 0 d = (Inr (found, num), d1)"
    "db_fetch db (page_text (devices_select qs) qs) d1 = (Inr rows, d2)"
  shows "devices_get db req d = Some (Returned (devices_response num rows), d2)"
proof -
  have g: "getDevices db (qs_page qs) (qs_item_per_page qs) (qs_sort_field qs) (qs_direction qs) =
      act_db (db_fetch db (page_text (devices_select qs) qs))"
    using fetch_page_text [OF new_QueryString_good [OF assms(1)] assms(2)]
    by (simp add: getDevices_def devices_select_def)
  have c: "act_bind (getDeviceCount db) f d = f num d1" for f :: "int \<Rightarrow> ('b, 'a) action"
    using assms(3) by (simp add: getDeviceCount_def fetch_count_def act_bind_def act_db_def act_ret_def)
  show ?thesis
    using assms(1,2) by (simp add: devices_get_def with_page_def c g act_bind_db [where x = "db_fetch db _", OF assms(4)] returns_def)
qed

section \<open>Storing a device\<close>

text \<open>What a client sends that writes its device with the JSON writer of the services.\<close>

definition device_body :: "(string \<Rightarrow> string) \<Rightarrow> string \<Rightarrow> string \<Rightarrow> string \<Rightarrow> string" where
  "device_body ds nm mac addr =
     dump ds (JObject [(''deviceName'', JString nm), (''macAddress'', JString mac), (''address'', JString addr)])"

lemma device_body_built:
  assumes "plain_string nm" "plain_string mac" "plain_string addr"
  shows "ModelBuilder (device_body ds nm mac addr) device_parse =
    Built \<lparr>dev_name = Some nm, mac_address = Some mac, address = Some addr, auth_info = None\<rparr>"
proof -
  let ?v = "JObject [(''deviceName'', JString nm), (''macAddress'', JString mac), (''address'', JString addr)]"
  have k: "plain_key ''deviceName''" "plain_key ''macAddress''" "plain_key ''address''" by code_simp+
  have "jsonParse (dump ds ?v) = Parse JSON_PARSE_OK (gason_value ?v)"
    using assms k by (intro gason_reads_dump) (simp_all add: JSON_STACK_SIZE_def)
  then show ?thesis
    by (simp add: ModelBuilder_def device_body_def device_parse_def read_text_def child_def present_def)
qed

lemma device_body_nonempty: "device_body ds nm mac addr \<noteq> []"
  by (simp add: device_body_def)

definition device_insert :: "'d Database \<Rightarrow> string \<Rightarrow> string \<Rightarrow> string \<Rightarrow> string" where
  "device_insert db nm mac addr =
     ''INSERT INTO device (device_name, mac_address, address, authentication_info) VALUES ('' @ db_escape db nm
       @ '', '' @ db_escape db mac @ '', '' @ db_escape db addr @ '', NULL)''"

definition device_by_id :: "ulong \<Rightarrow> string" where
  "device_by_id ident =
     ''SELECT id, created_at, updated_at, device_name, address, mac_address, authentication_info FROM device WHERE id = ''
       @ ulong_str ident"

lemma devices_post_log:
  assumes "plain_string nm" "plain_string mac" "plain_string addr"
    "rq_content req = device_body ds nm mac addr"
    "db_insert db (device_insert db nm mac addr) 0 d = (Inr (True, ident), d1)"
    "db_fetch db (device_by_id ident) d1 = (Inr rows, d2)"
  shows "devices_post (traced db) req (d, []) =
    Some (Returned (device_response ''/mgmt/devices'' rows), (d2, [device_insert db nm mac addr, device_by_id ident]))"
proof -
  let ?dev = "\<lparr>dev_name = Some nm, mac_address = Some mac, address = Some addr, auth_info = None\<rparr>"
  have i: "insert_device (traced db) ?dev = device_insert db nm mac addr"
    by (simp add: insert_device_def device_insert_def emptyToNull_def)
  have "devices_post (traced db) req (d, []) =
      act_bind (postDevice (traced db) 0 ?dev) (\<lambda>(ok, ident).
         if ok then getDeviceById ''/mgmt/devices'' (traced db) ident
         else returns (invalid_parameter ''Device not found.'' ''/mgmt/devices'')) (d, [])"
    using device_body_built [OF assms(1-3), of ds] device_body_nonempty assms(4)
    by (simp add: devices_post_def with_model_def device_validate_def)
  also have "\<dots> = getDeviceById ''/mgmt/devices'' (traced db) ident (d1, [device_insert db nm mac addr])"
    using assms(5) by (simp add: postDevice_def i act_bind_logged)
  also have "\<dots> = Some (Returned (device_response ''/mgmt/devices'' rows),
      (d2, [device_insert db nm mac addr, device_by_id ident]))"
    using assms(6) unfolding getDeviceById_def getDevice_def device_by_id_def
    by (simp add: act_bind_logged returns_def)
  finally show ?thesis .
qed

section \<open>Registering a known device\<close>

definition register_body :: "(string \<Rightarrow> string) \<Rightarrow> string \<Rightarrow> string \<Rightarrow> string \<Rightarrow> string" where
  "register_body ds nm mac addr =
     dump ds (JObject [(''device'',
       JObject [(''deviceName'', JString nm), (''macAddress'', JString mac), (''address'', JString addr)])])"

definition register_update :: "'d Database \<Rightarrow> string \<Rightarrow> string" where
  "register_update db addr = ''UPDATE device SET address = '' @ db_escape db addr @ '', authentication_info = NULL''"

definition sent_device :: "string \<Rightarrow> string \<Rightarrow> string \<Rightarrow> JsonValue" where
  "sent_device nm mac addr =
     JSON_OBJECT [(''deviceName'', JSON_STRING nm), (''macAddress'', JSON_STRING mac), (''address'', JSON_STRING addr)]"

lemma register_body_parsed:
  assumes "plain_string nm" "plain_string mac" "plain_string addr"
  shows "jsonParse (register_body ds nm mac addr) = Parse JSON_PARSE_OK (JSON_OBJECT [(''device'', sent_device nm mac addr)])"
proof -
  let ?v = "JObject [(''device'',
       JObject [(''deviceName'', JString nm), (''macAddress'', JString mac), (''address'', JString addr)])]"
  have k: "plain_key ''device''" "plain_key ''deviceName''" "plain_key ''macAddress''" "plain_key ''address''"
    by code_simp+
  have "jsonParse (dump ds ?v) = Parse JSON_PARSE_OK (gason_value ?v)"
    using assms k by (intro gason_reads_dump) (simp_all add: JSON_STACK_SIZE_def)
  then show ?thesis by (simp add: register_body_def sent_device_def)
qed

lemma sent_device_found:
  assumes "nm \<noteq> []" "mac \<noteq> []" "db_fetch_long db (device_select db nm mac) 0 d = (Inr (True, ident), d1)"
  shows "register_findOrCreate (traced db) (sent_device nm mac addr) (d, []) =
    act_bind (act_db (logged (register_update db addr) (db_query db (register_update db addr)))) (\<lambda>_. act_ret ident)
      (d1, [device_select db nm mac])"
proof -
  have "device_select (traced db) nm mac = device_select db nm mac" by (simp add: device_select_def)
  then show ?thesis
    using assms
    by (simp add: register_findOrCreate_def optional_text_def text_or_null_def node_of_def sent_device_def child_def
        present_def emptyToNull_def register_update_def act_bind_logged)
qed

lemma emits_node [emits_intros]: "(\<And>v. emits P (k v)) \<Longrightarrow> emits P (node_of key root k)"
  unfolding node_of_def by (intro emits_intros)

lemma bind_prefix:
  assumes "act_bind x f s = Some (r, (d', l'))" "x s = Some (r1, (d1, l1))" "\<And>v. emits P (f v)"
  shows "prefix l1 l'"
proof (cases r1)
  case (Returned v)
  then have "f v (d1, l1) = Some (r, (d', l'))" using assms(1,2) by (simp add: act_bind_def)
  then show ?thesis using assms(3) [of v] by (fastforce simp: emits_def)
qed (use assms(1,2) in \<open>auto simp: act_bind_def\<close>)

lemma register_updates:
  assumes "plain_string nm" "plain_string mac" "plain_string addr" "nm \<noteq> []" "mac \<noteq> []"
    "rq_content req = register_body ds nm mac addr"
    "db_fetch_long db (device_select db nm mac) 0 d = (Inr (True, ident), d1)"
    "register_handle (traced db) req (d, []) = Some (r, (d', l))"
  shows "prefix [device_select db nm mac, register_update db addr] l"
proof -
  let ?root = "JSON_OBJECT [(''device'', sent_device nm mac addr)]"
  have ne: "rq_content req \<noteq> []" using assms(6) by (simp add: register_body_def)
  obtain r0 where p: "process (traced db) req (d, []) = Some (r0, (d', l))"
    using guarded_Some [OF assms(8) [unfolded register_handle_def]] ne by auto
  have "\<exists>r1 d2. register_findOrCreate (traced db) (sent_device nm mac addr) (d, []) =
      Some (r1, (d2, [device_select db nm mac, register_update db addr]))"
    unfolding sent_device_found [OF assms(4,5,7)] act_bind_logged
    by (simp add: act_ret_def split: prod.split sum.split)
  then obtain r1 d2 where f: "register_findOrCreate (traced db) (sent_device nm mac addr) (d, []) =
      Some (r1, (d2, [device_select db nm mac, register_update db addr]))" by blast
  have c: "child ''device'' ?root = Some (sent_device nm mac addr)" "isObject (sent_device nm mac addr)"
    by (simp_all add: child_def sent_device_def)
  have g: "process (traced db) req =
      act_bind (register_findOrCreate (traced db) (sent_device nm mac addr)) (store_registration (traced db) ?root)"
    using register_body_parsed [OF assms(1-3), of ds] c by (simp add: process_def assms(6) node_of_def)
  have e: "emits (\<lambda>_. True) (store_registration (traced db) ?root v)" for v
    unfolding store_registration_def register_version_def optional_text_def
    by (auto intro!: emits_intros split: option.split prod.split)
  show ?thesis using bind_prefix [OF p [unfolded g] f e] .
qed

section \<open>Defects\<close>

text \<open>A body of spaces is read behind its end by every endpoint that reads JSON.\<close>

lemma blank_body:
  assumes "rq_content req \<noteq> []" "\<forall>c \<in> set (rq_content req). isspace c"
  shows "devices_post db req d = None" "registry_put db req ident d = None"
    "query_handle db req d = None" "register_handle db req d = None"
proof -
  have j: "jsonParse (rq_content req) = OutOfBounds" using only_spaces [OF assms] .
  have u: "guarded origin act_undef d = None" for origin
    by (simp add: guarded_def act_catch_def act_undef_def)
  show "devices_post db req d = None" "registry_put db req ident d = None"
    using j assms(1)
    by (simp_all add: devices_post_def registry_put_def with_model_def ModelBuilder_def act_undef_def)
  show "query_handle db req d = None" "register_handle db req d = None"
    using j u assms(1) by (simp_all add: query_handle_def query_def register_handle_def process_def)
qed

text \<open>A body whose last member is null is refused, though it is JSON.\<close>

lemma null_body:
  assumes "plain_key k" "rq_content req = ''{'' @ DQUOTE # k @ DQUOTE # '':'' @ ''null}''"
  shows "devices_post db req = returns (from_stock BadRequest)"
  using null_member [OF assms(1)] assms(2) by (simp add: devices_post_def with_model_def ModelBuilder_def)

text \<open>
  The statement for one registration selects \<open>created_at\<close>, \<open>updated_at\<close> and \<open>version\<close> in the columns 1
  to 3; the response takes them as the version and the two dates.
\<close>

lemma registration_columns:
  "items_json registry_fields row 0 =
     [(''id'', JInt (snd (get_long row 0))), (''version'', JInt (snd (get_int row 1))),
      (''createdAt'', JString (snd (get_str row 2))), (''updatedAt'', JString (snd (get_str row 3))),
      (''endOfValidity'', if fst (get_str row 4) then JString (snd (get_str row 4)) else JNull)]"
  by (simp add: registry_fields_def dev_field_defs item_json_def eval_nat_numeral)

text \<open>The metadata of a registration lose the last two characters of the last value.\<close>

lemma metadata_cut:
  "map_option (map_option pop2) (register_metadata [] (nodes (JSON_OBJECT [(k, JSON_STRING (t @ [a, b]))]))) =
     Some (Some ('', '' @ k @ ''='' @ t))"
  by (simp add: pop2_def butlast_append)

text \<open>On MariaDB a name is put into the statement without quotes.\<close>

lemma unquoted_name:
  assumes "my_real_escape_string my nm = nm"
  shows "device_select (mariadb fetch my) nm mac =
    ''SELECT id FROM device WHERE device_name = '' @ nm @ '' AND mac_address = '' @ my_real_escape_string my mac"
  using assms by (simp add: device_select_def mariadb_def)

end
