(* ===== verification/Gason_Memory.thy ===== *)
theory Gason_Memory
  imports Prelude
begin

text \<open>
  How \<open>inc/gason\<close> represents its data: a value as the bits of a double, with the tag and the pointer
  of every other kind of value in the payload of a NaN; and the nodes in zones of fixed size, which
  are chained, filled one after the other and used again after a reset.
\<close>

unbundle bit_operations_syntax

section \<open>Boxed values\<close>

definition JSON_VALUE_PAYLOAD_MASK :: ulong where "JSON_VALUE_PAYLOAD_MASK = 0x00007FFFFFFFFFFF"
definition JSON_VALUE_NAN_MASK :: ulong where "JSON_VALUE_NAN_MASK = 0x7FF8000000000000"
definition JSON_VALUE_TAG_MASK :: ulong where "JSON_VALUE_TAG_MASK = 0xF"
definition JSON_VALUE_TAG_SHIFT :: nat where "JSON_VALUE_TAG_SHIFT = 47"

text \<open>The values of \<open>enum JsonTag\<close>.\<close>

definition TAG_NUMBER :: ulong where "TAG_NUMBER = 0"
definition TAG_TRUE :: ulong where "TAG_TRUE = 4"
definition TAG_FALSE :: ulong where "TAG_FALSE = 5"

definition box :: "ulong \<Rightarrow> ulong \<Rightarrow> ulong" where
  "box tag payload = (JSON_VALUE_NAN_MASK OR push_bit JSON_VALUE_TAG_SHIFT tag) OR payload"

definition isDouble :: "ulong \<Rightarrow> bool" where
  "isDouble ival \<longleftrightarrow> sint ival \<le> sint JSON_VALUE_NAN_MASK"

definition getTag :: "ulong \<Rightarrow> ulong" where
  "getTag ival =
     (if isDouble ival then TAG_NUMBER else drop_bit JSON_VALUE_TAG_SHIFT ival AND JSON_VALUE_TAG_MASK)"

definition getPayload :: "ulong \<Rightarrow> ulong" where
  "getPayload ival = ival AND JSON_VALUE_PAYLOAD_MASK"

text \<open>\<open>toBool\<close> compares the payload, not the tag.\<close>

definition isBoolean :: "ulong \<Rightarrow> bool" where
  "isBoolean ival \<longleftrightarrow> getTag ival = TAG_TRUE \<or> getTag ival = TAG_FALSE"

definition toBool :: "ulong \<Rightarrow> bool option" where
  "toBool ival = (if isBoolean ival then Some (getPayload ival = TAG_TRUE) else None)"

lemmas box_defs = box_def isDouble_def getTag_def getPayload_def JSON_VALUE_PAYLOAD_MASK_def
  JSON_VALUE_NAN_MASK_def JSON_VALUE_TAG_MASK_def JSON_VALUE_TAG_SHIFT_def TAG_NUMBER_def

lemma masks:
  "JSON_VALUE_PAYLOAD_MASK = mask 47" "JSON_VALUE_TAG_MASK = mask 4"
  "JSON_VALUE_NAN_MASK = push_bit 51 (mask 12)"
  by (simp_all add: box_defs mask_eq_exp_minus_1)

lemma small_bits: "(w :: ulong) < 2 ^ k \<Longrightarrow> bit w n \<Longrightarrow> n < k"
  by (metis less_mask_eq bit_and_iff bit_mask_iff)

lemma box_bits:
  assumes "tag < 2 ^ 4" "payload < 2 ^ 47"
  shows "drop_bit 47 (box tag payload) AND mask 4 = tag" "box tag payload AND mask 47 = payload"
proof -
  note t = small_bits [OF assms(1)] and p = small_bits [OF assms(2)]
  show "drop_bit 47 (box tag payload) AND mask 4 = tag"
    by (rule bit_word_eqI) (auto simp: box_def masks JSON_VALUE_TAG_SHIFT_def bit_simps dest: t p)
  show "box tag payload AND mask 47 = payload"
    by (rule bit_word_eqI) (auto simp: box_def masks JSON_VALUE_TAG_SHIFT_def bit_simps dest: t p)
qed

lemma sint_nat: "k < 2 ^ 63 \<Longrightarrow> sint (of_nat k :: ulong) = int k"
  by (simp add: sint_uint unsigned_of_nat take_bit_nat_eq_self signed_take_bit_int_eq_self)

lemma box_value:
  assumes "tag < 2 ^ 4" "payload < 2 ^ 47"
  shows "box tag payload = of_nat (0x7FF8000000000000 + unat tag * 2 ^ 47 + unat payload)"
proof -
  note t = small_bits [OF assms(1)] and p = small_bits [OF assms(2)]
  have "JSON_VALUE_NAN_MASK AND push_bit 47 tag = 0" "(JSON_VALUE_NAN_MASK OR push_bit 47 tag) AND payload = 0"
    by (rule bit_word_eqI, auto simp: masks bit_simps dest: t p)+
  then have "JSON_VALUE_NAN_MASK OR push_bit 47 tag = JSON_VALUE_NAN_MASK + push_bit 47 tag"
    "(JSON_VALUE_NAN_MASK OR push_bit 47 tag) OR payload = (JSON_VALUE_NAN_MASK OR push_bit 47 tag) + payload"
    by (metis add_0 word_plus_and_or)+
  then have "box tag payload = JSON_VALUE_NAN_MASK + push_bit 47 tag + payload"
    by (simp only: box_def JSON_VALUE_TAG_SHIFT_def)
  then show ?thesis by (simp add: JSON_VALUE_NAN_MASK_def push_bit_eq_mult)
qed

lemma box_double:
  assumes "tag < 2 ^ 4" "payload < 2 ^ 47"
  shows "isDouble (box tag payload) \<longleftrightarrow> tag = 0 \<and> payload = 0"
proof -
  have b: "unat tag < 16" "unat payload < 2 ^ 47"
    using assms by (simp_all add: word_less_nat_alt)
  have "sint (box tag payload) = int (0x7FF8000000000000 + unat tag * 2 ^ 47 + unat payload)"
    unfolding box_value [OF assms] using b by (intro sint_nat) simp
  moreover have "sint JSON_VALUE_NAN_MASK = 0x7FF8000000000000"
    using sint_nat [of "0x7FF8000000000000"] by (simp add: JSON_VALUE_NAN_MASK_def)
  ultimately have "isDouble (box tag payload) \<longleftrightarrow> unat tag * 2 ^ 47 + unat payload \<le> 0"
    unfolding isDouble_def by linarith
  then show ?thesis by (auto simp: unat_eq_zero)
qed

text \<open>The tag of a boxed value is found again, and so is the payload.\<close>

lemma box_unbox:
  assumes "tag < 2 ^ 4" "payload < 2 ^ 47"
  shows "getTag (box tag payload) = tag" "getPayload (box tag payload) = payload"
  using box_bits [OF assms] box_double [OF assms]
  by (auto simp: getTag_def getPayload_def masks JSON_VALUE_TAG_SHIFT_def TAG_NUMBER_def)

lemma toBool_true: "toBool (box TAG_TRUE 0) = Some False"
  using box_unbox [of TAG_TRUE 0] by (simp add: toBool_def isBoolean_def TAG_TRUE_def TAG_FALSE_def)

section \<open>Zones\<close>

text \<open>
  The chain of zones, each by its \<open>used\<close> bytes, and the place of \<open>head\<close> in it. A zone has its header
  of three pointers in front.
\<close>

record JsonAllocator =
  ja_zones :: "nat list"
  ja_head :: "nat option"

definition JSON_ZONE_SIZE :: nat where "JSON_ZONE_SIZE = 4096"
definition sizeof_Zone :: nat where "sizeof_Zone = 24"

definition new_JsonAllocator :: JsonAllocator where
  "new_JsonAllocator = \<lparr>ja_zones = [], ja_head = None\<rparr>"

text \<open>\<open>(size + 7) & ~7\<close>\<close>

definition align8 :: "nat \<Rightarrow> nat" where
  "align8 n = (n + 7) div 8 * 8"

text \<open>A failed assertion is \<open>None\<close>; a block is its zone and its place there.\<close>

definition zone_create :: "nat \<Rightarrow> JsonAllocator \<Rightarrow> ((nat \<times> nat) \<times> JsonAllocator) option" where
  "zone_create n al =
     (if sizeof_Zone + n \<le> JSON_ZONE_SIZE then
        Some ((length (ja_zones al), sizeof_Zone),
          \<lparr>ja_zones = ja_zones al @ [sizeof_Zone + n], ja_head = Some (length (ja_zones al))\<rparr>)
      else None)"

definition allocate :: "nat \<Rightarrow> JsonAllocator \<Rightarrow> ((nat \<times> nat) \<times> JsonAllocator) option" where
  "allocate sz al =
     (let n = align8 sz in
      case ja_head al of
        None \<Rightarrow> zone_create n al
      | Some h \<Rightarrow>
          (let used = ja_zones al ! h in
           if \<not> used \<le> JSON_ZONE_SIZE then None
           else if used + n \<le> JSON_ZONE_SIZE then
             Some ((h, used), al\<lparr>ja_zones := (ja_zones al)[h := used + n]\<rparr>)
           else if Suc h < length (ja_zones al) then
             (if ja_zones al ! Suc h = sizeof_Zone then
                Some ((Suc h, sizeof_Zone),
                  \<lparr>ja_zones = (ja_zones al)[Suc h := sizeof_Zone + n], ja_head = Some (Suc h)\<rparr>)
              else None)
           else zone_create n al))"

definition deallocate :: "JsonAllocator \<Rightarrow> JsonAllocator" where
  "deallocate al = \<lparr>ja_zones = [], ja_head = None\<rparr>"

definition zones_reset :: "JsonAllocator \<Rightarrow> JsonAllocator" where
  "zones_reset al =
     \<lparr>ja_zones = map (\<lambda>_. sizeof_Zone) (ja_zones al), ja_head = (if ja_zones al = [] then None else Some 0)\<rparr>"

text \<open>The calls of one run of the parser.\<close>

fun allocate_all :: "nat list \<Rightarrow> JsonAllocator \<Rightarrow> ((nat \<times> nat) list \<times> JsonAllocator) option" where
  "allocate_all [] al = Some ([], al)"
| "allocate_all (n # ns) al =
     Option.bind (allocate n al) (\<lambda>(b, al).
       Option.bind (allocate_all ns al) (\<lambda>(bs, al). Some (b # bs, al)))"

text \<open>The zones behind the head are empty; none is filled beyond its size.\<close>

definition zones_ok :: "JsonAllocator \<Rightarrow> bool" where
  "zones_ok al \<longleftrightarrow>
     (ja_head al = None \<longleftrightarrow> ja_zones al = [])
     \<and> (\<forall>h. ja_head al = Some h \<longrightarrow> h < length (ja_zones al)
          \<and> (\<forall>i < length (ja_zones al). h < i \<longrightarrow> ja_zones al ! i = sizeof_Zone))
     \<and> (\<forall>u \<in> set (ja_zones al). sizeof_Zone \<le> u \<and> u \<le> JSON_ZONE_SIZE \<and> u mod 8 = 0)"

text \<open>A block of \<open>n\<close> bytes lies in the used part of its zone, behind the header.\<close>

definition holds :: "JsonAllocator \<Rightarrow> (nat \<times> nat) \<times> nat \<Rightarrow> bool" where
  "holds al bn =
     (case bn of ((z, off), n) \<Rightarrow>
        z < length (ja_zones al) \<and> sizeof_Zone \<le> off \<and> off mod 8 = 0 \<and> off + n \<le> ja_zones al ! z)"

definition apart :: "(nat \<times> nat) \<times> nat \<Rightarrow> (nat \<times> nat) \<times> nat \<Rightarrow> bool" where
  "apart a b =
     (case (a, b) of (((z, off), n), ((z', off'), n')) \<Rightarrow> z \<noteq> z' \<or> off + n \<le> off' \<or> off' + n' \<le> off)"

lemma align8: "n \<le> align8 n" "align8 n mod 8 = 0" "n \<le> 4072 \<Longrightarrow> align8 n \<le> 4072"
  by (simp_all add: align8_def)

lemma zones_used:
  "zones_ok al \<Longrightarrow> i < length (ja_zones al) \<Longrightarrow>
    sizeof_Zone \<le> ja_zones al ! i \<and> ja_zones al ! i \<le> JSON_ZONE_SIZE \<and> ja_zones al ! i mod 8 = 0"
  by (simp add: zones_ok_def)

text \<open>
  One call: the block starts where its zone was filled before, and the used parts only grow.
\<close>

lemma allocate_block:
  assumes "zones_ok al" "n \<le> 4072"
  obtains z off al' where "allocate n al = Some ((z, off), al')" "zones_ok al'" "holds al' ((z, off), n)"
    "z < length (ja_zones al) \<Longrightarrow> off = ja_zones al ! z"
    "length (ja_zones al) \<le> length (ja_zones al')"
    "\<And>i. i < length (ja_zones al) \<Longrightarrow> ja_zones al ! i \<le> ja_zones al' ! i"
proof -
  note al = align8 [of n]
  show thesis
  proof (cases "ja_head al")
    case None
    have "(24 + align8 n) mod 8 = 0" using al by presburger
    then show thesis
      using None assms al that [of 0 sizeof_Zone "\<lparr>ja_zones = [sizeof_Zone + align8 n], ja_head = Some 0\<rparr>"]
      by (simp add: zones_ok_def allocate_def zone_create_def holds_def sizeof_Zone_def JSON_ZONE_SIZE_def)
  next
    case (Some h)
    then have h: "h < length (ja_zones al)" using assms(1) by (simp add: zones_ok_def)
    let ?used = "ja_zones al ! h"
    have u: "sizeof_Zone \<le> ?used" "?used \<le> JSON_ZONE_SIZE" "?used mod 8 = 0"
      using zones_used [OF assms(1) h] by auto
    consider "?used + align8 n \<le> JSON_ZONE_SIZE"
      | "\<not> ?used + align8 n \<le> JSON_ZONE_SIZE" "Suc h < length (ja_zones al)"
      | "\<not> ?used + align8 n \<le> JSON_ZONE_SIZE" "\<not> Suc h < length (ja_zones al)" by blast
    then show thesis
    proof cases
      case 1
      let ?al = "al\<lparr>ja_zones := (ja_zones al)[h := ?used + align8 n]\<rparr>"
      have "zones_ok ?al"
        using assms(1) Some h u 1 al by (auto simp: zones_ok_def nth_list_update trans_le_add1 dest!: set_update_subset_insert [THEN subsetD])
      then show thesis
        using Some h u 1 al by (intro that [of h ?used ?al]) (auto simp: allocate_def holds_def nth_list_update Let_def)
    next
      case 2
      let ?al = "\<lparr>ja_zones = (ja_zones al)[Suc h := sizeof_Zone + align8 n], ja_head = Some (Suc h)\<rparr>"
      have e: "ja_zones al ! Suc h = sizeof_Zone" using assms(1) Some 2 by (simp add: zones_ok_def)
      have "zones_ok ?al"
        using assms(1) Some h 2 al assms(2)
        by (auto simp: zones_ok_def nth_list_update sizeof_Zone_def JSON_ZONE_SIZE_def
            dest!: set_update_subset_insert [THEN subsetD])
      then show thesis
        using Some h u 2 al e
        by (intro that [of "Suc h" sizeof_Zone ?al])
          (auto simp: allocate_def holds_def nth_list_update sizeof_Zone_def Let_def)
    next
      case 3
      let ?al = "\<lparr>ja_zones = ja_zones al @ [sizeof_Zone + align8 n], ja_head = Some (length (ja_zones al))\<rparr>"
      have "zones_ok ?al"
        using assms al by (auto simp: zones_ok_def sizeof_Zone_def JSON_ZONE_SIZE_def)
      then show thesis
        using Some h u 3 al assms(2)
        by (intro that [of "length (ja_zones al)" sizeof_Zone ?al])
          (auto simp: allocate_def zone_create_def holds_def nth_append sizeof_Zone_def JSON_ZONE_SIZE_def Let_def)
    qed
  qed
qed

text \<open>A whole run.\<close>

lemma holds_mono:
  assumes "holds al b" "length (ja_zones al) \<le> length (ja_zones al')"
    "\<And>i. i < length (ja_zones al) \<Longrightarrow> ja_zones al ! i \<le> ja_zones al' ! i"
  shows "holds al' b"
  using assms by (fastforce simp: holds_def split: prod.splits)

lemma allocate_run:
  assumes "zones_ok al" "\<forall>n \<in> set ns. n \<le> 4072"
  shows "\<exists>bs al'. allocate_all ns al = Some (bs, al') \<and> length bs = length ns \<and> zones_ok al'
    \<and> (\<forall>b \<in> set (zip bs ns). holds al' b) \<and> sorted_wrt apart (zip bs ns)
    \<and> (\<forall>b. holds al b \<longrightarrow> holds al' b \<and> (\<forall>c \<in> set (zip bs ns). apart b c))"
  using assms
proof (induction ns arbitrary: al)
  case Nil
  then show ?case by auto
next
  case (Cons n ns)
  then have n: "n \<le> 4072" by simp
  obtain z off al1 where a: "allocate n al = Some ((z, off), al1)" "zones_ok al1" "holds al1 ((z, off), n)"
    and off: "z < length (ja_zones al) \<Longrightarrow> off = ja_zones al ! z"
    and mono: "length (ja_zones al) \<le> length (ja_zones al1)"
      "\<And>i. i < length (ja_zones al) \<Longrightarrow> ja_zones al ! i \<le> ja_zones al1 ! i"
    using allocate_block [OF Cons.prems(1) n] by metis
  have old: "holds al1 b \<and> apart b ((z, off), n)" if "holds al b" for b
    using holds_mono [OF that mono] that off by (cases b) (auto simp: holds_def apart_def)
  obtain bs al2 where r: "allocate_all ns al1 = Some (bs, al2)" "length bs = length ns" "zones_ok al2"
      "\<forall>b \<in> set (zip bs ns). holds al2 b" "sorted_wrt apart (zip bs ns)"
      "\<forall>b. holds al1 b \<longrightarrow> holds al2 b \<and> (\<forall>c \<in> set (zip bs ns). apart b c)"
    using Cons.IH [OF a(2)] Cons.prems(2) by auto
  have "allocate_all (n # ns) al = Some ((z, off) # bs, al2)" using a(1) r(1) by simp
  then show ?case
    using r a(3) old by (intro exI [of _ "(z, off) # bs"] exI [of _ al2]) auto
qed

lemma new_zones_ok: "zones_ok new_JsonAllocator"
  by (simp add: zones_ok_def new_JsonAllocator_def)

lemma zones_reset_ok: "zones_ok (zones_reset al)"
  by (auto simp: zones_ok_def zones_reset_def sizeof_Zone_def JSON_ZONE_SIZE_def)

end
