(* ===== verification/DevExamples.thy ===== *)
theory DevExamples
  imports DevLaws Gason_Memory
begin

text \<open>A database with one device and requests to the device registry, on which its properties are applied.\<close>

definition device_row :: Row where
  "device_row =
     \<lparr>get_int = (\<lambda>c. (True, 1)), get_long = (\<lambda>c. (True, 5)), get_str = (\<lambda>c. (c \<noteq> 6, ''x''))\<rparr>"

definition device_database :: "unit Database" where
  "device_database =
     \<lparr>db_fetch = (\<lambda>q d. (Inr [device_row], d)),
      db_fetch_long = (\<lambda>q v d. (Inr (True, 5), d)),
      db_fetch_string = (\<lambda>q v d. (Inr (True, ''5''), d)),
      db_query = (\<lambda>q d. (Inr (), d)),
      db_query_and_check = (\<lambda>q d. (Inr 1, d)),
      db_insert = (\<lambda>q v d. (Inr (True, 5), d)),
      db_escape = (\<lambda>s. s),
      db_begin = (\<lambda>d. (Inr (), d)),
      db_commit = (\<lambda>d. (Inr (), d)),
      db_rollback = (\<lambda>d. (Inr (), d))\<rparr>"

definition post_device :: Request where
  "post_device = new_Request [] ''POST'' ''/'' (device_body (\<lambda>s. s) ''d'' ''m'' ''a'')"

definition register_known :: Request where
  "register_known = new_Request [] ''POST'' ''/register'' (register_body (\<lambda>s. s) ''d'' ''m'' ''a'')"

definition blank_request :: Request where
  "blank_request = new_Request [] ''POST'' ''/query'' [LF]"

definition list_devices :: Request where
  "list_devices =
     new_Request [] ''GET'' (''/'' @ query_text (CHR ''?'') [(''page'', nat_str 2), (''item_per_page'', nat_str 3)]) []"

definition second_page :: QueryString where
  "second_page = init_QueryString\<lparr>qs_page := nat_str 2, qs_item_per_page := nat_str 3\<rparr>"

lemma list_devices_query:
  "new_QueryString (rq_uri list_devices) [''id'', ''createdAt'', ''updatedAt''] = Some (False, second_page)"
proof -
  let ?kvs = "[(''page'', nat_str 2), (''item_per_page'', nat_str 3)]" and ?il = "[''id'', ''createdAt'', ''updatedAt'']"
  have "converts_ulong (nat_str 2)" "converts_ulong (nat_str 3)"
    by (simp_all add: converts_ulong_def stoul_nat_str ULONG_MAX_def)
  then have "store_all (store_QueryString ?il) ?kvs init_QueryString = (False, second_page)"
    by (simp add: store_QueryString_def refused_def or_else_def sink_as_ulong_def second_page_def init_QueryString_def)
  moreover have "presents (new_Parser (rq_uri list_devices)) ?kvs"
    by (rule presents_new [of _ "''/''"])
      (simp_all add: list_devices_def new_Request_def uri_rest_def new_Uri_def del: query_text.simps)
  ultimately show ?thesis unfolding new_QueryString_def by (simp only: read_query_presents)
qed

lemma device_row_plain: "plain_items device_fields device_row 0"
proof -
  have "list_all (\<lambda>kv. plain_scalar (snd kv)) (items_json device_fields device_row 0)" by code_simp
  then show ?thesis by (simp add: plain_items_def list_all_iff)
qed

lemma register_known_answered: "\<exists>r l. register_handle (traced device_database) register_known ((), []) = Some (r, ((), l))"
proof -
  have p: "plain_string ''d''" "plain_string ''m''" "plain_string ''a''" by code_simp+
  have "\<exists>r l. store_registration (traced device_database) (JSON_OBJECT [(''device'', sent_device ''d'' ''m'' ''a'')]) 5 s =
      Some (Returned r, ((), l))" for s
    by (cases s) (simp add: store_registration_def node_of_def child_def register_version_def optional_text_def
        act_bind_logged returns_def device_database_def act_bind_def act_db_def logged_def)
  moreover have "register_findOrCreate (traced device_database) (sent_device ''d'' ''m'' ''a'') ((), []) =
      Some (Returned 5, ((), [device_select device_database ''d'' ''m'', register_update device_database ''a'']))"
    using sent_device_found [of "''d''" "''m''" device_database "()" 5 "()" "''a''"]
    by (simp add: act_bind_logged act_ret_def device_database_def)
  ultimately have "\<exists>r l. process (traced device_database) register_known ((), []) = Some (Returned r, ((), l))"
    using register_body_parsed [OF p, of "\<lambda>s. s"]
    by (simp add: process_def register_known_def new_Request_def node_of_def child_def act_bind_def sent_device_def)
  then show ?thesis
    by (auto simp: register_handle_def register_known_def new_Request_def register_body_def guarded_def act_catch_def)
qed

end
