(* ===== verification/Decimal.thy ===== *)
theory Decimal
  imports Doubles Json_Roundtrip
begin

text \<open>
  \<open>std::stod\<close> and the output of a \<open>double\<close> through a stream, which the builder of the service registry
  uses for the version of a service: a text is read to the nearest double, and a double is printed
  with six significant digits, in exponential notation when it is very small or has more digits. The
  sign is kept beside the magnitude, so that a negative zero keeps it.
\<close>

section \<open>Reading\<close>

text \<open>The double nearest to a quotient: enough bits of it, and one that tells whether anything is left.\<close>

definition round_ratio :: "int \<Rightarrow> int \<Rightarrow> double" where
  "round_ratio n d =
     (if d = 1 then round_double n 0
      else
        (let s = nat (58 + bitlen d - bitlen n); q = n * 2 ^ s div d; r = n * 2 ^ s mod d
         in round_double (2 * q + (if r \<noteq> 0 then 1 else 0)) (- int s - 1)))"

fun exact_ratio :: "double \<Rightarrow> int \<Rightarrow> int \<Rightarrow> bool" where
  "exact_ratio (Finite a e) n d \<longleftrightarrow> (if 0 \<le> e then a * 2 ^ nat e * d = n else a * d = n * 2 ^ nat (- e))"
| "exact_ratio _ n d \<longleftrightarrow> False"

fun subnormal :: "double \<Rightarrow> bool" where
  "subnormal (Finite a e) \<longleftrightarrow> a = 0 \<or> bitlen a + e \<le> - 1022"
| "subnormal _ \<longleftrightarrow> False"

text \<open>\<open>ERANGE\<close> makes \<open>std::stod\<close> throw: a value that is too large, or too small to be exact.\<close>

definition read_ratio :: "int \<Rightarrow> int \<Rightarrow> conv_error + double" where
  "read_ratio n d =
     (let x = round_ratio n d in
      case x of
        Finite _ _ \<Rightarrow> if subnormal x \<and> \<not> exact_ratio x n d then Inl OutOfRange else Inr x
      | _ \<Rightarrow> Inl OutOfRange)"

text \<open>An exponent behind one of two letters; without digits it is not part of the number.\<close>

definition exponent_part :: "char \<Rightarrow> string \<Rightarrow> int" where
  "exponent_part c s =
     (if tolower (peek s) = c then
        (let (neg, t) = skip_sign (tl s) in signed_value neg (digits_value 10 0 (takeWhile isdigit t)))
      else 0)"

text \<open>The digits of a mantissa in a base, how many of them stand behind the point, and the rest.\<close>

definition mantissa :: "nat \<Rightarrow> string \<Rightarrow> string \<times> int \<times> string" where
  "mantissa base s =
     (let ds = takeWhile (isdigit_in base) s; r = dropWhile (isdigit_in base) s in
      if peek r = CHR ''.'' then
        (let fs = takeWhile (isdigit_in base) (tl r)
         in (ds @ fs, int (length fs), dropWhile (isdigit_in base) (tl r)))
      else (ds, 0, r))"

definition starts_with :: "string \<Rightarrow> string \<Rightarrow> bool" where
  "starts_with p s \<longleftrightarrow> map tolower (take (length p) s) = p"

definition read_magnitude :: "string \<Rightarrow> conv_error + double" where
  "read_magnitude s =
     (if starts_with ''inf'' s then Inr (Infinite False)
      else if starts_with ''nan'' s then Inr NotANumber
      else if starts_with ''0x'' s \<and> fst (mantissa 16 (drop 2 s)) \<noteq> [] then
        (let (ds, places, r) = mantissa 16 (drop 2 s);
             k = exponent_part (CHR ''p'') r - 4 * places; m = int (digits_value 16 0 ds)
         in if 0 \<le> k then read_ratio (m * 2 ^ nat k) 1 else read_ratio m (2 ^ nat (- k)))
      else
        (let (ds, places, r) = mantissa 10 s;
             k = exponent_part (CHR ''e'') r - places; m = int (digits_value 10 0 ds)
         in if ds = [] then Inl InvalidArgument
            else if m = 0 then Inr (Finite 0 0)
            else if 0 \<le> k then read_ratio (m * 10 ^ nat k) 1 else read_ratio m (10 ^ nat (- k))))"

definition stod :: "string \<Rightarrow> conv_error + bool \<times> double" where
  "stod s =
     (let (neg, t) = skip_sign (dropWhile isspace (cstr s))
      in map_sum id (Pair neg) (read_magnitude t))"

section \<open>Printing\<close>

text \<open>The decimal exponent of a positive quotient.\<close>

definition decimal_exponent :: "int \<Rightarrow> int \<Rightarrow> int" where
  "decimal_exponent n d =
     (if d \<le> n then int (length (nat_str (nat (n div d)))) - 1
      else - int (length (nat_str (nat ((d + n - 1) div n - 1)))))"

text \<open>Six significant digits of it, rounded to the nearest, ties to even, and their exponent.\<close>

definition six_digits :: "int \<Rightarrow> int \<Rightarrow> int \<times> int" where
  "six_digits n d =
     (let x = decimal_exponent n d; p = 5 - x;
          num = (if 0 \<le> p then n * 10 ^ nat p else n); den = (if 0 \<le> p then d else d * 10 ^ nat (- p));
          q = num div den; r = num mod den;
          q = (if 2 * r > den \<or> (2 * r = den \<and> odd q) then q + 1 else q)
      in if q = 10 ^ 6 then (10 ^ 5, x + 1) else (q, x))"

definition strip_zeros :: "string \<Rightarrow> string" where
  "strip_zeros s = rev (dropWhile (\<lambda>c. c = CHR ''0'') (rev s))"

definition with_fraction :: "string \<Rightarrow> string \<Rightarrow> string" where
  "with_fraction whole fs = (let fs = strip_zeros fs in if fs = [] then whole else whole @ ''.'' @ fs)"

definition pad_zeros :: "nat \<Rightarrow> string \<Rightarrow> string" where
  "pad_zeros k s = replicate (k - length s) (CHR ''0'') @ s"

definition print_ratio :: "int \<Rightarrow> int \<Rightarrow> string" where
  "print_ratio n d =
     (let (q, x) = six_digits n d in
      if x < - 4 \<or> 6 \<le> x then
        (let ds = nat_str (nat q)
         in with_fraction (take 1 ds) (drop 1 ds) @ ''e'' @ (if x < 0 then ''-'' else ''+'')
              @ pad_zeros 2 (nat_str (nat \<bar>x\<bar>)))
      else
        (let p = nat (5 - x)
         in with_fraction (nat_str (nat (q div 10 ^ p))) (pad_zeros p (nat_str (nat (q mod 10 ^ p))))))"

fun print_magnitude :: "double \<Rightarrow> string" where
  "print_magnitude (Finite a e) =
     (if a = 0 then ''0'' else print_ratio (a * 2 ^ nat e) (2 ^ nat (- e)))"
| "print_magnitude (Infinite _) = ''inf''"
| "print_magnitude NotANumber = ''nan''"

definition double_str :: "bool \<times> double \<Rightarrow> string" where
  "double_str x = (if fst x then ''-'' else []) @ print_magnitude (snd x)"

section \<open>Integers\<close>

lemma strip_zeros_replicate: "strip_zeros (replicate k (CHR ''0'')) = []"
  by (simp add: strip_zeros_def)

lemma nat_str_least: "0 < n \<Longrightarrow> 10 ^ (length (nat_str n) - 1) \<le> n"
proof (induction n rule: nat_str.induct)
  case (1 n)
  show ?case
  proof (cases "n < 10")
    case True
    then show ?thesis using 1 by (subst nat_str.simps) simp
  next
    case False
    then have "10 ^ (length (nat_str (n div 10)) - 1) \<le> n div 10" using 1 by simp
    then have "10 * 10 ^ (length (nat_str (n div 10)) - 1) \<le> n" by linarith
    moreover have "nat_str n = nat_str (n div 10) @ [digit_char (n mod 10)]"
      using False by (subst nat_str.simps) simp
    ultimately show ?thesis
      by (cases "length (nat_str (n div 10))") (simp_all add: power_Suc [symmetric] del: power_Suc)
  qed
qed

lemma print_small:
  assumes "0 < n" "n < 10 ^ 6"
  shows "print_ratio (int n) 1 = nat_str n"
proof -
  let ?L = "length (nat_str n)"
  have L: "0 < ?L" by simp
  have pos: "10 ^ (?L - 1) \<le> n" using assms(1) by (rule nat_str_least)
  have "?L \<le> 6"
  proof (rule ccontr)
    assume "\<not> ?L \<le> 6"
    then have "(10::nat) ^ 6 \<le> 10 ^ (?L - 1)" by (intro power_increasing) simp_all
    then show False using pos assms(2) by linarith
  qed
  let ?p = "nat (5 - (int ?L - 1))"
  have p: "?p = 6 - ?L" using \<open>?L \<le> 6\<close> by simp
  have x: "decimal_exponent (int n) 1 = int ?L - 1" using assms(1) by (simp add: decimal_exponent_def)
  have "n * 10 ^ (6 - ?L) < 10 ^ ?L * 10 ^ (6 - ?L)" using length_nat_str [of n] by simp
  also have "\<dots> = 10 ^ 6" using \<open>?L \<le> 6\<close> by (simp flip: power_add)
  finally have small: "int n * 10 ^ (6 - ?L) \<noteq> 10 ^ 6"
    using of_nat_less_iff [where ?'a = int, of "n * 10 ^ (6 - ?L)" "10 ^ 6"] by simp
  have six: "six_digits (int n) 1 = (int n * 10 ^ (6 - ?L), int ?L - 1)"
    using small L \<open>?L \<le> 6\<close> p by (simp add: six_digits_def x Let_def)
  have z: "pad_zeros k (nat_str 0) = replicate (max 1 k) (CHR ''0'')" for k
    by (cases k) (simp_all add: pad_zeros_def nat_str_zero replicate_append_same)
  show ?thesis
    using \<open>?L \<le> 6\<close> L
    by (simp add: print_ratio_def six z with_fraction_def strip_zeros_replicate nat_diff_distrib Let_def)
qed

text \<open>A number of up to six digits is read exactly and printed as it was; longer ones lose their form.\<close>

lemma read_magnitude_nat_str:
  assumes "n < 2 ^ 53"
  shows "read_magnitude (nat_str n) = Inr (Finite (int n) 0)"
proof -
  obtain c r where c: "nat_str n = c # r" "isdigit c" "list_all isdigit r"
    using nat_str_digits [of n] by (cases "nat_str n") auto
  have "tolower d = d" if "isdigit d" for d using that by (auto simp: tolower_def isdigit_def isupper_def)
  then have t: "map tolower (take k (nat_str n)) = take k (nat_str n)" for k
    using nat_str_digits [of n] by (intro map_idI) (auto simp: list_all_iff dest: in_set_takeD)
  have "starts_with p (nat_str n) \<Longrightarrow> p \<noteq> [] \<Longrightarrow> \<not> isdigit (last p) \<Longrightarrow> False" for p
    unfolding starts_with_def t using nat_str_digits [of n]
    by (metis in_set_takeD last_in_set list_all_iff)
  then have s: "\<not> starts_with ''inf'' (nat_str n)" "\<not> starts_with ''nan'' (nat_str n)" "\<not> starts_with ''0x'' (nat_str n)"
    by (force simp: isdigit_def)+
  have "read_ratio (int n) 1 = Inr (Finite (int n) 0)" if "0 < n"
    using that assms round_exact [of "int n"] by (simp add: read_ratio_def round_ratio_def)
  then show ?thesis
    using s by (simp add: read_magnitude_def mantissa_def peek_def exponent_part_def tolower_def isupper_def Let_def)
qed

lemma stod_int_str:
  assumes "\<bar>v\<bar> < 2 ^ 53"
  shows "stod (int_str v) = Inr (v < 0, Finite \<bar>v\<bar> 0)"
proof (cases "v < 0")
  case True
  then show ?thesis
    using assms read_magnitude_nat_str [of "nat (- v)"] by (simp add: stod_def int_str_def isspace_def)
next
  case False
  then show ?thesis
    using assms read_magnitude_nat_str [of "nat v"] skip_blank_sign_digits [OF nat_str_digits, of "nat v" "[]"]
    by (simp add: stod_def int_str_def)
qed

lemma double_str_int:
  assumes "\<bar>v\<bar> < 10 ^ 6"
  shows "double_str (v < 0, Finite \<bar>v\<bar> 0) = int_str v"
  using print_small [of "nat \<bar>v\<bar>"] assms
  by (cases "v = 0") (auto simp: double_str_def int_str_def nat_str_zero)

end
