(* ===== verification/Payloads.thy ===== *)
theory Payloads
  imports Endpoint Gason Decimal
begin

text \<open>
  What the service registry shares (\<open>utils/common\<close>): the validators of the fields of a request
  (\<open>CommonPayloads.h\<close>), the builder that takes numbers as text (\<open>CommonJsonBuilder.h\<close>), the error
  responses (\<open>Error.h\<close>), and the wrapper around the database that looks a value up and inserts it
  when it is missing (\<open>DbWrapper.h\<close>).
\<close>

section \<open>Validators\<close>

text \<open>Everything but white space, in lower case; \<open>strchr\<close> also finds the terminator of its text.\<close>

definition toLowerAndTrim :: "string \<Rightarrow> string" where
  "toLowerAndTrim s = filter (\<lambda>c. c \<noteq> NUL \<and> \<not> isspace c) (map tolower s)"

definition validInterfaceName :: "string \<Rightarrow> bool" where
  "validInterfaceName intf =
     (case dropWhile (\<lambda>c. c \<noteq> CHR ''-'') (cstr intf) of
        [] \<Rightarrow> False
      | _ # str \<Rightarrow> str = ''secure-json'' \<or> str = ''insecure-json'')"

text \<open>
  The characters are looked at from left to right until one is wrong; reading one behind the
  terminator is undefined (\<open>None\<close>). What follows the nineteenth character does not matter.
\<close>

fun all_at :: "string \<Rightarrow> (nat \<times> (char \<Rightarrow> bool)) list \<Rightarrow> bool option" where
  "all_at c [] = Some True"
| "all_at c ((i, p) # ps) =
     (case str_at c i of
        None \<Rightarrow> None
      | Some x \<Rightarrow> if p x then all_at c ps else Some False)"

definition validEndOfValidity :: "string \<Rightarrow> bool option" where
  "validEndOfValidity c = all_at (cstr c)
     ([(0, isdigit), (1, isdigit), (2, isdigit), (3, isdigit), (4, \<lambda>x. x = CHR ''-''), (7, \<lambda>x. x = CHR ''-''),
       (5, isdigit), (6, isdigit), (8, isdigit), (9, isdigit),
       (10, \<lambda>x. x = CHR '' ''), (13, \<lambda>x. x = CHR '':''), (16, \<lambda>x. x = CHR '':''),
       (11, isdigit), (12, isdigit), (14, isdigit), (15, isdigit), (17, isdigit), (18, isdigit)])"

definition validSecurityType :: "string \<Rightarrow> string \<Rightarrow> nat" where
  "validSecurityType secure authInfo =
     (if secure \<noteq> ''not_secure'' \<and> secure \<noteq> ''certificate'' \<and> secure \<noteq> ''token'' then 4
      else if authInfo \<noteq> [] \<and> secure = ''not_secure'' then 5
      else if (secure = ''certificate'' \<or> secure = ''token'') \<and> authInfo = [] then 5
      else 0)"

section \<open>The builder\<close>

text \<open>Adding a member may throw, when the text of a number cannot be converted.\<close>

type_synonym adding = "ostream \<Rightarrow> conv_error + ostream"

definition addStr :: "string \<Rightarrow> string \<Rightarrow> adding" where
  "addStr key v os = Inr (write_string key v os)"

definition addInt :: "string \<Rightarrow> string \<Rightarrow> adding" where
  "addInt key v os = map_sum id (\<lambda>n. write_int key n os) (stoi v)"

definition addInt_int :: "string \<Rightarrow> int \<Rightarrow> adding" where
  "addInt_int key v os = Inr (write_int key v os)"

definition addDbl :: "string \<Rightarrow> string \<Rightarrow> adding" where
  "addDbl key v os = map_sum id (\<lambda>x. os_put (key_text key @ double_str x @ '','') os) (stod v)"

definition addObj :: "string \<Rightarrow> string \<Rightarrow> adding" where
  "addObj key v os = Inr (writeObj key v os)"

definition addMetaData :: "string \<Rightarrow> string \<Rightarrow> adding" where
  "addMetaData key v = addObj key (dbMetadataToJsonMetadata v)"

definition addArray :: "string \<Rightarrow> string list \<Rightarrow> adding" where
  "addArray key vs os = Inr (to_arrayObj key vs os)"

text \<open>Statements one after the other; an exception ends the sequence.\<close>

fun sequence :: "adding list \<Rightarrow> adding" where
  "sequence [] os = Inr os"
| "sequence (f # fs) os = (case f os of Inl e \<Rightarrow> Inl e | Inr os \<Rightarrow> sequence fs os)"

text \<open>A builder of its own, filled and turned into text; and the text of one as a member of another.\<close>

definition built_text :: "adding list \<Rightarrow> conv_error + string" where
  "built_text fs = map_sum id builder_str (sequence fs new_JsonBuilder)"

definition addBuilt :: "string \<Rightarrow> adding list \<Rightarrow> adding" where
  "addBuilt key fs os = (case built_text fs of Inl e \<Rightarrow> Inl e | Inr t \<Rightarrow> addObj key t os)"

fun built_texts :: "adding list list \<Rightarrow> conv_error + string list" where
  "built_texts [] = Inr []"
| "built_texts (fs # fss) =
     (case built_text fs of
        Inl e \<Rightarrow> Inl e
      | Inr t \<Rightarrow> map_sum id (Cons t) (built_texts fss))"

section \<open>Error responses\<close>

text \<open>The status code of every error is 400.\<close>

definition ErrorResp :: "string \<Rightarrow> error_type \<Rightarrow> string \<Rightarrow> Response" where
  "ErrorResp errorMsg ty origin =
     new_Response BadRequest
       (builder_str (write_string ''origin'' origin (write_string ''exceptionType'' (e2s ty)
         (write_int ''errorCode'' (sc_int BadRequest) (write_string ''errorMessage'' errorMsg new_JsonBuilder)))))
       json_mime"

section \<open>Lookups and insertions\<close>

definition sq :: "string \<Rightarrow> string" where
  "sq s = CHR 0x27 # s @ [CHR 0x27]"

definition select_where :: "string \<Rightarrow> string \<Rightarrow> string \<Rightarrow> string \<Rightarrow> string" where
  "select_where column table check what =
     ''SELECT '' @ column @ '' FROM '' @ table @ '' WHERE '' @ check @ '' = '' @ sq what @ '';''"

definition dbContentExists :: "'d Database \<Rightarrow> string \<Rightarrow> string \<Rightarrow> string \<Rightarrow> string \<Rightarrow> string \<Rightarrow> (bool \<times> string, 'd) action" where
  "dbContentExists db column table check what response =
     act_bind (act_db (db_fetch_string db (select_where column table check what) response))
       (\<lambda>(_, r). act_ret (r \<noteq> [], r))"

definition insert_into :: "string \<Rightarrow> string \<Rightarrow> string \<Rightarrow> bool \<Rightarrow> string" where
  "insert_into table column v bMore =
     ''INSERT INTO '' @ table @ '' ('' @ column @ '') VALUES ('' @ (if bMore then v else sq v) @ '');''"

definition dbSaveContent :: "'d Database \<Rightarrow> string \<Rightarrow> string \<Rightarrow> string \<Rightarrow> bool \<Rightarrow> (unit, 'd) action" where
  "dbSaveContent db table column v bMore = act_db (db_query db (insert_into table column v bMore))"

text \<open>The result is the column asked for, as it is in the end.\<close>

definition checkAndInsertValues ::
  "'d Database \<Rightarrow> string \<Rightarrow> string \<Rightarrow> string \<Rightarrow> string \<Rightarrow> string \<Rightarrow> string \<Rightarrow> (string, 'd) action" where
  "checkAndInsertValues db column table check what insert_column insert_value =
     act_bind (dbContentExists db column table check what []) (\<lambda>(found, r).
       if found then act_ret r
       else
         act_bind (dbSaveContent db table insert_column insert_value True) (\<lambda>_.
         act_bind (dbContentExists db column table check what r) (\<lambda>(_, r). act_ret r)))"

definition checkAndInsertValue :: "'d Database \<Rightarrow> string \<Rightarrow> string \<Rightarrow> string \<Rightarrow> string \<Rightarrow> (string, 'd) action" where
  "checkAndInsertValue db column table check what =
     act_bind (dbContentExists db column table check what []) (\<lambda>(found, r).
       if found then act_ret r
       else
         act_bind (dbSaveContent db table check what False) (\<lambda>_.
         act_bind (dbContentExists db column table check what r) (\<lambda>(_, r). act_ret r)))"

section \<open>Loops with an early return\<close>

text \<open>
  A function of the sources that leaves early with a code or a response is a run that returns a
  sum. The loops collect a value per element; the body of the first may leave the function.
\<close>

definition act_leave :: "'r \<Rightarrow> ('r + 'a, 'd) action" where
  "act_leave r = act_ret (Inl r)"

definition act_then :: "('r + 'a, 'd) action \<Rightarrow> ('a \<Rightarrow> ('r + 'b, 'd) action) \<Rightarrow> ('r + 'b, 'd) action" where
  "act_then x f = act_bind x (\<lambda>v. case v of Inl r \<Rightarrow> act_ret (Inl r) | Inr y \<Rightarrow> f y)"

fun leave_map :: "('x \<Rightarrow> ('r + 'y, 'd) action) \<Rightarrow> 'x list \<Rightarrow> ('r + 'y list, 'd) action" where
  "leave_map f [] = act_ret (Inr [])"
| "leave_map f (x # xs) = act_then (f x) (\<lambda>y. act_then (leave_map f xs) (\<lambda>ys. act_ret (Inr (y # ys))))"

fun act_map :: "('x \<Rightarrow> ('y, 'd) action) \<Rightarrow> 'x list \<Rightarrow> ('y list, 'd) action" where
  "act_map f [] = act_ret []"
| "act_map f (x # xs) = act_bind (f x) (\<lambda>y. act_bind (act_map f xs) (\<lambda>ys. act_ret (y # ys)))"

text \<open>A function that cannot leave early, and a conversion that may throw.\<close>

definition act_go :: "('a, 'd) action \<Rightarrow> ('r + 'a, 'd) action" where
  "act_go x = act_bind x (\<lambda>v. act_ret (Inr v))"

definition act_conv :: "conv_error + 'a \<Rightarrow> ('a, 'd) action" where
  "act_conv x = (case x of Inl e \<Rightarrow> act_throw (Conversion e) | Inr v \<Rightarrow> act_ret v)"

text \<open>A run whose early return is a response, as an answer.\<close>

definition answered :: "(Response + Response, 'd) action \<Rightarrow> 'd answer" where
  "answered x = act_bind x (\<lambda>v. returns (case v of Inl r \<Rightarrow> r | Inr r \<Rightarrow> r))"

text \<open>\<open>Response{ builder.str() }\<close> for a builder that may throw.\<close>

definition respond :: "conv_error + string \<Rightarrow> 'd answer" where
  "respond t = act_bind (act_conv t) (\<lambda>t. returns (ok_Response t))"

end
