(* ===== verification/SrModels.thy ===== *)
theory SrModels
  imports Payloads
begin

text \<open>
  The payloads of the service registry (\<open>core/apps/ServiceRegistry/payloads\<close>): what its requests are
  parsed into and what its responses are written from. A parser either yields its fields or leaves
  with the status code of the source, with the text for the message where there is one; \<open>None\<close> is a
  failed assertion or a read through a pointer that is not there.
\<close>

section \<open>Data\<close>

record stServDef =
  sd_id :: string
  sd_serviceDefinition :: string
  sd_createdAt :: string
  sd_updatedAt :: string

record stSystem =
  sy_id :: string
  sy_systemName :: string
  sy_address :: string
  sy_port :: string
  sy_authInfo :: string
  sy_createdAt :: string
  sy_updatedAt :: string

text \<open>The four vectors of the interfaces always grow together and are one list.\<close>

record Interface =
  if_id :: string
  if_name :: string
  if_createdAt :: string
  if_updatedAt :: string

record serviceQueryData =
  sq_id :: string
  sq_serviceDefinition :: stServDef
  sq_provider :: stSystem
  sq_serviceUri :: string
  sq_endOfValidity :: string
  sq_secure :: string
  sq_metadata :: string
  sq_version :: string
  sq_interfaces :: "Interface list"
  sq_createdAt :: string
  sq_updatedAt :: string

text \<open>The fields of default-constructed objects are empty.\<close>

definition no_system :: stSystem where
  "no_system = \<lparr>sy_id = [], sy_systemName = [], sy_address = [], sy_port = [], sy_authInfo = [],
     sy_createdAt = [], sy_updatedAt = []\<rparr>"

type_synonym 'a checked = "(nat \<times> string + 'a) option"

text \<open>\<open>value.child(key)\<close> in front of the rest of a parser, and the conversion of a string.\<close>

definition on_child :: "string \<Rightarrow> JsonValue \<Rightarrow> (JsonValue \<Rightarrow> 'a option) \<Rightarrow> 'a option" where
  "on_child key v k = Option.bind (child key v) k"

definition on_text :: "JsonValue \<Rightarrow> (string \<Rightarrow> 'a option) \<Rightarrow> 'a option" where
  "on_text v k = Option.bind (toString v) k"

definition leave_with :: "nat \<Rightarrow> 'a checked" where
  "leave_with n = Some (Inl (n, []))"

definition accept :: "'a \<Rightarrow> 'a checked" where
  "accept x = Some (Inr x)"

text \<open>The loop over \<open>value[i]\<close>, up to the first element that is not there.\<close>

definition elements :: "JsonValue \<Rightarrow> JsonValue list" where
  "elements v = (case v of JSON_ARRAY vs \<Rightarrow> takeWhile present vs | _ \<Rightarrow> [])"

section \<open>Service definitions\<close>

definition sd_validJSONPayload :: "JsonValue \<Rightarrow> string checked" where
  "sd_validJSONPayload root =
     on_child ''serviceDefinition'' root (\<lambda>v.
       if \<not> present v then leave_with 1
       else if \<not> isString v then leave_with 2
       else on_text v (\<lambda>t. if t = [] then leave_with 2 else accept (toLowerAndTrim t)))"

definition fill_serviceDefinition :: "stServDef \<Rightarrow> adding list" where
  "fill_serviceDefinition d =
     [addInt ''id'' (sd_id d), addStr ''serviceDefinition'' (sd_serviceDefinition d),
      addStr ''createdAt'' (sd_createdAt d), addStr ''updatedAt'' (sd_updatedAt d)]"

definition createServiceDefinition :: "stServDef \<Rightarrow> conv_error + string" where
  "createServiceDefinition d = built_text (fill_serviceDefinition d)"

text \<open>The list calls the definition a system name.\<close>

definition fill_listed_definition :: "stServDef \<Rightarrow> adding list" where
  "fill_listed_definition d =
     [addInt ''id'' (sd_id d), addStr ''systemName'' (sd_serviceDefinition d),
      addStr ''createdAt'' (sd_createdAt d), addStr ''updatedAt'' (sd_updatedAt d)]"

text \<open>\<open>resp.back() = ']'\<close> behind the elements with their commas.\<close>

definition close_list :: "string \<Rightarrow> string list \<Rightarrow> string" where
  "close_list start ts = butlast (start @ concat (map (\<lambda>t. t @ '','') ts)) @ '']''"

definition data_list :: "string list \<Rightarrow> string" where
  "data_list ts =
     close_list (''{'' @ quoted ''data'' @ '': ['') ts @ '','' @ quoted ''count'' @ '':'' @ nat_str (length ts) @ ''}''"

definition createServiceDefinitionList :: "stServDef list \<Rightarrow> conv_error + string" where
  "createServiceDefinitionList ds = map_sum id data_list (built_texts (map fill_listed_definition ds))"

section \<open>Systems\<close>

definition in_port_range :: "int \<Rightarrow> bool" where
  "in_port_range port \<longleftrightarrow> \<not> (port < 0 \<or> port > 65535)"

text \<open>A string that counts only when it is one.\<close>

definition text_or :: "string \<Rightarrow> JsonValue \<Rightarrow> string" where
  "text_or t v = (case toString v of None \<Rightarrow> t | Some s \<Rightarrow> s)"

definition validSystem :: "JsonValue \<Rightarrow> stSystem checked" where
  "validSystem root =
     on_child ''systemName'' root (\<lambda>v.
     if \<not> present v then leave_with 1 else if \<not> isString v then leave_with 2
     else on_text v (\<lambda>nm.
     if nm = [] then leave_with 2 else if toLowerAndTrim nm = [] then leave_with 2
     else on_child ''address'' root (\<lambda>v.
     if \<not> present v then leave_with 3 else if \<not> isString v then leave_with 4
     else on_text v (\<lambda>addr.
     if addr = [] then leave_with 4
     else on_child ''port'' root (\<lambda>v.
     if \<not> present v then leave_with 5
     else Option.bind (toInt v) (\<lambda>port.
     if \<not> in_port_range port then leave_with 6
     else on_child ''authenticationInfo'' root (\<lambda>v.
       accept (no_system\<lparr>sy_systemName := toLowerAndTrim nm, sy_address := addr, sy_port := int_str port,
         sy_authInfo := text_or [] v\<rparr>))))))))"

text \<open>The lenient variant for a partial update: only the port is checked.\<close>

definition validSystem2 :: "JsonValue \<Rightarrow> stSystem checked" where
  "validSystem2 root =
     on_child ''systemName'' root (\<lambda>nm.
     on_child ''address'' root (\<lambda>addr.
     on_child ''port'' root (\<lambda>p.
     Option.bind (if present p then map_option Some (toInt p) else Some None) (\<lambda>port.
     if (case port of None \<Rightarrow> False | Some n \<Rightarrow> \<not> in_port_range n) then leave_with 0
     else on_child ''authenticationInfo'' root (\<lambda>info.
       accept (no_system\<lparr>sy_systemName := toLowerAndTrim (text_or [] nm), sy_address := text_or [] addr,
         sy_port := (case port of None \<Rightarrow> [] | Some n \<Rightarrow> int_str n), sy_authInfo := text_or [] info\<rparr>))))))"

definition fill_system :: "stSystem \<Rightarrow> adding list" where
  "fill_system s =
     [addInt ''id'' (sy_id s), addStr ''systemName'' (sy_systemName s), addStr ''address'' (sy_address s),
      addInt ''port'' (sy_port s), addStr ''authenticationInfo'' (sy_authInfo s),
      addStr ''createdAt'' (sy_createdAt s), addStr ''updatedAt'' (sy_updatedAt s)]"

definition createSRSystem :: "stSystem \<Rightarrow> conv_error + string" where
  "createSRSystem s = built_text (fill_system s)"

definition createSystemList :: "stSystem list \<Rightarrow> conv_error + string" where
  "createSystemList ss = map_sum id data_list (built_texts (map fill_system ss))"

section \<open>Entries of the registry\<close>

text \<open>The check of the members that have to be there: a status, zero when they are.\<close>

definition validRegistryEntry :: "JsonValue \<Rightarrow> nat option" where
  "validRegistryEntry root =
     on_child ''serviceDefinition'' root (\<lambda>v.
     if \<not> present v then Some 1 else if \<not> isString v then Some 2
     else on_text v (\<lambda>t.
     if t = [] then Some 2
     else on_child ''providerSystem'' root (\<lambda>ps.
     if \<not> present ps then Some 3
     else on_child ''systemName'' ps (\<lambda>v.
     if \<not> present v then Some 4
     else on_child ''address'' ps (\<lambda>v.
     if \<not> present v then Some 5
     else on_child ''port'' ps (\<lambda>v.
     if \<not> present v then Some 6
     else on_child ''interfaces'' root (\<lambda>v.
     if \<not> present v then Some 8
     else if \<not> present (json_at v 0) then Some 9
     else Some 0)))))))"

record ServiceRegistryEntry =
  en_serviceDefinition :: string
  en_systemName :: string
  en_address :: string
  en_port :: string
  en_authInfo :: string
  en_serviceUri :: string
  en_endOfValidity :: string
  en_secure :: string
  en_metadata :: string
  en_version :: string
  en_interfaces :: "string list"

text \<open>
  The loop over the metadata; members that are containers are left out. Behind the loop the last
  comma is erased, which is undefined when nothing was written.
\<close>

fun metadata_text :: "string \<Rightarrow> (string option \<times> JsonValue) list \<Rightarrow> string option" where
  "metadata_text acc [] = Some acc"
| "metadata_text acc ((k, v) # ns) =
     (case v of
        JSON_NUMBER _ \<Rightarrow>
          Option.bind k (\<lambda>k. Option.bind (toInt v) (\<lambda>n. metadata_text (acc @ k @ ''='' @ int_str n @ '','') ns))
      | JSON_STRING t \<Rightarrow> Option.bind k (\<lambda>k. metadata_text (acc @ k @ ''='' @ t @ '','') ns)
      | JSON_TRUE \<Rightarrow> Option.bind k (\<lambda>k. metadata_text (acc @ k @ ''=true,'') ns)
      | JSON_FALSE \<Rightarrow> Option.bind k (\<lambda>k. metadata_text (acc @ k @ ''=false,'') ns)
      | _ \<Rightarrow> metadata_text acc ns)"

definition entry_metadata :: "JsonValue \<Rightarrow> string option" where
  "entry_metadata v =
     (if present v then
        Option.bind (metadata_text [] (nodes v)) (\<lambda>m. if m = [] then None else Some (toLowerAndTrim (butlast m)))
      else Some [])"

text \<open>The loops over the interfaces, which stop at an invalid name.\<close>

fun interface_names :: "nat \<Rightarrow> JsonValue list \<Rightarrow> string list checked" where
  "interface_names n [] = accept []"
| "interface_names n (v # vs) =
     on_text v (\<lambda>t.
       let intf = map tolower t in
       if \<not> validInterfaceName intf then Some (Inl (n, t))
       else map_option (map_sum id (Cons intf)) (interface_names n vs))"

text \<open>\<open>std::to_string(value.toInt())\<close>\<close>

definition on_int_text :: "JsonValue \<Rightarrow> (string \<Rightarrow> 'a option) \<Rightarrow> 'a option" where
  "on_int_text v k = Option.bind (toInt v) (\<lambda>n. k (int_str n))"

definition parseRegistryEntry :: "JsonValue \<Rightarrow> ServiceRegistryEntry checked" where
  "parseRegistryEntry root =
     on_child ''serviceDefinition'' root (\<lambda>v. on_text v (\<lambda>sd.
     on_child ''providerSystem'' root (\<lambda>ps.
     on_child ''systemName'' ps (\<lambda>v. on_text v (\<lambda>nm.
     if CHR ''.'' \<in> set nm then leave_with 1
     else on_child ''address'' ps (\<lambda>v. on_text v (\<lambda>addr.
     on_child ''port'' ps (\<lambda>v. Option.bind (toInt v) (\<lambda>port.
     if \<not> in_port_range port then leave_with 2
     else on_child ''authenticationInfo'' ps (\<lambda>info.
     on_child ''serviceUri'' root (\<lambda>v. on_text v (\<lambda>uri.
     on_child ''endOfValidity'' root (\<lambda>v. on_text v (\<lambda>eov.
     Option.bind (validEndOfValidity eov) (\<lambda>ok.
     if \<not> ok then leave_with 3
     else on_child ''secure'' root (\<lambda>v. on_text v (\<lambda>sec.
     let secure = toLowerAndTrim sec; authInfo = text_or [] info;
         status = validSecurityType secure authInfo in
     if status \<noteq> 0 then leave_with status
     else on_child ''version'' root (\<lambda>v. on_int_text v (\<lambda>version.
     on_child ''metadata'' root (\<lambda>v. Option.bind (entry_metadata v) (\<lambda>meta.
     on_child ''interfaces'' root (\<lambda>v.
     map_option (map_sum id (\<lambda>intfs.
       \<lparr>en_serviceDefinition = toLowerAndTrim sd, en_systemName = toLowerAndTrim nm, en_address = addr,
        en_port = int_str port, en_authInfo = authInfo, en_serviceUri = uri, en_endOfValidity = eov,
        en_secure = secure, en_metadata = meta, en_version = version, en_interfaces = intfs\<rparr>))
       (interface_names 7 (elements v))))))))))))))))))))))))"

definition fill_interface :: "Interface \<Rightarrow> adding list" where
  "fill_interface i =
     [addInt ''id'' (if_id i), addStr ''interfaceName'' (if_name i), addStr ''createdAt'' (if_createdAt i),
      addStr ''updatedAt'' (if_updatedAt i)]"

definition addInterfaces :: "Interface list \<Rightarrow> adding" where
  "addInterfaces is os =
     (case built_texts (map fill_interface is) of
        Inl e \<Rightarrow> Inl e
      | Inr ts \<Rightarrow> addArray ''interfaces'' ts os)"

definition shown_metadata :: "string \<Rightarrow> string" where
  "shown_metadata m = (if length m < 2 then ''{}'' else m)"

text \<open>
  \<open>ServiceRegistryEntry::fillJsonResponse\<close> and the members of an element of a
  \<open>ServiceQueryList\<close>, which differ in how they write the version.
\<close>

definition fill_entry :: "(string \<Rightarrow> string \<Rightarrow> adding) \<Rightarrow> serviceQueryData \<Rightarrow> adding list" where
  "fill_entry addVersion d =
     [addInt ''id'' (sq_id d),
      addBuilt ''serviceDefinition'' (fill_serviceDefinition (sq_serviceDefinition d)),
      addBuilt ''provider'' (fill_system (sq_provider d)),
      addStr ''serviceUri'' (sq_serviceUri d), addStr ''endOfValidity'' (sq_endOfValidity d),
      addStr ''secure'' (sq_secure d), addMetaData ''metadata'' (shown_metadata (sq_metadata d)),
      addVersion ''version'' (sq_version d), addInterfaces (sq_interfaces d),
      addStr ''createdAt'' (sq_createdAt d), addStr ''updatedAt'' (sq_updatedAt d)]"

definition createRegistryEntry :: "serviceQueryData \<Rightarrow> conv_error + string" where
  "createRegistryEntry d = built_text (fill_entry addDbl d)"

section \<open>Queries\<close>

record ServiceQueryForm =
  qf_serviceDefinition :: string
  qf_interfaces :: "string list"
  qf_security :: "string list"
  qf_metadata :: "(string \<times> string) list"
  qf_version :: "int option"
  qf_minVersion :: "int option"
  qf_maxVersion :: "int option"
  qf_pingProviders :: bool

fun security_types :: "JsonValue list \<Rightarrow> string list checked" where
  "security_types [] = accept []"
| "security_types (v # vs) =
     on_text v (\<lambda>t.
       let sec = toLowerAndTrim t in
       if sec \<noteq> ''not_secure'' \<and> sec \<noteq> ''certificate'' \<and> sec \<noteq> ''token'' then Some (Inl (4, t))
       else map_option (map_sum id (Cons sec)) (security_types vs))"

text \<open>\<open>std::map::insert\<close> keeps the first value of a key.\<close>

definition insert_new :: "'k \<times> 'v \<Rightarrow> ('k \<times> 'v) list \<Rightarrow> ('k \<times> 'v) list" where
  "insert_new kv m = (if map_of m (fst kv) = None then kv # m else m)"

fun metadata_requirements :: "(string \<times> string) list \<Rightarrow> (string option \<times> JsonValue) list \<Rightarrow> (string \<times> string) list option" where
  "metadata_requirements m [] = Some m"
| "metadata_requirements m ((k, v) # ns) =
     (case v of
        JSON_NUMBER _ \<Rightarrow>
          Option.bind k (\<lambda>k. Option.bind (toInt v) (\<lambda>n. metadata_requirements (insert_new (k, int_str n) m) ns))
      | JSON_STRING t \<Rightarrow> Option.bind k (\<lambda>k. metadata_requirements (insert_new (k, toLowerAndTrim t) m) ns)
      | JSON_TRUE \<Rightarrow> Option.bind k (\<lambda>k. metadata_requirements (insert_new (k, ''true'') m) ns)
      | JSON_FALSE \<Rightarrow> Option.bind k (\<lambda>k. metadata_requirements (insert_new (k, ''false'') m) ns)
      | _ \<Rightarrow> metadata_requirements m ns)"

text \<open>One entry of the stored metadata: a key and a value, both not empty.\<close>

definition metadata_pair :: "string \<Rightarrow> (string \<times> string) list" where
  "metadata_pair token =
     (case getline_tokens (CHR ''='') [] token of
        key # v # _ \<Rightarrow> if key \<noteq> [] \<and> v \<noteq> [] then [(key, v)] else []
      | _ \<Rightarrow> [])"

text \<open>A number that counts only when it is one.\<close>

definition number_requirement :: "string \<Rightarrow> JsonValue \<Rightarrow> int option option" where
  "number_requirement key root =
     on_child key root (\<lambda>v. if isNumber v then map_option Some (toInt v) else Some None)"

definition on_checked :: "'a checked \<Rightarrow> ('a \<Rightarrow> 'b checked) \<Rightarrow> 'b checked" where
  "on_checked x k = Option.bind x (\<lambda>r. case r of Inl e \<Rightarrow> Some (Inl e) | Inr v \<Rightarrow> k v)"

definition parseQueryForm :: "JsonValue \<Rightarrow> ServiceQueryForm checked" where
  "parseQueryForm root =
     on_child ''serviceDefinitionRequirement'' root (\<lambda>v.
     if \<not> present v then leave_with 1 else if \<not> isString v then leave_with 2
     else on_text v (\<lambda>t.
     if t = [] then leave_with 2 else if toLowerAndTrim t = [] then leave_with 2
     else on_child ''interfaceRequirements'' root (\<lambda>v.
     on_checked (interface_names 3 (elements v)) (\<lambda>intfs.
     on_child ''securityRequirements'' root (\<lambda>v.
     on_checked (security_types (elements v)) (\<lambda>secs.
     on_child ''metadataRequirements'' root (\<lambda>v.
     Option.bind (metadata_requirements [] (nodes v)) (\<lambda>meta.
     Option.bind (number_requirement ''versionRequirement'' root) (\<lambda>version.
     Option.bind (number_requirement ''maxVersionRequirement'' root) (\<lambda>maxVersion.
     Option.bind (number_requirement ''minVersionRequirement'' root) (\<lambda>minVersion.
     on_child ''pingProviders'' root (\<lambda>ping.
       accept
         \<lparr>qf_serviceDefinition = toLowerAndTrim t, qf_interfaces = intfs, qf_security = secs, qf_metadata = meta,
          qf_version = version, qf_minVersion = minVersion, qf_maxVersion = maxVersion,
          qf_pingProviders = (ping = JSON_TRUE)\<rparr>))))))))))))"

definition createServiceQueryList :: "nat \<Rightarrow> serviceQueryData list \<Rightarrow> conv_error + string" where
  "createServiceQueryList hits ds =
     (case built_texts (map (fill_entry addInt) ds) of
        Inl e \<Rightarrow> Inl e
      | Inr ts \<Rightarrow> built_text [addArray ''serviceQueryData'' ts, addInt_int ''unfilteredHits'' (int hits)])"

end
