(* ===== verification/SrEndpoints.thy ===== *)
theory SrEndpoints
  imports SrModels
begin

text \<open>
  The endpoints of the service registry that register, unregister, query and change
  (\<open>core/apps/ServiceRegistry/endpoints\<close>: \<open>Register.h\<close>, \<open>SRQuery.h\<close>, \<open>MgmtPost.h\<close>, \<open>MgmtPut.h\<close>,
  \<open>MgmtPatch.h\<close> and \<open>MgmtDelete.h\<close>). A statement is text with the values between single quotes, as
  they are. Whether a provider accepts a connection is a parameter.
\<close>

section \<open>Rows\<close>

definition text_at :: "Row \<Rightarrow> nat \<Rightarrow> string" where
  "text_at row i = snd (get_str row i)"

definition read_definition :: "string \<Rightarrow> Row \<Rightarrow> stServDef" where
  "read_definition ident row =
     \<lparr>sd_id = ident, sd_serviceDefinition = text_at row 1, sd_createdAt = text_at row 2, sd_updatedAt = text_at row 3\<rparr>"

definition read_system :: "string \<Rightarrow> Row \<Rightarrow> stSystem" where
  "read_system ident row =
     \<lparr>sy_id = ident, sy_systemName = text_at row 1, sy_address = text_at row 2, sy_port = text_at row 3,
      sy_authInfo = text_at row 4, sy_createdAt = text_at row 5, sy_updatedAt = text_at row 6\<rparr>"

definition read_interface :: "string \<Rightarrow> Row \<Rightarrow> Interface" where
  "read_interface ident row =
     \<lparr>if_id = ident, if_name = text_at row 1, if_createdAt = text_at row 2, if_updatedAt = text_at row 3\<rparr>"

definition read_entry :: "string \<Rightarrow> stServDef \<Rightarrow> stSystem \<Rightarrow> Interface list \<Rightarrow> Row \<Rightarrow> serviceQueryData" where
  "read_entry ident sd sys ifs row =
     \<lparr>sq_id = ident, sq_serviceDefinition = sd, sq_provider = sys, sq_serviceUri = text_at row 3,
      sq_endOfValidity = text_at row 4, sq_secure = text_at row 5, sq_metadata = text_at row 6,
      sq_version = text_at row 7, sq_interfaces = ifs, sq_createdAt = text_at row 8, sq_updatedAt = text_at row 9\<rparr>"

text \<open>\<open>if (auto row = db.fetch(q)) \<dots> else return status;\<close>\<close>

definition fetch_first :: "'d Database \<Rightarrow> string \<Rightarrow> 'r \<Rightarrow> (Row \<Rightarrow> 'a) \<Rightarrow> ('r + 'a, 'd) action" where
  "fetch_first db q status f =
     act_bind (act_db (db_fetch db q)) (\<lambda>rows.
       case rows of [] \<Rightarrow> act_leave status | row # _ \<Rightarrow> act_ret (Inr (f row)))"

text \<open>\<open>setJsonPayload\<close> in front of a handler.\<close>

definition with_json :: "string \<Rightarrow> Request \<Rightarrow> (JsonValue \<Rightarrow> 'd answer) \<Rightarrow> 'd answer" where
  "with_json origin req k =
     (case jsonParse (rq_content req) of
        OutOfBounds \<Rightarrow> act_undef
      | Parse st root \<Rightarrow>
          if st = JSON_PARSE_OK then k root else returns (ErrorResp ''Bad Json'' BAD_PAYLOAD origin))"

section \<open>Registration\<close>

definition system_columns :: "string \<Rightarrow> string" where
  "system_columns authInfo =
     ''system_name, address, port'' @ (if authInfo \<noteq> [] then '', authentication_info'' else [])"

definition system_values :: "string \<Rightarrow> string \<Rightarrow> string \<Rightarrow> string \<Rightarrow> string" where
  "system_values nm addr port authInfo =
     sq nm @ '', '' @ sq addr @ '', '' @ port @ (if authInfo \<noteq> [] then '', '' @ sq authInfo else [])"

definition save_system :: "'d Database \<Rightarrow> string \<Rightarrow> string \<Rightarrow> string \<Rightarrow> string \<Rightarrow> (string, 'd) action" where
  "save_system db nm addr port authInfo =
     checkAndInsertValues db ''id'' ''system_'' ''system_name'' nm
       (system_columns authInfo) (system_values nm addr port authInfo)"

definition save_interface :: "'d Database \<Rightarrow> string \<Rightarrow> (string, 'd) action" where
  "save_interface db nm = checkAndInsertValue db ''id'' ''service_interface'' ''interface_name'' nm"

definition save_entry :: "'d Database \<Rightarrow> string \<Rightarrow> string \<Rightarrow> ServiceRegistryEntry \<Rightarrow> (string, 'd) action" where
  "save_entry db sdID sysID en =
     checkAndInsertValues db ''id'' ''service_registry'' ''service_uri'' (en_serviceUri en)
       ''service_id, system_id, service_uri, end_of_validity, secure, metadata, version''
       (sdID @ '', '' @ sysID @ '', '' @ sq (en_serviceUri en) @ '', '' @ sq (en_endOfValidity en) @ '', ''
        @ sq (en_secure en) @ '', '' @ sq (en_metadata en) @ '', '' @ en_version en)"

definition save_connection :: "'d Database \<Rightarrow> string \<Rightarrow> string \<Rightarrow> (string, 'd) action" where
  "save_connection db entryID intfID =
     checkAndInsertValues db ''id'' ''service_registry_interface_connection'' ''service_registry_id'' entryID
       ''service_registry_id, interface_id'' (entryID @ '', '' @ intfID)"

definition select_id :: "string \<Rightarrow> string \<Rightarrow> string" where
  "select_id table ident = ''SELECT * FROM '' @ table @ '' where id = '' @ ident @ '';''"

definition processDB :: "'d Database \<Rightarrow> ServiceRegistryEntry \<Rightarrow> (nat + serviceQueryData, 'd) action" where
  "processDB db en =
     act_bind (checkAndInsertValue db ''id'' ''service_definition'' ''service_definition'' (en_serviceDefinition en)) (\<lambda>sdID.
     act_bind (save_system db (en_systemName en) (en_address en) (en_port en) (en_authInfo en)) (\<lambda>sysID.
     act_bind (act_map (save_interface db) (en_interfaces en)) (\<lambda>intfIDs.
     act_bind (save_entry db sdID sysID en) (\<lambda>entryID.
     act_bind (act_map (save_connection db entryID) intfIDs) (\<lambda>_.
     act_then (fetch_first db (select_id ''service_definition'' sdID) 1 (read_definition sdID)) (\<lambda>sd.
     act_then (fetch_first db (select_id ''system_'' sysID) 2 (read_system sysID)) (\<lambda>sys.
     act_then (leave_map (\<lambda>i. fetch_first db (select_id ''service_interface'' i) 3 (read_interface i)) intfIDs) (\<lambda>ifs.
     fetch_first db (select_id ''service_registry'' entryID) 4 (read_entry entryID sd sys ifs)))))))))"

definition valid_message :: "nat \<Rightarrow> string" where
  "valid_message n =
     (if n = 1 then ''Service definition is not specified.''
      else if n = 2 then ''Service definition is null or blank.''
      else if n = 3 then ''Provider system is not specified.''
      else if n = 4 then ''Provider system name is not specified.''
      else if n = 5 then ''Provider system address is not specified.''
      else if n = 6 then ''Provider system port is not specified.''
      else if n = 8 then ''Interfaces list is not specified.''
      else ''Interfaces list is null or empty.'')"

definition quote_s :: string where
  "quote_s = CHR 0x27 # ''t''"

definition entry_error :: "nat \<times> string \<Rightarrow> string \<Rightarrow> Response" where
  "entry_error e origin =
     (let (n, t) = e in
      if n = 1 then ErrorResp (''System name can'' @ quote_s @ '' contain dot (.)'') INVALID_PARAMETER origin
      else ErrorResp
        (if n = 2 then ''Port must be between 0 and 65535.''
         else if n = 3 then ''End of validity is specified in the wrong format. Please provide UTC time using YYYY-MM-DD hh:mm:ss pattern.''
         else if n = 4 then ''Security type is not valid.''
         else if n = 5 then ''Security type is in conflict with the availability of the authentication info.''
         else ''Specified interface name is not valid: '' @ t) BAD_PAYLOAD origin)"

definition empty_response :: "string \<Rightarrow> string" where
  "empty_response table = ''Empty response from '' @ table @ '' table''"

definition stored_message :: "nat \<Rightarrow> string" where
  "stored_message n =
     empty_response (if n = 1 then ''service_definition'' else if n = 2 then ''system_''
       else if n = 3 then ''service_interface'' else ''service_registry'')"

definition processRegister :: "'d Database \<Rightarrow> string \<Rightarrow> Request \<Rightarrow> 'd answer" where
  "processRegister db errURL req =
     with_json errURL req (\<lambda>root.
     act_bind (act_the (validRegistryEntry root)) (\<lambda>status.
     if status \<noteq> 0 then returns (ErrorResp (valid_message status) BAD_PAYLOAD errURL)
     else act_bind (act_the (parseRegistryEntry root)) (\<lambda>r.
     case r of
       Inl e \<Rightarrow> returns (entry_error e errURL)
     | Inr en \<Rightarrow>
         act_bind (processDB db en) (\<lambda>r.
         case r of
           Inl n \<Rightarrow> returns (ErrorResp (stored_message n) BAD_PAYLOAD errURL)
         | Inr d \<Rightarrow> respond (createRegistryEntry d)))))"

section \<open>Unregistration\<close>

text \<open>\<open>db.fetch(q, s); if (s.size() == 0) return \<dots>\<close> on a string that was empty.\<close>

definition fetch_or :: "'d Database \<Rightarrow> string \<Rightarrow> 'r \<Rightarrow> ('r + string, 'd) action" where
  "fetch_or db q r =
     act_bind (act_db (db_fetch_string db q [])) (\<lambda>(_, t). if t = [] then act_leave r else act_ret (Inr t))"

definition unregister_error :: "string \<Rightarrow> Response" where
  "unregister_error msg = ErrorResp msg BAD_PAYLOAD ''serviceregistry/unregister''"

definition entry_where :: "string \<Rightarrow> string \<Rightarrow> string" where
  "entry_where sdID sysID =
     ''FROM service_registry WHERE service_id = '' @ sdID @ '' AND system_id = '' @ sysID @ '';''"

definition delete_entry :: "'d Database \<Rightarrow> string \<Rightarrow> string \<Rightarrow> string \<Rightarrow> string \<Rightarrow> (Response + Response, 'd) action" where
  "delete_entry db sd nm addr port =
     act_then (fetch_or db (''SELECT * FROM service_definition WHERE service_definition = '' @ sq sd @ '' ;'')
       (unregister_error ''Missing information from service_definition table'')) (\<lambda>sdID.
     act_then (fetch_or db (''SELECT * FROM system_ WHERE system_name = '' @ sq nm @ '' AND address = '' @ sq addr
          @ '' AND port = '' @ sq port @ '';'')
       (unregister_error ''Missing information from system_ table'')) (\<lambda>sysID.
     act_then (fetch_or db (''SELECT * '' @ entry_where sdID sysID)
       (unregister_error ''Missing information from service_registry table'')) (\<lambda>entryID.
     act_bind (act_db (db_query db
       (''DELETE FROM service_registry_interface_connection WHERE service_registry_id = '' @ sq entryID @ '';''))) (\<lambda>_.
     act_bind (act_db (db_query db (''DELETE '' @ entry_where sdID sysID))) (\<lambda>_.
       act_ret (Inr (ok_Response ''OK'')))))))"

definition processUnregister :: "'d Database \<Rightarrow> string \<Rightarrow> string \<Rightarrow> string \<Rightarrow> string \<Rightarrow> 'd answer" where
  "processUnregister db sd nm addr port =
     (if sd = [] then returns (unregister_error ''Service definition is blank'')
      else if nm = [] then returns (unregister_error ''Name of the provider system is blank'')
      else if addr = [] then returns (unregister_error ''Address of the provider system is blank'')
      else if port = [] then returns (unregister_error ''Port of the provider system is blank'')
      else act_bind (act_conv (stoi port)) (\<lambda>iPort.
        if \<not> in_port_range iPort then returns (unregister_error ''Port must be between 0 and 65535.'')
        else answered (delete_entry db sd nm addr port)))"

section \<open>Queries\<close>

definition select_quoted :: "string \<Rightarrow> string \<Rightarrow> string \<Rightarrow> string" where
  "select_quoted table column v = ''SELECT * FROM '' @ table @ '' WHERE '' @ column @ '' = '' @ sq v @ '';''"

definition query_interface :: "'d Database \<Rightarrow> Row \<Rightarrow> (nat + Interface, 'd) action" where
  "query_interface db row =
     fetch_first db (select_quoted ''service_interface'' ''id'' (text_at row 2)) 2
       (\<lambda>r. read_interface (text_at r 0) r)"

definition query_entry :: "'d Database \<Rightarrow> stServDef \<Rightarrow> Row \<Rightarrow> (nat + serviceQueryData, 'd) action" where
  "query_entry db sd row =
     act_bind (act_db (db_fetch db
       (select_quoted ''service_registry_interface_connection'' ''service_registry_id'' (text_at row 0)))) (\<lambda>rows.
     if rows = [] then act_leave 3
     else
       act_then (leave_map (query_interface db) rows) (\<lambda>ifs.
       act_then (fetch_first db (select_quoted ''system_'' ''id'' (text_at row 2)) 4
         (\<lambda>r. read_system (text_at r 0) r)) (\<lambda>sys.
       act_ret (Inr (read_entry (text_at row 0) sd sys ifs row)))))"

definition fillQueryList :: "'d Database \<Rightarrow> ServiceQueryForm \<Rightarrow> (nat + serviceQueryData list, 'd) action" where
  "fillQueryList db form =
     act_then (fetch_first db (select_quoted ''service_definition'' ''service_definition'' (qf_serviceDefinition form)) 1
       (\<lambda>r. read_definition (text_at r 0) r)) (\<lambda>sd.
     act_bind (act_db (db_fetch db (select_quoted ''service_registry'' ''service_id'' (sd_id sd)))) (\<lambda>rows.
     if rows = [] then act_leave 5 else leave_map (query_entry db sd) rows))"

text \<open>The metadata of an entry as the filter reads it.\<close>

definition metadata_pairs :: "string \<Rightarrow> (string \<times> string) list" where
  "metadata_pairs m = foldl (\<lambda>ps kv. insert_new kv ps) [] (concat (map metadata_pair (getline_tokens (CHR '','') [] m)))"

text \<open>A requirement on the version converts the stored text when it is there.\<close>

definition check_version :: "(int \<Rightarrow> int \<Rightarrow> bool) \<Rightarrow> int option \<Rightarrow> string \<Rightarrow> conv_error + bool \<Rightarrow> conv_error + bool" where
  "check_version p req v k =
     (case req of
        None \<Rightarrow> k
      | Some n \<Rightarrow> (case stoi v of Inl e \<Rightarrow> Inl e | Inr m \<Rightarrow> if p n m then k else Inr False))"

text \<open>
  The ping: no socket (\<open>None\<close>), or whether a connection to an address and a port succeeds; the port
  is cut to 16 bits.
\<close>

definition pings :: "(string \<Rightarrow> 16 word \<Rightarrow> bool) option \<Rightarrow> stSystem \<Rightarrow> conv_error + bool" where
  "pings connects sys =
     (case connects of
        None \<Rightarrow> Inr False
      | Some connect_to \<Rightarrow>
          (case stoi (sy_port sys) of
             Inl e \<Rightarrow> Inl e
           | Inr port \<Rightarrow> Inr (connect_to (sy_address sys) (word_of_int port))))"

definition keeps :: "(string \<Rightarrow> 16 word \<Rightarrow> bool) option \<Rightarrow> ServiceQueryForm \<Rightarrow> serviceQueryData \<Rightarrow> conv_error + bool" where
  "keeps connects form d =
     (if qf_interfaces form \<noteq> [] \<and> \<not> list_ex (\<lambda>i. list_ex (\<lambda>j. i = if_name j) (sq_interfaces d)) (qf_interfaces form)
      then Inr False
      else if qf_security form \<noteq> [] \<and> \<not> list_ex (\<lambda>s. s = sq_secure d) (qf_security form) then Inr False
      else
        check_version (=) (qf_version form) (sq_version d)
        (check_version (\<le>) (qf_minVersion form) (sq_version d)
        (check_version (\<ge>) (qf_maxVersion form) (sq_version d)
        (if \<not> list_all (\<lambda>(k, v). map_of (metadata_pairs (sq_metadata d)) k = Some v) (qf_metadata form) then Inr False
         else if qf_pingProviders form then pings connects (sq_provider d)
         else Inr True))))"

fun filterQueryList :: "(serviceQueryData \<Rightarrow> conv_error + bool) \<Rightarrow> serviceQueryData list \<Rightarrow> conv_error + serviceQueryData list" where
  "filterQueryList keep [] = Inr []"
| "filterQueryList keep (d # ds) =
     (case keep d of
        Inl e \<Rightarrow> Inl e
      | Inr b \<Rightarrow> map_sum id (\<lambda>ds. if b then d # ds else ds) (filterQueryList keep ds))"

definition no_hits :: string where
  "no_hits = '' { '' @ quoted ''serviceQueryData'' @ '': [], '' @ quoted ''unfilteredHits'' @ '': 0 } ''"

definition query_error :: "nat \<times> string \<Rightarrow> Response" where
  "query_error e =
     (let (n, t) = e in
      ErrorResp
        (if n = 3 then ''Specified interface name is not valid: '' @ t
         else if n = 4 then ''Security type is not valid.''
         else ''Service definition requirement is null or blank'') BAD_PAYLOAD ''serviceregistry/query'')"

definition processQuery :: "(string \<Rightarrow> 16 word \<Rightarrow> bool) option \<Rightarrow> 'd Database \<Rightarrow> Request \<Rightarrow> 'd answer" where
  "processQuery connects db req =
     with_json ''serviceregistry/query'' req (\<lambda>root.
     act_bind (act_the (parseQueryForm root)) (\<lambda>r.
     case r of
       Inl e \<Rightarrow> returns (query_error e)
     | Inr form \<Rightarrow>
         act_bind (fillQueryList db form) (\<lambda>r.
         case r of
           Inl n \<Rightarrow>
             returns (if n = 1 then
               ErrorResp (''Service with definition of '' @ sq (qf_serviceDefinition form) @ '' is not exists'')
                 INVALID_PARAMETER ''serviceregistry/query''
               else ok_Response no_hits)
         | Inr ds \<Rightarrow>
             if ds = [] then returns (ok_Response no_hits)
             else act_bind (act_conv (filterQueryList (keeps connects form) ds)) (\<lambda>kept.
               respond (createServiceQueryList (length ds) kept)))))"

section \<open>Systems\<close>

text \<open>The parsers of the systems in front of a handler.\<close>

definition with_system :: "string \<Rightarrow> Request \<Rightarrow> (stSystem \<Rightarrow> 'd answer) \<Rightarrow> 'd answer" where
  "with_system origin req k =
     with_json origin req (\<lambda>root.
     act_bind (act_the (validSystem root)) (\<lambda>r.
     case r of
       Inl (n, _) \<Rightarrow>
         returns (ErrorResp (if n = 6 then ''Port must be between 0 and 65535.'' else ''parameter null or empty'')
           INVALID_PARAMETER origin)
     | Inr s \<Rightarrow> k s))"

definition no_such_system :: "string \<Rightarrow> stSystem \<Rightarrow> Response" where
  "no_such_system origin s =
     ErrorResp (''No system with name: '' @ sy_systemName s @ '', address: '' @ sy_address s @ '' and port: '' @ sy_port s)
       INVALID_PARAMETER origin"

text \<open>Reading back the columns that the client did not send.\<close>

definition answer_system :: "'d Database \<Rightarrow> string \<Rightarrow> string \<Rightarrow> stSystem \<Rightarrow> 'd answer" where
  "answer_system db origin q s =
     act_bind (act_db (db_fetch db q)) (\<lambda>rows.
     case rows of
       [] \<Rightarrow> returns (no_such_system origin s)
     | row # _ \<Rightarrow>
         respond (createSRSystem (s\<lparr>sy_id := text_at row 0, sy_authInfo := text_at row 4,
           sy_createdAt := text_at row 5, sy_updatedAt := text_at row 6\<rparr>)))"

definition select_system :: "stSystem \<Rightarrow> string" where
  "select_system s =
     ''SELECT * FROM system_ where system_name = '' @ sq (sy_systemName s) @ '' AND address = '' @ sq (sy_address s)
       @ '' AND port = '' @ sq (sy_port s) @ '';''"

definition processQuerySystem :: "'d Database \<Rightarrow> Request \<Rightarrow> 'd answer" where
  "processQuerySystem db req =
     with_system ''serviceregistry/query/system'' req (\<lambda>s.
       answer_system db ''serviceregistry/query/system'' (select_system s) s)"

definition processQuerySystemId :: "'d Database \<Rightarrow> int \<Rightarrow> 'd answer" where
  "processQuerySystemId db ident =
     (if ident < 0 then returns (ErrorResp ''Id must be greater than 0.'' BAD_PAYLOAD ''serviceregistry/query/system/{id}'')
      else act_bind (act_db (db_fetch db (select_id ''system_'' (int_str ident)))) (\<lambda>rows.
        case rows of
          [] \<Rightarrow> returns (ErrorResp (''System with id '' @ int_str ident @ '' not found.'') INVALID_PARAMETER
                  ''serviceregistry/query/system/{id}'')
        | row # _ \<Rightarrow> respond (createSRSystem (read_system (text_at row 0) row))))"

definition processMgmtPostSystems :: "'d Database \<Rightarrow> Request \<Rightarrow> 'd answer" where
  "processMgmtPostSystems db req =
     with_system ''serviceregistry/mgmt/systems'' req (\<lambda>s.
     act_bind (save_system db (sy_systemName s) (sy_address s) (sy_port s) (sy_authInfo s)) (\<lambda>_.
       answer_system db ''serviceregistry/mgmt/systems'' (select_system s) s))"

definition update_where :: "string \<Rightarrow> string \<Rightarrow> string \<Rightarrow> string" where
  "update_where table assignments ident =
     ''UPDATE '' @ table @ '' SET '' @ assignments @ '' WHERE id = '' @ sq ident @ '';''"

definition processMgmtPutSystems :: "'d Database \<Rightarrow> Request \<Rightarrow> string \<Rightarrow> 'd answer" where
  "processMgmtPutSystems db req ident =
     with_system ''serviceregistry/mgmt/systems/{id}'' req (\<lambda>s.
     act_bind (act_db (db_query db (update_where ''system_''
       (''system_name = '' @ sq (sy_systemName s) @ '', address = '' @ sq (sy_address s) @ '', port = '' @ sy_port s
        @ (if sy_authInfo s \<noteq> [] then '', authentication_info = '' @ sq (sy_authInfo s) else [])) ident))) (\<lambda>_.
       answer_system db ''serviceregistry/mgmt/systems/{id}'' (''SELECT * FROM system_ where id = '' @ sq ident) s))"

definition patch_column :: "'d Database \<Rightarrow> string \<Rightarrow> string \<Rightarrow> string \<Rightarrow> (unit, 'd) action" where
  "patch_column db ident column v =
     (if v \<noteq> [] then act_db (db_query db (update_where ''system_'' (column @ '' = '' @ sq v) ident)) else act_ret ())"

definition processMgmtPatchSystems :: "'d Database \<Rightarrow> Request \<Rightarrow> string \<Rightarrow> 'd answer" where
  "processMgmtPatchSystems db req ident =
     with_json ''serviceregistry/mgmt/systems/{id}'' req (\<lambda>root.
     act_bind (act_the (validSystem2 root)) (\<lambda>r.
     case r of
       Inl _ \<Rightarrow> returns (ErrorResp ''Port must be between 0 and 65535.'' INVALID_PARAMETER ''serviceregistry/mgmt/systems/{id}'')
     | Inr s \<Rightarrow>
         act_bind (patch_column db ident ''system_name'' (sy_systemName s)) (\<lambda>_.
         act_bind (patch_column db ident ''address'' (sy_address s)) (\<lambda>_.
         act_bind (patch_column db ident ''port'' (sy_port s)) (\<lambda>_.
         act_bind (patch_column db ident ''authentication_info'' (sy_authInfo s)) (\<lambda>_.
         act_bind (act_db (db_fetch db (''SELECT * FROM system_ WHERE id = '' @ sq ident))) (\<lambda>rows.
         case rows of
           [] \<Rightarrow> returns (no_such_system ''serviceregistry/mgmt/systems/{id}'' s)
         | row # _ \<Rightarrow> respond (createSRSystem (read_system (text_at row 0) row)))))))))"

section \<open>Service definitions\<close>

definition no_such_definition :: "string \<Rightarrow> string \<Rightarrow> Response" where
  "no_such_definition origin ident =
     ErrorResp (''Service definition with id of '' @ sq ident @ '' does not exist'') INVALID_PARAMETER origin"

definition answer_definition :: "'d Database \<Rightarrow> string \<Rightarrow> string \<Rightarrow> string \<Rightarrow> 'd answer" where
  "answer_definition db origin q ident =
     act_bind (act_db (db_fetch db q)) (\<lambda>rows.
     case rows of
       [] \<Rightarrow> returns (no_such_definition origin ident)
     | row # _ \<Rightarrow> respond (createServiceDefinition (read_definition (text_at row 0) row)))"

definition with_definition :: "string \<Rightarrow> Request \<Rightarrow> (string \<Rightarrow> 'd answer) \<Rightarrow> 'd answer" where
  "with_definition origin req k =
     with_json origin req (\<lambda>root.
     act_bind (act_the (sd_validJSONPayload root)) (\<lambda>r.
     case r of
       Inl (n, _) \<Rightarrow> returns (ErrorResp (valid_message n) BAD_PAYLOAD origin)
     | Inr sd \<Rightarrow> k sd))"

definition processMgmtPostServiceDefinition :: "'d Database \<Rightarrow> Request \<Rightarrow> 'd answer" where
  "processMgmtPostServiceDefinition db req =
     with_definition ''serviceregistry/mgmt/services'' req (\<lambda>sd.
     act_bind (checkAndInsertValue db ''id'' ''service_definition'' ''service_definition'' sd) (\<lambda>sdID.
       answer_definition db ''serviceregistry/mgmt/services'' (select_quoted ''service_definition'' ''id'' sdID) sdID))"

definition update_definition :: "string \<Rightarrow> string \<Rightarrow> string" where
  "update_definition sd ident = update_where ''service_definition'' (''service_definition = '' @ sq sd) ident"

definition select_changed_definition :: "string \<Rightarrow> string" where
  "select_changed_definition ident = ''SELECT * from service_definition WHERE id = '' @ sq ident"

definition processMgmtPutServiceDefinition :: "'d Database \<Rightarrow> Request \<Rightarrow> string \<Rightarrow> 'd answer" where
  "processMgmtPutServiceDefinition db req ident =
     with_definition ''serviceregistry/mgmt/services/{id}'' req (\<lambda>sd.
     act_bind (act_db (db_query db (update_definition sd ident))) (\<lambda>_.
       answer_definition db ''serviceregistry/mgmt/services/{id}'' (select_changed_definition ident) ident))"

text \<open>A payload without a definition changes nothing and is not an error.\<close>

definition processMgmtPatchServiceDefinition :: "'d Database \<Rightarrow> Request \<Rightarrow> string \<Rightarrow> 'd answer" where
  "processMgmtPatchServiceDefinition db req ident =
     with_json ''serviceregistry/mgmt/services/{id}'' req (\<lambda>root.
     act_bind (act_the (sd_validJSONPayload root)) (\<lambda>r.
     act_bind (case r of Inl _ \<Rightarrow> act_ret () | Inr sd \<Rightarrow> act_db (db_query db (update_definition sd ident))) (\<lambda>_.
       answer_definition db ''serviceregistry/mgmt/services/{id}'' (select_changed_definition ident) ident)))"

section \<open>Deletion\<close>

definition delete_id :: "'d Database \<Rightarrow> string \<Rightarrow> string \<Rightarrow> int \<Rightarrow> 'd answer" where
  "delete_id db table origin ident =
     (if ident < 1 then returns (ErrorResp ''Id must be greater than 0.'' BAD_PAYLOAD origin)
      else act_bind (act_db (db_query db (''DELETE FROM '' @ table @ '' WHERE id = '' @ sq (int_str ident) @ '';'')))
        (\<lambda>_. returns (ok_Response ''OK'')))"

definition processMgmtDeleteSystemsId :: "'d Database \<Rightarrow> int \<Rightarrow> 'd answer" where
  "processMgmtDeleteSystemsId db = delete_id db ''system_'' ''serviceregistry/mgmt/systems/{id}''"

definition processMgmtDeleteServicesId :: "'d Database \<Rightarrow> int \<Rightarrow> 'd answer" where
  "processMgmtDeleteServicesId db = delete_id db ''service_definition'' ''serviceregistry/mgmt/services/{id}''"

definition processMgmtDeleteId :: "'d Database \<Rightarrow> int \<Rightarrow> 'd answer" where
  "processMgmtDeleteId db = delete_id db ''service_registry'' ''serviceregistry/mgmt/{id}''"

end
