(* ===== verification/SrService.thy ===== *)
theory SrService
  imports SrEndpoints Query
begin

text \<open>
  The lists of the service registry (\<open>core/apps/ServiceRegistry/endpoints/MgmtGet.h\<close>) and its routing
  table (\<open>core/apps/ServiceRegistry/ServiceRegistry.h\<close>), over one connection of the pool. The result
  of a route is the answer of its endpoint.
\<close>

section \<open>One entry\<close>

definition stored_interface :: "'d Database \<Rightarrow> string \<Rightarrow> (nat + Interface, 'd) action" where
  "stored_interface db i = fetch_first db (select_id ''service_interface'' i) 5 (read_interface i)"

definition processServiceRegistryEntry :: "'d Database \<Rightarrow> int \<Rightarrow> (nat + serviceQueryData, 'd) action" where
  "processServiceRegistryEntry db ident =
     act_then (fetch_first db (''SELECT * FROM service_registry where id = '' @ sq (int_str ident) @ '';'') 1 id) (\<lambda>row.
     act_then (fetch_first db (select_id ''service_definition'' (text_at row 1)) 2 (read_definition (text_at row 1))) (\<lambda>sd.
     act_then (fetch_first db (select_id ''system_'' (text_at row 2)) 3 (read_system (text_at row 2))) (\<lambda>sys.
     act_bind (act_db (db_fetch db
       (''SELECT interface_id FROM service_registry_interface_connection WHERE service_registry_id = ''
          @ sq (text_at row 0) @ '';''))) (\<lambda>rows.
     if rows = [] then act_leave 4
     else act_then (leave_map (stored_interface db) (map (\<lambda>r. text_at r 0) rows)) (\<lambda>ifs.
       act_ret (Inr (read_entry (text_at row 0) sd sys ifs row)))))))"

definition lookup_message :: "nat \<Rightarrow> string" where
  "lookup_message n =
     empty_response (if n = 1 then ''service_registry'' else if n = 2 then ''service_definition''
       else if n = 3 then ''system_'' else if n = 4 then ''service_registry_interface_connection''
       else ''service_interface'')"

definition processMgmtGetId :: "'d Database \<Rightarrow> int \<Rightarrow> 'd answer" where
  "processMgmtGetId db ident =
     (if ident < 1 then returns (ErrorResp ''Id must be greater than 0.'' BAD_PAYLOAD ''serviceregistry/mgmt/{id}'')
      else act_bind (processServiceRegistryEntry db ident) (\<lambda>r.
        case r of
          Inl n \<Rightarrow> returns (ErrorResp (lookup_message n) BAD_PAYLOAD ''serviceregistry/mgmt/{id}'')
        | Inr d \<Rightarrow> respond (createRegistryEntry d)))"

text \<open>The text of the entry that a row with its identifier names, inside a loop of another handler.\<close>

definition entry_text :: "'d Database \<Rightarrow> string \<Rightarrow> string \<Rightarrow> (Response + string, 'd) action" where
  "entry_text db origin sID =
     act_bind (act_conv (stoi sID)) (\<lambda>ident.
     act_bind (processServiceRegistryEntry db ident) (\<lambda>r.
     case r of
       Inl n \<Rightarrow> act_leave (ErrorResp (lookup_message n) BAD_PAYLOAD origin)
     | Inr d \<Rightarrow> act_go (act_conv (createRegistryEntry d))))"

text \<open>The texts of all the entries of a result, which must not be empty.\<close>

definition entry_texts :: "'d Database \<Rightarrow> string \<Rightarrow> string \<Rightarrow> (Response + string list, 'd) action" where
  "entry_texts db origin q =
     act_bind (act_db (db_fetch db q)) (\<lambda>rows.
     if rows = [] then act_leave (ErrorResp (empty_response ''service_registry'') INVALID_PARAMETER origin)
     else leave_map (entry_text db origin) (map (\<lambda>r. text_at r 0) rows))"

section \<open>Lists\<close>

record Paging =
  pg_page :: int
  pg_itemPerPage :: int
  pg_sortField :: string
  pg_direction :: string

text \<open>
  The condition on the direction, different from \<open>ASC\<close> or different from \<open>DESC\<close>, always holds, and
  the message behind it cannot be reached.
\<close>

definition order_clause :: "string \<Rightarrow> Paging \<Rightarrow> Response + string" where
  "order_clause origin pg =
     (let sort_field = pg_sortField pg; direction = pg_direction pg in
      if sort_field = [] then Inr []
      else if sort_field = ''id'' \<or> sort_field = ''createdAt'' \<or> sort_field = ''updatedAt'' then
        (let q = (if sort_field = ''id'' then '' ORDER BY id'' else if sort_field = ''createdAt''
             then '' ORDER BY created_at'' else '' ORDER BY updated_at'') in
         if direction = [] then Inr q
         else if direction \<noteq> ''ASC'' \<or> direction \<noteq> ''DESC'' then Inr (q @ '' '' @ direction)
         else Inl (ErrorResp (''Unknown parameter '' @ sq direction) INVALID_PARAMETER origin))
      else Inl (ErrorResp (''Sortable field with reference '' @ sq sort_field @ '' is not available'') INVALID_PARAMETER origin))"

definition page_clause :: "Paging \<Rightarrow> string" where
  "page_clause pg =
     (if pg_itemPerPage pg > 0 then '' LIMIT '' @ int_str (pg_itemPerPage pg) else [])
     @ (if pg_page pg > 0 then '' OFFSET '' @ int_str (pg_page pg) else [])"

definition list_query :: "string \<Rightarrow> string \<Rightarrow> Paging \<Rightarrow> Response + string" where
  "list_query origin q pg = map_sum id (\<lambda>c. q @ c @ page_clause pg) (order_clause origin pg)"

definition on_query :: "Response + string \<Rightarrow> (string \<Rightarrow> (Response + 'a, 'd) action) \<Rightarrow> (Response + 'a, 'd) action" where
  "on_query q k = (case q of Inl r \<Rightarrow> act_leave r | Inr q \<Rightarrow> k q)"

definition processMgmtGet :: "'d Database \<Rightarrow> Paging \<Rightarrow> 'd answer" where
  "processMgmtGet db pg = answered
     (on_query (list_query ''serviceregistry/mgmt/services'' ''SELECT id FROM service_registry'' pg) (\<lambda>q.
      act_then (entry_texts db ''serviceregistry/mgmt/grouped'' q) (\<lambda>ts.
        act_ret (Inr (ok_Response
          (close_list (''{ '' @ quoted ''data'' @ '' : ['') ts @ '', '' @ quoted ''count'' @ '' : '' @ nat_str (length ts) @ ''}''))))))"

text \<open>A system that is not found is an object with empty fields.\<close>

definition processSystem :: "'d Database \<Rightarrow> string \<Rightarrow> (bool \<times> stSystem, 'd) action" where
  "processSystem db ident =
     act_bind (act_db (db_fetch db (select_quoted ''system_'' ''id'' ident))) (\<lambda>rows.
     act_ret (case rows of [] \<Rightarrow> (False, no_system) | row # _ \<Rightarrow> (True, read_system (text_at row 0) row)))"

definition processMgmtGetSystemsId :: "'d Database \<Rightarrow> int \<Rightarrow> 'd answer" where
  "processMgmtGetSystemsId db ident =
     (if ident < 1 then returns (ErrorResp ''Id must be greater than 0.'' BAD_PAYLOAD ''serviceregistry/mgmt/systems/{id}'')
      else act_bind (processSystem db (int_str ident)) (\<lambda>(found, s).
        if \<not> found then
          returns (ErrorResp (''System with id '' @ int_str ident @ '' not found.'') INVALID_PARAMETER
            ''serviceregistry/mgmt/systems/{id}'')
        else respond (createSRSystem s)))"

definition systems_of :: "'d Database \<Rightarrow> Row list \<Rightarrow> (stSystem list, 'd) action" where
  "systems_of db rows =
     act_map (\<lambda>r. act_bind (processSystem db (text_at r 0)) (\<lambda>(_, s). act_ret s)) rows"

definition processMgmtGetSystems :: "'d Database \<Rightarrow> Paging \<Rightarrow> 'd answer" where
  "processMgmtGetSystems db pg = answered
     (on_query (list_query ''serviceregistry/mgmt/systems'' ''SELECT id FROM system_'' pg) (\<lambda>q.
      act_bind (act_db (db_fetch db q)) (\<lambda>rows.
      if rows = [] then act_leave (ErrorResp (empty_response ''system_'') INVALID_PARAMETER ''serviceregistry/mgmt/systems'')
      else act_bind (systems_of db rows) (\<lambda>ss.
        act_bind (act_conv (createSystemList ss)) (\<lambda>t. act_ret (Inr (ok_Response t)))))))"

definition processServiceDefinition :: "'d Database \<Rightarrow> int \<Rightarrow> (stServDef option, 'd) action" where
  "processServiceDefinition db ident =
     act_bind (act_db (db_fetch db (select_quoted ''service_definition'' ''id'' (int_str ident)))) (\<lambda>rows.
     act_ret (case rows of [] \<Rightarrow> None | row # _ \<Rightarrow> Some (read_definition (text_at row 0) row)))"

definition processMgmtGetServicesId :: "'d Database \<Rightarrow> int \<Rightarrow> 'd answer" where
  "processMgmtGetServicesId db ident =
     (if ident < 1 then returns (ErrorResp ''Id must be greater than 0.'' BAD_PAYLOAD ''serviceregistry/mgmt/services/{id}'')
      else act_bind (processServiceDefinition db ident) (\<lambda>r.
        case r of
          None \<Rightarrow> returns (no_such_definition ''serviceregistry/mgmt/services/{id}'' (int_str ident))
        | Some d \<Rightarrow> respond (createServiceDefinition d)))"

definition processMgmtGetServices :: "'d Database \<Rightarrow> Paging \<Rightarrow> 'd answer" where
  "processMgmtGetServices db pg = answered
     (on_query (list_query ''serviceregistry/mgmt/services'' ''SELECT * FROM service_definition'' pg) (\<lambda>q.
      act_bind (act_db (db_fetch db q)) (\<lambda>rows.
      act_bind (act_conv (createServiceDefinitionList (map (\<lambda>r. read_definition (text_at r 0) r) rows))) (\<lambda>t.
        act_ret (Inr (ok_Response t))))))"

text \<open>The name ends at a question mark, which the path parameter may contain.\<close>

definition processMgmtGetServiceDef :: "'d Database \<Rightarrow> string \<Rightarrow> Paging \<Rightarrow> 'd answer" where
  "processMgmtGetServiceDef db serviceDef pg =
     (let origin = ''serviceregistry/mgmt/servicedef/{serviceDefinition}'';
          nm = takeWhile (\<lambda>c. c \<noteq> CHR ''?'') (toLowerAndTrim serviceDef) in
      answered
        (act_bind (act_db (db_fetch db (''SELECT id FROM service_definition WHERE service_definition = '' @ sq nm))) (\<lambda>rows.
         if rows = [] then act_leave (ErrorResp (empty_response ''service_definition'') INVALID_PARAMETER origin)
         else
           on_query (list_query origin
             (''SELECT id FROM service_registry WHERE service_id = '' @ sq (text_at (last rows) 0)) pg) (\<lambda>q.
           act_then (entry_texts db origin q) (\<lambda>ts. act_ret (Inr (ok_Response (data_list ts))))))))"

section \<open>Everything, grouped\<close>

definition listed_value :: "Row \<Rightarrow> string" where
  "listed_value r =
     ''{'' @ quoted ''id'' @ '' : '' @ text_at r 0 @ '', '' @ quoted ''value'' @ '' : '' @ quoted (text_at r 1) @ ''}''"

definition grouped_origin :: string where
  "grouped_origin = ''serviceregistry/mgmt/grouped''"

text \<open>One object per group: its head and the entries that belong to it.\<close>

definition group_text :: "'d Database \<Rightarrow> (Row \<Rightarrow> string) \<Rightarrow> string \<Rightarrow> Row \<Rightarrow> (Response + string, 'd) action" where
  "group_text db head column r =
     act_then (entry_texts db grouped_origin
       (''SELECT id FROM service_registry WHERE '' @ column @ '' = '' @ sq (text_at r 0))) (\<lambda>ts.
       act_ret (Inr (close_list (''{'' @ head r) ts @ ''}'')))"

definition definition_head :: "Row \<Rightarrow> string" where
  "definition_head r =
     quoted ''serviceDefinitionId'' @ '' : '' @ text_at r 0 @ '', '' @ quoted ''serviceDefinition'' @ '' : ''
       @ quoted (text_at r 1) @ '','' @ quoted ''providerServices'' @ '' : [''"

definition system_head :: "Row \<Rightarrow> string" where
  "system_head r =
     quoted ''systemId'' @ '' : '' @ text_at r 0 @ '', '' @ quoted ''systemName'' @ '' : '' @ quoted (text_at r 1)
       @ '', '' @ quoted ''address'' @ '' : '' @ quoted (text_at r 2) @ '', '' @ quoted ''port'' @ '' : '' @ text_at r 3
       @ '','' @ quoted ''services'' @ '' : [''"

definition processMgmtGetGrouped :: "'d Database \<Rightarrow> 'd answer" where
  "processMgmtGetGrouped db = answered
     (act_bind (act_db (db_fetch db ''SELECT id,interface_name FROM service_interface'')) (\<lambda>intfs.
      act_bind (act_db (db_fetch db ''SELECT id,service_definition FROM service_definition'')) (\<lambda>defs.
      act_bind (act_db (db_fetch db ''SELECT id FROM system_'')) (\<lambda>systems.
      act_bind (act_map (\<lambda>r. act_bind (processSystem db (text_at r 0)) (\<lambda>(_, s). act_conv (createSRSystem s))) systems) (\<lambda>ss.
      act_bind (act_db (db_fetch db ''SELECT id,service_definition FROM service_definition'')) (\<lambda>groups.
      act_then (leave_map (group_text db definition_head ''service_id'') groups) (\<lambda>by_definition.
      act_bind (act_db (db_fetch db ''SELECT id,system_name,address,port FROM system_'')) (\<lambda>groups.
      act_then (leave_map (group_text db system_head ''system_id'') groups) (\<lambda>by_system.
        act_ret (Inr (ok_Response
          (close_list (''{ '' @ quoted ''autoCompleteData'' @ '' : { '' @ quoted ''interfaceList'' @ '' : ['') (map listed_value intfs)
           @ close_list ('','' @ quoted ''serviceList'' @ '' : ['') (map listed_value defs)
           @ close_list ('','' @ quoted ''systemList'' @ '' : ['') ss
           @ ''},'' @ close_list (quoted ''servicesGroupedByServiceDefinition'' @ '' :['') by_definition
           @ close_list ('','' @ quoted ''servicesGroupedBySystems'' @ '' :['') by_system @ ''}''))))))))))))"

section \<open>Routing\<close>

definition route_compare :: "string \<Rightarrow> (Request \<Rightarrow> 'd answer) \<Rightarrow> (Request \<Rightarrow> 'd answer) \<Rightarrow> Request \<Rightarrow> 'd answer" where
  "route_compare path k otherwise req =
     (case compare_lit path (rq_uri req) of
        None \<Rightarrow> act_undef
      | Some (b, u) \<Rightarrow> (if b then k else otherwise) (req\<lparr>rq_uri := u\<rparr>))"

definition route_consume :: "string \<Rightarrow> (Request \<Rightarrow> 'd answer) \<Rightarrow> (Request \<Rightarrow> 'd answer) \<Rightarrow> Request \<Rightarrow> 'd answer" where
  "route_consume path k otherwise req =
     (case consume_lit path (rq_uri req) of
        None \<Rightarrow> act_undef
      | Some (b, u) \<Rightarrow> (if b then k else otherwise) (req\<lparr>rq_uri := u\<rparr>))"

text \<open>\<open>int id; if (req.uri.pathId(id)) \<dots>\<close>; the conversion throws on a segment that is no number.\<close>

definition with_path_id :: "(int \<Rightarrow> Request \<Rightarrow> 'd answer) \<Rightarrow> (Request \<Rightarrow> 'd answer) \<Rightarrow> Request \<Rightarrow> 'd answer" where
  "with_path_id k otherwise req =
     (case pathId_int (rq_uri req) 0 of
        None \<Rightarrow> act_undef
      | Some (Inl e) \<Rightarrow> act_throw (Conversion e)
      | Some (Inr (ok, ident)) \<Rightarrow> if ok then k ident req else otherwise req)"

text \<open>A route with an identifier; without one the next routes are tried on the rest of the path.\<close>

definition route_id :: "string \<Rightarrow> (int \<Rightarrow> Request \<Rightarrow> 'd answer) \<Rightarrow> (Request \<Rightarrow> 'd answer) \<Rightarrow> Request \<Rightarrow> 'd answer" where
  "route_id path k otherwise = route_consume path (with_path_id k otherwise) otherwise"

text \<open>The loops over the query: other keys are skipped, and a number that is none throws.\<close>

definition no_paging :: Paging where
  "no_paging = \<lparr>pg_page = 0, pg_itemPerPage = 0x7FFFFFFF, pg_sortField = [], pg_direction = []\<rparr>"

definition store_paging :: "string \<times> string \<Rightarrow> conv_error + Paging \<Rightarrow> bool \<times> (conv_error + Paging)" where
  "store_paging kv s =
     (case s of
        Inl e \<Rightarrow> (True, Inl e)
      | Inr pg \<Rightarrow>
          if fst kv = ''page'' then
            (case stoi (snd kv) of Inl e \<Rightarrow> (True, Inl e) | Inr n \<Rightarrow> (False, Inr (pg\<lparr>pg_page := n\<rparr>)))
          else if fst kv = ''item_per_page'' then
            (case stoi (snd kv) of Inl e \<Rightarrow> (True, Inl e) | Inr n \<Rightarrow> (False, Inr (pg\<lparr>pg_itemPerPage := n\<rparr>)))
          else if fst kv = ''sort_field'' then (False, Inr (pg\<lparr>pg_sortField := snd kv\<rparr>))
          else if fst kv = ''direction'' then (False, Inr (pg\<lparr>pg_direction := snd kv\<rparr>))
          else (False, Inr pg))"

definition with_paging :: "(Paging \<Rightarrow> 'd answer) \<Rightarrow> Request \<Rightarrow> 'd answer" where
  "with_paging k req =
     (case read_query store_paging (new_Parser (rq_uri req)) (Inr no_paging) of
        None \<Rightarrow> act_undef
      | Some (_, s) \<Rightarrow> act_bind (act_conv s) k)"

definition sr_not_found :: "Request \<Rightarrow> 'd answer" where
  "sr_not_found req = returns (from_stock NotFound)"

definition sr_not_implemented :: "Request \<Rightarrow> 'd answer" where
  "sr_not_implemented req = returns (from_stock NotImplemented)"

definition route_servicedef :: "'d Database \<Rightarrow> (Request \<Rightarrow> 'd answer) \<Rightarrow> Request \<Rightarrow> 'd answer" where
  "route_servicedef db otherwise =
     route_consume ''/mgmt/servicedef''
       (\<lambda>req. case pathParam (rq_uri req) [] of
          None \<Rightarrow> act_undef
        | Some (ok, sd) \<Rightarrow> if ok then with_paging (processMgmtGetServiceDef db sd) req else otherwise req)
       otherwise"

definition handleGET :: "'d Database \<Rightarrow> Request \<Rightarrow> 'd answer" where
  "handleGET db =
     route_compare ''/echo'' (\<lambda>req. returns (ok_Response ''Got it!''))
     (route_consume ''/query/system'' (with_path_id (\<lambda>ident req. processQuerySystemId db ident) sr_not_found)
     (route_compare ''/mgmt/grouped'' (\<lambda>req. processMgmtGetGrouped db)
     (route_compare ''/mgmt/systems'' (with_paging (processMgmtGetSystems db))
     (route_id ''/mgmt/systems'' (\<lambda>ident req. processMgmtGetSystemsId db ident)
     (route_compare ''/mgmt/services'' (with_paging (processMgmtGetServices db))
     (route_id ''/mgmt/services'' (\<lambda>ident req. processMgmtGetServicesId db ident)
     (route_servicedef db
     (route_consume ''/mgmt'' (with_path_id (\<lambda>ident req. processMgmtGetId db ident) (with_paging (processMgmtGet db)))
     sr_not_found))))))))"

definition handlePOST :: "(string \<Rightarrow> 16 word \<Rightarrow> bool) option \<Rightarrow> 'd Database \<Rightarrow> Request \<Rightarrow> 'd answer" where
  "handlePOST connects db =
     route_compare ''/register'' (processRegister db ''serviceregistry/register'')
     (route_compare ''/mgmt'' (processRegister db ''serviceregistry/mgmt'')
     (route_compare ''/query'' (processQuery connects db)
     (route_compare ''/query/system'' (processQuerySystem db)
     (route_compare ''/mgmt/services'' (processMgmtPostServiceDefinition db)
     (route_compare ''/mgmt/systems'' (processMgmtPostSystems db)
     sr_not_found)))))"

definition handlePATCH :: "'d Database \<Rightarrow> Request \<Rightarrow> 'd answer" where
  "handlePATCH db =
     route_id ''/mgmt/services'' (\<lambda>ident req. processMgmtPatchServiceDefinition db req (int_str ident))
     (route_id ''/mgmt/systems'' (\<lambda>ident req. processMgmtPatchSystems db req (int_str ident))
     sr_not_implemented)"

definition handlePUT :: "'d Database \<Rightarrow> Request \<Rightarrow> 'd answer" where
  "handlePUT db =
     route_id ''/mgmt/services'' (\<lambda>ident req. processMgmtPutServiceDefinition db req (int_str ident))
     (route_id ''/mgmt/systems'' (\<lambda>ident req. processMgmtPutSystems db req (int_str ident))
     sr_not_implemented)"

text \<open>The parameters of an unregistration, each with whether it was there.\<close>

record Unregister =
  un_serviceDefinition :: "string option"
  un_systemName :: "string option"
  un_address :: "string option"
  un_port :: "string option"

definition store_unregister_service :: "string \<times> string \<Rightarrow> Unregister \<Rightarrow> bool \<times> Unregister" where
  "store_unregister_service kv s =
     (False,
      if fst kv = ''service_definition'' then s\<lparr>un_serviceDefinition := Some (snd kv)\<rparr>
      else if fst kv = ''system_name'' then s\<lparr>un_systemName := Some (snd kv)\<rparr>
      else if fst kv = ''address'' then s\<lparr>un_address := Some (snd kv)\<rparr>
      else if fst kv = ''port'' then s\<lparr>un_port := Some (snd kv)\<rparr>
      else s)"

definition unregister_route :: "'d Database \<Rightarrow> Parser \<Rightarrow> Request \<Rightarrow> 'd answer" where
  "unregister_route db p req =
     (case read_query store_unregister_service p
         \<lparr>un_serviceDefinition = None, un_systemName = None, un_address = None, un_port = None\<rparr> of
        None \<Rightarrow> act_undef
      | Some (_, s) \<Rightarrow>
          (case (un_serviceDefinition s, un_systemName s, un_address s, un_port s) of
             (Some sd, Some nm, Some addr, Some port) \<Rightarrow> processUnregister db sd nm addr port
           | _ \<Rightarrow> returns (from_stock BadRequest)))"

text \<open>The query is parsed in front of the routes; without one, there is nothing to unregister.\<close>

definition handleDELETE :: "'d Database \<Rightarrow> Request \<Rightarrow> 'd answer" where
  "handleDELETE db req =
     (let p = new_Parser (rq_uri req);
          routes =
            route_id ''/mgmt/systems'' (\<lambda>ident req. processMgmtDeleteSystemsId db ident)
            (route_id ''/mgmt/services'' (\<lambda>ident req. processMgmtDeleteServicesId db ident)
            (route_id ''/mgmt'' (\<lambda>ident req. processMgmtDeleteId db ident)
            sr_not_implemented))
      in if parser_bool p then route_compare ''/unregister'' (unregister_route db p) routes req else routes req)"

definition serviceregistry_handle :: "(string \<Rightarrow> 16 word \<Rightarrow> bool) option \<Rightarrow> 'd Database \<Rightarrow> Request \<Rightarrow> 'd answer" where
  "serviceregistry_handle connects db req =
     (let m = rq_method req in
      if m = ''GET'' then handleGET db req
      else if m = ''DELETE'' then handleDELETE db req
      else if m = ''POST'' then handlePOST connects db req
      else if m = ''PUT'' then handlePUT db req
      else if m = ''PATCH'' then handlePATCH db req
      else if m = ''HEAD'' \<or> m = ''OPTIONS'' then returns (from_stock NotFound)
      else returns (from_stock MethodNotAllowed))"

end
