(* ===== verification/Orchestration.thy ===== *)
theory Orchestration
  imports SrModels SrService
begin

text \<open>
  The orchestrator (\<open>core/apps/Orchestrator\<close>): the request form, the choice of the providers and the
  response. It asks the service registry and the authorization service through the web client, which is
  a parameter, as are the random number of the choice and the conversion of local times, which depends on the time zone and,
  through fields that are not initialised, on memory. \<open>None\<close> is a failed assertion, or the read of a key that is not
  there.
\<close>

section \<open>JSON values as text\<close>

text \<open>
  The members of an object, written one by one; a number goes through \<open>std::to_string\<close> and \<open>std::stoi\<close>, which is
  the identity on an \<open>int\<close>. The elements of an array are looked up by its key in the object, which finds
  the first member whose key begins with it.
\<close>

fun array_texts :: "JsonValue list \<Rightarrow> string list option" where
  "array_texts [] = Some []"
| "array_texts (v # vs) = Option.bind (toString v) (\<lambda>t. map_option (Cons (quoted t)) (array_texts vs))"

function (sequential) convert_members :: "JsonValue \<Rightarrow> (string \<times> JsonValue) list \<Rightarrow> ostream \<Rightarrow> ostream option" where
  "convert_members root [] os = Some os"
| "convert_members root ((k, JSON_STRING t) # kvs) os = convert_members root kvs (write_string k t os)"
| "convert_members root ((k, JSON_NUMBER x) # kvs) os =
     Option.bind (toInt (JSON_NUMBER x)) (\<lambda>n. convert_members root kvs (write_int k n os))"
| "convert_members root ((k, JSON_ARRAY vs) # kvs) os =
     Option.bind (child k root) (\<lambda>v. Option.bind (array_texts (elements v)) (\<lambda>ts.
       convert_members root kvs (to_arrayObj k ts os)))"
| "convert_members root ((k, JSON_NULL) # kvs) os = convert_members root kvs (writeObj k ''null'' os)"
| "convert_members root ((k, JSON_TRUE) # kvs) os = convert_members root kvs (writeObj k ''true'' os)"
| "convert_members root ((k, JSON_FALSE) # kvs) os =
     convert_members root kvs (if k \<noteq> ''authenticationInfo'' then writeObj k ''false'' os else os)"
| "convert_members root ((k, JSON_OBJECT ms) # kvs) os =
     Option.bind (convert_members (JSON_OBJECT ms) ms new_JsonBuilder) (\<lambda>o'.
       convert_members root kvs (writeObj k (builder_str o') os))"
  by pat_completeness auto

lemma size_member: "size_prod (\<lambda>x. 0) size kv = Suc (size (snd kv))"
  by (cases kv) simp

termination convert_members
  by (relation "measure (\<lambda>(root, kvs, os). size_list (\<lambda>kv. Suc (size (snd kv))) kvs)")
    (auto simp: size_list_conv_sum_list size_member)

text \<open>A node of an array has no key.\<close>

definition convertGasonToCJB :: "JsonValue \<Rightarrow> ostream option" where
  "convertGasonToCJB v =
     (case v of
        JSON_OBJECT kvs \<Rightarrow> convert_members v kvs new_JsonBuilder
      | JSON_ARRAY (_ # _) \<Rightarrow> None
      | _ \<Rightarrow> Some new_JsonBuilder)"

definition converted :: "JsonValue \<Rightarrow> string option" where
  "converted v = map_option builder_str (convertGasonToCJB v)"

section \<open>The request form\<close>

record ServiceRequestForm =
  rf_serviceDefinitionReq :: string
  rf_requesterSystem :: JsonValue
  rf_requestedService :: "JsonValue option"
  rf_preferredProviders :: "JsonValue option"
  rf_flags :: "(string \<times> bool) list"

definition vKnownOrchFlags :: "string list" where
  "vKnownOrchFlags =
     [''onlyPreferred'', ''overrideStore'', ''externalServiceRequest'', ''enableInterCloud'', ''enableQoS'', ''matchmaking'',
      ''metadataSearch'', ''triggerInterCloud'', ''pingProviders'']"

fun orchestration_flags :: "JsonValue \<Rightarrow> string list \<Rightarrow> (string \<times> bool) list option" where
  "orchestration_flags v [] = Some []"
| "orchestration_flags v (f # fs) =
     on_child f v (\<lambda>x.
       map_option (\<lambda>m. if x = JSON_TRUE then (f, True) # m else if x = JSON_FALSE then (f, False) # m else m)
         (orchestration_flags v fs))"

definition requested_service :: "bool \<Rightarrow> JsonValue \<Rightarrow> (string \<times> JsonValue option) checked" where
  "requested_service bDynamicOrchestration root =
     on_child ''requestedService'' root (\<lambda>v.
     if bDynamicOrchestration then
       if \<not> present v then leave_with 2
       else on_child ''serviceDefinitionRequirement'' v (\<lambda>sd.
         if \<not> isString sd then leave_with 3
         else on_text sd (\<lambda>t. if t = [] then leave_with 4 else accept (t, Some v)))
     else accept ([], if present v then Some v else None))"

definition parseRequestForm :: "bool \<Rightarrow> JsonValue \<Rightarrow> ServiceRequestForm checked" where
  "parseRequestForm bDynamicOrchestration root =
     on_child ''requesterSystem'' root (\<lambda>requester.
     if \<not> present requester then leave_with 1
     else on_checked (requested_service bDynamicOrchestration root) (\<lambda>(t, service).
     on_child ''preferredProviders'' root (\<lambda>pp.
     on_child ''orchestrationFlags'' root (\<lambda>fl.
     Option.bind (if present fl then orchestration_flags fl vKnownOrchFlags else Some []) (\<lambda>flags.
       accept \<lparr>rf_serviceDefinitionReq = t, rf_requesterSystem = requester, rf_requestedService = service,
         rf_preferredProviders = (if present pp then Some pp else None), rf_flags = flags\<rparr>)))))"

definition getFlagValue :: "ServiceRequestForm \<Rightarrow> string \<Rightarrow> bool" where
  "getFlagValue form sFlagName = (case map_of (rf_flags form) sFlagName of None \<Rightarrow> False | Some b \<Rightarrow> b)"

section \<open>Checks\<close>

definition isLocal :: "JsonValue \<Rightarrow> bool option" where
  "isLocal jProv =
     on_child ''providerCloud'' jProv (\<lambda>c.
       if present c then Some False else on_child ''providerSystem'' jProv (\<lambda>s. Some (present s)))"

definition isGlobal :: "JsonValue \<Rightarrow> bool option" where
  "isGlobal jProv = on_child ''providerCloud'' jProv (\<lambda>c. Some (present c))"

definition preferredProviderIsValid :: "JsonValue \<Rightarrow> bool option" where
  "preferredProviderIsValid jProv = Option.bind (isLocal jProv) (\<lambda>b. if b then Some True else isGlobal jProv)"

fun validated_providers :: "bool \<Rightarrow> JsonValue list \<Rightarrow> JsonValue list option" where
  "validated_providers trigger [] = Some []"
| "validated_providers trigger (v # vs) =
     Option.bind (if trigger then preferredProviderIsValid v else Some True) (\<lambda>valid.
     if \<not> valid then validated_providers trigger vs
     else Option.bind (isLocal v) (\<lambda>local.
       if \<not> local then validated_providers trigger vs
       else map_option (Cons v) (validated_providers trigger vs)))"

text \<open>The status and the preferred providers that are kept.\<close>

definition validateCrossParameterConstraints :: "ServiceRequestForm \<Rightarrow> (nat \<times> JsonValue list) option" where
  "validateCrossParameterConstraints form =
     (if rf_requestedService form = None \<and> getFlagValue form ''overrideStore'' then Some (1, [])
      else if rf_requestedService form = None \<and> getFlagValue form ''triggerInterCloud'' then Some (2, [])
      else if getFlagValue form ''onlyPreferred'' then
        (case rf_preferredProviders form of
           None \<Rightarrow> Some (3, [])
         | Some pp \<Rightarrow>
             map_option (Pair 0) (validated_providers (getFlagValue form ''triggerInterCloud'') (elements pp)))
      else Some (0, []))"

definition checkSystemRequest :: "JsonValue \<Rightarrow> nat option" where
  "checkSystemRequest jProviderSystem =
     on_child ''systemName'' jProviderSystem (\<lambda>v.
     if \<not> present v then Some 5
     else on_child ''address'' jProviderSystem (\<lambda>v.
     if \<not> present v then Some 6
     else on_child ''port'' jProviderSystem (\<lambda>v.
     if \<not> present v then Some 7
     else Option.bind (toInt v) (\<lambda>port. Some (if \<not> in_port_range port then 8 else 0)))))"

definition isInterCloudOrchestrationPossible :: "ServiceRequestForm \<Rightarrow> bool" where
  "isInterCloudOrchestrationPossible form =
     (let gateKeeperIsPresent = False in gateKeeperIsPresent \<and> getFlagValue form ''enableInterCloud'')"

fun check_preferred :: "ServiceRequestForm \<Rightarrow> JsonValue list \<Rightarrow> nat option" where
  "check_preferred form [] = Some 0"
| "check_preferred form (v # vs) =
     on_child ''providerSystem'' v (\<lambda>s. Option.bind (checkSystemRequest s) (\<lambda>status.
     if status \<noteq> 0 then Some status
     else if isInterCloudOrchestrationPossible form then
       on_child ''providerCloud'' v (\<lambda>c.
       if present c then
         on_child ''operator'' c (\<lambda>x. if \<not> present x then Some 9
         else on_child ''name'' c (\<lambda>x. if \<not> present x then Some 10 else check_preferred form vs))
       else check_preferred form vs)
     else check_preferred form vs))"

text \<open>The test of the status is the wrong way round: the code returns here when there is no error.\<close>

definition checkServiceRequestForm :: "ServiceRequestForm \<Rightarrow> nat option" where
  "checkServiceRequestForm form =
     Option.bind (validateCrossParameterConstraints form) (\<lambda>(status, validated).
     if status = 0 then Some status
     else if rf_serviceDefinitionReq form = [] then Some 4
     else check_preferred form validated)"

section \<open>Other services\<close>

text \<open>\<open>rb.send(method, url, port, payload)\<close>: a status, negative for an error of the client, and a text.\<close>

type_synonym 'w sender = "string \<Rightarrow> string \<Rightarrow> int \<Rightarrow> string \<Rightarrow> 'w \<Rightarrow> (int \<times> string) \<times> 'w"

definition act_send :: "'w sender \<Rightarrow> string \<Rightarrow> int \<Rightarrow> string \<Rightarrow> (string option, 'w) action" where
  "act_send send url port payload w =
     (case send ''POST'' url port payload w of
        ((st, text), w') \<Rightarrow> Some (Returned (if st \<noteq> sc_int OK then None else Some text), w'))"

definition parsed_reply :: "string \<Rightarrow> (JsonValue option, 'w) action" where
  "parsed_reply text =
     (case jsonParse text of
        OutOfBounds \<Rightarrow> act_undef
      | Parse st root \<Rightarrow> act_ret (if st = JSON_PARSE_OK then Some root else None))"

definition queryServiceRegistry :: "'w sender \<Rightarrow> ServiceRequestForm \<Rightarrow> (string option, 'w) action" where
  "queryServiceRegistry send form =
     act_bind (act_the (Option.bind (rf_requestedService form) converted)) (\<lambda>payload.
       act_send send ''https://127.0.0.1/query'' 16220 payload)"

text \<open>A path of two keys and a number at its end.\<close>

definition int_at :: "string \<Rightarrow> string \<Rightarrow> JsonValue \<Rightarrow> int option" where
  "int_at a b v = on_child a v (\<lambda>x. on_child b x toInt)"

definition text_of :: "string \<Rightarrow> string \<Rightarrow> JsonValue \<Rightarrow> string option" where
  "text_of a b v = on_child a v (\<lambda>x. on_child b x toString)"

fun ids_of :: "JsonValue list \<Rightarrow> int list option" where
  "ids_of [] = Some []"
| "ids_of (v # vs) = on_child ''id'' v (\<lambda>x. Option.bind (toInt x) (\<lambda>n. map_option (Cons n) (ids_of vs)))"

definition provider_rule :: "JsonValue \<Rightarrow> string option" where
  "provider_rule v =
     Option.bind (int_at ''provider'' ''id'' v) (\<lambda>n.
     on_child ''interfaces'' v (\<lambda>is. Option.bind (ids_of (elements is)) (\<lambda>ids.
       Some (builder_str (to_arrayObj ''idList'' (map int_str ids) (write_int ''id'' n new_JsonBuilder))))))"

fun provider_rules :: "JsonValue list \<Rightarrow> string list option" where
  "provider_rules [] = Some []"
| "provider_rules (v # vs) = Option.bind (provider_rule v) (\<lambda>t. map_option (Cons t) (provider_rules vs))"

definition createIntraCloudRule :: "ServiceRequestForm \<Rightarrow> JsonValue list \<Rightarrow> string option" where
  "createIntraCloudRule form queryData =
     Option.bind (converted (rf_requesterSystem form)) (\<lambda>consumer.
     Option.bind (int_at ''serviceDefinition'' ''id'' (hd queryData)) (\<lambda>sd.
     Option.bind (provider_rules queryData) (\<lambda>ts.
       Some (builder_str (to_arrayObj ''providerIdsWithInterfaceIds'' ts
         (write_int ''serviceDefinitionId'' sd (writeObj ''consumer'' consumer new_JsonBuilder)))))))"

section \<open>Authorized interfaces\<close>

text \<open>\<open>std::map<int, std::vector>\<close>, by increasing keys.\<close>

type_synonym authorized = "(int \<times> JsonValue list) list"

fun add_authorized :: "int \<Rightarrow> JsonValue \<Rightarrow> authorized \<Rightarrow> authorized" where
  "add_authorized p v [] = [(p, [v])]"
| "add_authorized p v ((q, vs) # m) =
     (if p = q then (q, vs @ [v]) # m else if p < q then (p, [v]) # (q, vs) # m else (q, vs) # add_authorized p v m)"

text \<open>The loops of the filter, from the inside to the outside; the nodes of an object are visited as well.\<close>

definition node_values :: "JsonValue \<Rightarrow> JsonValue list" where
  "node_values v = map snd (nodes v)"

fun fold_opt :: "('x \<Rightarrow> 's \<Rightarrow> 's option) \<Rightarrow> 'x list \<Rightarrow> 's \<Rightarrow> 's option" where
  "fold_opt f [] s = Some s"
| "fold_opt f (x # xs) s = Option.bind (f x s) (fold_opt f xs)"

definition match_interface :: "int \<Rightarrow> JsonValue \<Rightarrow> JsonValue \<Rightarrow> authorized \<Rightarrow> authorized option" where
  "match_interface p allowed intf m =
     on_child ''id'' intf (\<lambda>x. Option.bind (toInt x) (\<lambda>i. Option.bind (toInt allowed) (\<lambda>a.
       Some (if i = a then add_authorized p intf m else m))))"

definition match_provider :: "int \<Rightarrow> JsonValue \<Rightarrow> JsonValue \<Rightarrow> authorized \<Rightarrow> authorized option" where
  "match_provider p provider rule m =
     on_child ''id'' rule (\<lambda>x. Option.bind (toInt x) (\<lambda>i.
     if i = p then
       on_child ''idList'' rule (\<lambda>ids.
         fold_opt (\<lambda>allowed m. on_child ''interfaces'' provider (\<lambda>is.
           fold_opt (match_interface p allowed) (node_values is) m)) (node_values ids) m)
     else Some m))"

definition filter_authorized :: "JsonValue \<Rightarrow> JsonValue list \<Rightarrow> authorized option" where
  "filter_authorized authResultBody queryData =
     fold_opt (\<lambda>provider m.
       Option.bind (int_at ''provider'' ''id'' provider) (\<lambda>p.
       on_child ''authorizedProviderIdsWithInterfaceIds'' authResultBody (\<lambda>rules.
         fold_opt (match_provider p provider) (node_values rules) m))) queryData []"

text \<open>No result when the authorization service refuses, or its answer is no JSON.\<close>

definition queryAuthorization :: "'w sender \<Rightarrow> ServiceRequestForm \<Rightarrow> JsonValue list \<Rightarrow> (authorized option, 'w) action" where
  "queryAuthorization send form queryData =
     act_bind (act_the (createIntraCloudRule form queryData)) (\<lambda>rule.
     act_bind (act_send send ''https://127.0.0.1/intracloud/check'' 16221 rule) (\<lambda>reply.
     case reply of
       None \<Rightarrow> act_ret None
     | Some text \<Rightarrow>
         act_bind (parsed_reply text) (\<lambda>r.
         case r of
           None \<Rightarrow> act_ret None
         | Some body \<Rightarrow> act_bind (act_the (filter_authorized body queryData)) (\<lambda>m. act_ret (Some m)))))"

section \<open>Preferred providers\<close>

definition providerEquals :: "JsonValue \<Rightarrow> JsonValue \<Rightarrow> bool option" where
  "providerEquals jCurrentProv jCurrentPrefProv =
     Option.bind (text_of ''provider'' ''systemName'' jCurrentProv) (\<lambda>nm.
     Option.bind (text_of ''provider'' ''address'' jCurrentProv) (\<lambda>addr.
     Option.bind (int_at ''provider'' ''port'' jCurrentProv) (\<lambda>port.
     Option.bind (text_of ''providerSystem'' ''systemName'' jCurrentPrefProv) (\<lambda>prefName.
     Option.bind (text_of ''providerSystem'' ''address'' jCurrentPrefProv) (\<lambda>prefAddr.
     Option.bind (int_at ''providerSystem'' ''port'' jCurrentPrefProv) (\<lambda>prefPort.
       Some (toLowerAndTrim nm = toLowerAndTrim prefName \<and> addr = prefAddr \<and> port = prefPort)))))))"

fun is_preferred :: "JsonValue \<Rightarrow> JsonValue list \<Rightarrow> bool option" where
  "is_preferred prov [] = Some False"
| "is_preferred prov (pref # prefs) =
     Option.bind (isLocal pref) (\<lambda>local.
     if \<not> local then is_preferred prov prefs
     else Option.bind (providerEquals prov pref) (\<lambda>eq. if eq then Some True else is_preferred prov prefs))"

fun filter_opt :: "('x \<Rightarrow> bool option) \<Rightarrow> 'x list \<Rightarrow> 'x list option" where
  "filter_opt p [] = Some []"
| "filter_opt p (x # xs) = Option.bind (p x) (\<lambda>b. map_option (\<lambda>ys. if b then x # ys else ys) (filter_opt p xs))"

definition selectPreferred :: "ServiceRequestForm \<Rightarrow> JsonValue list \<Rightarrow> JsonValue list option" where
  "selectPreferred form queryData =
     (case rf_preferredProviders form of
        None \<Rightarrow> Some []
      | Some pp \<Rightarrow> filter_opt (\<lambda>prov. is_preferred prov (node_values pp)) queryData)"

section \<open>The response\<close>

record Clock =
  ck_now :: ulong
  ck_time :: "string \<Rightarrow> ulong"

definition calculateOrchestratorWarnings :: "Clock \<Rightarrow> JsonValue \<Rightarrow> string option" where
  "calculateOrchestratorWarnings clock jProv =
     on_child ''endOfValidity'' jProv (\<lambda>v.
     if \<not> present v then Some (quoted ''TTL_UNKNOWN'')
     else on_text v (\<lambda>t.
       let uEndOfValidity = ck_time clock t in
       Some (if uEndOfValidity < ck_now clock then quoted ''TTL_EXPIRED''
             else if uEndOfValidity + 120 < ck_now clock then quoted ''TTL_EXPIRING''
             else [])))"

text \<open>The names of the interfaces go into the array without quotes.\<close>

fun interface_texts :: "JsonValue list \<Rightarrow> string list option" where
  "interface_texts [] = Some []"
| "interface_texts (v # vs) =
     on_child ''interfaceName'' v (\<lambda>x.
     if present x then Option.bind (toString x) (\<lambda>t. map_option (Cons t) (interface_texts vs)) else interface_texts vs)"

definition token_provider_text :: "JsonValue \<Rightarrow> string option" where
  "token_provider_text jSRData =
     Option.bind (text_of ''provider'' ''address'' jSRData) (\<lambda>addr.
     Option.bind (int_at ''provider'' ''port'' jSRData) (\<lambda>port.
     Option.bind (text_of ''provider'' ''systemName'' jSRData) (\<lambda>nm.
     on_child ''provider'' jSRData (\<lambda>p. on_child ''authenticationInfo'' p (\<lambda>info.
       let os = write_string ''systemName'' nm (write_string ''port'' (int_str port) (write_string ''address'' addr new_JsonBuilder))
       in Some (builder_str (case info of JSON_STRING t \<Rightarrow> write_string ''authenticationInfo'' t os | _ \<Rightarrow> os)))))))"

definition createTokenRule :: "string \<Rightarrow> JsonValue \<Rightarrow> JsonValue list \<Rightarrow> string option" where
  "createTokenRule sConsumer jSRData vAuthorizedInterfaces =
     Option.bind (token_provider_text jSRData) (\<lambda>prov.
     Option.bind (interface_texts vAuthorizedInterfaces) (\<lambda>names.
     Option.bind (text_of ''serviceDefinition'' ''serviceDefinition'' jSRData) (\<lambda>service.
       let element = builder_str (to_arrayObj ''serviceInterfaces'' names (writeObj ''provider'' prov new_JsonBuilder))
       in Some (builder_str (write_string ''service'' service (to_arrayObj ''providers'' [element]
         (write_int ''duration'' (- 1) (write_null ''consumerCloud'' (writeObj ''consumer'' sConsumer new_JsonBuilder)))))))))"

text \<open>\<open>addObj(key, convertGasonToCJB(v.child(name)).str())\<close>, and a string member.\<close>

definition add_converted :: "string \<Rightarrow> string \<Rightarrow> JsonValue \<Rightarrow> ostream \<Rightarrow> ostream option" where
  "add_converted key name v os =
     on_child name v (\<lambda>x. Option.bind (converted x) (\<lambda>t. Some (writeObj key t os)))"

definition add_text :: "string \<Rightarrow> JsonValue \<Rightarrow> ostream \<Rightarrow> ostream option" where
  "add_text key v os = on_child key v (\<lambda>x. on_text x (\<lambda>t. Some (write_string key t os)))"

definition response_head :: "JsonValue \<Rightarrow> ostream option" where
  "response_head v =
     Option.bind (add_converted ''provider'' ''provider'' v new_JsonBuilder) (\<lambda>os.
     Option.bind (add_converted ''service'' ''serviceDefinition'' v os) (\<lambda>os.
     Option.bind (add_text ''serviceUri'' v os) (\<lambda>os.
     Option.bind (add_text ''secure'' v os) (\<lambda>os.
     Option.bind (add_converted ''metadata'' ''metadata'' v os) (\<lambda>os.
     on_child ''version'' v (\<lambda>x. Option.bind (toInt x) (\<lambda>n. Some (write_int ''version'' n os))))))))"

fun converted_list :: "JsonValue list \<Rightarrow> string list option" where
  "converted_list [] = Some []"
| "converted_list (v # vs) = Option.bind (converted v) (\<lambda>t. map_option (Cons t) (converted_list vs))"

text \<open>The tokens of the authorization service, when it gives any.\<close>

definition tokens_of :: "JsonValue \<Rightarrow> JsonValue option option" where
  "tokens_of jAuthTokens =
     on_child ''tokenData'' jAuthTokens (\<lambda>td.
     if \<not> present (json_at td 0) then Some None
     else on_child ''tokens'' (json_at td 0) (\<lambda>ts. Some (if present ts then Some ts else None)))"

definition add_tokens ::
  "'w sender \<Rightarrow> string \<Rightarrow> JsonValue \<Rightarrow> JsonValue list \<Rightarrow> ostream \<Rightarrow> (ostream option, 'w) action" where
  "add_tokens send sConsumer v intfs os =
     act_bind (act_the (createTokenRule sConsumer v intfs)) (\<lambda>rule.
     act_bind (act_send send ''https://127.0.0.1/token'' 16221 rule) (\<lambda>reply.
     case reply of
       None \<Rightarrow> act_ret None
     | Some text \<Rightarrow>
         act_bind (parsed_reply text) (\<lambda>r.
         case r of
           None \<Rightarrow> act_ret None
         | Some jAuthTokens \<Rightarrow>
             act_bind (act_the (tokens_of jAuthTokens)) (\<lambda>ts.
             case ts of
               None \<Rightarrow> act_ret None
             | Some ts \<Rightarrow>
                 act_bind (act_the (converted ts)) (\<lambda>sTokens.
                   act_ret (Some (writeObj ''authorizationTokens'' (cstr sTokens) os)))))))"

text \<open>One turn of the loop; \<open>None\<close> when the provider is left out.\<close>

definition response_element ::
  "'w sender \<Rightarrow> Clock \<Rightarrow> authorized \<Rightarrow> string \<Rightarrow> JsonValue \<Rightarrow> (string option, 'w) action" where
  "response_element send clock m sConsumer v =
     act_bind (act_the (response_head v)) (\<lambda>os.
     act_bind (act_the (int_at ''provider'' ''id'' v)) (\<lambda>provId.
     case map_of m provId of
       None \<Rightarrow> act_ret None
     | Some intfs \<Rightarrow>
         act_bind (act_the (converted_list intfs)) (\<lambda>ts.
         let os = to_arrayObj ''interfaces'' ts os in
         act_bind (act_the (on_child ''secure'' v toString)) (\<lambda>secure.
         act_bind (if toLowerAndTrim secure = ''token'' then add_tokens send sConsumer v intfs os else act_ret (Some os)) (\<lambda>r.
         case r of
           None \<Rightarrow> act_ret None
         | Some os \<Rightarrow>
             act_bind (act_the (calculateOrchestratorWarnings clock v)) (\<lambda>w.
               act_ret (Some (builder_str (to_arrayObj ''warnings'' (if w \<noteq> [] then [w] else []) os)))))))))"

definition createOrchestrationResponse ::
  "'w sender \<Rightarrow> Clock \<Rightarrow> JsonValue list \<Rightarrow> authorized \<Rightarrow> string \<Rightarrow> 'w answer" where
  "createOrchestrationResponse send clock vProviders m sConsumer =
     act_bind (act_map (response_element send clock m sConsumer) vProviders) (\<lambda>rs.
       returns (ok_Response (builder_str (to_arrayObj ''response''
         (concat (map (case_option [] (\<lambda>t. [t])) rs)) new_JsonBuilder))))"

section \<open>Orchestration\<close>

definition no_response :: Response where
  "no_response = ok_Response (''{'' @ quoted ''response'' @ '':[]}'')"

definition form_message :: "nat \<Rightarrow> string" where
  "form_message n =
     (if n = 1 then ''Requested service can not be null when '' @ quoted ''overrideStore'' @ '' is TRUE''
      else if n = 2 then ''Requested service can not be null when '' @ quoted ''triggerInterCloud'' @ '' is TRUE''
      else if n = 3 then ''There is no valid preferred provider, but '' @ quoted ''onlyPreferred'' @ '' is set to true''
      else if n = 4 then ''Service definition requirement is null or blank.''
      else if n = 5 then ''System name is null or blank.''
      else if n = 6 then ''System address is null or blank.''
      else if n = 7 then ''System port is null.''
      else if n = 8 then ''Port must be between 0 and 65535.''
      else if n = 9 then ''Cloud operator is null or blank.''
      else ''Cloud name is null or blank.'')"

fun find_provider :: "int \<Rightarrow> JsonValue list \<Rightarrow> JsonValue option option" where
  "find_provider p [] = Some None"
| "find_provider p (v # vs) =
     Option.bind (int_at ''provider'' ''id'' v) (\<lambda>i. if i = p then Some (Some v) else find_provider p vs)"

text \<open>The providers the response is made from; \<open>rnd\<close> is what \<open>rand()\<close> returns.\<close>

definition chosen :: "nat \<Rightarrow> bool \<Rightarrow> bool \<Rightarrow> JsonValue list \<Rightarrow> JsonValue list \<Rightarrow> authorized \<Rightarrow> JsonValue list option" where
  "chosen rnd matchmaking bOnlyPreferred queryData preferredQueryData m =
     (if matchmaking then
        if bOnlyPreferred then Some [preferredQueryData ! (rnd mod length preferredQueryData)]
        else map_option (case_option queryData (\<lambda>v. [v])) (find_provider (fst (m ! (rnd mod length m))) queryData)
      else Some (if bOnlyPreferred then preferredQueryData else queryData))"

definition orchestrate ::
  "'w sender \<Rightarrow> Clock \<Rightarrow> nat \<Rightarrow> ServiceRequestForm \<Rightarrow> JsonValue list \<Rightarrow> authorized \<Rightarrow> 'w answer" where
  "orchestrate send clock rnd form queryData m =
     (let bOnlyPreferred = getFlagValue form ''onlyPreferred'' in
      act_bind (act_the (if bOnlyPreferred then selectPreferred form queryData else Some [])) (\<lambda>preferredQueryData.
      if bOnlyPreferred \<and> preferredQueryData = [] then returns no_response
      else
        act_bind (act_the (converted (rf_requesterSystem form))) (\<lambda>sRequester.
        act_bind (act_the (chosen rnd (getFlagValue form ''matchmaking'') bOnlyPreferred queryData preferredQueryData m)) (\<lambda>vs.
          createOrchestrationResponse send clock vs m sRequester))))"

definition dynamicOrchestration :: "'w sender \<Rightarrow> Clock \<Rightarrow> nat \<Rightarrow> ServiceRequestForm \<Rightarrow> string \<Rightarrow> 'w answer" where
  "dynamicOrchestration send clock rnd form errURL =
     act_bind (act_the (checkServiceRequestForm form)) (\<lambda>status.
     if status \<noteq> 0 then
       returns (ErrorResp (form_message status) (if status = 9 \<or> status = 10 then INVALID_PARAMETER else BAD_PAYLOAD) errURL)
     else
       act_bind (queryServiceRegistry send form) (\<lambda>reply.
       case reply of
         None \<Rightarrow> returns no_response
       | Some sSRQueryResult \<Rightarrow>
           act_bind (parsed_reply sSRQueryResult) (\<lambda>r.
           case r of
             None \<Rightarrow> returns no_response
           | Some jsonRootValue \<Rightarrow>
               act_bind (act_the (on_child ''serviceQueryData'' jsonRootValue (\<lambda>v. Some (node_values v)))) (\<lambda>queryData.
               if queryData = [] then returns no_response
               else
                 act_bind (queryAuthorization send form queryData) (\<lambda>authRes.
                 case authRes of
                   None \<Rightarrow> returns no_response
                 | Some m \<Rightarrow>
                     if m = [] then returns no_response else orchestrate send clock rnd form queryData m)))))"

definition processOrchestration :: "'w sender \<Rightarrow> Clock \<Rightarrow> nat \<Rightarrow> string \<Rightarrow> Request \<Rightarrow> 'w answer" where
  "processOrchestration send clock rnd errURL req =
     with_json errURL req (\<lambda>root.
     act_bind (act_the (parseRequestForm True root)) (\<lambda>r.
     case r of
       Inl (n, _) \<Rightarrow>
         returns (ErrorResp (if n = 1 then ''System name is null or blank.''
           else ''Requested service definition requirement is null or blank.'') BAD_PAYLOAD errURL)
     | Inr form \<Rightarrow> dynamicOrchestration send clock rnd form errURL))"

definition processOrchestrationId :: "int \<Rightarrow> string \<Rightarrow> 'w answer" where
  "processOrchestrationId consumerSystemId errURL = returns (ErrorResp ''in progress'' BAD_PAYLOAD errURL)"

section \<open>Routing\<close>

definition orchestration_get :: "Request \<Rightarrow> 'w answer" where
  "orchestration_get =
     route_compare ''/echo'' (\<lambda>req. returns (ok_Response ''Got it!''))
     (route_id ''/orchestration'' (\<lambda>ident req. processOrchestrationId ident ''/orchestrator/orchestration/{id}'')
     sr_not_found)"

definition orchestration_post :: "'w sender \<Rightarrow> Clock \<Rightarrow> nat \<Rightarrow> Request \<Rightarrow> 'w answer" where
  "orchestration_post send clock rnd =
     route_compare ''/orchestration'' (processOrchestration send clock rnd ''/orchestrator/orchestration'') sr_not_found"

end
