(* ===== verification/Payload_Laws.thy ===== *)
theory Payload_Laws
  imports SrModels Rows
begin

text \<open>
  What a client reads in the texts of the service registry: an operation of the builder adds one
  member, a builder that was filled with members is the text of their object, and so are the nested
  objects, the interfaces and the metadata. The values must need no escaping, because the builder does
  not escape, and the identifiers must be numbers.
\<close>

section \<open>Members\<close>

definition adds :: "adding \<Rightarrow> string \<times> json \<Rightarrow> bool" where
  "adds f kv \<longleftrightarrow> (\<exists>m. reads_member m kv \<and> (\<forall>os. at_end os \<longrightarrow> f os = Inr (appended os (m @ '',''))))"

definition plain :: "string \<Rightarrow> bool" where
  "plain t \<longleftrightarrow> plain_scalar (JString t)"

definition numeric :: "string \<Rightarrow> bool" where
  "numeric t \<longleftrightarrow> (case stoi t of Inl _ \<Rightarrow> False | Inr n \<Rightarrow> plain_scalar (JInt n))"

definition number_of :: "string \<Rightarrow> int" where
  "number_of t = (case stoi t of Inl _ \<Rightarrow> 0 | Inr n \<Rightarrow> n)"

named_theorems adds_intros \<open>members added by the operations of the builder\<close>

lemma adds_field:
  assumes "key_ok (fst kv)" "plain_scalar (snd kv)" "\<And>os. f os = Inr (write_field kv os)"
  shows "adds f kv"
  using reads_field [OF assms(1,2)] writesD [OF write_field_writes, of _ kv] assms(3) by (auto simp: adds_def)

lemma adds_Str [adds_intros]: "key_ok k \<Longrightarrow> plain t \<Longrightarrow> adds (addStr k t) (k, JString t)"
  by (rule adds_field) (simp_all add: addStr_def plain_def)

lemma numericD: "numeric t \<Longrightarrow> stoi t = Inr (number_of t) \<and> plain_scalar (JInt (number_of t))"
  by (auto simp: numeric_def number_of_def split: sum.splits)

lemma adds_Int [adds_intros]: "key_ok k \<Longrightarrow> numeric t \<Longrightarrow> adds (addInt k t) (k, JInt (number_of t))"
  using numericD [of t] by (intro adds_field) (simp_all add: addInt_def)

lemma adds_Int_int [adds_intros]: "key_ok k \<Longrightarrow> plain_scalar (JInt n) \<Longrightarrow> adds (addInt_int k n) (k, JInt n)"
  by (rule adds_field) (simp_all add: addInt_int_def)

text \<open>A version of up to six digits is written as the number it is.\<close>

lemma adds_Dbl [adds_intros]:
  assumes "key_ok k" "\<bar>n\<bar> < 10 ^ 6"
  shows "adds (addDbl k (int_str n)) (k, JInt n)"
proof (rule adds_field)
  have "length (nat_str (nat \<bar>n\<bar>)) \<le> 6"
  proof (cases "n = 0")
    case False
    then have "10 ^ (length (nat_str (nat \<bar>n\<bar>)) - 1) \<le> nat \<bar>n\<bar>" by (intro nat_str_least) simp
    moreover have "nat \<bar>n\<bar> < 10 ^ 6" using assms(2) by simp
    ultimately have "(10::nat) ^ (length (nat_str (nat \<bar>n\<bar>)) - 1) < 10 ^ 6" by (rule le_less_trans)
    then have "length (nat_str (nat \<bar>n\<bar>)) - 1 < 6" by (rule power_less_imp_less_exp [rotated]) simp
    then show ?thesis by simp
  qed (simp add: nat_str_zero)
  then show "plain_scalar (snd (k, JInt n))" by (auto simp: int_str_def digits10_int_def)
  show "addDbl k (int_str n) os = Inr (write_field (k, JInt n) os)" for os
    using stod_int_str [of n] double_str_int [of n] assms(2) by (simp add: addDbl_def write_int_def)
qed (use assms in simp)

lemma adds_Obj:
  assumes "key_ok k" "reads_text t v"
  shows "adds (addObj k t) (k, v)"
  unfolding adds_def using reads_memberI [OF assms]
  by (intro exI [of _ "key_text k @ t"]) (simp add: addObj_def writeObj_def)

lemma adds_Array:
  assumes "key_ok k" "list_all2 reads_text ts xs"
  shows "adds (addArray k ts) (k, JArray xs)"
proof -
  have w: "writes (os_put t) t" for t by (simp add: writes_def)
  have "writes (to_arrayObj k ts) (array_member k ts @ '','')"
    using to_array_writes [of ts os_put "\<lambda>t. t" k] w
    by (simp add: to_arrayObj_def array_member_def)
  then show ?thesis
    using reads_array_member [OF assms] writesD by (fastforce simp: adds_def addArray_def)
qed

section \<open>Objects\<close>

lemma sequence_adds:
  assumes "list_all2 adds fs kvs"
  shows "\<exists>ms. list_all2 reads_member ms kvs
    \<and> (\<forall>os. at_end os \<longrightarrow> sequence fs os = Inr (appended os (concat (map (\<lambda>m. m @ '','') ms))))"
  using assms
proof (induction fs kvs rule: list_all2_induct)
  case Nil
  then show ?case by (auto simp: appended_def at_end_def)
next
  case (Cons f fs kv kvs)
  then obtain ms where ms: "list_all2 reads_member ms kvs"
    "\<And>os. at_end os \<Longrightarrow> sequence fs os = Inr (appended os (concat (map (\<lambda>m. m @ '','') ms)))"
    by blast
  obtain m where m: "reads_member m kv" "\<And>os. at_end os \<Longrightarrow> f os = Inr (appended os (m @ '',''))"
    using Cons.hyps(1) by (auto simp: adds_def)
  show ?case by (rule exI [of _ "m # ms"]) (simp add: m ms)
qed

lemma built_text_json:
  assumes "list_all2 adds fs kvs" "fs \<noteq> []"
  shows "\<exists>t. built_text fs = Inr t \<and> reads_text t (JObject kvs)"
proof -
  obtain ms where ms: "list_all2 reads_member ms kvs"
    "\<And>os. at_end os \<Longrightarrow> sequence fs os = Inr (appended os (concat (map (\<lambda>m. m @ '','') ms)))"
    using sequence_adds [OF assms(1)] by blast
  have ne: "ms \<noteq> []" using ms(1) assms by (auto dest: list_all2_lengthD)
  let ?e = "\<lparr>os_buf = [], os_pos = 0\<rparr>"
  have "sequence fs new_JsonBuilder = Inr (appended ?e (''{'' @ concat (map (\<lambda>m. m @ '','') ms)))"
    using ms(2) [of new_JsonBuilder] by (simp add: new_builder)
  then have "built_text fs = Inr (''{'' @ join '','' ms @ ''}'')"
    using put_over_comma [OF ne, of "CHR ''}''" "[]" ?e "''{''"] by (simp add: built_text_def builder_str_def)
  then show ?thesis using reads_text_object [OF ms(1)] by blast
qed

lemma adds_Built [adds_intros]:
  assumes "key_ok k" "list_all2 adds fs kvs" "fs \<noteq> []"
  shows "adds (addBuilt k fs) (k, JObject kvs)"
proof -
  obtain t where t: "built_text fs = Inr t" "reads_text t (JObject kvs)" using built_text_json [OF assms(2,3)] by blast
  then have "addBuilt k fs = addObj k t" by (simp add: addBuilt_def fun_eq_iff)
  then show ?thesis using adds_Obj [OF assms(1) t(2)] by simp
qed

lemma built_texts_json:
  assumes "\<And>x. x \<in> set xs \<Longrightarrow> list_all2 adds (f x) (g x) \<and> f x \<noteq> []"
  shows "\<exists>ts. built_texts (map f xs) = Inr ts \<and> list_all2 reads_text ts (map (\<lambda>x. JObject (g x)) xs)"
  using assms
proof (induction xs)
  case (Cons x xs)
  then obtain ts where ts: "built_texts (map f xs) = Inr ts" "list_all2 reads_text ts (map (\<lambda>x. JObject (g x)) xs)"
    by auto
  obtain t where "built_text (f x) = Inr t" "reads_text t (JObject (g x))"
    using built_text_json [of "f x" "g x"] Cons.prems by auto
  then show ?case using ts by auto
qed simp

section \<open>Metadata\<close>

definition metadata_of :: "string \<Rightarrow> (string \<times> string) list" where
  "metadata_of m = concat (map metadata_pair (getline_tokens (CHR '','') [] m))"

definition plain_metadata :: "string \<Rightarrow> bool" where
  "plain_metadata m \<longleftrightarrow> (\<forall>(k, v) \<in> set (metadata_of m). key_ok k \<and> plain v)"

definition metadata_json :: "string \<Rightarrow> json" where
  "metadata_json m = JObject (map (\<lambda>(k, v). (k, JString v)) (metadata_of m))"

lemma metadata_text_json:
  assumes "plain_metadata m"
  shows "reads_text (dbMetadataToJsonMetadata m) (metadata_json m)"
proof -
  let ?t = "\<lambda>(k, v). DQUOTE # k @ [DQUOTE] @ '':'' @ DQUOTE # v @ [DQUOTE]"
  let ?ps = "metadata_of m"
  have e: "concat (map metadata_entry ts) = concat (map (\<lambda>kv. ?t kv @ '','') (concat (map metadata_pair ts)))" for ts
    by (induction ts) (auto simp: metadata_entry_def metadata_pair_def split: list.split)
  have r: "reads_text (DQUOTE # v @ [DQUOTE]) (JString v)" if "plain v" for v
    using reads_text_scalar [of "JString v"] that by (simp add: plain_def)
  have ms: "list_all2 reads_member (map ?t ?ps) (map (\<lambda>(k, v). (k, JString v)) ?ps)"
    using assms reads_memberI_tight r
    by (auto simp: list_all2_map1 list_all2_map2 plain_metadata_def intro!: list.rel_refl_strong)
  have "dbMetadataToJsonMetadata m = ''{'' @ join '','' (map ?t ?ps) @ ''}''"
  proof (cases "?ps = []")
    case True
    then show ?thesis using e [of "getline_tokens (CHR '','') [] m"]
      by (simp add: dbMetadataToJsonMetadata_def metadata_of_def [symmetric])
  next
    case False
    have "concat (map metadata_entry (getline_tokens (CHR '','') [] m)) = join '','' (map ?t ?ps) @ '',''"
      using e [of "getline_tokens (CHR '','') [] m"] concat_commas [OF False, of ?t]
      by (simp add: metadata_of_def [symmetric])
    then show ?thesis by (simp add: dbMetadataToJsonMetadata_def butlast_append)
  qed
  then show ?thesis using reads_text_object [OF ms] by (simp add: metadata_json_def)
qed

lemma adds_MetaData [adds_intros]:
  "key_ok k \<Longrightarrow> plain_metadata m \<Longrightarrow> adds (addMetaData k m) (k, metadata_json m)"
  unfolding addMetaData_def by (intro adds_Obj metadata_text_json)

section \<open>The objects of the registry\<close>

definition definition_json :: "stServDef \<Rightarrow> (string \<times> json) list" where
  "definition_json d =
     [(''id'', JInt (number_of (sd_id d))), (''serviceDefinition'', JString (sd_serviceDefinition d)),
      (''createdAt'', JString (sd_createdAt d)), (''updatedAt'', JString (sd_updatedAt d))]"

definition system_json :: "stSystem \<Rightarrow> (string \<times> json) list" where
  "system_json s =
     [(''id'', JInt (number_of (sy_id s))), (''systemName'', JString (sy_systemName s)),
      (''address'', JString (sy_address s)), (''port'', JInt (number_of (sy_port s))),
      (''authenticationInfo'', JString (sy_authInfo s)), (''createdAt'', JString (sy_createdAt s)),
      (''updatedAt'', JString (sy_updatedAt s))]"

definition interface_json :: "Interface \<Rightarrow> (string \<times> json) list" where
  "interface_json i =
     [(''id'', JInt (number_of (if_id i))), (''interfaceName'', JString (if_name i)),
      (''createdAt'', JString (if_createdAt i)), (''updatedAt'', JString (if_updatedAt i))]"

definition entry_json :: "serviceQueryData \<Rightarrow> (string \<times> json) list" where
  "entry_json d =
     [(''id'', JInt (number_of (sq_id d))), (''serviceDefinition'', JObject (definition_json (sq_serviceDefinition d))),
      (''provider'', JObject (system_json (sq_provider d))), (''serviceUri'', JString (sq_serviceUri d)),
      (''endOfValidity'', JString (sq_endOfValidity d)), (''secure'', JString (sq_secure d)),
      (''metadata'', metadata_json (shown_metadata (sq_metadata d))), (''version'', JInt (number_of (sq_version d))),
      (''interfaces'', JArray (map (\<lambda>i. JObject (interface_json i)) (sq_interfaces d))),
      (''createdAt'', JString (sq_createdAt d)), (''updatedAt'', JString (sq_updatedAt d))]"

definition plain_definition :: "stServDef \<Rightarrow> bool" where
  "plain_definition d \<longleftrightarrow> numeric (sd_id d) \<and> plain (sd_serviceDefinition d) \<and> plain (sd_createdAt d) \<and> plain (sd_updatedAt d)"

definition plain_system :: "stSystem \<Rightarrow> bool" where
  "plain_system s \<longleftrightarrow>
     numeric (sy_id s) \<and> plain (sy_systemName s) \<and> plain (sy_address s) \<and> numeric (sy_port s)
     \<and> plain (sy_authInfo s) \<and> plain (sy_createdAt s) \<and> plain (sy_updatedAt s)"

definition plain_interface :: "Interface \<Rightarrow> bool" where
  "plain_interface i \<longleftrightarrow> numeric (if_id i) \<and> plain (if_name i) \<and> plain (if_createdAt i) \<and> plain (if_updatedAt i)"

definition plain_entry :: "serviceQueryData \<Rightarrow> bool" where
  "plain_entry d \<longleftrightarrow>
     numeric (sq_id d) \<and> plain_definition (sq_serviceDefinition d) \<and> plain_system (sq_provider d)
     \<and> plain (sq_serviceUri d) \<and> plain (sq_endOfValidity d) \<and> plain (sq_secure d)
     \<and> plain_metadata (shown_metadata (sq_metadata d)) \<and> numeric (sq_version d)
     \<and> list_all plain_interface (sq_interfaces d) \<and> plain (sq_createdAt d) \<and> plain (sq_updatedAt d)"

lemma entry_keys_ok [simp]:
  "key_ok ''id''" "key_ok ''serviceDefinition''" "key_ok ''createdAt''" "key_ok ''updatedAt''" "key_ok ''systemName''"
  "key_ok ''address''" "key_ok ''port''" "key_ok ''authenticationInfo''" "key_ok ''interfaceName''" "key_ok ''provider''"
  "key_ok ''serviceUri''" "key_ok ''endOfValidity''" "key_ok ''secure''" "key_ok ''metadata''" "key_ok ''version''"
  "key_ok ''interfaces''" "key_ok ''serviceQueryData''" "key_ok ''unfilteredHits''"
  by code_simp+

lemma fill_nonempty: "fill_serviceDefinition d \<noteq> []" "fill_system s \<noteq> []" "fill_entry addVersion e \<noteq> []"
  by (simp_all add: fill_serviceDefinition_def fill_system_def fill_entry_def)

lemma definition_adds: "plain_definition d \<Longrightarrow> list_all2 adds (fill_serviceDefinition d) (definition_json d)"
  by (simp add: fill_serviceDefinition_def definition_json_def plain_definition_def adds_intros)

lemma system_adds: "plain_system s \<Longrightarrow> list_all2 adds (fill_system s) (system_json s)"
  by (simp add: fill_system_def system_json_def plain_system_def adds_intros)

lemma interface_adds: "plain_interface i \<Longrightarrow> list_all2 adds (fill_interface i) (interface_json i)"
  by (simp add: fill_interface_def interface_json_def plain_interface_def adds_intros)

lemma adds_Interfaces [adds_intros]:
  assumes "list_all plain_interface is"
  shows "adds (addInterfaces is) (''interfaces'', JArray (map (\<lambda>i. JObject (interface_json i)) is))"
proof -
  have "list_all2 adds (fill_interface i) (interface_json i) \<and> fill_interface i \<noteq> []" if "i \<in> set is" for i
    using that assms interface_adds by (auto simp: list_all_iff fill_interface_def)
  then obtain ts where ts: "built_texts (map fill_interface is) = Inr ts"
    "list_all2 reads_text ts (map (\<lambda>i. JObject (interface_json i)) is)"
    using built_texts_json [of "is" fill_interface interface_json] by blast
  then have "addInterfaces is = addArray ''interfaces'' ts" by (simp add: addInterfaces_def fun_eq_iff)
  then show ?thesis using adds_Array [OF _ ts(2), of "''interfaces''"] by simp
qed

lemma entry_adds:
  assumes "plain_entry d" "adds (addVersion ''version'' (sq_version d)) (''version'', JInt (number_of (sq_version d)))"
  shows "list_all2 adds (fill_entry addVersion d) (entry_json d)"
  using assms
  by (simp add: fill_entry_def entry_json_def plain_entry_def adds_intros definition_adds system_adds fill_nonempty)

end
