(* ===== verification/Wire.thy ===== *)
theory Wire
  imports Rows Gason_Roundtrip
begin

text \<open>
  The texts the services exchange: one service writes them with the builder and its peer reads them with
  \<open>gason\<close>. The value that is written is the value that is read, when its strings have no control
  characters and its numbers are exact in a double.
\<close>

lemma gason_scalar: "plain_scalar v \<Longrightarrow> gason_ok v \<Longrightarrow> gason_text (value_text v) v"
  using reads_int [of "case v of JInt n \<Rightarrow> n"] reads_bool [of "case v of JBool b \<Rightarrow> b"]
    reads_string [of "case v of JString s \<Rightarrow> s"]
  by (cases v) (simp_all add: dump_string_def)

interpretation wire: text_reader gason_text gason_member gason_ok plain_key
proof unfold_locales
  fix ts xs
  assume "list_all2 gason_text ts xs"
  then show "gason_text (''['' @ join '','' ts @ '']'') (JArray xs)" by (rule gason_array) (simp add: a_comma_def)
next
  fix ms kvs
  assume "list_all2 gason_member ms kvs"
  then show "gason_text (''{'' @ join '','' ms @ ''}'') (JObject kvs)" by (rule gason_object) (simp add: a_comma_def)
next
  fix k t v sp
  assume "plain_key k" "gason_text t v" "sp = [] \<or> sp = '' ''"
  then show "gason_member (DQUOTE # k @ [DQUOTE] @ '':'' @ sp @ t) (k, v)" by (auto simp: gason_member_def)
qed (simp_all add: gason_scalar)

lemma sent_and_read:
  assumes "reads_text t v" "gason_ok v" "json_depth (gason_value v) \<le> JSON_STACK_SIZE"
  shows "jsonParse t = Parse JSON_PARSE_OK (gason_value v)"
  using wire.understands(1) [OF assms(1)] assms(2,3) by (intro gason_text_parses) simp_all

section \<open>Texts without a NUL\<close>

text \<open>The JSON reader stops at a NUL. The strings have none, and the keys must not have one.\<close>

fun nul_free :: "json \<Rightarrow> bool" where
  "nul_free (JArray xs) \<longleftrightarrow> (\<forall>x \<in> set xs. nul_free x)"
| "nul_free (JObject kvs) \<longleftrightarrow> (\<forall>kv \<in> set kvs. no_nul (fst kv) \<and> nul_free (snd kv))"
| "nul_free _ \<longleftrightarrow> True"

lemma no_nul_simps [simp]: "no_nul []" "no_nul (c # s) \<longleftrightarrow> c \<noteq> NUL \<and> no_nul s" "no_nul (s @ t) \<longleftrightarrow> no_nul s \<and> no_nul t"
  by (auto simp: no_nul_def)

lemma dump_control:
  assumes "ch \<notin> {BSLASH, DQUOTE, CHR 0x08, CHR 0x0C, LF, CR, TAB}" "code ch \<le> 0x1f"
  shows "dump_chars (ch # t) = BSLASH # ''u'' @ hex4 (code ch) @ dump_chars t"
  using assms by simp

lemma dump_line:
  assumes "ch \<notin> {BSLASH, DQUOTE, CHR 0x08, CHR 0x0C, LF, CR, TAB}" "code ch = 0xe2" "code a = 0x80"
  shows "code b = 0xa8 \<Longrightarrow> dump_chars (ch # a # b # u) = BSLASH # ''u2028'' @ dump_chars u"
    "code b = 0xa9 \<Longrightarrow> dump_chars (ch # a # b # u) = BSLASH # ''u2029'' @ dump_chars u"
  using assms by simp_all

lemma dump_chars_cases:
  obtains (escape) e where "unescaped e = Some ch" "dump_chars (ch # t) = BSLASH # e # dump_chars t"
  | (control) "code ch \<le> 0x1f" "dump_chars (ch # t) = BSLASH # ''u'' @ hex4 (code ch) @ dump_chars t"
  | (line) a b u e where "t = a # b # u" "e \<in> {''u2028'', ''u2029''}" "dump_chars (ch # t) = BSLASH # e @ dump_chars u"
  | (plain) "\<not> code ch \<le> 0x1f" "dump_chars (ch # t) = ch # dump_chars t"
proof -
  define special where "special = {BSLASH, DQUOTE, CHR 0x08, CHR 0x0C, LF, CR, TAB}"
  consider "ch \<in> special" | "ch \<notin> special" "code ch \<le> 0x1f"
    | a b u where "t = a # b # u" "ch \<notin> special" "code ch = 0xe2" "code a = 0x80" "code b = 0xa8"
    | a b u where "t = a # b # u" "ch \<notin> special" "code ch = 0xe2" "code a = 0x80" "code b = 0xa9"
    | "ch \<notin> special" "\<not> code ch \<le> 0x1f"
      "\<not> (\<exists>a b u. t = a # b # u \<and> code ch = 0xe2 \<and> code a = 0x80 \<and> code b \<in> {0xa8, 0xa9})" by blast
  then show thesis
    unfolding special_def
  proof cases
    case 1
    then obtain e where "unescaped e = Some ch" "dump_chars (ch # t) = BSLASH # e # dump_chars t" by (rule dump_escape)
    then show thesis by (rule escape)
  next
    case 2
    show thesis using 2(2) dump_control [OF 2] by (rule control)
  next
    case (3 a b u)
    show thesis by (rule line [OF 3(1) _ dump_line(1) [OF 3(2-5), of u, folded 3(1)]]) simp
  next
    case (4 a b u)
    show thesis by (rule line [OF 4(1) _ dump_line(2) [OF 4(2-5), of u, folded 4(1)]]) simp
  next
    case 5
    show thesis using 5(2) dump_plain [OF 5] by (rule plain)
  qed
qed

lemma hex_char_nul: "d < 16 \<Longrightarrow> hex_char d \<noteq> NUL"
proof -
  assume "d < 16"
  then have "code (hex_char d) \<noteq> 0" by (simp add: hex_char_def digit_char_def code_def of_char_of)
  then show ?thesis by (auto simp: code_def)
qed

lemma hex4_no_nul: "no_nul (hex4 n)"
  by (simp add: hex4_def hex_char_nul)

lemma dump_no_nul: "no_nul (dump_chars s)"
proof (induction s rule: length_induct)
  case (1 s)
  show ?case
  proof (cases s)
    case (Cons ch t)
    have IH: "no_nul (dump_chars u)" if "length u \<le> length t" for u using 1 Cons that by simp
    show ?thesis
    proof (cases rule: dump_chars_cases [of ch t])
      case (escape e)
      moreover have "e \<noteq> NUL" using escape(1) by (auto simp: unescaped_def)
      ultimately show ?thesis using Cons IH [of t] by (simp del: dump_chars.simps)
    next
      case control
      then show ?thesis using Cons IH [of t] hex4_no_nul by (simp del: dump_chars.simps)
    next
      case (line a b u e)
      then show ?thesis using Cons IH [of u] by (auto simp del: dump_chars.simps)
    next
      case plain
      then show ?thesis using Cons IH [of t] by (auto simp del: dump_chars.simps)
    qed
  qed simp
qed

lemma digits_no_nul: "no_nul (int_str n)"
  using nat_str_digits [of "nat n"] nat_str_digits [of "nat (- n)"]
  by (auto simp: int_str_def no_nul_def list_all_iff isdigit_def)

lemma value_no_nul: "plain_scalar v \<Longrightarrow> no_nul (value_text v)"
proof (cases v)
  case (JString s)
  then show "plain_scalar v \<Longrightarrow> ?thesis" using dump_no_nul [of s] by simp
qed (simp_all add: digits_no_nul)

lemma join_no_nul: "no_nul (join '','' ts) \<longleftrightarrow> (\<forall>t \<in> set ts. no_nul t)"
  by (induction ts rule: induct_list012) simp_all

lemma all2_no_nul: "list_all2 (\<lambda>t x. no_nul t) ts xs \<Longrightarrow> \<forall>t \<in> set ts. no_nul t"
  by (induction ts xs rule: list_all2_induct) simp_all

interpretation nul: text_reader "\<lambda>t v. no_nul t" "\<lambda>m kv. no_nul m" nul_free no_nul
proof unfold_locales
  fix ts :: "string list" and xs :: "json list"
  assume "list_all2 (\<lambda>t x. no_nul t) ts xs"
  then show "no_nul (''['' @ join '','' ts @ '']'')" using all2_no_nul [of ts xs] by (simp add: join_no_nul)
next
  fix ms :: "string list" and kvs :: "(string \<times> json) list"
  assume "list_all2 (\<lambda>m kv. no_nul m) ms kvs"
  then show "no_nul (''{'' @ join '','' ms @ ''}'')" using all2_no_nul [of ms kvs] by (simp add: join_no_nul)
qed (auto simp: value_no_nul)

text \<open>What a service reads with its JSON reader.\<close>

lemma sent_and_viewed:
  assumes "reads_text t v" "nul_free v" "within max_depth v"
  shows "new_JsonView t STANDARD = Done (Inr v) []"
  using reads_text_parses [OF assms(1,3)] nul.understands(1) [OF assms(1)] assms(2)
  by (simp add: new_JsonView_def parse_throw_on_error_def)

end
