(* ===== verification/OrchConvert.thy ===== *)
theory OrchConvert
  imports Orchestration Payload_Laws Wire
begin

text \<open>
  The members a builder holds, as an abstraction of its stream, and the conversion of a parsed value back into text
  (\<open>convertGasonToCJB\<close>): the text stands for the value it was made from, when the value
  is of the kind the conversion can handle.
\<close>

section \<open>The members a builder holds\<close>

definition carries :: "ostream \<Rightarrow> (string \<times> json) list \<Rightarrow> bool" where
  "carries os kvs \<longleftrightarrow>
     (\<exists>ms. list_all2 reads_member ms kvs
        \<and> os = appended \<lparr>os_buf = [], os_pos = 0\<rparr> (''{'' @ concat (map (\<lambda>m. m @ '','') ms)))"

named_theorems carries_intros \<open>members a builder holds after an operation\<close>

lemma carries_new [carries_intros]: "carries new_JsonBuilder []"
  by (auto simp: carries_def new_builder)

lemma carries_writes:
  assumes "carries os kvs" "writes f (m @ '','')" "reads_member m kv"
  shows "carries (f os) (kvs @ [kv])"
proof -
  obtain ms where ms: "list_all2 reads_member ms kvs"
    "os = appended \<lparr>os_buf = [], os_pos = 0\<rparr> (''{'' @ concat (map (\<lambda>m. m @ '','') ms))"
    using assms(1) by (auto simp: carries_def)
  have "list_all2 reads_member (ms @ [m]) (kvs @ [kv])" using ms(1) assms(3) by (simp add: list_all2_appendI)
  moreover have "f os = appended \<lparr>os_buf = [], os_pos = 0\<rparr> (''{'' @ concat (map (\<lambda>m. m @ '','') (ms @ [m])))"
    using writesD [OF assms(2), of os] ms(2) by simp
  ultimately show ?thesis unfolding carries_def by blast
qed

lemma carries_field: "carries os kvs \<Longrightarrow> key_ok (fst kv) \<Longrightarrow> plain_scalar (snd kv) \<Longrightarrow> carries (write_field kv os) (kvs @ [kv])"
  using carries_writes [OF _ write_field_writes reads_field] by simp

lemma carries_string [carries_intros]:
  "carries os kvs \<Longrightarrow> key_ok k \<Longrightarrow> plain t \<Longrightarrow> carries (write_string k t os) (kvs @ [(k, JString t)])"
  using carries_field [of os kvs "(k, JString t)"] by (simp add: plain_def)

lemma carries_int [carries_intros]:
  "carries os kvs \<Longrightarrow> key_ok k \<Longrightarrow> plain_scalar (JInt n) \<Longrightarrow> carries (write_int k n os) (kvs @ [(k, JInt n)])"
  using carries_field [of os kvs "(k, JInt n)"] by simp

lemma carries_text [carries_intros]:
  assumes "carries os kvs" "key_ok k" "reads_text t v"
  shows "carries (writeObj k t os) (kvs @ [(k, v)])"
proof (rule carries_writes [OF assms(1)])
  show "writes (writeObj k t) ((key_text k @ t) @ '','')" by (simp add: writes_def writeObj_def)
  show "reads_member (key_text k @ t) (k, v)" using assms(2,3) by (rule reads_memberI)
qed

lemma carries_bool: "carries os kvs \<Longrightarrow> key_ok k \<Longrightarrow> carries (writeObj k (if b then ''true'' else ''false'') os) (kvs @ [(k, JBool b)])"
  using carries_text [OF _ _ reads_text_scalar [of "JBool b"]] by simp

lemma carries_array [carries_intros]:
  assumes "carries os kvs" "key_ok k" "list_all2 reads_text ts xs"
  shows "carries (to_arrayObj k ts os) (kvs @ [(k, JArray xs)])"
proof (rule carries_writes [OF assms(1)])
  show "writes (to_arrayObj k ts) (array_member k ts @ '','')"
    using to_array_writes [of ts os_put "\<lambda>t. t" k] by (simp add: writes_def to_arrayObj_def array_member_def)
  show "reads_member (array_member k ts) (k, JArray xs)" using assms(2,3) by (rule reads_array_member)
qed

lemma carries_str:
  assumes "carries os kvs" "kvs \<noteq> []"
  shows "reads_text (builder_str os) (JObject kvs)"
proof -
  obtain ms where ms: "list_all2 reads_member ms kvs"
    "os = appended \<lparr>os_buf = [], os_pos = 0\<rparr> (''{'' @ concat (map (\<lambda>m. m @ '','') ms))"
    using assms(1) by (auto simp: carries_def)
  have "ms \<noteq> []" using ms(1) assms(2) by auto
  then have "builder_str os = ''{'' @ join '','' ms @ ''}''"
    using put_over_comma [of ms "CHR ''}''" "[]" "\<lparr>os_buf = [], os_pos = 0\<rparr>" "''{''"] ms(2)
    by (simp add: builder_str_def)
  then show ?thesis using reads_text_object [OF ms(1)] by simp
qed

lemma reads_texts_map: "(\<And>x. x \<in> set xs \<Longrightarrow> reads_text (f x) (g x)) \<Longrightarrow> list_all2 reads_text (map f xs) (map g xs)"
  by (induction xs) simp_all

lemma reads_int_text: "plain_scalar (JInt n) \<Longrightarrow> reads_text (int_str n) (JInt n)"
  using reads_text_scalar [of "JInt n"] by simp

lemma reads_quoted: "plain t \<Longrightarrow> reads_text (quoted t) (JString t)"
  using reads_text_scalar [of "JString t"] by (simp add: plain_def quoted_def)

section \<open>Values the conversion keeps\<close>

text \<open>
  Strings that need no escaping, numbers of at most nine digits, truth values other than a false
  \<open>authenticationInfo\<close>, arrays of strings whose key finds them, and objects that are not empty.
\<close>

definition finds_itself :: "(string \<times> json) list \<Rightarrow> string \<times> json \<Rightarrow> bool" where
  "finds_itself kvs kv \<longleftrightarrow> child (fst kv) (gason_value (JObject kvs)) = Some (gason_value (snd kv))"

definition plain_element :: "json \<Rightarrow> bool" where
  "plain_element x \<longleftrightarrow> (case x of JString t \<Rightarrow> plain t | _ \<Rightarrow> False)"

fun convertible :: "json \<Rightarrow> bool" where
  "convertible (JString t) \<longleftrightarrow> plain t"
| "convertible (JInt n) \<longleftrightarrow> plain_scalar (JInt n)"
| "convertible (JBool b) \<longleftrightarrow> True"
| "convertible (JArray xs) \<longleftrightarrow> list_all plain_element xs"
| "convertible (JObject kvs) \<longleftrightarrow>
     kvs \<noteq> []
     \<and> (\<forall>kv \<in> set kvs. key_ok (fst kv) \<and> kv \<noteq> (''authenticationInfo'', JBool False)
          \<and> (case snd kv of JArray xs \<Rightarrow> finds_itself kvs kv | _ \<Rightarrow> True) \<and> convertible (snd kv))"
| "convertible _ \<longleftrightarrow> False"

lemma small_number: "plain_scalar (JInt n) \<Longrightarrow> \<bar>n\<bar> < 10 ^ 9"
  using short_int_small [of n] by (simp add: digits10_int_def)

lemma toInt_small: "plain_scalar (JInt n) \<Longrightarrow> toInt (JSON_NUMBER (Finite n 0)) = Some n"
  using small_number [of n] by (auto intro!: d_to_int_exact simp: INT_MIN_def INT_MAX_def simp del: plain_scalar.simps)

lemma array_texts_read:
  "list_all plain_element xs \<Longrightarrow> \<exists>ts. array_texts (map gason_value xs) = Some ts \<and> list_all2 reads_text ts xs"
  by (induction xs) (auto simp: plain_element_def reads_quoted split: json.splits)

lemma elements_strings: "list_all plain_element xs \<Longrightarrow> elements (gason_value (JArray xs)) = map gason_value xs"
proof -
  have "present (gason_value x)" if "plain_element x" for x
    using that by (cases x) (simp_all add: plain_element_def present_def)
  then show "list_all plain_element xs \<Longrightarrow> ?thesis"
    by (auto simp: elements_def list_all_iff takeWhile_eq_all_conv)
qed

section \<open>One member\<close>

lemma member_converted:
  assumes "carries os ws" "key_ok k" "(k, v) \<noteq> (''authenticationInfo'', JBool False)" "convertible v"
    "case v of JArray xs \<Rightarrow> finds_itself all (k, v) | _ \<Rightarrow> True"
    "\<And>ms. v = JObject ms \<Longrightarrow> \<exists>o'. convert_members (gason_value v) (map (\<lambda>(k, v). (k, gason_value v)) ms) new_JsonBuilder = Some o'
       \<and> reads_text (builder_str o') v"
  shows "\<exists>os'. carries os' (ws @ [(k, v)])
    \<and> (\<forall>kvs. convert_members (gason_value (JObject all)) ((k, gason_value v) # kvs) os = convert_members (gason_value (JObject all)) kvs os')"
proof (cases v)
  case (JArray xs)
  obtain ts where ts: "array_texts (map gason_value xs) = Some ts" "list_all2 reads_text ts xs"
    using array_texts_read assms(4) JArray by auto
  have "elements (JSON_ARRAY (map gason_value xs)) = map gason_value xs" using elements_strings [of xs] assms(4) JArray by simp
  then show ?thesis
    using JArray assms(5) ts carries_array [OF assms(1,2) ts(2)] by (auto simp: finds_itself_def)
next
  case (JObject ms)
  then obtain o' where o': "convert_members (gason_value v) (map (\<lambda>(k, v). (k, gason_value v)) ms) new_JsonBuilder = Some o'"
    "reads_text (builder_str o') v"
    using assms(6) by blast
  then show ?thesis using JObject carries_text [OF assms(1,2) o'(2)] by auto
next
  case (JBool b)
  then show ?thesis using carries_bool [OF assms(1,2), of b] assms(3) by (auto split: if_splits)
next
  case (JInt n)
  then show ?thesis
    using carries_int [OF assms(1,2), of n] toInt_small [of n] assms(4) by auto
next
  case (JString t)
  then show ?thesis using carries_string [OF assms(1,2), of t] assms(4) by auto
qed (use assms(4) in simp_all)

section \<open>Objects\<close>

definition converts :: "json \<Rightarrow> bool" where
  "converts v \<longleftrightarrow>
     (\<forall>ms. v = JObject ms \<longrightarrow> (\<exists>os. convert_members (gason_value v) (map (\<lambda>(k, v). (k, gason_value v)) ms) new_JsonBuilder = Some os
        \<and> reads_text (builder_str os) v))"

lemma members_converted:
  assumes "\<And>kv. kv \<in> set kvs \<Longrightarrow> key_ok (fst kv) \<and> kv \<noteq> (''authenticationInfo'', JBool False)
      \<and> (case snd kv of JArray xs \<Rightarrow> finds_itself all kv | _ \<Rightarrow> True) \<and> convertible (snd kv) \<and> converts (snd kv)"
    "carries os ws"
  shows "\<exists>os'. convert_members (gason_value (JObject all)) (map (\<lambda>(k, v). (k, gason_value v)) kvs) os = Some os'
    \<and> carries os' (ws @ kvs)"
  using assms
proof (induction kvs arbitrary: os ws)
  case (Cons kv kvs)
  obtain k v where kv: "kv = (k, v)" by (cases kv)
  then have "\<exists>os'. carries os' (ws @ [(k, v)])
    \<and> (\<forall>kvs. convert_members (gason_value (JObject all)) ((k, gason_value v) # kvs) os
          = convert_members (gason_value (JObject all)) kvs os')"
    using Cons.prems(1) [of kv] by (intro member_converted [OF Cons.prems(2)]) (auto simp: converts_def)
  then obtain os' where "carries os' (ws @ [(k, v)])"
    "\<And>kvs. convert_members (gason_value (JObject all)) ((k, gason_value v) # kvs) os
      = convert_members (gason_value (JObject all)) kvs os'" by blast
  then show ?case using Cons.IH [of os' "ws @ [(k, v)]"] Cons.prems(1) kv by simp
qed simp

lemma convertible_converts: "convertible v \<Longrightarrow> converts v"
proof (induction v)
  case (JObject kvs)
  have "convertible (snd kv) \<and> converts (snd kv)" if "kv \<in> set kvs" for kv
    using JObject that by (cases kv) (fastforce simp del: plain_scalar.simps)
  then have "\<exists>os. convert_members (gason_value (JObject kvs)) (map (\<lambda>(k, v). (k, gason_value v)) kvs) new_JsonBuilder = Some os
      \<and> carries os ([] @ kvs)"
    using JObject.prems by (intro members_converted carries_new) auto
  then show ?case using carries_str JObject.prems by (fastforce simp: converts_def)
qed (simp_all add: converts_def)

lemma converted_reads:
  assumes "convertible (JObject kvs)"
  shows "\<exists>t. converted (gason_value (JObject kvs)) = Some t \<and> reads_text t (JObject kvs)"
  using convertible_converts [OF assms] by (auto simp: converts_def converted_def convertGasonToCJB_def)

text \<open>A peer that reads the text finds the value again.\<close>

lemma conversion_read_back:
  assumes "convertible (JObject kvs)" "gason_ok (JObject kvs)" "json_depth (gason_value (JObject kvs)) \<le> JSON_STACK_SIZE"
  shows "\<exists>t. converted (gason_value (JObject kvs)) = Some t \<and> jsonParse t = Parse JSON_PARSE_OK (gason_value (JObject kvs))"
  using converted_reads [OF assms(1)] sent_and_read [OF _ assms(2,3)] by blast

text \<open>An object of plain strings and numbers.\<close>

definition plain_record :: "(string \<times> json) list \<Rightarrow> bool" where
  "plain_record kvs \<longleftrightarrow>
     kvs \<noteq> [] \<and> (\<forall>kv \<in> set kvs. key_ok (fst kv)
       \<and> (case snd kv of JString t \<Rightarrow> plain t | JInt n \<Rightarrow> plain_scalar (JInt n) | _ \<Rightarrow> False))"

lemma plain_record_convertible:
  assumes "plain_record kvs"
  shows "convertible (JObject kvs)"
proof -
  have "kv \<noteq> (''authenticationInfo'', JBool False) \<and> (case snd kv of JArray xs \<Rightarrow> finds_itself kvs kv | _ \<Rightarrow> True)
      \<and> key_ok (fst kv) \<and> convertible (snd kv)" if "kv \<in> set kvs" for kv
  proof -
    have "key_ok (fst kv)" "case snd kv of JString t \<Rightarrow> plain t | JInt n \<Rightarrow> plain_scalar (JInt n) | _ \<Rightarrow> False"
      using assms that unfolding plain_record_def by blast+
    then show ?thesis by (cases kv, cases "snd kv") simp_all
  qed
  then show ?thesis using assms by (simp add: plain_record_def)
qed

lemma converted_record: "plain_record kvs \<Longrightarrow> \<exists>t. converted (gason_value (JObject kvs)) = Some t \<and> reads_text t (JObject kvs)"
  by (intro converted_reads plain_record_convertible)

text \<open>An empty object loses its opening brace, and a false \<open>authenticationInfo\<close> is dropped.\<close>

lemma converted_empty: "converted (gason_value (JObject [])) = Some ''}''"
  by (simp add: converted_def convertGasonToCJB_def empty_builder)

end
