(* ===== verification/SrLaws.thy ===== *)
theory SrLaws
  imports SrEndpoints
begin

text \<open>
  What the parsers of the service registry accept: the shape of an entry that may be registered, and
  the metadata that a registration stores against the metadata that a query asks for.
\<close>

section \<open>Accepted entries\<close>

text \<open>The pattern of a time, with a digit for every hash.\<close>

definition time_shape :: "string \<Rightarrow> bool" where
  "time_shape s \<longleftrightarrow>
     list_all2 (\<lambda>p c. if p = CHR ''#'' then isdigit c else c = p) ''####-##-## ##:##:##'' (take 19 s)"

definition trimmed :: "string \<Rightarrow> bool" where
  "trimmed s \<longleftrightarrow> (\<forall>c \<in> set s. \<not> isspace c \<and> \<not> isupper c)"

text \<open>A name of an interface as the core services use it; both texts are seen as C strings.\<close>

definition interface_shape :: "string \<Rightarrow> bool" where
  "interface_shape i \<longleftrightarrow>
     (\<exists>protocol. i = protocol @ ''-secure-json'' \<or> i = protocol @ ''-insecure-json'')"

definition entry_ok :: "ServiceRegistryEntry \<Rightarrow> bool" where
  "entry_ok en \<longleftrightarrow>
     trimmed (en_serviceDefinition en) \<and> trimmed (en_systemName en) \<and> CHR ''.'' \<notin> set (en_systemName en)
     \<and> (\<exists>port. 0 \<le> port \<and> port \<le> 65535 \<and> en_port en = int_str port)
     \<and> time_shape (cstr (en_endOfValidity en))
     \<and> (en_secure en = ''not_secure'' \<and> en_authInfo en = []
        \<or> (en_secure en = ''certificate'' \<or> en_secure en = ''token'') \<and> en_authInfo en \<noteq> [])
     \<and> trimmed (en_metadata en)
     \<and> (\<exists>version. en_version en = int_str version)
     \<and> (\<forall>i \<in> set (en_interfaces en). interface_shape (cstr i))"

lemma all_at_True:
  "all_at c ps = Some True \<longleftrightarrow> (\<forall>(i, p) \<in> set ps. \<exists>x. str_at c i = Some x \<and> p x)"
  by (induction c ps rule: all_at.induct) (auto split: option.splits)

lemma str_at_not_nul: "str_at s i = Some c \<Longrightarrow> c \<noteq> NUL \<Longrightarrow> i < length s \<and> s ! i = c"
  by (auto simp: str_at_def split: if_splits)

lemma valid_time_shape:
  assumes "validEndOfValidity eov = Some True"
  shows "time_shape (cstr eov)"
proof -
  let ?s = "cstr eov" and ?p = "''####-##-## ##:##:##''"
  have d: "i < length ?s \<and> isdigit (?s ! i)" if "\<exists>x. str_at ?s i = Some x \<and> isdigit x" for i
    using that str_at_not_nul isdigit_neq_special(1) by metis
  have c: "i < length ?s \<and> ?s ! i = x" if "str_at ?s i = Some x" "x \<noteq> NUL" for i x
    using that str_at_not_nul by auto
  have a: "\<forall>i \<in> {0,1,2,3,5,6,8,9,11,12,14,15,17,18}. i < length ?s \<and> isdigit (?s ! i)"
    "?s ! 4 = CHR ''-''" "?s ! 7 = CHR ''-''" "?s ! 10 = CHR '' ''" "?s ! 13 = CHR '':''" "?s ! 16 = CHR '':''"
    using assms unfolding validEndOfValidity_def all_at_True by (auto dest!: d c)
  then have len: "19 \<le> length ?s" by simp
  have "(if ?p ! i = CHR ''#'' then isdigit (?s ! i) else ?s ! i = ?p ! i)" if "i < 19" for i
  proof -
    have "i \<in> {0,1,2,3,5,6,8,9,11,12,14,15,17,18} \<union> {4,7,10,13,16}" using that by simp presburger
    then show ?thesis using a by auto
  qed
  then show ?thesis using len by (auto simp: time_shape_def list_all2_conv_all_nth)
qed

lemma not_isupper_tolower: "\<not> isupper (tolower c)"
  by (simp add: isupper_def code_tolower)

lemma trimmed_toLowerAndTrim: "trimmed (toLowerAndTrim s)"
  using not_isupper_tolower by (auto simp: trimmed_def toLowerAndTrim_def)

lemma valid_interface:
  assumes "validInterfaceName i"
  shows "interface_shape (cstr i)"
proof -
  let ?p = "takeWhile (\<lambda>c. c \<noteq> CHR ''-'') (cstr i)"
  obtain c str where d: "dropWhile (\<lambda>c. c \<noteq> CHR ''-'') (cstr i) = c # str"
      "str = ''secure-json'' \<or> str = ''insecure-json''"
    using assms by (auto simp: validInterfaceName_def split: list.splits)
  have "c = CHR ''-''" using d(1) by (simp add: dropWhile_eq_Cons_conv)
  moreover have "cstr i = ?p @ c # str" using takeWhile_dropWhile_id [of "\<lambda>c. c \<noteq> CHR ''-''" "cstr i"] d(1) by simp
  ultimately show ?thesis using d(2) by (auto simp: interface_shape_def)
qed

lemma map_sum_Inr: "map_sum f g x = Inr y \<longleftrightarrow> (\<exists>z. x = Inr z \<and> y = g z)"
  by (cases x) auto

lemma interface_names_valid:
  "interface_names n vs = Some (Inr is) \<Longrightarrow> i \<in> set is \<Longrightarrow> validInterfaceName i"
  by (induction n vs arbitrary: "is" rule: interface_names.induct)
    (auto simp: accept_def on_text_def Let_def bind_eq_Some_conv map_sum_Inr split: if_splits)

lemma entry_metadata_trimmed: "entry_metadata v = Some m \<Longrightarrow> trimmed m"
  using trimmed_toLowerAndTrim by (auto simp: entry_metadata_def bind_eq_Some_conv trimmed_def split: if_splits)

lemma security_ok:
  "validSecurityType secure info = 0 \<Longrightarrow>
    secure = ''not_secure'' \<and> info = [] \<or> (secure = ''certificate'' \<or> secure = ''token'') \<and> info \<noteq> []"
  by (auto simp: validSecurityType_def split: if_splits)

lemma tolower_dot: "tolower c = CHR ''.'' \<Longrightarrow> c = CHR ''.''"
proof -
  assume d: "tolower c = CHR ''.''"
  then have "code (tolower c) = 46" by (simp add: code_def)
  then have "\<not> isupper c" by (auto simp: code_tolower isupper_def split: if_splits)
  then show ?thesis using d by (simp add: tolower_def)
qed

lemma dot_toLowerAndTrim:
  assumes "CHR ''.'' \<in> set (toLowerAndTrim nm)"
  shows "CHR ''.'' \<in> set nm"
proof -
  have "CHR ''.'' \<in> tolower ` set nm" using assms by (simp add: toLowerAndTrim_def)
  then obtain c where "c \<in> set nm" "tolower c = CHR ''.''" by (elim imageE) simp
  then show ?thesis using tolower_dot [of c] by simp
qed

lemma port_ok: "\<not> p < 0 \<Longrightarrow> \<not> 65535 < p \<Longrightarrow> \<exists>port \<ge> 0. port \<le> 65535 \<and> int_str p = int_str port"
  by (rule exI [of _ p]) simp

lemmas parse_simps = on_child_def on_text_def on_int_text_def leave_with_def accept_def Let_def

lemma parsed_entry_ok:
  assumes "parseRegistryEntry root = Some (Inr en)"
  shows "entry_ok en"
  using assms unfolding parseRegistryEntry_def parse_simps
  by (auto simp: bind_eq_Some_conv map_sum_Inr entry_ok_def in_port_range_def
      intro!: trimmed_toLowerAndTrim port_ok valid_time_shape valid_interface
      dest: security_ok dot_toLowerAndTrim entry_metadata_trimmed interface_names_valid split: if_splits)

end
