(* ===== verification/SrRegistration.thy ===== *)
theory SrRegistration
  imports SrLaws SrService Trace "HOL-Library.Sublist"
begin

text \<open>
  The statements of a registration and of an unregistration, in the order in which they are sent.
\<close>

section \<open>Runs that return\<close>

named_theorems returned \<open>the steps of a run that returned\<close>

lemma act_ret_Returned [returned]: "act_ret v s = Some (Returned r, s') \<longleftrightarrow> r = v \<and> s' = s"
  by (auto simp: act_ret_def)

lemma returns_Returned [returned]: "returns v s = Some (Returned r, s') \<longleftrightarrow> r = v \<and> s' = s"
  by (auto simp: returns_def)

lemma act_leave_Returned [returned]: "act_leave v s = Some (Returned r, s') \<longleftrightarrow> r = Inl v \<and> s' = s"
  by (auto simp: act_leave_def act_ret_def)

lemma act_bind_Returned [returned]:
  "act_bind x f s = Some (Returned r, s'') \<longleftrightarrow> (\<exists>v s'. x s = Some (Returned v, s') \<and> f v s' = Some (Returned r, s''))"
  by (auto simp: act_bind_def split: option.splits prod.splits scope_result.splits)

lemma act_then_Returned [returned]:
  "act_then x f s = Some (Returned (Inr r), s'') \<longleftrightarrow>
    (\<exists>v s'. x s = Some (Returned (Inr v), s') \<and> f v s' = Some (Returned (Inr r), s''))"
  by (auto simp: act_then_def act_bind_def act_ret_def split: option.splits prod.splits scope_result.splits sum.splits)

lemma act_the_Returned [returned]: "act_the x s = Some (Returned r, s') \<longleftrightarrow> x = Some r \<and> s' = s"
  by (cases x) (auto simp: act_ret_def act_undef_def)

lemma act_conv_Returned [returned]: "act_conv x s = Some (Returned r, s') \<longleftrightarrow> x = Inr r \<and> s' = s"
  by (cases x) (auto simp: act_conv_def act_ret_def act_throw_def)

lemma logged_Returned [returned]:
  "act_db (logged q x) s = Some (Returned r, s') \<longleftrightarrow>
    (\<exists>d'. x (fst s) = (Inr r, d') \<and> s' = (d', snd s @ [q]))"
  by (cases s) (auto simp: act_db_logged split: prod.splits sum.splits)

lemma respond_Returned [returned]:
  "respond t s = Some (Returned r, s') \<longleftrightarrow> (\<exists>u. t = Inr u \<and> r = ok_Response u) \<and> s' = s"
  by (auto simp: respond_def returned)

lemma case_sum_Returned [returned]:
  "(case v of Inl e \<Rightarrow> f e | Inr x \<Rightarrow> g x) s = Some (Returned r, s') \<longleftrightarrow>
    (\<exists>e. v = Inl e \<and> f e s = Some (Returned r, s')) \<or> (\<exists>x. v = Inr x \<and> g x s = Some (Returned r, s'))"
  by (cases v) auto

lemma if_Returned [returned]:
  "(if b then f else g) s = Some (Returned r, s') \<longleftrightarrow>
    b \<and> f s = Some (Returned r, s') \<or> \<not> b \<and> g s = Some (Returned r, s')"
  by auto

lemma fetch_first_Returned [returned]:
  "fetch_first (traced db) q n f s = Some (Returned (Inr v), s') \<longleftrightarrow>
    (\<exists>row rows d'. db_fetch db q (fst s) = (Inr (row # rows), d') \<and> v = f row \<and> s' = (d', snd s @ [q]))"
  by (auto simp: fetch_first_def returned split: list.splits) (metis list.exhaust)+

section \<open>Find or insert\<close>

text \<open>A lookup that finds the value, or one that does not, an insertion and the lookup again.\<close>

definition stored :: "string \<Rightarrow> string \<Rightarrow> string list \<Rightarrow> bool" where
  "stored sel ins l \<longleftrightarrow> l = [sel] \<or> l = [sel, ins, sel]"

lemma exists_Returned [returned]:
  "dbContentExists (traced db) column table check what t s = Some (Returned v, s') \<longleftrightarrow>
    (\<exists>b r d'. db_fetch_string db (select_where column table check what) t (fst s) = (Inr (b, r), d')
      \<and> v = (r \<noteq> [], r) \<and> s' = (d', snd s @ [select_where column table check what]))"
  by (auto simp: dbContentExists_def returned)

lemma values_stored:
  assumes "checkAndInsertValues (traced db) column table check what cs vs s = Some (Returned r, s')"
  shows "\<exists>l. snd s' = snd s @ l \<and> stored (select_where column table check what) (insert_into table cs vs True) l"
  using assms by (auto simp: checkAndInsertValues_def dbSaveContent_def returned stored_def split: if_splits)

lemma value_stored:
  assumes "checkAndInsertValue (traced db) column table check what s = Some (Returned r, s')"
  shows "\<exists>l. snd s' = snd s @ l \<and> stored (select_where column table check what) (insert_into table check what False) l"
  using assms by (auto simp: checkAndInsertValue_def dbSaveContent_def returned stored_def split: if_splits)

text \<open>The contract of an operation that finds or inserts, and of a loop of such operations.\<close>

locale saver =
  fixes save :: "('d \<times> string list) Database \<Rightarrow> 'x \<Rightarrow> (string, 'd \<times> string list) action"
    and sel :: "'x \<Rightarrow> string"
    and ins :: "'x \<Rightarrow> string"
  assumes saves:
    "save (traced db) x s = Some (Returned r, s') \<Longrightarrow> \<exists>l. snd s' = snd s @ l \<and> stored (sel x) (ins x) l"
begin

lemma saves_all:
  "act_map (save (traced db)) xs s = Some (Returned rs, s') \<Longrightarrow>
    length rs = length xs
    \<and> (\<exists>ls. snd s' = snd s @ concat ls \<and> list_all2 (\<lambda>x l. stored (sel x) (ins x) l) xs ls)"
proof (induction xs arbitrary: rs s)
  case (Cons x xs)
  then obtain r1 s1 rs' where x: "save (traced db) x s = Some (Returned r1, s1)"
    "act_map (save (traced db)) xs s1 = Some (Returned rs', s')" "rs = r1 # rs'"
    by (auto simp: returned)
  obtain l where l: "snd s1 = snd s @ l" "stored (sel x) (ins x) l" using saves [OF x(1)] by blast
  obtain ls where "length rs' = length xs" "snd s' = snd s1 @ concat ls"
    "list_all2 (\<lambda>x l. stored (sel x) (ins x) l) xs ls"
    using Cons.IH [OF x(2)] by blast
  then show ?case using l x(3) by (auto intro!: exI [of _ "l # ls"])
qed (simp add: returned)

end

definition find_definition :: "string \<Rightarrow> string" where
  "find_definition sd = select_where ''id'' ''service_definition'' ''service_definition'' sd"

definition insert_definition :: "string \<Rightarrow> string" where
  "insert_definition sd = insert_into ''service_definition'' ''service_definition'' sd False"

definition find_system :: "ServiceRegistryEntry \<Rightarrow> string" where
  "find_system en = select_where ''id'' ''system_'' ''system_name'' (en_systemName en)"

definition insert_system :: "ServiceRegistryEntry \<Rightarrow> string" where
  "insert_system en =
     insert_into ''system_'' (system_columns (en_authInfo en))
       (system_values (en_systemName en) (en_address en) (en_port en) (en_authInfo en)) True"

definition find_interface :: "string \<Rightarrow> string" where
  "find_interface i = select_where ''id'' ''service_interface'' ''interface_name'' i"

definition insert_interface :: "string \<Rightarrow> string" where
  "insert_interface i = insert_into ''service_interface'' ''interface_name'' i False"

definition find_entry :: "ServiceRegistryEntry \<Rightarrow> string" where
  "find_entry en = select_where ''id'' ''service_registry'' ''service_uri'' (en_serviceUri en)"

definition insert_entry :: "string \<Rightarrow> string \<Rightarrow> ServiceRegistryEntry \<Rightarrow> string" where
  "insert_entry sdID sysID en =
     insert_into ''service_registry'' ''service_id, system_id, service_uri, end_of_validity, secure, metadata, version''
       (sdID @ '', '' @ sysID @ '', '' @ sq (en_serviceUri en) @ '', '' @ sq (en_endOfValidity en) @ '', ''
        @ sq (en_secure en) @ '', '' @ sq (en_metadata en) @ '', '' @ en_version en) True"

definition find_connection :: "string \<Rightarrow> string" where
  "find_connection entryID =
     select_where ''id'' ''service_registry_interface_connection'' ''service_registry_id'' entryID"

definition insert_connection :: "string \<Rightarrow> string \<Rightarrow> string" where
  "insert_connection entryID i =
     insert_into ''service_registry_interface_connection'' ''service_registry_id, interface_id'' (entryID @ '', '' @ i) True"

interpretation defs: saver
  "\<lambda>db. checkAndInsertValue db ''id'' ''service_definition'' ''service_definition''" find_definition insert_definition
  by unfold_locales (simp add: find_definition_def insert_definition_def value_stored)

interpretation systems: saver
  "\<lambda>db en. save_system db (en_systemName en) (en_address en) (en_port en) (en_authInfo en)" find_system insert_system
  by unfold_locales (simp add: find_system_def insert_system_def save_system_def values_stored)

interpretation interfaces: saver save_interface find_interface insert_interface
  by unfold_locales (simp add: find_interface_def insert_interface_def save_interface_def value_stored)

interpretation entries: saver "\<lambda>db. save_entry db sdID sysID" find_entry "insert_entry sdID sysID" for sdID sysID
  by unfold_locales (simp add: find_entry_def insert_entry_def save_entry_def values_stored)

interpretation connections: saver "\<lambda>db. save_connection db entryID" "\<lambda>i. find_connection entryID" "insert_connection entryID"
  for entryID
  by unfold_locales (simp add: find_connection_def insert_connection_def save_connection_def values_stored)

section \<open>Registration\<close>

definition registration_log ::
  "ServiceRegistryEntry \<Rightarrow> string \<Rightarrow> string \<Rightarrow> string list \<Rightarrow> string \<Rightarrow> string list \<Rightarrow> bool" where
  "registration_log en sdID sysID intfIDs entryID l \<longleftrightarrow>
     (\<exists>l1 l2 ls3 l4 ls5.
        l = l1 @ l2 @ concat ls3 @ l4 @ concat ls5
          @ [select_id ''service_definition'' sdID, select_id ''system_'' sysID]
          @ map (select_id ''service_interface'') intfIDs @ [select_id ''service_registry'' entryID]
        \<and> stored (find_definition (en_serviceDefinition en)) (insert_definition (en_serviceDefinition en)) l1
        \<and> stored (find_system en) (insert_system en) l2
        \<and> list_all2 (\<lambda>i. stored (find_interface i) (insert_interface i)) (en_interfaces en) ls3
        \<and> stored (find_entry en) (insert_entry sdID sysID en) l4
        \<and> list_all2 (\<lambda>i. stored (find_connection entryID) (insert_connection entryID i)) intfIDs ls5)"

lemma fetch_all:
  "leave_map (\<lambda>i. fetch_first (traced db) (select_id table i) n (f i)) is s = Some (Returned (Inr vs), s') \<Longrightarrow>
    snd s' = snd s @ map (select_id table) is"
  by (induction "is" arbitrary: s vs) (force simp: returned)+

lemma processDB_log:
  assumes "processDB (traced db) en s = Some (Returned (Inr e), s')"
  shows "\<exists>sdID sysID intfIDs entryID l. snd s' = snd s @ l \<and> length intfIDs = length (en_interfaces en)
    \<and> registration_log en sdID sysID intfIDs entryID l"
proof -
  obtain sdID sysID intfIDs entryID s1 s2 s3 s4 s5 cs where
    r: "checkAndInsertValue (traced db) ''id'' ''service_definition'' ''service_definition'' (en_serviceDefinition en) s
          = Some (Returned sdID, s1)"
      "save_system (traced db) (en_systemName en) (en_address en) (en_port en) (en_authInfo en) s1 = Some (Returned sysID, s2)"
      "act_map (save_interface (traced db)) (en_interfaces en) s2 = Some (Returned intfIDs, s3)"
      "save_entry (traced db) sdID sysID en s3 = Some (Returned entryID, s4)"
      "act_map (save_connection (traced db) entryID) intfIDs s4 = Some (Returned cs, s5)"
    and f: "snd s' = snd s5 @ [select_id ''service_definition'' sdID, select_id ''system_'' sysID]
          @ map (select_id ''service_interface'') intfIDs @ [select_id ''service_registry'' entryID]"
    using assms unfolding processDB_def by (auto simp: returned dest!: fetch_all)
  from defs.saves [OF r(1)] systems.saves [OF r(2)] interfaces.saves_all [OF r(3)] entries.saves [OF r(4)]
    connections.saves_all [OF r(5)]
  show ?thesis unfolding registration_log_def f by clarsimp blast
qed

lemma interface_names_length: "interface_names n vs = Some (Inr is) \<Longrightarrow> length is = length vs"
  by (induction n vs arbitrary: "is" rule: interface_names.induct)
    (auto simp: accept_def on_text_def Let_def bind_eq_Some_conv map_sum_Inr split: if_splits)

lemma elements_present: "present (json_at v 0) \<Longrightarrow> elements v \<noteq> []"
  by (auto simp: json_at_def elements_def present_def neq_Nil_conv split: JsonValue.splits if_splits)

text \<open>An entry that passed both checks has an interface.\<close>

lemma valid_entry_interfaces:
  assumes "validRegistryEntry root = Some 0" "parseRegistryEntry root = Some (Inr en)"
  shows "en_interfaces en \<noteq> []"
proof -
  obtain v where v: "child ''interfaces'' root = Some v" "present (json_at v 0)"
    using assms(1) unfolding validRegistryEntry_def parse_simps
    by (auto simp: bind_eq_Some_conv split: if_splits)
  have "interface_names 7 (elements v) = Some (Inr (en_interfaces en))"
    using assms(2) v(1) unfolding parseRegistryEntry_def parse_simps
    by (auto simp: bind_eq_Some_conv map_sum_Inr split: if_splits)
  then show ?thesis using interface_names_length elements_present [OF v(2)] by fastforce
qed

lemma ErrorResp_status [simp]: "rs_status_code (ErrorResp msg ty origin) = BadRequest"
  by (simp add: ErrorResp_def new_Response_def)

lemma entry_error_status [simp]: "rs_status_code (entry_error e origin) = BadRequest"
  by (simp add: entry_error_def split: prod.split)

lemma ok_status [simp]: "rs_status_code (ok_Response t) = OK"
  by (simp add: ok_Response_def new_Response_def)

lemma with_json_Returned:
  assumes "with_json origin req k s = Some (Returned r, s')" "rs_status_code r = OK"
  obtains root where "jsonParse (rq_content req) = Parse JSON_PARSE_OK root" "k root s = Some (Returned r, s')"
  using assms that by (auto simp: with_json_def returned act_undef_def split: parse_result.splits if_splits)

lemma registered:
  assumes "processRegister (traced db) url req s = Some (Returned r, s')" "rs_status_code r = OK"
  obtains root en sdID sysID intfIDs entryID l where
    "jsonParse (rq_content req) = Parse JSON_PARSE_OK root" "parseRegistryEntry root = Some (Inr en)"
    "en_interfaces en \<noteq> []" "length intfIDs = length (en_interfaces en)" "snd s' = snd s @ l"
    "registration_log en sdID sysID intfIDs entryID l"
proof -
  obtain root where root: "jsonParse (rq_content req) = Parse JSON_PARSE_OK root"
    "act_bind (act_the (validRegistryEntry root)) (\<lambda>status.
     if status \<noteq> 0 then returns (ErrorResp (valid_message status) BAD_PAYLOAD url)
     else act_bind (act_the (parseRegistryEntry root)) (\<lambda>r.
     case r of
       Inl e \<Rightarrow> returns (entry_error e url)
     | Inr en \<Rightarrow>
         act_bind (processDB (traced db) en) (\<lambda>r.
         case r of
           Inl n \<Rightarrow> returns (ErrorResp (stored_message n) BAD_PAYLOAD url)
         | Inr d \<Rightarrow> respond (createRegistryEntry d)))) s = Some (Returned r, s')"
    using with_json_Returned [OF assms(1) [unfolded processRegister_def] assms(2)] by blast
  have "validRegistryEntry root = Some 0 \<and> (\<exists>en e. parseRegistryEntry root = Some (Inr en)
      \<and> processDB (traced db) en s = Some (Returned (Inr e), s'))"
    using root(2) assms(2)
    by (auto simp: returned)
  then obtain en e where en: "validRegistryEntry root = Some 0" "parseRegistryEntry root = Some (Inr en)"
    "processDB (traced db) en s = Some (Returned (Inr e), s')" by blast
  from processDB_log [OF en(3)] obtain sdID sysID intfIDs entryID l where
    "snd s' = snd s @ l" "length intfIDs = length (en_interfaces en)" "registration_log en sdID sysID intfIDs entryID l"
    by blast
  with root(1) en(2) valid_entry_interfaces [OF en(1,2)] show thesis by (intro that)
qed

section \<open>Several interfaces\<close>

text \<open>
  A database that finds a connection of an entry once there is one: \<open>connected\<close> holds of its state
  after an insertion and after a lookup with a result, and from then on every lookup has a result.
\<close>

definition finds_connections :: "'d Database \<Rightarrow> string \<Rightarrow> ('d \<Rightarrow> bool) \<Rightarrow> bool" where
  "finds_connections db entryID connected \<longleftrightarrow>
     (\<forall>i d d'. db_query db (insert_connection entryID i) d = (Inr (), d') \<longrightarrow> connected d')
     \<and> (\<forall>t d b c d'. db_fetch_string db (find_connection entryID) t d = (Inr (b, c), d') \<longrightarrow>
          (connected d \<longrightarrow> c \<noteq> []) \<and> (c \<noteq> [] \<longrightarrow> connected d'))"

lemma save_connection_steps:
  assumes "save_connection (traced db) entryID i s = Some (Returned r, s')"
  shows "\<exists>b c d1. db_fetch_string db (find_connection entryID) [] (fst s) = (Inr (b, c), d1)
    \<and> (c \<noteq> [] \<and> s' = (d1, snd s @ [find_connection entryID])
       \<or> c = [] \<and> (\<exists>d2 b'. db_query db (insert_connection entryID i) d1 = (Inr (), d2)
           \<and> db_fetch_string db (find_connection entryID) [] d2 = (Inr (b', r), fst s')))"
  using assms unfolding save_connection_def checkAndInsertValues_def dbSaveContent_def
    find_connection_def [symmetric] insert_connection_def [symmetric] dbContentExists_def
  by (auto simp: returned)

lemma save_connection_connected:
  assumes "finds_connections db entryID connected" "save_connection (traced db) entryID i s = Some (Returned r, s')"
  shows "connected (fst s')" "connected (fst s) \<Longrightarrow> snd s' = snd s @ [find_connection entryID]"
proof -
  obtain b c d1 where f: "db_fetch_string db (find_connection entryID) [] (fst s) = (Inr (b, c), d1)"
    and d: "c \<noteq> [] \<and> s' = (d1, snd s @ [find_connection entryID])
       \<or> c = [] \<and> (\<exists>d2 b'. db_query db (insert_connection entryID i) d1 = (Inr (), d2)
           \<and> db_fetch_string db (find_connection entryID) [] d2 = (Inr (b', r), fst s'))"
    using save_connection_steps [OF assms(2)] by blast
  have q: "connected d2" if "db_query db (insert_connection entryID i) d1 = (Inr (), d2)" for d2
    using assms(1) that by (auto simp: finds_connections_def)
  have l: "(connected d2 \<longrightarrow> c' \<noteq> []) \<and> (c' \<noteq> [] \<longrightarrow> connected d')"
    if "db_fetch_string db (find_connection entryID) [] d2 = (Inr (b', c'), d')" for d2 b' c' d'
    using assms(1) that by (auto simp: finds_connections_def)
  show "connected (fst s')" using d l [OF f] q l by (elim disjE) auto
  show "connected (fst s) \<Longrightarrow> snd s' = snd s @ [find_connection entryID]" using d l [OF f] by auto
qed

lemma one_connection:
  assumes "finds_connections db entryID connected"
    "act_map (save_connection (traced db) entryID) (i # is) s = Some (Returned rs, s')"
  shows "\<exists>l. stored (find_connection entryID) (insert_connection entryID i) l
    \<and> snd s' = snd s @ l @ replicate (length is) (find_connection entryID)"
proof -
  obtain r s1 rs' where r: "save_connection (traced db) entryID i s = Some (Returned r, s1)"
    "act_map (save_connection (traced db) entryID) is s1 = Some (Returned rs', s')"
    using assms(2) by (auto simp: returned)
  have "act_map (save_connection (traced db) entryID) is s1 = Some (Returned rs', s') \<Longrightarrow> connected (fst s1) \<Longrightarrow>
      snd s' = snd s1 @ replicate (length is) (find_connection entryID)" for rs' s1
  proof (induction "is" arbitrary: rs' s1)
    case (Cons j js)
    then obtain r2 s2 rs2 where j: "save_connection (traced db) entryID j s1 = Some (Returned r2, s2)"
      "act_map (save_connection (traced db) entryID) js s2 = Some (Returned rs2, s')"
      by (auto simp: returned)
    then show ?case
      using save_connection_connected [OF assms(1) j(1)] Cons.IH [OF j(2)] Cons.prems(2) by simp
  qed (simp add: returned)
  then show ?thesis
    using r save_connection_connected(1) [OF assms(1) r(1)] connections.saves [OF r(1)] by fastforce
qed

section \<open>Unregistration\<close>

definition unregister_finds :: "string \<Rightarrow> string" where
  "unregister_finds sd = ''SELECT * FROM service_definition WHERE service_definition = '' @ sq sd @ '' ;''"

definition unregister_finds_system :: "string \<Rightarrow> string \<Rightarrow> string \<Rightarrow> string" where
  "unregister_finds_system nm addr port =
     ''SELECT * FROM system_ WHERE system_name = '' @ sq nm @ '' AND address = '' @ sq addr @ '' AND port = '' @ sq port @ '';''"

definition unregister_finds_entry :: "string \<Rightarrow> string \<Rightarrow> string" where
  "unregister_finds_entry sdID sysID = ''SELECT * '' @ entry_where sdID sysID"

definition unregister_deletes :: "string \<Rightarrow> string \<Rightarrow> string \<Rightarrow> string list" where
  "unregister_deletes sdID sysID entryID =
     [''DELETE FROM service_registry_interface_connection WHERE service_registry_id = '' @ sq entryID @ '';'',
      ''DELETE '' @ entry_where sdID sysID]"

text \<open>A lookup that had a result.\<close>

definition found :: "'d Database \<Rightarrow> string \<Rightarrow> 'd \<Rightarrow> string \<Rightarrow> 'd \<Rightarrow> bool" where
  "found db q d t d' \<longleftrightarrow> (\<exists>b. db_fetch_string db q [] d = (Inr (b, t), d')) \<and> t \<noteq> []"

text \<open>The three lookups of an unregistration had a result.\<close>

definition unregister_found ::
  "'d Database \<Rightarrow> string \<Rightarrow> string \<Rightarrow> string \<Rightarrow> string \<Rightarrow> 'd \<Rightarrow> string \<Rightarrow> string \<Rightarrow> string \<Rightarrow> bool" where
  "unregister_found db sd nm addr port d sdID sysID entryID \<longleftrightarrow>
     (\<exists>d1 d2 d3. found db (unregister_finds sd) d sdID d1 \<and> found db (unregister_finds_system nm addr port) d1 sysID d2
        \<and> found db (unregister_finds_entry sdID sysID) d2 entryID d3)"

lemma fetch_or_then:
  assumes "act_then (fetch_or (traced db) q e) f (d, l) = Some (r, s)"
  shows "snd s = l @ [q] \<and> (r = Returned (Inl e) \<or> (\<exists>x. r = Raised x))
    \<or> (\<exists>t d1. found db q d t d1 \<and> f t (d1, l @ [q]) = Some (r, s))"
  using assms
  by (auto simp: act_then_def fetch_or_def act_bind_def act_db_logged act_leave_def act_ret_def found_def
      split: prod.splits sum.splits if_splits)

text \<open>
  What an unregistration may have sent, and whether it succeeded: up to three lookups without success,
  or all of them and one or both deletions, for the identifiers that were found.
\<close>

definition unregister_lookups :: "string \<Rightarrow> string \<Rightarrow> string \<Rightarrow> string \<Rightarrow> string \<Rightarrow> string \<Rightarrow> string list" where
  "unregister_lookups sd nm addr port sdID sysID =
     [unregister_finds sd, unregister_finds_system nm addr port, unregister_finds_entry sdID sysID]"

definition unregister_sent ::
  "'d Database \<Rightarrow> string \<Rightarrow> string \<Rightarrow> string \<Rightarrow> string \<Rightarrow> 'd \<Rightarrow> bool \<Rightarrow> string list \<Rightarrow> bool" where
  "unregister_sent db sd nm addr port d success l \<longleftrightarrow>
     (\<exists>sdID sysID. prefix l (unregister_lookups sd nm addr port sdID sysID) \<and> \<not> success)
     \<or> (\<exists>sdID sysID entryID n. unregister_found db sd nm addr port d sdID sysID entryID \<and> 0 < n
          \<and> l = unregister_lookups sd nm addr port sdID sysID @ take n (unregister_deletes sdID sysID entryID)
          \<and> (success \<longrightarrow> n = 2))"

lemma unregister_sent_lookup:
  "prefix l (unregister_lookups sd nm addr port sdID sysID) \<Longrightarrow> unregister_sent db sd nm addr port d False l"
  by (auto simp: unregister_sent_def)

text \<open>The run returned a response that is not an error, early or at its end.\<close>

definition succeeded :: "(failure, Response) scope_result \<Rightarrow> bool" where
  "succeeded r \<longleftrightarrow> (\<exists>x. r = Returned x \<and> rs_status_code x = OK)"

definition either_response :: "(failure, Response + Response) scope_result \<Rightarrow> (failure, Response) scope_result" where
  "either_response r =
     (case r of Returned v \<Rightarrow> Returned (case v of Inl x \<Rightarrow> x | Inr x \<Rightarrow> x) | Raised e \<Rightarrow> Raised e | Terminated \<Rightarrow> Terminated)"

lemma answered_run: "answered x s = map_option (map_prod either_response id) (x s)"
  by (auto simp: answered_def act_bind_def returns_def either_response_def split: option.splits prod.splits scope_result.splits)

lemma unregister_failed [simp]:
  "\<not> succeeded (Returned (unregister_error msg))" "\<not> succeeded (Raised e)"
  by (simp_all add: succeeded_def unregister_error_def)

lemma delete_entry_log:
  assumes "delete_entry (traced db) sd nm addr port (d, []) = Some (r, (d', l))"
  shows "unregister_sent db sd nm addr port d (succeeded (either_response r)) l"
proof -
  consider (d) "l = [unregister_finds sd]" "\<not> succeeded (either_response r)"
    | (s) "l = [unregister_finds sd, unregister_finds_system nm addr port]" "\<not> succeeded (either_response r)"
    | (e) sdID sysID where "l = unregister_lookups sd nm addr port sdID sysID" "\<not> succeeded (either_response r)"
    | (x) sdID sysID entryID d3 where "unregister_found db sd nm addr port d sdID sysID entryID"
        "act_bind (act_db (db_query (traced db)
            (''DELETE FROM service_registry_interface_connection WHERE service_registry_id = '' @ sq entryID @ '';''))) (\<lambda>_.
          act_bind (act_db (db_query (traced db) (''DELETE '' @ entry_where sdID sysID))) (\<lambda>_.
            act_ret (Inr (ok_Response ''OK'')))) (d3, unregister_lookups sd nm addr port sdID sysID) = Some (r, (d', l))"
    using assms unfolding delete_entry_def unregister_finds_def [symmetric] unregister_finds_system_def [symmetric]
      unregister_finds_entry_def [symmetric] unregister_found_def unregister_lookups_def
    by (fastforce dest!: fetch_or_then simp: either_response_def)
  then show ?thesis
  proof cases
    case x
    then have "\<exists>n > 0. l = unregister_lookups sd nm addr port sdID sysID @ take n (unregister_deletes sdID sysID entryID)
        \<and> (succeeded (either_response r) \<longrightarrow> n = 2)"
      by (auto simp: either_response_def act_bind_def act_db_logged act_ret_def unregister_deletes_def split: prod.splits sum.splits
          intro: exI [of _ 1] exI [of _ 2])
    then show ?thesis using x(1) unfolding unregister_sent_def by blast
  qed (auto intro!: unregister_sent_lookup simp: unregister_lookups_def)
qed

lemma unregistered:
  assumes "processUnregister (traced db) sd nm addr port (d, []) = Some (r, (d', l))"
  shows "unregister_sent db sd nm addr port d (succeeded r) l"
proof (cases "\<exists>r0. delete_entry (traced db) sd nm addr port (d, []) = Some (r0, (d', l)) \<and> r = either_response r0")
  case True
  then show ?thesis using delete_entry_log [of db sd nm addr port d] by (elim exE conjE) simp
next
  case False
  then have "l = [] \<and> \<not> succeeded r"
    using assms
    by (auto simp: processUnregister_def returns_def act_bind_def act_conv_def act_throw_def act_ret_def answered_run
        split: if_splits sum.splits)
  then show ?thesis using unregister_sent_lookup [of "[]" sd nm addr port] by simp
qed

text \<open>The route of an unregistration: its parameters arrive as they were encoded.\<close>

lemma route_compare_hit:
  assumes "uri_inv (rq_uri req)" "no_nul path" "uri_rest (rq_uri req) = path @ t" "route_end t"
  shows "route_compare path k otherwise req = k (req\<lparr>rq_uri := (rq_uri req)\<lparr>uri_p := uri_p (rq_uri req) + length path\<rparr>\<rparr>)"
  using assms by (auto simp: route_compare_def compare_lit_correct advance_def)

lemma route_compare_miss:
  assumes "uri_inv (rq_uri req)" "no_nul path" "\<And>t. uri_rest (rq_uri req) = path @ t \<Longrightarrow> \<not> route_end t"
  shows "route_compare path k otherwise req = otherwise req"
  using assms by (auto simp: route_compare_def compare_lit_correct advance_def)

lemma route_consume_miss:
  assumes "uri_inv (rq_uri req)" "no_nul path" "\<And>t. uri_rest (rq_uri req) = path @ t \<Longrightarrow> \<not> segment_end t"
  shows "route_consume path k otherwise req = otherwise req"
  using assms by (auto simp: route_consume_def consume_lit_correct advance_def)

definition unregister_query :: "string \<Rightarrow> string \<Rightarrow> string \<Rightarrow> string \<Rightarrow> string" where
  "unregister_query sd nm addr port =
     ''/unregister'' @ query_text (CHR ''?'')
       [(''service_definition'', sd), (''system_name'', nm), (''address'', addr), (''port'', port)]"

lemma unregister_routed:
  assumes "rq_method req = ''DELETE''" "uri_inv (rq_uri req)" "uri_rest (rq_uri req) = unregister_query sd nm addr port"
  shows "serviceregistry_handle connects db req = processUnregister db sd nm addr port"
proof -
  let ?kvs = "[(''service_definition'', sd), (''system_name'', nm), (''address'', addr), (''port'', port)]"
  have p: "presents (new_Parser (rq_uri req)) ?kvs"
    using assms(3) by (intro presents_new [of _ "''/unregister''"]) (simp_all add: unregister_query_def del: query_text.simps)
  then have b: "parser_bool (new_Parser (rq_uri req))" by (auto simp: parser_bool_def star_def)
  have "route_end (query_text (CHR ''?'') ?kvs)" by (simp add: route_end_def)
  then have "route_compare ''/unregister'' k otherwise req =
      k (req\<lparr>rq_uri := (rq_uri req)\<lparr>uri_p := uri_p (rq_uri req) + length ''/unregister''\<rparr>\<rparr>)" for k otherwise :: "Request \<Rightarrow> 'a answer"
    using assms by (intro route_compare_hit) (simp_all add: unregister_query_def del: query_text.simps)
  then show ?thesis
    using assms(1) b
    by (simp add: serviceregistry_handle_def handleDELETE_def Let_def unregister_route_def read_query_presents [OF p]
        store_unregister_service_def)
qed

end
