(* ===== verification/SrQueries.thy ===== *)
theory SrQueries
  imports SrRegistration Payload_Laws
begin

text \<open>
  Queries of the service registry: which entries a query keeps and what a client reads in the answer,
  how the metadata of a registration meets the metadata of a query, and what a list sends to the
  database.
\<close>

section \<open>Metadata\<close>

lemma map_of_insert_new:
  "map_of (foldl (\<lambda>ps kv. insert_new kv ps) ps kvs) = map_of kvs ++ map_of ps"
proof (induction kvs arbitrary: ps)
  case (Cons kv kvs)
  then show ?case by (cases kv) (auto simp: insert_new_def map_add_def fun_eq_iff split: option.split)
qed simp

lemma metadata_pairs_of: "map_of (metadata_pairs m) = map_of (metadata_of m)"
  using map_of_insert_new [of "[]"] by (simp add: metadata_pairs_def metadata_of_def)

lemma getline_tokens_set: "t \<in> set (getline_tokens sep acc s) \<Longrightarrow> set t \<subseteq> set acc \<union> set s"
  by (induction sep acc s rule: getline_tokens.induct) (auto split: if_splits)

lemma metadata_of_set:
  assumes "(k, v) \<in> set (metadata_of m)"
  shows "set k \<subseteq> set m"
proof -
  obtain t where t: "t \<in> set (getline_tokens (CHR '','') [] m)" "(k, v) \<in> set (metadata_pair t)"
    using assms by (auto simp: metadata_of_def)
  then have "k \<in> set (getline_tokens (CHR ''='') [] t)"
    by (auto simp: metadata_pair_def split: list.splits if_splits) (metis list.set_intros(1))
  then show ?thesis using getline_tokens_set [OF t(1)] getline_tokens_set by fastforce
qed

text \<open>Stored metadata has no key with an upper-case letter or white space.\<close>

lemma stored_key_trimmed: "trimmed m \<Longrightarrow> map_of (metadata_of m) k = Some v \<Longrightarrow> trimmed k"
  using metadata_of_set [OF map_of_SomeD, of m k v] by (auto simp: trimmed_def)

text \<open>Tokens of a text that was joined from parts without the separator.\<close>

lemma getline_tokens_end: "sep \<notin> set t \<Longrightarrow> acc @ t \<noteq> [] \<Longrightarrow> getline_tokens sep acc t = [acc @ t]"
  by (induction t arbitrary: acc) auto

lemma getline_tokens_sep: "sep \<notin> set t \<Longrightarrow> getline_tokens sep acc (t @ sep # s) = (acc @ t) # getline_tokens sep [] s"
  by (induction t arbitrary: acc) auto

lemma getline_tokens_join:
  "(\<And>t. t \<in> set ts \<Longrightarrow> sep \<notin> set t \<and> t \<noteq> []) \<Longrightarrow> getline_tokens sep [] (join [sep] ts) = ts"
  by (induction ts rule: induct_list012) (simp_all add: getline_tokens_end getline_tokens_sep)

text \<open>Texts that a key or a value of the metadata can be stored as.\<close>

definition storable :: "string \<Rightarrow> bool" where
  "storable t \<longleftrightarrow> t \<noteq> [] \<and> CHR '','' \<notin> set t \<and> CHR ''='' \<notin> set t"

definition pair_of :: "string \<times> string \<Rightarrow> string" where
  "pair_of kv = fst kv @ ''='' @ snd kv"

lemma metadata_of_join:
  assumes "\<And>k v. (k, v) \<in> set kvs \<Longrightarrow> storable k \<and> storable v"
  shows "metadata_of (join '','' (map pair_of kvs)) = kvs"
proof -
  have "CHR '','' \<notin> set t \<and> t \<noteq> []" if "t \<in> set (map pair_of kvs)" for t
    using that assms by (fastforce simp: pair_of_def storable_def)
  then have "getline_tokens (CHR '','') [] (join '','' (map pair_of kvs)) = map pair_of kvs"
    by (rule getline_tokens_join)
  moreover have "metadata_pair (pair_of kv) = [kv]" if "kv \<in> set kvs" for kv
    using assms [of "fst kv" "snd kv"] that
    by (cases kv) (simp add: metadata_pair_def pair_of_def storable_def getline_tokens_sep getline_tokens_end)
  ultimately show ?thesis by (simp add: metadata_of_def cong: map_cong)
qed

text \<open>The scalars of a metadata object as text; members that are containers are skipped.\<close>

fun scalar_text :: "JsonValue \<Rightarrow> string option" where
  "scalar_text (JSON_NUMBER x) = map_option int_str (d_to_int x)"
| "scalar_text (JSON_STRING t) = Some t"
| "scalar_text JSON_TRUE = Some ''true''"
| "scalar_text JSON_FALSE = Some ''false''"
| "scalar_text _ = None"

lemma scalar_text_Some:
  assumes "scalar_text v = Some u"
  obtains (number) x n where "v = JSON_NUMBER x" "toInt v = Some n" "u = int_str n"
    | (string) "v = JSON_STRING u" | (true) "v = JSON_TRUE" "u = ''true''" | (false) "v = JSON_FALSE" "u = ''false''"
  using assms by (cases v rule: scalar_text.cases) auto

lemma metadata_text_scalars:
  assumes "list_all2 (\<lambda>kv u. scalar_text (snd kv) = Some u) kvs us"
  shows "metadata_text acc (nodes (JSON_OBJECT kvs)) = Some (acc @ concat (map (\<lambda>kv. pair_of kv @ '','') (zip (map fst kvs) us)))"
  using assms
  by (induction kvs us arbitrary: acc rule: list_all2_induct)
    (auto simp: pair_of_def elim!: scalar_text_Some)

lemma trim_append [simp]: "toLowerAndTrim (s @ t) = toLowerAndTrim s @ toLowerAndTrim t"
  by (simp add: toLowerAndTrim_def)

lemma trim_separators [simp]:
  "toLowerAndTrim [] = []" "toLowerAndTrim (CHR '','' # s) = CHR '','' # toLowerAndTrim s"
  "toLowerAndTrim (CHR ''='' # s) = CHR ''='' # toLowerAndTrim s"
proof -
  have "toLowerAndTrim '','' = '',''" "toLowerAndTrim ''='' = ''=''" by code_simp+
  then show "toLowerAndTrim (CHR '','' # s) = CHR '','' # toLowerAndTrim s"
    "toLowerAndTrim (CHR ''='' # s) = CHR ''='' # toLowerAndTrim s"
    using trim_append [of "'',''" s] trim_append [of "''=''" s] by simp_all
qed (simp add: toLowerAndTrim_def)

lemma trim_join: "toLowerAndTrim (join '','' ts) = join '','' (map toLowerAndTrim ts)"
  by (induction ts rule: induct_list012) simp_all

lemma trim_pair: "toLowerAndTrim (pair_of kv) = pair_of (map_prod toLowerAndTrim toLowerAndTrim kv)"
  by (simp add: pair_of_def)

lemma entry_metadata_scalars:
  assumes "list_all2 (\<lambda>kv u. scalar_text (snd kv) = Some u) kvs us" "kvs \<noteq> []"
  shows "entry_metadata (JSON_OBJECT kvs) =
    Some (join '','' (map pair_of (map (map_prod toLowerAndTrim toLowerAndTrim) (zip (map fst kvs) us))))"
proof -
  let ?ps = "zip (map fst kvs) us"
  have ne: "?ps \<noteq> []" using assms by (auto dest: list_all2_lengthD)
  have "metadata_text [] (nodes (JSON_OBJECT kvs)) = Some (join '','' (map pair_of ?ps) @ '','')"
    using metadata_text_scalars [OF assms(1), of "[]"] concat_commas [OF ne, of pair_of] by simp
  then show ?thesis
    by (simp add: entry_metadata_def present_def trim_join trim_pair comp_def del: nodes.simps)
qed

text \<open>Behind the loop over no members, the last character of an empty text is erased.\<close>

lemma empty_metadata: "entry_metadata (JSON_OBJECT []) = None"
  by (simp add: entry_metadata_def present_def)

text \<open>The metadata of a query: a value is trimmed when it is a string.\<close>

lemma trim_digits: "list_all isdigit s \<Longrightarrow> toLowerAndTrim s = s"
  by (induction s) (auto simp: toLowerAndTrim_def tolower_def isupper_def isspace_not_digit isdigit_neq_special(1) isdigit_def)

lemma trim_int_str: "toLowerAndTrim (int_str n) = int_str n"
proof -
  have "toLowerAndTrim ''-'' = ''-''" by code_simp
  then have "toLowerAndTrim (''-'' @ s) = CHR ''-'' # toLowerAndTrim s" for s by (simp only: trim_append) simp
  then show ?thesis using trim_digits [OF nat_str_digits] by (simp add: int_str_def)
qed

lemma metadata_requirements_scalars:
  assumes "list_all2 (\<lambda>kv u. scalar_text (snd kv) = Some u) kvs us"
  shows "metadata_requirements acc (nodes (JSON_OBJECT kvs)) =
    Some (foldl (\<lambda>ps kv. insert_new kv ps) acc (zip (map fst kvs) (map toLowerAndTrim us)))"
proof -
  have b: "toLowerAndTrim ''true'' = ''true''" "toLowerAndTrim ''false'' = ''false''" by code_simp+
  show ?thesis
    using assms
    by (induction kvs us arbitrary: acc rule: list_all2_induct)
      (auto simp: trim_int_str b elim!: scalar_text_Some)
qed

lemma insert_new_distinct:
  "distinct (map fst ps) \<Longrightarrow> distinct (map fst (foldl (\<lambda>ps kv. insert_new kv ps) ps kvs))"
  by (induction kvs arbitrary: ps) (auto simp: insert_new_def map_of_eq_None_iff)

text \<open>
  Metadata that a registration stores is found by a query for the same object, when its keys are in lower
  case without white space.
\<close>

lemma metadata_found:
  assumes "list_all2 (\<lambda>kv u. scalar_text (snd kv) = Some u) kvs us" "kvs \<noteq> []"
    "\<And>k. k \<in> fst ` set kvs \<Longrightarrow> toLowerAndTrim k = k \<and> storable k" "\<And>u. u \<in> set us \<Longrightarrow> storable (toLowerAndTrim u)"
  shows "\<exists>m reqs. entry_metadata (JSON_OBJECT kvs) = Some m
    \<and> metadata_requirements [] (nodes (JSON_OBJECT kvs)) = Some reqs
    \<and> map fst reqs \<noteq> [] \<and> list_all (\<lambda>(k, v). map_of (metadata_pairs m) k = Some v) reqs"
proof -
  let ?ps = "zip (map fst kvs) (map toLowerAndTrim us)"
  have ps: "map (map_prod toLowerAndTrim toLowerAndTrim) (zip (map fst kvs) us) = ?ps"
  proof -
    have "map toLowerAndTrim (map fst kvs) = map fst kvs" using assms(3) by (intro map_idI) auto
    then show ?thesis
      using zip_map_map [of toLowerAndTrim "map fst kvs" toLowerAndTrim us] by (simp only: map_prod_def)
  qed
  have "storable k \<and> storable v" if "(k, v) \<in> set ?ps" for k v
    using assms(3,4) set_zip_leftD [OF that] set_zip_rightD [OF that] by auto
  then have m: "metadata_of (join '','' (map pair_of ?ps)) = ?ps" by (rule metadata_of_join)
  define reqs where "reqs = foldl (\<lambda>ps kv. insert_new kv ps) [] ?ps"
  have "map_of reqs = map_of ?ps" unfolding reqs_def map_of_insert_new by simp
  moreover have "distinct (map fst reqs)" unfolding reqs_def by (rule insert_new_distinct) simp
  ultimately have "list_all (\<lambda>(k, v). map_of ?ps k = Some v) reqs"
    by (auto simp: list_all_iff dest: map_of_is_SomeI)
  moreover have "reqs \<noteq> []"
    using fun_cong [OF \<open>map_of reqs = map_of ?ps\<close>, of "fst (hd kvs)"] assms(2) list_all2_lengthD [OF assms(1)]
    by (cases kvs; cases us) auto
  ultimately show ?thesis
    using entry_metadata_scalars [OF assms(1,2)] metadata_requirements_scalars [OF assms(1), of "[]"]
    unfolding metadata_pairs_of ps reqs_def [symmetric] by (simp add: m)
qed

section \<open>Queries\<close>

text \<open>What a query asks of an entry.\<close>

definition reachable :: "(string \<Rightarrow> 16 word \<Rightarrow> bool) option \<Rightarrow> stSystem \<Rightarrow> bool" where
  "reachable connects s \<longleftrightarrow>
     (\<exists>connect_to. connects = Some connect_to \<and> connect_to (sy_address s) (word_of_int (number_of (sy_port s))))"

definition satisfies :: "(string \<Rightarrow> 16 word \<Rightarrow> bool) option \<Rightarrow> ServiceQueryForm \<Rightarrow> serviceQueryData \<Rightarrow> bool" where
  "satisfies connects form d \<longleftrightarrow>
     (qf_interfaces form = [] \<or> set (qf_interfaces form) \<inter> if_name ` set (sq_interfaces d) \<noteq> {})
     \<and> (qf_security form = [] \<or> sq_secure d \<in> set (qf_security form))
     \<and> (\<forall>n. qf_version form = Some n \<longrightarrow> number_of (sq_version d) = n)
     \<and> (\<forall>n. qf_minVersion form = Some n \<longrightarrow> n \<le> number_of (sq_version d))
     \<and> (\<forall>n. qf_maxVersion form = Some n \<longrightarrow> number_of (sq_version d) \<le> n)
     \<and> (\<forall>(k, v) \<in> set (qf_metadata form). map_of (metadata_of (sq_metadata d)) k = Some v)
     \<and> (qf_pingProviders form \<longrightarrow> reachable connects (sq_provider d))"

lemma check_version_number:
  "numeric v \<Longrightarrow> check_version p req v (Inr b) = Inr ((\<forall>n. req = Some n \<longrightarrow> p n (number_of v)) \<and> b)"
  using numericD [of v] by (cases req) (auto simp: check_version_def)

lemma pings_reachable: "numeric (sy_port s) \<Longrightarrow> pings connects s = Inr (reachable connects s)"
  using numericD [of "sy_port s"] by (auto simp: pings_def reachable_def split: option.split)

lemma keeps_satisfies:
  assumes "numeric (sq_version d)" "numeric (sy_port (sq_provider d))"
  shows "keeps connects form d = Inr (satisfies connects form d)"
proof -
  let ?i = "qf_interfaces form \<noteq> [] \<and> \<not> list_ex (\<lambda>i. list_ex (\<lambda>j. i = if_name j) (sq_interfaces d)) (qf_interfaces form)"
  let ?s = "qf_security form \<noteq> [] \<and> \<not> list_ex (\<lambda>s. s = sq_secure d) (qf_security form)"
  let ?m = "list_all (\<lambda>(k, v). map_of (metadata_pairs (sq_metadata d)) k = Some v) (qf_metadata form)"
  have e: "(if \<not> ?m then Inr False else if qf_pingProviders form then pings connects (sq_provider d) else Inr True)
      = Inr (?m \<and> (qf_pingProviders form \<longrightarrow> reachable connects (sq_provider d)))"
    using pings_reachable [OF assms(2)] by simp
  have i: "\<not> ?i \<longleftrightarrow> (qf_interfaces form = [] \<or> set (qf_interfaces form) \<inter> if_name ` set (sq_interfaces d) \<noteq> {})"
    by (auto simp: list_ex_iff)
  have s: "\<not> ?s \<longleftrightarrow> (qf_security form = [] \<or> sq_secure d \<in> set (qf_security form))" by (auto simp: list_ex_iff)
  have m: "?m \<longleftrightarrow> (\<forall>(k, v) \<in> set (qf_metadata form). map_of (metadata_of (sq_metadata d)) k = Some v)"
    by (simp add: list_all_iff metadata_pairs_of)
  show ?thesis
    unfolding keeps_def e check_version_number [OF assms(1)] satisfies_def i [symmetric] s [symmetric] m [symmetric]
    by (cases ?i; cases ?s) (auto simp: eq_commute)
qed

lemma filterQueryList_filter:
  "(\<And>d. d \<in> set ds \<Longrightarrow> keep d = Inr (p d)) \<Longrightarrow> filterQueryList keep ds = Inr (filter p ds)"
  by (induction ds) auto

section \<open>The answer to a query\<close>

definition query_json :: "nat \<Rightarrow> serviceQueryData list \<Rightarrow> json" where
  "query_json hits ds =
     JObject [(''serviceQueryData'', JArray (map (\<lambda>d. JObject (entry_json d)) ds)), (''unfilteredHits'', JInt (int hits))]"

lemma query_list_json:
  assumes "list_all plain_entry ds" "plain_scalar (JInt (int hits))"
  shows "\<exists>t. createServiceQueryList hits ds = Inr t \<and> reads_text t (query_json hits ds)"
proof -
  have "list_all2 adds (fill_entry addInt d) (entry_json d) \<and> fill_entry addInt d \<noteq> []" if "d \<in> set ds" for d
  proof -
    have "plain_entry d" using that assms(1) by (simp add: list_all_iff)
    then show ?thesis using entry_adds adds_Int fill_nonempty(3) by (simp add: plain_entry_def)
  qed
  then obtain ts where ts: "built_texts (map (fill_entry addInt) ds) = Inr ts"
    "list_all2 reads_text ts (map (\<lambda>d. JObject (entry_json d)) ds)"
    using built_texts_json [of ds "fill_entry addInt" entry_json] by blast
  have "list_all2 adds [addArray ''serviceQueryData'' ts, addInt_int ''unfilteredHits'' (int hits)]
      [(''serviceQueryData'', JArray (map (\<lambda>d. JObject (entry_json d)) ds)), (''unfilteredHits'', JInt (int hits))]"
    using adds_Array [OF _ ts(2), of "''serviceQueryData''"] adds_Int_int [OF _ assms(2), of "''unfilteredHits''"] by simp
  from built_text_json [OF this] ts(1) show ?thesis by (simp add: createServiceQueryList_def query_json_def)
qed

lemma entry_within: "within (Suc (Suc (Suc k))) (JObject (entry_json d))"
  by (auto simp: entry_json_def definition_json_def system_json_def interface_json_def metadata_json_def)

lemma query_within: "within max_depth (query_json hits ds)"
proof -
  have "within (max_depth - 1 - 1) (JObject (entry_json d))" for d
    using entry_within [of 195 d] by (simp add: max_depth_def)
  then show ?thesis by (auto simp: query_json_def max_depth_def)
qed

lemma leave_map_length: "leave_map f xs s = Some (Returned (Inr ys), s') \<Longrightarrow> length ys = length xs"
  by (induction xs arbitrary: s ys) (force simp: returned)+

lemma fillQueryList_nonempty: "fillQueryList db form s = Some (Returned (Inr ds), s') \<Longrightarrow> ds \<noteq> []"
  unfolding fillQueryList_def by (auto simp: returned dest!: leave_map_length)

lemma query_replies:
  assumes "jsonParse (rq_content req) = Parse JSON_PARSE_OK root" "parseQueryForm root = Some (Inr form)"
    "fillQueryList db form s = Some (Returned (Inr ds), s')" "list_all plain_entry ds"
    "plain_scalar (JInt (int (length ds)))"
  shows "\<exists>t. processQuery connects db req s = Some (Returned (ok_Response t), s')
    \<and> reads_text t (query_json (length ds) (filter (satisfies connects form) ds))"
proof -
  have "keeps connects form d = Inr (satisfies connects form d)" if "d \<in> set ds" for d
    using assms(4) that by (intro keeps_satisfies) (auto simp: list_all_iff plain_entry_def plain_system_def)
  then have f: "filterQueryList (keeps connects form) ds = Inr (filter (satisfies connects form) ds)"
    by (rule filterQueryList_filter)
  have "list_all plain_entry (filter (satisfies connects form) ds)" using assms(4) by (auto simp: list_all_iff)
  then obtain t where t: "createServiceQueryList (length ds) (filter (satisfies connects form) ds) = Inr t"
    "reads_text t (query_json (length ds) (filter (satisfies connects form) ds))"
    using query_list_json assms(5) by blast
  have "processQuery connects db req s = Some (Returned (ok_Response t), s')"
    using assms(1-3) fillQueryList_nonempty [OF assms(3)] f t(1)
    by (simp add: processQuery_def with_json_def act_bind_def act_conv_def act_ret_def respond_def returns_def)
  then show ?thesis using t(2) by blast
qed

lemma query_answered:
  assumes "jsonParse (rq_content req) = Parse JSON_PARSE_OK root" "parseQueryForm root = Some (Inr form)"
    "fillQueryList db form s = Some (Returned (Inr ds), s')" "list_all plain_entry ds"
    "plain_scalar (JInt (int (length ds)))"
  shows "\<exists>t. processQuery connects db req s = Some (Returned (ok_Response t), s')
    \<and> parser_parse STANDARD t = Done (query_json (length ds) (filter (satisfies connects form) ds)) []"
  using query_replies [OF assms] reads_text_parses [OF _ query_within] by blast

end
