(* ===== verification/OrchLaws.thy ===== *)
theory OrchLaws
  imports OrchConvert SrQueries AuthLaws
begin

text \<open>
  What the orchestrator does with the answers of the service registry and of the authorization service, on the level
  of the values they stand for: the entries of the registry, the grants of the authorization service, and the
  offers of the response.
\<close>

section \<open>Entries of the registry\<close>

definition entry_value :: "serviceQueryData \<Rightarrow> JsonValue" where
  "entry_value d = gason_value (JObject (entry_json d))"

definition interface_value :: "Interface \<Rightarrow> JsonValue" where
  "interface_value i = gason_value (JObject (interface_json i))"

definition system_value :: "stSystem \<Rightarrow> JsonValue" where
  "system_value s = gason_value (JObject (system_json s))"

definition definition_value :: "stServDef \<Rightarrow> JsonValue" where
  "definition_value s = gason_value (JObject (definition_json s))"

definition provider_id :: "serviceQueryData \<Rightarrow> int" where
  "provider_id d = number_of (sy_id (sq_provider d))"

definition interface_id :: "Interface \<Rightarrow> int" where
  "interface_id i = number_of (if_id i)"

definition definition_id :: "serviceQueryData \<Rightarrow> int" where
  "definition_id d = number_of (sd_id (sq_serviceDefinition d))"

lemma child_simps [simp]:
  "child key (JSON_OBJECT []) = Some JSON_NULL"
  "child key (JSON_OBJECT ((k, v) # kvs)) = (if take (length key) k = key then Some v else child key (JSON_OBJECT kvs))"
  by (simp_all add: child_def)

lemma entry_children [simp]:
  "child ''provider'' (entry_value d) = Some (system_value (sq_provider d))"
  "child ''serviceDefinition'' (entry_value d) = Some (definition_value (sq_serviceDefinition d))"
  "child ''interfaces'' (entry_value d) = Some (JSON_ARRAY (map interface_value (sq_interfaces d)))"
  "child ''serviceUri'' (entry_value d) = Some (JSON_STRING (sq_serviceUri d))"
  "child ''secure'' (entry_value d) = Some (JSON_STRING (sq_secure d))"
  "child ''endOfValidity'' (entry_value d) = Some (JSON_STRING (sq_endOfValidity d))"
  "child ''metadata'' (entry_value d) = Some (gason_value (metadata_json (shown_metadata (sq_metadata d))))"
  "child ''version'' (entry_value d) = Some (JSON_NUMBER (Finite (number_of (sq_version d)) 0))"
  by (simp_all add: entry_value_def entry_json_def system_value_def definition_value_def interface_value_def comp_def)

lemma id_children [simp]:
  "child ''id'' (system_value s) = Some (JSON_NUMBER (Finite (number_of (sy_id s)) 0))"
  "child ''id'' (definition_value sd) = Some (JSON_NUMBER (Finite (number_of (sd_id sd)) 0))"
  "child ''id'' (interface_value i) = Some (JSON_NUMBER (Finite (number_of (if_id i)) 0))"
  by (simp_all add: system_value_def system_json_def definition_value_def definition_json_def interface_value_def
      interface_json_def)

lemma numeric_toInt: "numeric t \<Longrightarrow> d_to_int (Finite (number_of t) 0) = Some (number_of t)"
  using numericD toInt_small by fastforce

lemma entry_ids:
  assumes "plain_entry d"
  shows "int_at ''provider'' ''id'' (entry_value d) = Some (provider_id d)"
    "int_at ''serviceDefinition'' ''id'' (entry_value d) = Some (definition_id d)"
  using assms
  by (simp_all add: int_at_def on_child_def numeric_toInt plain_entry_def plain_system_def plain_definition_def
      provider_id_def definition_id_def del: d_to_int.simps)

lemma interface_id_number: "plain_interface i \<Longrightarrow> d_to_int (Finite (number_of (if_id i)) 0) = Some (interface_id i)"
  by (simp add: numeric_toInt plain_interface_def interface_id_def del: d_to_int.simps)

lemma ids_of_interfaces: "list_all plain_interface is \<Longrightarrow> ids_of (map interface_value is) = Some (map interface_id is)"
  by (induction "is") (simp_all add: on_child_def interface_id_number del: d_to_int.simps)

lemma interfaces_present: "elements (JSON_ARRAY (map interface_value is)) = map interface_value is"
  by (auto simp: elements_def takeWhile_eq_all_conv present_def interface_value_def)

section \<open>The question to the authorization service\<close>

definition rule_json :: "serviceQueryData \<Rightarrow> json" where
  "rule_json d = JObject [(''id'', JInt (provider_id d)), (''idList'', JArray (map (\<lambda>i. JInt (interface_id i)) (sq_interfaces d)))]"

definition intra_rule_json :: "(string \<times> json) list \<Rightarrow> serviceQueryData list \<Rightarrow> json" where
  "intra_rule_json consumer ds =
     JObject [(''consumer'', JObject consumer), (''serviceDefinitionId'', JInt (definition_id (hd ds))),
       (''providerIdsWithInterfaceIds'', JArray (map rule_json ds))]"

lemma rule_keys_ok [simp]:
  "key_ok ''idList''" "key_ok ''consumer''" "key_ok ''serviceDefinitionId''" "key_ok ''providerIdsWithInterfaceIds''"
  "key_ok ''service''" "key_ok ''warnings''" "key_ok ''response''"
  by code_simp+

lemma small_ids:
  "plain_entry d \<Longrightarrow> plain_scalar (JInt (provider_id d)) \<and> plain_scalar (JInt (definition_id d))"
  "plain_interface i \<Longrightarrow> plain_scalar (JInt (interface_id i))"
  using numericD
  by (auto simp: plain_entry_def plain_system_def plain_definition_def plain_interface_def provider_id_def definition_id_def
      interface_id_def simp del: plain_scalar.simps)

lemma entry_interfaces: "plain_entry d \<Longrightarrow> list_all plain_interface (sq_interfaces d)"
  by (simp add: plain_entry_def)

lemma provider_rule_reads:
  assumes "plain_entry d"
  shows "\<exists>t. provider_rule (entry_value d) = Some t \<and> reads_text t (rule_json d)"
proof -
  let ?ids = "map interface_id (sq_interfaces d)"
  have "list_all2 reads_text (map int_str ?ids) (map JInt ?ids)"
    using entry_interfaces [OF assms] small_ids(2)
    by (intro reads_texts_map reads_int_text) (auto simp: list_all_iff simp del: plain_scalar.simps)
  then have "carries (to_arrayObj ''idList'' (map int_str ?ids) (write_int ''id'' (provider_id d) new_JsonBuilder))
      (([] @ [(''id'', JInt (provider_id d))]) @ [(''idList'', JArray (map JInt ?ids))])"
    using small_ids(1) [OF assms] by (intro carries_intros) simp_all
  from carries_str [OF this] show ?thesis
    using entry_ids(1) [OF assms] ids_of_interfaces [OF entry_interfaces [OF assms]]
    by (simp add: provider_rule_def on_child_def interfaces_present rule_json_def comp_def)
qed

lemma provider_rules_read:
  "list_all plain_entry ds \<Longrightarrow> \<exists>ts. provider_rules (map entry_value ds) = Some ts \<and> list_all2 reads_text ts (map rule_json ds)"
proof (induction ds)
  case (Cons d ds)
  then show ?case using provider_rule_reads [of d] by auto
qed simp

lemma intra_rule_reads:
  assumes "convertible (JObject consumer)" "rf_requesterSystem form = gason_value (JObject consumer)"
    "list_all plain_entry ds" "ds \<noteq> []"
  shows "\<exists>t. createIntraCloudRule form (map entry_value ds) = Some t \<and> reads_text t (intra_rule_json consumer ds)"
proof -
  obtain c where c: "converted (gason_value (JObject consumer)) = Some c" "reads_text c (JObject consumer)"
    using converted_reads [OF assms(1)] by blast
  obtain ts where ts: "provider_rules (map entry_value ds) = Some ts" "list_all2 reads_text ts (map rule_json ds)"
    using provider_rules_read [OF assms(3)] by blast
  have h: "plain_entry (hd ds)" using assms(3,4) by (cases ds) simp_all
  have "carries (to_arrayObj ''providerIdsWithInterfaceIds'' ts (write_int ''serviceDefinitionId'' (definition_id (hd ds))
      (writeObj ''consumer'' c new_JsonBuilder)))
    ((([] @ [(''consumer'', JObject consumer)]) @ [(''serviceDefinitionId'', JInt (definition_id (hd ds)))])
      @ [(''providerIdsWithInterfaceIds'', JArray (map rule_json ds))])"
    using c(2) ts(2) small_ids(1) [OF h] by (intro carries_intros) simp_all
  from carries_str [OF this] show ?thesis
    using c(1) ts(1) entry_ids(2) [OF h] assms(2,4)
    by (simp add: createIntraCloudRule_def intra_rule_json_def hd_map)
qed

section \<open>Grants\<close>

text \<open>
  The map from providers to interfaces as the function it stands for. Its keys are sorted, and a key is only there with
  an interface.
\<close>

definition map_ok :: "authorized \<Rightarrow> bool" where
  "map_ok m \<longleftrightarrow> sorted_wrt (<) (map fst m) \<and> (\<forall>(p, vs) \<in> set m. vs \<noteq> [])"

definition listed :: "authorized \<Rightarrow> int \<Rightarrow> JsonValue list" where
  "listed m p = (case map_of m p of None \<Rightarrow> [] | Some vs \<Rightarrow> vs)"

lemma add_authorized_keys: "set (map fst (add_authorized p v m)) = insert p (set (map fst m))"
  by (induction p v m rule: add_authorized.induct) auto

lemma add_authorized_ok: "map_ok m \<Longrightarrow> map_ok (add_authorized p v m)"
proof (induction p v m rule: add_authorized.induct)
  case (2 p v q vs m)
  then have m: "map_ok m" "\<forall>x \<in> set (map fst m). q < x" "vs \<noteq> []" by (auto simp: map_ok_def)
  show ?case
  proof (cases "q < p")
    case True
    then have "map_ok (add_authorized p v m)" "\<forall>x \<in> set (map fst (add_authorized p v m)). q < x"
      using 2 m add_authorized_keys [of p v m] by auto
    then show ?thesis using True m by (auto simp: map_ok_def)
  next
    case False
    then show ?thesis using 2(2) m by (fastforce simp: map_ok_def)
  qed
qed (simp add: map_ok_def)

lemma listed_add: "map_ok m \<Longrightarrow> listed (add_authorized p v m) = (listed m)(p := listed m p @ [v])"
proof (induction p v m rule: add_authorized.induct)
  case (2 p v q vs m)
  then have m: "map_ok m" "\<forall>x \<in> set (map fst m). q < x" by (auto simp: map_ok_def)
  have "p < q \<Longrightarrow> map_of m p = None" using m(2) by (force simp: map_of_eq_None_iff)
  moreover have "p \<noteq> q \<Longrightarrow> \<not> p < q \<Longrightarrow> listed (add_authorized p v m) = (listed m)(p := listed m p @ [v])"
    using 2(1) m(1) by blast
  ultimately show ?case by (auto simp: listed_def fun_eq_iff)
qed (auto simp: listed_def fun_eq_iff)

lemma map_of_listed: "map_ok m \<Longrightarrow> map_of m p = (if listed m p = [] then None else Some (listed m p))"
  by (auto simp: listed_def map_ok_def split: option.split dest!: map_of_SomeD)

definition add_all :: "int \<Rightarrow> JsonValue list \<Rightarrow> authorized \<Rightarrow> authorized" where
  "add_all p vs m = fold (add_authorized p) vs m"

lemma add_all_listed: "map_ok m \<Longrightarrow> map_ok (add_all p vs m) \<and> listed (add_all p vs m) = (listed m)(p := listed m p @ vs)"
  unfolding add_all_def by (induction vs arbitrary: m) (simp_all add: add_authorized_ok listed_add)

lemma fold_opt_fold: "(\<And>x s. x \<in> set xs \<Longrightarrow> f x s = Some (g x s)) \<Longrightarrow> fold_opt f xs s = Some (fold g xs s)"
  by (induction xs arbitrary: s) simp_all

type_synonym grant = "int \<times> int list"

definition grant_json :: "grant \<Rightarrow> json" where
  "grant_json g = JObject [(''id'', JInt (fst g)), (''idList'', JArray (map JInt (snd g)))]"

definition plain_grant :: "grant \<Rightarrow> bool" where
  "plain_grant g \<longleftrightarrow> plain_scalar (JInt (fst g)) \<and> (\<forall>a \<in> set (snd g). plain_scalar (JInt a))"

definition grants_value :: "grant list \<Rightarrow> JsonValue" where
  "grants_value gs = gason_value (JArray (map grant_json gs))"

text \<open>The interfaces of an entry that one grant allows, and all grants together.\<close>

definition allowed_by :: "serviceQueryData \<Rightarrow> grant \<Rightarrow> Interface list" where
  "allowed_by d g =
     (if fst g = provider_id d then concat (map (\<lambda>a. filter (\<lambda>i. interface_id i = a) (sq_interfaces d)) (snd g)) else [])"

definition allowed :: "grant list \<Rightarrow> serviceQueryData \<Rightarrow> Interface list" where
  "allowed gs d = concat (map (allowed_by d) gs)"

definition granted :: "grant list \<Rightarrow> serviceQueryData list \<Rightarrow> int \<Rightarrow> Interface list" where
  "granted gs ds p = concat (map (allowed gs) (filter (\<lambda>d. provider_id d = p) ds))"

lemma match_interfaces:
  assumes "list_all plain_interface is" "plain_scalar (JInt a)"
  shows "fold_opt (match_interface p (JSON_NUMBER (Finite a 0))) (map interface_value is) m
    = Some (add_all p (map interface_value (filter (\<lambda>i. interface_id i = a) is)) m)"
  using assms(1)
proof (induction "is" arbitrary: m)
  case (Cons i "is")
  then show ?case
    using toInt_small [OF assms(2)] interface_id_number [of i]
    by (simp add: match_interface_def on_child_def add_all_def del: d_to_int.simps)
qed (simp add: add_all_def)

lemma add_all_append: "add_all p (vs @ ws) m = add_all p ws (add_all p vs m)"
  by (simp add: add_all_def)

lemma add_all_concat: "fold (\<lambda>x. add_all p (f x)) xs m = add_all p (concat (map f xs)) m"
  by (induction xs arbitrary: m) (simp_all add: add_all_append, simp add: add_all_def)

lemma match_provider_grant:
  assumes "plain_entry d" "plain_grant g"
  shows "match_provider (provider_id d) (entry_value d) (gason_value (grant_json g)) m
    = Some (add_all (provider_id d) (map interface_value (allowed_by d g)) m)"
proof -
  let ?f = "\<lambda>a. map interface_value (filter (\<lambda>i. interface_id i = a) (sq_interfaces d))"
  let ?h = "\<lambda>v m. on_child ''interfaces'' (entry_value d) (\<lambda>is. fold_opt (match_interface (provider_id d) v) (node_values is) m)"
  have "fold_opt ?h (map (\<lambda>a. JSON_NUMBER (Finite a 0)) as) m = Some (fold (\<lambda>a. add_all (provider_id d) (?f a)) as m)"
    if "\<forall>a \<in> set as. plain_scalar (JInt a)" for as
    using that
  proof (induction as arbitrary: m)
    case (Cons a as)
    then show ?case using match_interfaces [OF entry_interfaces [OF assms(1)], of a]
      by (simp add: on_child_def node_values_def comp_def)
  qed simp
  from this [of "snd g"] show ?thesis
    using assms(2) toInt_small [of "fst g"] add_all_concat [of "provider_id d" ?f "snd g" m]
    by (auto simp: match_provider_def on_child_def grant_json_def allowed_by_def node_values_def comp_def map_concat
        plain_grant_def add_all_def simp del: d_to_int.simps plain_scalar.simps)
qed

lemma match_grants:
  assumes "plain_entry d" "list_all plain_grant gs"
  shows "fold_opt (match_provider (provider_id d) (entry_value d)) (node_values (grants_value gs)) m
    = Some (add_all (provider_id d) (map interface_value (allowed gs d)) m)"
  using assms(2)
proof (induction gs arbitrary: m)
  case (Cons g gs)
  then show ?case using match_provider_grant [OF assms(1), of g]
    by (simp add: node_values_def grants_value_def allowed_def add_all_append comp_def)
qed (simp add: node_values_def grants_value_def allowed_def add_all_def)

lemma filter_step:
  assumes "child ''authorizedProviderIdsWithInterfaceIds'' body = Some (grants_value gs)" "list_all plain_grant gs" "list_all plain_entry ds"
  shows "filter_authorized body (map entry_value ds)
    = Some (fold (\<lambda>d. add_all (provider_id d) (map interface_value (allowed gs d))) ds [])"
proof -
  let ?f = "\<lambda>provider m. Option.bind (int_at ''provider'' ''id'' provider) (\<lambda>p.
      on_child ''authorizedProviderIdsWithInterfaceIds'' body (\<lambda>rules. fold_opt (match_provider p provider) (node_values rules) m))"
  have "fold_opt ?f (map entry_value ds) m = Some (fold (\<lambda>d. add_all (provider_id d) (map interface_value (allowed gs d))) ds m)" for m
    using assms(3)
  proof (induction ds arbitrary: m)
    case (Cons d ds)
    then show ?case using match_grants [OF _ assms(2), of d m] entry_ids(1) [of d] assms(1) by (simp add: on_child_def)
  qed simp
  then show ?thesis by (simp add: filter_authorized_def)
qed

lemma filter_grants:
  assumes "child ''authorizedProviderIdsWithInterfaceIds'' body = Some (grants_value gs)" "list_all plain_grant gs" "list_all plain_entry ds"
  shows "\<exists>m. filter_authorized body (map entry_value ds) = Some m \<and> map_ok m
    \<and> (\<forall>p. listed m p = map interface_value (granted gs ds p))"
proof -
  have "map_ok (fold (\<lambda>d. add_all (provider_id d) (map interface_value (allowed gs d))) ds m)
    \<and> (\<forall>p. listed (fold (\<lambda>d. add_all (provider_id d) (map interface_value (allowed gs d))) ds m) p
         = listed m p @ map interface_value (granted gs ds p))" if "map_ok m" for m
    using that
  proof (induction ds arbitrary: m)
    case (Cons d ds)
    then show ?case using add_all_listed [OF Cons.prems, of "provider_id d" "map interface_value (allowed gs d)"]
      by (simp add: granted_def)
  qed (simp add: granted_def)
  from this [of "[]"] show ?thesis using filter_step [OF assms] by (simp add: map_ok_def listed_def)
qed

section \<open>The response\<close>

text \<open>One offer: what the client learns of a provider.\<close>

definition warnings_of :: "Clock \<Rightarrow> serviceQueryData \<Rightarrow> string list" where
  "warnings_of clock d =
     (let t = ck_time clock (sq_endOfValidity d) in
      if t < ck_now clock then [''TTL_EXPIRED''] else if t + 120 < ck_now clock then [''TTL_EXPIRING''] else [])"

definition offer_json :: "Clock \<Rightarrow> grant list \<Rightarrow> serviceQueryData list \<Rightarrow> serviceQueryData \<Rightarrow> json" where
  "offer_json clock gs ds d =
     JObject [(''provider'', JObject (system_json (sq_provider d))), (''service'', JObject (definition_json (sq_serviceDefinition d))),
       (''serviceUri'', JString (sq_serviceUri d)), (''secure'', JString (sq_secure d)),
       (''metadata'', metadata_json (shown_metadata (sq_metadata d))), (''version'', JInt (number_of (sq_version d))),
       (''interfaces'', JArray (map (\<lambda>i. JObject (interface_json i)) (granted gs ds (provider_id d)))),
       (''warnings'', JArray (map JString (warnings_of clock d)))]"

text \<open>An entry whose response needs no token and is well formed: the metadata must not be empty.\<close>

definition offerable :: "serviceQueryData \<Rightarrow> bool" where
  "offerable d \<longleftrightarrow>
     plain_entry d \<and> metadata_of (shown_metadata (sq_metadata d)) \<noteq> [] \<and> toLowerAndTrim (sq_secure d) \<noteq> ''token''"

lemma record_converted:
  "plain_system s \<Longrightarrow> \<exists>t. converted (system_value s) = Some t \<and> reads_text t (JObject (system_json s))"
  "plain_definition sd \<Longrightarrow> \<exists>t. converted (definition_value sd) = Some t \<and> reads_text t (JObject (definition_json sd))"
  "plain_interface i \<Longrightarrow> \<exists>t. converted (interface_value i) = Some t \<and> reads_text t (JObject (interface_json i))"
  unfolding system_value_def definition_value_def interface_value_def using numericD
  by (intro converted_record;
      simp add: plain_record_def system_json_def definition_json_def interface_json_def plain_system_def
        plain_definition_def plain_interface_def del: plain_scalar.simps)+

lemma metadata_converted:
  assumes "plain_metadata m" "metadata_of m \<noteq> []"
  shows "\<exists>t. converted (gason_value (metadata_json m)) = Some t \<and> reads_text t (metadata_json m)"
  unfolding metadata_json_def using assms
  by (intro converted_record) (auto simp: plain_record_def plain_metadata_def)

lemma interfaces_converted:
  "list_all plain_interface is \<Longrightarrow> \<exists>ts. converted_list (map interface_value is) = Some ts
    \<and> list_all2 reads_text ts (map (\<lambda>i. JObject (interface_json i)) is)"
proof (induction "is")
  case (Cons i "is")
  then show ?case using record_converted(3) [of i] by auto
qed simp

lemma response_head_holds:
  assumes "offerable d"
  shows "\<exists>os. response_head (entry_value d) = Some os
    \<and> carries os [(''provider'', JObject (system_json (sq_provider d))), (''service'', JObject (definition_json (sq_serviceDefinition d))),
       (''serviceUri'', JString (sq_serviceUri d)), (''secure'', JString (sq_secure d)),
       (''metadata'', metadata_json (shown_metadata (sq_metadata d))), (''version'', JInt (number_of (sq_version d)))]"
proof -
  have d: "plain_system (sq_provider d)" "plain_definition (sq_serviceDefinition d)" "plain (sq_serviceUri d)" "plain (sq_secure d)"
    "plain_metadata (shown_metadata (sq_metadata d))" "numeric (sq_version d)"
    using assms by (simp_all add: offerable_def plain_entry_def)
  obtain p where p: "converted (system_value (sq_provider d)) = Some p" "reads_text p (JObject (system_json (sq_provider d)))"
    using record_converted(1) [OF d(1)] by blast
  obtain sd where sd: "converted (definition_value (sq_serviceDefinition d)) = Some sd"
    "reads_text sd (JObject (definition_json (sq_serviceDefinition d)))"
    using record_converted(2) [OF d(2)] by blast
  obtain md where md: "converted (gason_value (metadata_json (shown_metadata (sq_metadata d)))) = Some md"
    "reads_text md (metadata_json (shown_metadata (sq_metadata d)))"
    using metadata_converted d(5) assms by (auto simp: offerable_def)
  let ?os = "write_int ''version'' (number_of (sq_version d)) (writeObj ''metadata'' md (write_string ''secure'' (sq_secure d)
    (write_string ''serviceUri'' (sq_serviceUri d) (writeObj ''service'' sd (writeObj ''provider'' p new_JsonBuilder)))))"
  have "carries ?os (((((([] @ [(''provider'', JObject (system_json (sq_provider d)))]) @ [(''service'', JObject (definition_json (sq_serviceDefinition d)))])
      @ [(''serviceUri'', JString (sq_serviceUri d))]) @ [(''secure'', JString (sq_secure d))])
      @ [(''metadata'', metadata_json (shown_metadata (sq_metadata d)))]) @ [(''version'', JInt (number_of (sq_version d)))])"
    using p sd md d numericD [OF d(6)] by (intro carries_intros) simp_all
  moreover have "response_head (entry_value d) = Some ?os"
    using p sd md numeric_toInt [OF d(6)]
    by (simp add: response_head_def add_converted_def add_text_def on_child_def on_text_def del: d_to_int.simps)
  ultimately show ?thesis by simp
qed

lemma plainI: "list_all plain_char s \<Longrightarrow> plain s"
  unfolding plain_def plain_scalar.simps by (rule dump_plain_chars) (simp add: list_all_iff)

lemma warnings_read:
  "\<exists>w. calculateOrchestratorWarnings clock (entry_value d) = Some w
    \<and> list_all2 reads_text (if w \<noteq> [] then [w] else []) (map JString (warnings_of clock d))"
proof -
  have "plain ''TTL_EXPIRED''" "plain ''TTL_EXPIRING''" by (rule plainI; simp add: plain_char_def)+
  then have "reads_text (quoted ''TTL_EXPIRED'') (JString ''TTL_EXPIRED'')"
    "reads_text (quoted ''TTL_EXPIRING'') (JString ''TTL_EXPIRING'')"
    by (simp_all only: reads_quoted)
  then show ?thesis
    by (simp add: calculateOrchestratorWarnings_def warnings_of_def on_child_def on_text_def present_def Let_def quoted_def)
qed

lemma granted_plain: "list_all plain_entry ds \<Longrightarrow> list_all plain_interface (granted gs ds p)"
  by (auto simp: granted_def allowed_def allowed_by_def list_all_iff plain_entry_def split: if_splits)

lemma element_offered:
  assumes "offerable d" "list_all plain_entry ds" "map_ok m" "listed m (provider_id d) = map interface_value (granted gs ds (provider_id d))"
  shows "\<exists>r. response_element send clock m consumer (entry_value d) w = Some (Returned r, w)
    \<and> (case r of None \<Rightarrow> granted gs ds (provider_id d) = []
         | Some t \<Rightarrow> granted gs ds (provider_id d) \<noteq> [] \<and> reads_text t (offer_json clock gs ds d))"
proof -
  let ?is = "granted gs ds (provider_id d)"
  obtain os where os: "response_head (entry_value d) = Some os"
    "carries os [(''provider'', JObject (system_json (sq_provider d))), (''service'', JObject (definition_json (sq_serviceDefinition d))),
       (''serviceUri'', JString (sq_serviceUri d)), (''secure'', JString (sq_secure d)),
       (''metadata'', metadata_json (shown_metadata (sq_metadata d))), (''version'', JInt (number_of (sq_version d)))]"
    using response_head_holds [OF assms(1)] by blast
  obtain ts where ts: "converted_list (map interface_value ?is) = Some ts"
    "list_all2 reads_text ts (map (\<lambda>i. JObject (interface_json i)) ?is)"
    using interfaces_converted [OF granted_plain [OF assms(2)]] by blast
  obtain x where x: "calculateOrchestratorWarnings clock (entry_value d) = Some x"
    "list_all2 reads_text (if x \<noteq> [] then [x] else []) (map JString (warnings_of clock d))"
    using warnings_read by blast
  let ?t = "builder_str (to_arrayObj ''warnings'' (if x \<noteq> [] then [x] else []) (to_arrayObj ''interfaces'' ts os))"
  have "reads_text ?t (offer_json clock gs ds d)"
    using carries_str [OF carries_array [OF carries_array [OF os(2) _ ts(2), of "''interfaces''"] _ x(2), of "''warnings''"]]
    by (simp add: offer_json_def)
  moreover have "int_at ''provider'' ''id'' (entry_value d) = Some (provider_id d)" "toLowerAndTrim (sq_secure d) \<noteq> ''token''"
    using assms(1) entry_ids(1) by (auto simp: offerable_def)
  ultimately show ?thesis
    using os(1) ts(1) x(1) assms(4) map_of_listed [OF assms(3), of "provider_id d"]
    by (cases "?is = []")
      (simp_all add: response_element_def act_bind_def act_ret_def on_child_def Let_def)
qed

definition response_json :: "Clock \<Rightarrow> grant list \<Rightarrow> serviceQueryData list \<Rightarrow> serviceQueryData list \<Rightarrow> json" where
  "response_json clock gs ds cs =
     JObject [(''response'', JArray (map (offer_json clock gs ds) (filter (\<lambda>d. granted gs ds (provider_id d) \<noteq> []) cs)))]"

lemma elements_offered:
  assumes "list_all offerable cs" "list_all plain_entry ds" "map_ok m" "\<And>p. listed m p = map interface_value (granted gs ds p)"
  shows "\<exists>rs. act_map (response_element send clock m consumer) (map entry_value cs) w = Some (Returned rs, w)
    \<and> list_all2 reads_text (concat (map (case_option [] (\<lambda>t. [t])) rs))
        (map (offer_json clock gs ds) (filter (\<lambda>d. granted gs ds (provider_id d) \<noteq> []) cs))"
  using assms(1)
proof (induction cs)
  case (Cons d cs)
  then obtain rs where rs: "act_map (response_element send clock m consumer) (map entry_value cs) w = Some (Returned rs, w)"
    "list_all2 reads_text (concat (map (case_option [] (\<lambda>t. [t])) rs))
        (map (offer_json clock gs ds) (filter (\<lambda>d. granted gs ds (provider_id d) \<noteq> []) cs))" by auto
  obtain r where r: "response_element send clock m consumer (entry_value d) w = Some (Returned r, w)"
    "case r of None \<Rightarrow> granted gs ds (provider_id d) = []
         | Some t \<Rightarrow> granted gs ds (provider_id d) \<noteq> [] \<and> reads_text t (offer_json clock gs ds d)"
    using element_offered [OF _ assms(2,3) assms(4), of d send clock consumer w] Cons.prems by auto
  then show ?case using rs by (auto simp: act_bind_def act_ret_def split: option.splits)
qed (simp add: act_ret_def)

lemma response_offered:
  assumes "list_all offerable cs" "list_all plain_entry ds" "map_ok m" "\<And>p. listed m p = map interface_value (granted gs ds p)"
  shows "\<exists>t. createOrchestrationResponse send clock (map entry_value cs) m consumer w = Some (Returned (ok_Response t), w)
    \<and> reads_text t (response_json clock gs ds cs)"
proof -
  obtain rs where rs: "act_map (response_element send clock m consumer) (map entry_value cs) w = Some (Returned rs, w)"
    "list_all2 reads_text (concat (map (case_option [] (\<lambda>t. [t])) rs))
        (map (offer_json clock gs ds) (filter (\<lambda>d. granted gs ds (provider_id d) \<noteq> []) cs))"
    using elements_offered [OF assms, of send clock consumer w] by blast
  show ?thesis
    using rs(1) carries_str [OF carries_array [OF carries_new _ rs(2), of "''response''"]]
    by (auto simp: createOrchestrationResponse_def act_bind_def returns_def response_json_def)
qed

section \<open>The choice\<close>

lemma no_response_reads: "\<exists>t. no_response = ok_Response t \<and> reads_text t (JObject [(''response'', JArray [])])"
proof -
  have "reads_text (''['' @ join '','' [] @ '']'') (JArray [])" by (rule reads_text_array) simp
  then have "reads_member (DQUOTE # ''response'' @ [DQUOTE] @ '':'' @ ''[]'') (''response'', JArray [])"
    by (intro reads_memberI_tight) simp_all
  then have "reads_text (''{'' @ join '','' [DQUOTE # ''response'' @ [DQUOTE] @ '':'' @ ''[]''] @ ''}'') (JObject [(''response'', JArray [])])"
    by (intro reads_text_object) simp
  then show ?thesis by (auto simp: no_response_def quoted_def)
qed

lemma filter_opt_subset: "filter_opt p (map f xs) = Some ys \<Longrightarrow> \<exists>zs. ys = map f zs \<and> set zs \<subseteq> set xs"
proof (induction xs arbitrary: ys)
  case (Cons x xs)
  then obtain b us where b: "filter_opt p (map f xs) = Some us" "ys = (if b then f x # us else us)"
    by (auto simp: bind_eq_Some_conv)
  then obtain zs where "us = map f zs" "set zs \<subseteq> set xs" using Cons.IH by blast
  then show ?case using b(2) by (intro exI [of _ "if b then x # zs else zs"]) auto
qed simp

lemma find_provider_member: "find_provider p (map f xs) = Some (Some v) \<Longrightarrow> \<exists>x \<in> set xs. v = f x"
  by (induction xs) (auto simp: bind_eq_Some_conv split: if_splits)

lemma found_subset:
  assumes "find_provider p (map f ds) = Some r"
  shows "\<exists>cs. case_option (map f ds) (\<lambda>v. [v]) r = map f cs \<and> set cs \<subseteq> set ds"
proof (cases r)
  case (Some v)
  then obtain x where "x \<in> set ds" "v = f x" using find_provider_member assms by blast
  then show ?thesis using Some by (intro exI [of _ "[x]"]) simp
qed auto

lemma chosen_subset:
  assumes "chosen rnd mm op (map f ds) (map f ps) m = Some vs" "set ps \<subseteq> set ds" "op \<Longrightarrow> ps \<noteq> []"
  shows "\<exists>cs. vs = map f cs \<and> set cs \<subseteq> set ds"
proof (cases op)
  case True
  then have "ps ! (rnd mod length ps) \<in> set ds" using assms(2,3) by (meson length_greater_0_conv mod_less_divisor nth_mem subsetD)
  moreover have "vs = map f (if mm then [ps ! (rnd mod length ps)] else ps)"
    using assms(1) assms(3) True by (simp add: chosen_def split: if_splits)
  ultimately show ?thesis using assms(2) by (intro exI [of _ "if mm then [ps ! (rnd mod length ps)] else ps"]) simp
next
  case False
  show ?thesis
  proof (cases mm)
    case True
    then obtain r where "find_provider (fst (m ! (rnd mod length m))) (map f ds) = Some r" "vs = case_option (map f ds) (\<lambda>v. [v]) r"
      using False assms(1) by (auto simp: chosen_def)
    then show ?thesis using found_subset [of _ f ds r] by blast
  qed (use False assms(1) in \<open>auto simp: chosen_def\<close>)
qed

section \<open>Orchestration\<close>

text \<open>
  The answers of the other services: the registry offers the entries \<open>ds\<close> and the authorization service answers
  the question about them with \<open>gs\<close>.
\<close>

definition answers :: "'w sender \<Rightarrow> ServiceRequestForm \<Rightarrow> serviceQueryData list \<Rightarrow> grant list \<Rightarrow> 'w \<Rightarrow> 'w \<Rightarrow> bool" where
  "answers send form ds gs w w2 \<longleftrightarrow>
     (\<exists>payload t1 w1 root rule t2 body.
        Option.bind (rf_requestedService form) converted = Some payload
        \<and> send ''POST'' ''https://127.0.0.1/query'' 16220 payload w = ((sc_int OK, t1), w1)
        \<and> jsonParse t1 = Parse JSON_PARSE_OK root
        \<and> child ''serviceQueryData'' root = Some (JSON_ARRAY (map entry_value ds))
        \<and> createIntraCloudRule form (map entry_value ds) = Some rule
        \<and> send ''POST'' ''https://127.0.0.1/intracloud/check'' 16221 rule w1 = ((sc_int OK, t2), w2)
        \<and> jsonParse t2 = Parse JSON_PARSE_OK body
        \<and> child ''authorizedProviderIdsWithInterfaceIds'' body = Some (grants_value gs))"

lemma orchestration_reaches_choice:
  assumes "checkServiceRequestForm form = Some 0" "answers send form ds gs w w2" "ds \<noteq> []"
    "list_all offerable ds" "list_all plain_grant gs"
  shows "\<exists>m. map_ok m \<and> (\<forall>p. listed m p = map interface_value (granted gs ds p))
    \<and> dynamicOrchestration send clock rnd form errURL w =
        (if m = [] then returns no_response else orchestrate send clock rnd form (map entry_value ds) m) w2"
proof -
  have "list_all plain_entry ds" using assms(4) by (auto simp: list_all_iff offerable_def)
  obtain payload t1 w1 root rule t2 body where a:
    "Option.bind (rf_requestedService form) converted = Some payload"
    "send ''POST'' ''https://127.0.0.1/query'' 16220 payload w = ((sc_int OK, t1), w1)"
    "jsonParse t1 = Parse JSON_PARSE_OK root" "child ''serviceQueryData'' root = Some (JSON_ARRAY (map entry_value ds))"
    "createIntraCloudRule form (map entry_value ds) = Some rule"
    "send ''POST'' ''https://127.0.0.1/intracloud/check'' 16221 rule w1 = ((sc_int OK, t2), w2)"
    "jsonParse t2 = Parse JSON_PARSE_OK body"
    "child ''authorizedProviderIdsWithInterfaceIds'' body = Some (grants_value gs)"
    using assms(2) unfolding answers_def by blast
  obtain m where m: "filter_authorized body (map entry_value ds) = Some m" "map_ok m"
    "\<forall>p. listed m p = map interface_value (granted gs ds p)"
    using filter_grants [OF a(8) assms(5) \<open>list_all plain_entry ds\<close>] by blast
  have "queryAuthorization send form (map entry_value ds) w1 = Some (Returned (Some m), w2)"
    using a(5-7) m(1) by (simp add: queryAuthorization_def act_bind_def act_ret_def act_send_def parsed_reply_def)
  moreover have "queryServiceRegistry send form w = Some (Returned (Some t1), w1)"
    using a(1,2) by (simp add: queryServiceRegistry_def act_bind_def act_ret_def act_send_def)
  moreover have "node_values (JSON_ARRAY (map entry_value ds)) = map entry_value ds"
    by (simp add: node_values_def comp_def)
  ultimately have "dynamicOrchestration send clock rnd form errURL w =
      (if m = [] then returns no_response else orchestrate send clock rnd form (map entry_value ds) m) w2"
    using assms(1,3) a(3,4)
    by (simp add: dynamicOrchestration_def act_bind_def act_ret_def parsed_reply_def on_child_def)
  then show ?thesis using m by blast
qed

lemma offerable_plain: "list_all offerable ds \<Longrightarrow> list_all plain_entry ds"
  by (auto simp: list_all_iff offerable_def)

text \<open>Without flags, every provider with a grant is offered.\<close>

lemma orchestration_offers:
  assumes "checkServiceRequestForm form = Some 0" "answers send form ds gs w w2" "ds \<noteq> []"
    "list_all offerable ds" "list_all plain_grant gs" "converted (rf_requesterSystem form) \<noteq> None"
    "\<not> getFlagValue form ''onlyPreferred''" "\<not> getFlagValue form ''matchmaking''"
  shows "\<exists>t. dynamicOrchestration send clock rnd form errURL w = Some (Returned (ok_Response t), w2)
    \<and> reads_text t (response_json clock gs ds ds)"
proof -
  obtain m where m: "map_ok m" "\<And>p. listed m p = map interface_value (granted gs ds p)"
    "dynamicOrchestration send clock rnd form errURL w =
        (if m = [] then returns no_response else orchestrate send clock rnd form (map entry_value ds) m) w2"
    using orchestration_reaches_choice [OF assms(1-5)] by blast
  show ?thesis
  proof (cases "m = []")
    case True
    then have "granted gs ds p = []" for p using m(2) [of p] by (simp add: listed_def)
    then have "response_json clock gs ds ds = JObject [(''response'', JArray [])]" by (simp add: response_json_def)
    then show ?thesis using True m(3) no_response_reads by (auto simp: returns_def)
  next
    case False
    obtain c where "converted (rf_requesterSystem form) = Some c" using assms(6) by blast
    then show ?thesis
      using False m(3) assms(7,8) response_offered [OF assms(4) offerable_plain [OF assms(4)] m(1,2), of send clock c w2]
      by (simp add: orchestrate_def act_bind_def act_ret_def chosen_def)
  qed
qed

text \<open>With any flags, the providers that are offered are among those with a grant.\<close>

lemma orchestrate_Returned:
  assumes "orchestrate send clock rnd form qd m w = Some (Returned resp, w')"
  shows "\<exists>pv. (if getFlagValue form ''onlyPreferred'' then selectPreferred form qd else Some []) = Some pv
    \<and> ((getFlagValue form ''onlyPreferred'' \<and> pv = [] \<and> resp = no_response \<and> w' = w)
       \<or> (\<exists>c vs. (getFlagValue form ''onlyPreferred'' \<longrightarrow> pv \<noteq> [])
            \<and> chosen rnd (getFlagValue form ''matchmaking'') (getFlagValue form ''onlyPreferred'') qd pv m = Some vs
            \<and> createOrchestrationResponse send clock vs m c w = Some (Returned resp, w')))"
proof -
  obtain pv where pv: "(if getFlagValue form ''onlyPreferred'' then selectPreferred form qd else Some []) = Some pv"
    and run: "(if getFlagValue form ''onlyPreferred'' \<and> pv = [] then returns no_response
      else act_bind (act_the (converted (rf_requesterSystem form))) (\<lambda>c.
        act_bind (act_the (chosen rnd (getFlagValue form ''matchmaking'') (getFlagValue form ''onlyPreferred'') qd pv m)) (\<lambda>vs.
          createOrchestrationResponse send clock vs m c))) w = Some (Returned resp, w')"
    using assms unfolding orchestrate_def Let_def act_bind_Returned act_the_Returned by blast
  show ?thesis
  proof (cases "getFlagValue form ''onlyPreferred'' \<and> pv = []")
    case True
    then show ?thesis using pv run by (simp add: returns_Returned)
  next
    case False
    then have "(act_bind (act_the (converted (rf_requesterSystem form))) (\<lambda>c.
        act_bind (act_the (chosen rnd (getFlagValue form ''matchmaking'') (getFlagValue form ''onlyPreferred'') qd pv m)) (\<lambda>vs.
          createOrchestrationResponse send clock vs m c))) w = Some (Returned resp, w')"
      using run by (simp only: if_False)
    then show ?thesis using pv False unfolding act_bind_Returned act_the_Returned by blast
  qed
qed

lemma preferred_subset:
  assumes "(if b then selectPreferred form (map f ds) else Some []) = Some pv"
  shows "\<exists>ps. pv = map f ps \<and> set ps \<subseteq> set ds"
  using assms filter_opt_subset [of _ f ds pv] by (auto simp: selectPreferred_def split: if_splits option.splits)

lemma orchestration_safe:
  assumes "checkServiceRequestForm form = Some 0" "answers send form ds gs w w2" "ds \<noteq> []"
    "list_all offerable ds" "list_all plain_grant gs"
    "dynamicOrchestration send clock rnd form errURL w = Some (Returned resp, w')"
  shows "\<exists>t cs. resp = ok_Response t \<and> w' = w2 \<and> set cs \<subseteq> set ds \<and> reads_text t (response_json clock gs ds cs)"
proof -
  obtain m where m: "map_ok m" "\<And>p. listed m p = map interface_value (granted gs ds p)"
    "dynamicOrchestration send clock rnd form errURL w =
        (if m = [] then returns no_response else orchestrate send clock rnd form (map entry_value ds) m) w2"
    using orchestration_reaches_choice [OF assms(1-5)] by blast
  have none: ?thesis if "resp = no_response" "w' = w2"
  proof -
    have "response_json clock gs ds [] = JObject [(''response'', JArray [])]" by (simp add: response_json_def)
    then show ?thesis using that no_response_reads by (metis empty_subsetI list.set(1))
  qed
  show ?thesis
  proof (cases "m = []")
    case False
    then have "orchestrate send clock rnd form (map entry_value ds) m w2 = Some (Returned resp, w')"
      using m(3) assms(6) by simp
    from orchestrate_Returned [OF this] obtain pv where pv: "(if getFlagValue form ''onlyPreferred'' then selectPreferred form (map entry_value ds) else Some []) = Some pv"
      and run: "(getFlagValue form ''onlyPreferred'' \<and> pv = [] \<and> resp = no_response \<and> w' = w2)
       \<or> (\<exists>c vs. (getFlagValue form ''onlyPreferred'' \<longrightarrow> pv \<noteq> [])
            \<and> chosen rnd (getFlagValue form ''matchmaking'') (getFlagValue form ''onlyPreferred'') (map entry_value ds) pv m = Some vs
            \<and> createOrchestrationResponse send clock vs m c w2 = Some (Returned resp, w'))"
      by (elim exE conjE)
    obtain ps where ps: "pv = map entry_value ps" "set ps \<subseteq> set ds" using preferred_subset [OF pv] by blast
    from run show ?thesis
    proof (elim disjE exE conjE)
      fix c vs
      assume ne: "getFlagValue form ''onlyPreferred'' \<longrightarrow> pv \<noteq> []"
        and vs: "chosen rnd (getFlagValue form ''matchmaking'') (getFlagValue form ''onlyPreferred'') (map entry_value ds) pv m = Some vs"
        and r: "createOrchestrationResponse send clock vs m c w2 = Some (Returned resp, w')"
      obtain cs where cs: "vs = map entry_value cs" "set cs \<subseteq> set ds"
        using chosen_subset [OF vs [unfolded ps(1)] ps(2)] ps(1) ne by blast
      have "list_all offerable cs" using cs(2) assms(4) by (auto simp: list_all_iff)
      then show ?thesis
        using response_offered [OF _ offerable_plain [OF assms(4)] m(1,2), of cs send clock c w2] r cs by auto
    qed (use none in blast)
  qed (use m(3) assms(6) none in \<open>auto simp: returns_def\<close>)
qed

text \<open>Without a restriction to preferred providers, a response is always sent.\<close>

lemma find_provider_total: "list_all plain_entry ds \<Longrightarrow> \<exists>r. find_provider p (map entry_value ds) = Some r"
  by (induction ds) (auto simp: entry_ids)

lemma orchestration_returns:
  assumes "checkServiceRequestForm form = Some 0" "answers send form ds gs w w2" "ds \<noteq> []"
    "list_all offerable ds" "list_all plain_grant gs" "converted (rf_requesterSystem form) \<noteq> None"
    "\<not> getFlagValue form ''onlyPreferred''"
  shows "\<exists>resp. dynamicOrchestration send clock rnd form errURL w = Some (Returned resp, w2)"
proof -
  obtain m where m: "map_ok m" "\<And>p. listed m p = map interface_value (granted gs ds p)"
    "dynamicOrchestration send clock rnd form errURL w =
        (if m = [] then returns no_response else orchestrate send clock rnd form (map entry_value ds) m) w2"
    using orchestration_reaches_choice [OF assms(1-5)] by blast
  obtain c where c: "converted (rf_requesterSystem form) = Some c" using assms(6) by blast
  obtain vs where vs: "chosen rnd (getFlagValue form ''matchmaking'') False (map entry_value ds) [] m = Some vs"
    using find_provider_total [OF offerable_plain [OF assms(4)]] by (fastforce simp: chosen_def)
  then obtain cs where cs: "vs = map entry_value cs" "set cs \<subseteq> set ds"
    using chosen_subset [of rnd _ False entry_value ds "[]" m vs] by auto
  have "list_all offerable cs" using cs(2) assms(4) by (auto simp: list_all_iff)
  then have "\<exists>t. createOrchestrationResponse send clock vs m c w2 = Some (Returned (ok_Response t), w2)"
    using response_offered [OF _ offerable_plain [OF assms(4)] m(1,2), of cs send clock c w2] cs(1) by blast
  then show ?thesis
    using m(3) c vs assms(7) by (auto simp: orchestrate_def act_bind_def act_ret_def returns_def)
qed

end
