(* ===== verification/SrLists.thy ===== *)
theory SrLists
  imports SrRegistration
begin

text \<open>
  The lists of the service registry: no route of a \<open>GET\<close> request sends anything but a \<open>SELECT\<close>, and
  what follows it in a list is the text of the client.
\<close>

section \<open>Reading only\<close>

lemma emits_leave [emits_intros]: "emits P (act_leave r)"
  unfolding act_leave_def by (rule emits_ret)

lemma emits_then [emits_intros]: "emits P x \<Longrightarrow> (\<And>v. emits P (f v)) \<Longrightarrow> emits P (act_then x f)"
  unfolding act_then_def by (auto intro!: emits_intros split: sum.split)

lemma emits_leave_map [emits_intros]: "(\<And>x. emits P (f x)) \<Longrightarrow> emits P (leave_map f xs)"
  by (induction xs) (auto intro!: emits_intros)

lemma emits_map [emits_intros]: "(\<And>x. emits P (f x)) \<Longrightarrow> emits P (act_map f xs)"
  by (induction xs) (auto intro!: emits_intros)

lemma emits_go [emits_intros]: "emits P x \<Longrightarrow> emits P (act_go x)"
  unfolding act_go_def by (auto intro!: emits_intros)

lemma emits_conv [emits_intros]: "emits P (act_conv x)"
  unfolding act_conv_def by (auto intro!: emits_intros split: sum.split)

lemma emits_answered [emits_intros]: "emits P x \<Longrightarrow> emits P (answered x)"
  unfolding answered_def by (auto intro!: emits_intros)

lemma emits_respond [emits_intros]: "emits P (respond t)"
  unfolding respond_def by (auto intro!: emits_intros)

lemma emits_fetch_first [emits_intros]: "P q \<Longrightarrow> emits P (fetch_first (traced db) q n f)"
  unfolding fetch_first_def by (auto intro!: emits_intros split: list.split)

lemma emits_fetch [emits_intros]:
  "P q \<Longrightarrow> (\<And>rows. emits P (f rows)) \<Longrightarrow> emits P (act_bind (act_db (db_fetch (traced db) q)) f)"
  by (simp add: emits_intros)

lemma emits_on_query [emits_intros]: "(\<And>u. q = Inr u \<Longrightarrow> emits P (k u)) \<Longrightarrow> emits P (on_query q k)"
  unfolding on_query_def by (auto intro!: emits_intros split: sum.split)

lemma selects_literal [simp]:
  "selects (CHR ''S'' # CHR ''E'' # CHR ''L'' # CHR ''E'' # CHR ''C'' # CHR ''T'' # CHR '' '' # s)"
  by (simp add: selects_def)

lemma selects_prefix: "selects q \<Longrightarrow> 7 \<le> length q \<Longrightarrow> selects (q @ t)"
  by (simp add: selects_def)

lemma list_query_prefix: "list_query origin q pg = Inr u \<Longrightarrow> \<exists>c. u = q @ c"
  by (auto simp: list_query_def map_sum_Inr)

lemma select_texts [simp]:
  "selects (select_id table i)" "selects (select_quoted table column v)"
  by (simp_all add: select_id_def select_quoted_def selects_def)

lemma entry_selects: "emits selects (processServiceRegistryEntry (traced db) i)"
  unfolding processServiceRegistryEntry_def stored_interface_def
  by (auto intro!: emits_intros simp del: traced_simps)

lemma entry_texts_selects: "selects q \<Longrightarrow> emits selects (entry_texts (traced db) origin q)"
  unfolding entry_texts_def entry_text_def
  by (auto intro!: emits_intros entry_selects simp del: traced_simps split: sum.split)

lemma processSystem_selects: "emits selects (processSystem (traced db) i)"
  unfolding processSystem_def by (auto intro!: emits_intros simp del: traced_simps)

lemma list_selects: "list_query origin q pg = Inr u \<Longrightarrow> selects q \<Longrightarrow> 7 \<le> length q \<Longrightarrow> selects u"
  using list_query_prefix selects_prefix by blast

lemma get_selects:
  "emits selects (processMgmtGet (traced db) pg)"
  "emits selects (processMgmtGetSystems (traced db) pg)"
  "emits selects (processMgmtGetServices (traced db) pg)"
  unfolding processMgmtGet_def processMgmtGetSystems_def processMgmtGetServices_def systems_of_def
  by (auto intro!: emits_intros entry_texts_selects processSystem_selects elim!: list_selects
      simp del: traced_simps split: prod.split)

lemma get_definition_selects: "emits selects (processMgmtGetServiceDef (traced db) sd pg)"
  unfolding processMgmtGetServiceDef_def Let_def
  by (auto intro!: emits_intros entry_texts_selects elim!: list_selects simp del: traced_simps)

lemma get_id_selects:
  "emits selects (processMgmtGetId (traced db) i)"
  "emits selects (processMgmtGetSystemsId (traced db) i)"
  "emits selects (processMgmtGetServicesId (traced db) i)"
  "emits selects (processQuerySystemId (traced db) i)"
  unfolding processMgmtGetId_def processMgmtGetSystemsId_def processMgmtGetServicesId_def processQuerySystemId_def
    processServiceDefinition_def
  by (auto intro!: emits_intros entry_selects processSystem_selects simp del: traced_simps
      split: sum.split option.split list.split prod.split)

lemma grouped_selects: "emits selects (processMgmtGetGrouped (traced db))"
  unfolding processMgmtGetGrouped_def group_text_def
  by (intro emits_intros entry_texts_selects processSystem_selects)
    (auto intro!: emits_intros simp del: traced_simps split: prod.split)

text \<open>Routes.\<close>

lemma emits_route [emits_intros]:
  "(\<And>req. emits P (k req)) \<Longrightarrow> (\<And>req. emits P (otherwise req)) \<Longrightarrow> emits P (route_compare path k otherwise req)"
  "(\<And>req. emits P (k req)) \<Longrightarrow> (\<And>req. emits P (otherwise req)) \<Longrightarrow> emits P (route_consume path k otherwise req)"
  unfolding route_compare_def route_consume_def by (auto intro!: emits_intros split: option.split prod.split)

lemma emits_path_id [emits_intros]:
  "(\<And>i req. emits P (g i req)) \<Longrightarrow> (\<And>req. emits P (otherwise req)) \<Longrightarrow> emits P (with_path_id g otherwise req)"
  unfolding with_path_id_def by (auto intro!: emits_intros split: option.split sum.split prod.split)

lemma emits_paging [emits_intros]: "(\<And>pg. emits P (k pg)) \<Longrightarrow> emits P (with_paging k req)"
  unfolding with_paging_def by (auto intro!: emits_intros split: option.split prod.split)

lemma emits_servicedef [emits_intros]:
  "(\<And>req. emits selects (otherwise req)) \<Longrightarrow> emits selects (route_servicedef (traced db) otherwise req)"
  unfolding route_servicedef_def
  by (auto intro!: emits_intros get_definition_selects split: option.split prod.split)

lemma handleGET_selects: "emits selects (handleGET (traced db) req)"
  unfolding handleGET_def route_id_def sr_not_found_def
  by (intro emits_intros get_selects get_id_selects grouped_selects)

section \<open>The order of a list\<close>

text \<open>The text behind \<open>direction\<close> becomes part of the statement.\<close>

definition ordered_systems :: "string \<Rightarrow> string" where
  "ordered_systems direction =
     ''SELECT id FROM system_ ORDER BY id '' @ direction @ '' LIMIT '' @ int_str 0x7FFFFFFF"

lemma ordered_list_query:
  "direction \<noteq> [] \<Longrightarrow>
    list_query origin ''SELECT id FROM system_'' (no_paging\<lparr>pg_sortField := ''id'', pg_direction := direction\<rparr>)
      = Inr (ordered_systems direction)"
  by (simp add: list_query_def order_clause_def page_clause_def no_paging_def ordered_systems_def)

definition systems_query :: "string \<Rightarrow> string" where
  "systems_query direction =
     ''/mgmt/systems'' @ query_text (CHR ''?'') [(''sort_field'', ''id''), (''direction'', direction)]"

lemma systems_routed:
  assumes "rq_method req = ''GET''" "uri_inv (rq_uri req)" "uri_rest (rq_uri req) = systems_query direction"
  shows "serviceregistry_handle connects db req =
    processMgmtGetSystems db (no_paging\<lparr>pg_sortField := ''id'', pg_direction := direction\<rparr>)"
proof -
  let ?kvs = "[(''sort_field'', ''id''), (''direction'', direction)]"
  define req' where "req' = req\<lparr>rq_uri := (rq_uri req)\<lparr>uri_p := uri_p (rq_uri req) + length ''/mgmt/systems''\<rparr>\<rparr>"
  have u: "uri_rest (rq_uri req) = ''/mgmt/systems'' @ query_text (CHR ''?'') ?kvs"
    using assms(3) by (simp only: systems_query_def)
  have "uri_rest (rq_uri req') = [] @ query_text (CHR ''?'') ?kvs"
    using rest_after(3) [OF assms(2) u] by (simp add: req'_def del: query_text.simps)
  then have "presents (new_Parser (rq_uri req')) ?kvs" by (rule presents_new) simp_all
  then have p: "with_paging k req' = k (no_paging\<lparr>pg_sortField := ''id'', pg_direction := direction\<rparr>)" for k :: "Paging \<Rightarrow> 'a answer"
    unfolding with_paging_def read_query_presents [OF \<open>presents _ _\<close>] by (simp add: store_paging_def act_conv_def)
  have "route_end (query_text (CHR ''?'') ?kvs)" by (simp add: route_end_def)
  then have h: "route_compare ''/mgmt/systems'' k otherwise req = k req'" for k otherwise :: "Request \<Rightarrow> 'a answer"
    unfolding req'_def by (intro route_compare_hit [OF assms(2) _ u]) simp_all
  have m: "route_compare ''/echo'' k otherwise req = otherwise req"
    "route_consume ''/query/system'' k otherwise req = otherwise req"
    "route_compare ''/mgmt/grouped'' k otherwise req = otherwise req" for k otherwise :: "Request \<Rightarrow> 'a answer"
    using u by (auto intro!: route_compare_miss route_consume_miss assms(2))
  show ?thesis using assms(1) by (simp add: serviceregistry_handle_def handleGET_def m h p)
qed

lemma direction_sent:
  assumes "direction \<noteq> []" "rq_method req = ''GET''" "uri_inv (rq_uri req)"
    "uri_rest (rq_uri req) = systems_query direction"
    "serviceregistry_handle connects (traced db) req (d, []) = Some (r, (d', l))"
  shows "l \<noteq> [] \<and> hd l = ordered_systems direction"
proof -
  let ?k = "\<lambda>rows. if rows = [] then act_leave (ErrorResp (empty_response ''system_'') INVALID_PARAMETER ''serviceregistry/mgmt/systems'')
      else act_bind (systems_of (traced db) rows) (\<lambda>ss.
        act_bind (act_conv (createSystemList ss)) (\<lambda>t. act_ret (Inr (ok_Response t))))"
  have e: "emits selects (?k rows)" for rows
    unfolding systems_of_def by (auto intro!: emits_intros processSystem_selects split: prod.split)
  obtain r0 where "act_bind (act_db (logged (ordered_systems direction) (db_fetch db (ordered_systems direction)))) ?k (d, []) = Some (r0, (d', l))"
    using assms(5) unfolding systems_routed [OF assms(2-4)] processMgmtGetSystems_def ordered_list_query [OF assms(1)]
    by (auto simp: answered_run on_query_def)
  then show ?thesis using e unfolding emits_def
    by (fastforce simp: act_bind_def act_db_logged split: prod.splits sum.splits)
qed

end
