(* ===== verification/OrchService.thy ===== *)
theory OrchService
  imports OrchLaws SrLists
begin

text \<open>
  The orchestrator together with the services it asks. The web client delivers a payload to the
  service registry or to the authorization service and returns the response of its handler; what
  the one writes with the builder, the other reads with \<open>gason\<close> or with the JSON reader.
\<close>

section \<open>The services behind the web client\<close>

definition registry_service ::
  "(string \<Rightarrow> 16 word \<Rightarrow> bool) option \<Rightarrow> 'd Database \<Rightarrow> string \<Rightarrow> string \<Rightarrow> 'd answer" where
  "registry_service connects db addr payload = serviceregistry_handle connects db (new_Request addr ''POST'' ''/query'' payload)"

definition check_service :: "'d Database \<Rightarrow> string \<Rightarrow> string \<Rightarrow> 'd answer" where
  "check_service db addr payload = intra_check_handle db (new_Request addr ''POST'' ''/intracloud/check'' payload)"

definition delivers :: "'w sender \<Rightarrow> string \<Rightarrow> int \<Rightarrow> (string \<Rightarrow> 'w answer) \<Rightarrow> bool" where
  "delivers send url port service \<longleftrightarrow>
     (\<forall>payload w r w'. service payload w = Some (Returned r, w') \<longrightarrow>
        send ''POST'' url port payload w = ((sc_int (rs_status_code r), rs_content r), w'))"

lemma deliversD:
  "delivers send url port service \<Longrightarrow> service payload w = Some (Returned (ok_Response t), w') \<Longrightarrow>
    send ''POST'' url port payload w = ((sc_int OK, t), w')"
  by (fastforce simp: delivers_def ok_Response_def new_Response_def)

lemma query_routed:
  "\<exists>req. rq_content req = payload \<and> registry_service connects db addr payload = processQuery connects db req"
proof -
  let ?req = "new_Request addr ''POST'' ''/query'' payload"
  have r: "uri_inv (rq_uri ?req)" "uri_rest (rq_uri ?req) = ''/query''" "rq_content ?req = payload" "rq_method ?req = ''POST''"
    by (simp_all add: new_Request_def)
  have "route_compare ''/register'' k h ?req = h ?req" "route_compare ''/mgmt'' k h ?req = h ?req"
    for k h :: "Request \<Rightarrow> 'a answer"
    using r by (auto intro!: route_compare_miss)
  moreover have "route_compare ''/query'' k h ?req = k (?req\<lparr>rq_uri := (rq_uri ?req)\<lparr>uri_p := uri_p (rq_uri ?req) + length ''/query''\<rparr>\<rparr>)"
    for k h :: "Request \<Rightarrow> 'a answer"
    using r by (intro route_compare_hit [of _ _ "[]"]) (simp_all add: route_end_def)
  ultimately show ?thesis
    using r
    by (intro exI [of _ "?req\<lparr>rq_uri := (rq_uri ?req)\<lparr>uri_p := uri_p (rq_uri ?req) + length ''/query''\<rparr>\<rparr>"])
      (simp add: registry_service_def serviceregistry_handle_def handlePOST_def Let_def)
qed

section \<open>What the services understand\<close>

lemma query_depth: "json_depth (gason_value (query_json hits ds)) \<le> JSON_STACK_SIZE"
  by (auto simp: query_json_def entry_json_def system_json_def definition_json_def interface_json_def metadata_json_def
      foldr_max_le JSON_STACK_SIZE_def comp_def)

text \<open>A system that asks for a service.\<close>

definition consumer_json :: "TokenSystem \<Rightarrow> (string \<times> json) list" where
  "consumer_json c =
     [(''systemName'', JString (ts_systemName c)), (''address'', JString (ts_address c)), (''port'', JInt (ts_port c)),
      (''authenticationInfo'', JString (ts_authenticationInfo c))]"

definition plain_consumer :: "TokenSystem \<Rightarrow> bool" where
  "plain_consumer c \<longleftrightarrow>
     plain (ts_systemName c) \<and> plain (ts_address c) \<and> plain_scalar (JInt (ts_port c)) \<and> plain (ts_authenticationInfo c)"

lemma consumer_convertible: "plain_consumer c \<Longrightarrow> convertible (JObject (consumer_json c))"
  by (intro plain_record_convertible)
    (simp add: plain_record_def consumer_json_def plain_consumer_def del: plain_scalar.simps)

text \<open>The question about the entries, as the authorization service models it.\<close>

definition rule_model :: "TokenSystem \<Rightarrow> serviceQueryData list \<Rightarrow> IntraCloudCheck" where
  "rule_model c ds =
     \<lparr>icc_address = ts_address c, icc_authenticationInfo = ts_authenticationInfo c, icc_port = ts_port c,
      icc_systemName = ts_systemName c,
      icc_providers = map (\<lambda>d. (word_of_int (provider_id d), map interface_id (sq_interfaces d))) ds,
      icc_serviceDefinitionId = definition_id (hd ds)\<rparr>"

lemma int_elements: "pmap (int_element msg) (map JInt ns) = Parsed ns"
  by (induction ns) (simp_all add: int_element_def)

lemma rule_entries: "pmap provider_entry (map rule_json ds) = Parsed (map (\<lambda>d. (provider_id d, map interface_id (sq_interfaces d))) ds)"
proof (induction ds)
  case (Cons d ds)
  have "provider_entry (rule_json d) = Parsed (provider_id d, map interface_id (sq_interfaces d))"
    using int_elements [of _ "map interface_id (sq_interfaces d)"]
    by (simp add: provider_entry_def rule_json_def object_find_def sub_member_def comp_def)
  then show ?case using Cons by simp
qed simp

lemma rule_within: "within max_depth (intra_rule_json (consumer_json c) ds)"
  by (simp add: intra_rule_json_def consumer_json_def rule_json_def max_depth_def)

lemma rule_understood:
  assumes "reads_text t (intra_rule_json (consumer_json c) ds)"
  shows "intra_check_parse t = Parsed (rule_model c ds)"
proof -
  have "nul_free (intra_rule_json (consumer_json c) ds)"
    by (simp add: intra_rule_json_def consumer_json_def rule_json_def)
  then have "new_JsonView t STANDARD = Done (Inr (intra_rule_json (consumer_json c) ds)) []"
    using sent_and_viewed [OF assms _ rule_within] by blast
  then have "root_object msg t = Parsed [(''consumer'', JObject (consumer_json c)),
      (''serviceDefinitionId'', JInt (definition_id (hd ds))), (''providerIdsWithInterfaceIds'', JArray (map rule_json ds))]" for msg
    by (simp add: root_object_def intra_rule_json_def)
  then show ?thesis
    by (simp add: intra_check_parse_def service_definition_id_def object_find_def int_element_def object_member_of_def
        consumer_json_def string_member_def sub_member_def provider_entries_def rule_entries rule_model_def comp_def)
qed

text \<open>The grants the rows of a check stand for.\<close>

definition grants_of :: "Row list \<Rightarrow> grant list" where
  "grants_of rows = map (\<lambda>run. (long_at 7 (hd run), map (long_at 8) run)) (runs (long_at 7) rows)"

lemma check_grants:
  "child ''authorizedProviderIdsWithInterfaceIds''
      (gason_value (check_answer ''consumer'' consumer_fields (long_at 7) (long_at 8) sd rows)) = Some (grants_value (grants_of rows))"
  by (simp add: check_answer_def grants_value_def grants_of_def check_json_def grant_json_def comp_def)

lemma grants_plain:
  assumes "plain_check consumer_fields 7 8 sd rows"
  shows "list_all plain_grant (grants_of rows)"
proof -
  have "plain_grant (long_at 7 (hd run), map (long_at 8) run)" if "run \<in> set (runs (long_at 7) rows)" for run
  proof -
    have "run \<noteq> []" using run_same_key [OF that] by blast
    then have "\<forall>r \<in> set run. r \<in> set rows" "hd run \<in> set rows" using run_subset [OF that] by auto
    then show ?thesis using assms by (auto simp: plain_grant_def plain_check_def simp del: plain_scalar.simps)
  qed
  then show ?thesis by (auto simp: grants_of_def list_all_iff)
qed

lemma grant_rows:
  "(\<exists>g \<in> set (grants_of rows). fst g = p \<and> n \<in> set (snd g)) \<longleftrightarrow> (\<exists>r \<in> set rows. long_at 7 r = p \<and> long_at 8 r = n)"
proof
  assume "\<exists>g \<in> set (grants_of rows). fst g = p \<and> n \<in> set (snd g)"
  then obtain run r where r: "run \<in> set (runs (long_at 7) rows)" "long_at 7 (hd run) = p" "r \<in> set run" "long_at 8 r = n"
    by (auto simp: grants_of_def)
  then have "long_at 7 r = p" using run_same_key [OF r(1)] by metis
  then show "\<exists>r \<in> set rows. long_at 7 r = p \<and> long_at 8 r = n" using run_subset [OF r(1,3)] r(4) by blast
next
  assume "\<exists>r \<in> set rows. long_at 7 r = p \<and> long_at 8 r = n"
  then obtain r where r: "r \<in> set (concat (runs (long_at 7) rows))" "long_at 7 r = p" "long_at 8 r = n"
    unfolding concat_runs by blast
  then obtain run where run: "run \<in> set (runs (long_at 7) rows)" "r \<in> set run" by auto
  then have "long_at 7 (hd run) = p" using run_same_key [OF run(1)] r(2) by metis
  then show "\<exists>g \<in> set (grants_of rows). fst g = p \<and> n \<in> set (snd g)"
    using run r(3) by (intro bexI [of _ "(long_at 7 (hd run), map (long_at 8) run)"]) (auto simp: grants_of_def)
qed

lemma granted_rows:
  "i \<in> set (granted (grants_of rows) ds p) \<longleftrightarrow>
    (\<exists>d \<in> set ds. provider_id d = p \<and> i \<in> set (sq_interfaces d))
     \<and> (\<exists>r \<in> set rows. long_at 7 r = p \<and> long_at 8 r = interface_id i)"
proof -
  have "i \<in> set (allowed gs d) \<longleftrightarrow> i \<in> set (sq_interfaces d) \<and> (\<exists>g \<in> set gs. fst g = provider_id d \<and> interface_id i \<in> set (snd g))" for gs d
    by (auto simp: allowed_def allowed_by_def split: if_splits)
  then show ?thesis unfolding granted_def using grant_rows [of rows p "interface_id i"] by auto
qed

lemma scalar_depth: "plain_scalar v \<Longrightarrow> json_depth (gason_value v) = 0"
  by (cases v) simp_all

lemma check_depth:
  assumes "plain_items fds (hd rows) 0"
  shows "json_depth (gason_value (check_answer who fds k g sd rows)) \<le> JSON_STACK_SIZE"
proof -
  have "json_depth (gason_value (snd kv)) = 0" if "kv \<in> set (items_json fds (hd rows) 0)" for kv
    using assms that scalar_depth by (auto simp: plain_items_def)
  then have "foldr max (map (\<lambda>kv. json_depth (gason_value (snd kv))) (items_json fds (hd rows) 0)) 0 \<le> 0"
    unfolding foldr_max_le by auto
  then show ?thesis
    by (auto simp: check_answer_def check_json_def foldr_max_le JSON_STACK_SIZE_def comp_def case_prod_unfold)
qed

section \<open>Request forms\<close>

text \<open>
  A form that was parsed has a service and the name of its definition, so the check behind the parser never finds
  an error: the code returns its status when it is 0, and the other errors need a preferred provider.
\<close>

lemma parsed_form:
  assumes "parseRequestForm True root = Some (Inr form)"
  shows "rf_requestedService form \<noteq> None" "rf_serviceDefinitionReq form \<noteq> []"
proof -
  have "rf_requestedService form \<noteq> None \<and> rf_serviceDefinitionReq form \<noteq> []"
    using assms
    by (auto simp: parseRequestForm_def requested_service_def on_child_def on_text_def on_checked_def leave_with_def accept_def
        bind_eq_Some_conv split: if_splits sum.splits)
  then show "rf_requestedService form \<noteq> None" "rf_serviceDefinitionReq form \<noteq> []" by auto
qed

lemma form_never_rejected:
  assumes "parseRequestForm True root = Some (Inr form)" "checkServiceRequestForm form = Some n"
  shows "n = 0"
  using parsed_form [OF assms(1)] assms(2)
  by (auto simp: checkServiceRequestForm_def validateCrossParameterConstraints_def bind_eq_Some_conv
      split: if_splits option.splits)

lemma preferred_error_dropped:
  assumes "parseRequestForm True root = Some (Inr form)" "getFlagValue form ''onlyPreferred''" "rf_preferredProviders form = None"
  shows "validateCrossParameterConstraints form = Some (3, []) \<and> checkServiceRequestForm form = Some 0"
  using parsed_form [OF assms(1)] assms(2,3)
  by (auto simp: checkServiceRequestForm_def validateCrossParameterConstraints_def)

lemma plain_form_accepted:
  assumes "parseRequestForm True root = Some (Inr form)" "\<not> getFlagValue form ''onlyPreferred''"
  shows "checkServiceRequestForm form = Some 0"
  using parsed_form [OF assms(1)] assms(2)
  by (auto simp: checkServiceRequestForm_def validateCrossParameterConstraints_def)

section \<open>From the request to the response\<close>

text \<open>What the database holds: the registry finds \<open>ds\<close> for the service, and the check finds \<open>rows\<close> for them.\<close>

definition registry_offers ::
  "(string \<Rightarrow> 16 word \<Rightarrow> bool) option \<Rightarrow> 'd Database \<Rightarrow> (string \<times> json) list \<Rightarrow> serviceQueryData list \<Rightarrow> 'd \<Rightarrow> 'd \<Rightarrow> bool" where
  "registry_offers connects db service ds w w1 \<longleftrightarrow>
     (\<exists>q hits. parseQueryForm (gason_value (JObject service)) = Some (Inr q)
        \<and> fillQueryList db q w = Some (Returned (Inr hits), w1) \<and> list_all offerable hits
        \<and> plain_scalar (JInt (int (length hits))) \<and> ds = filter (satisfies connects q) hits
        \<and> gason_ok (query_json (length hits) ds))"

definition check_finds :: "'d Database \<Rightarrow> TokenSystem \<Rightarrow> serviceQueryData list \<Rightarrow> Row list \<Rightarrow> 'd \<Rightarrow> 'd \<Rightarrow> bool" where
  "check_finds db c ds rows w1 w2 \<longleftrightarrow>
     db_fetch db (intra_check_query db (rule_model c ds)) w1 = (Inr rows, w2) \<and> rows \<noteq> []
     \<and> plain_check consumer_fields 7 8 (definition_id (hd ds)) rows
     \<and> gason_ok (check_answer ''consumer'' consumer_fields (long_at 7) (long_at 8) (definition_id (hd ds)) rows)"

lemma registry_reply:
  assumes "registry_offers connects db service ds w w1" "convertible (JObject service)" "gason_ok (JObject service)"
    "json_depth (gason_value (JObject service)) \<le> JSON_STACK_SIZE"
  shows "\<exists>payload t root. converted (gason_value (JObject service)) = Some payload
    \<and> registry_service connects db addr payload w = Some (Returned (ok_Response t), w1)
    \<and> jsonParse t = Parse JSON_PARSE_OK root \<and> child ''serviceQueryData'' root = Some (JSON_ARRAY (map entry_value ds))"
proof -
  obtain payload where p: "converted (gason_value (JObject service)) = Some payload"
    "jsonParse payload = Parse JSON_PARSE_OK (gason_value (JObject service))"
    using conversion_read_back [OF assms(2-4)] by blast
  obtain q hits where q: "parseQueryForm (gason_value (JObject service)) = Some (Inr q)"
    "fillQueryList db q w = Some (Returned (Inr hits), w1)" "list_all offerable hits" "plain_scalar (JInt (int (length hits)))"
    "ds = filter (satisfies connects q) hits" "gason_ok (query_json (length hits) ds)"
    using assms(1) unfolding registry_offers_def by blast
  obtain req where req: "rq_content req = payload" "registry_service connects db addr payload = processQuery connects db req"
    using query_routed by blast
  obtain t where t: "processQuery connects db req w = Some (Returned (ok_Response t), w1)"
    "reads_text t (query_json (length hits) ds)"
    using query_replies [OF _ q(1,2) offerable_plain [OF q(3)] q(4), of req connects] p(2) req(1) q(5) by auto
  have "jsonParse t = Parse JSON_PARSE_OK (gason_value (query_json (length hits) ds))"
    using sent_and_read [OF t(2) q(6) query_depth] .
  moreover have "child ''serviceQueryData'' (gason_value (query_json (length hits) ds)) = Some (JSON_ARRAY (map entry_value ds))"
    by (simp add: query_json_def entry_value_def comp_def)
  ultimately show ?thesis using p(1) req(2) t(1) by auto
qed

lemma check_reply:
  assumes "check_finds db c ds rows w1 w2" "reads_text rule (intra_rule_json (consumer_json c) ds)"
  shows "\<exists>t body. check_service db addr rule w1 = Some (Returned (ok_Response t), w2) \<and> jsonParse t = Parse JSON_PARSE_OK body
    \<and> child ''authorizedProviderIdsWithInterfaceIds'' body = Some (grants_value (grants_of rows))"
proof -
  have c: "db_fetch db (intra_check_query db (rule_model c ds)) w1 = (Inr rows, w2)" "rows \<noteq> []"
    "plain_check consumer_fields 7 8 (icc_serviceDefinitionId (rule_model c ds)) rows"
    "gason_ok (check_answer ''consumer'' consumer_fields (long_at 7) (long_at 8) (icc_serviceDefinitionId (rule_model c ds)) rows)"
    using assms(1) by (simp_all add: check_finds_def rule_model_def)
  have "intra_check_parse (rq_content (new_Request addr ''POST'' ''/intracloud/check'' rule)) = Parsed (rule_model c ds)"
    using rule_understood [OF assms(2)] by (simp add: new_Request_def)
  from intra_check_replies [OF this c(1-3)] obtain t where
    t: "check_service db addr rule w1 = Some (Returned (ok_Response t), w2)"
    "reads_text t (check_answer ''consumer'' consumer_fields (long_at 7) (long_at 8) (icc_serviceDefinitionId (rule_model c ds)) rows)"
    unfolding check_service_def by blast
  show ?thesis
    using t(1) sent_and_read [OF t(2) c(4)] check_depth c(3) check_grants by (fastforce simp: plain_check_def)
qed

lemma services_answer:
  assumes "delivers send ''https://127.0.0.1/query'' 16220 (registry_service connects db addr)"
    "delivers send ''https://127.0.0.1/intracloud/check'' 16221 (check_service db addr)"
    "rf_requestedService form = Some (gason_value (JObject service))" "convertible (JObject service)" "gason_ok (JObject service)"
    "json_depth (gason_value (JObject service)) \<le> JSON_STACK_SIZE"
    "rf_requesterSystem form = gason_value (JObject (consumer_json c))" "plain_consumer c"
    "registry_offers connects db service ds w w1" "ds \<noteq> []" "check_finds db c ds rows w1 w2"
  shows "answers send form ds (grants_of rows) w w2"
proof -
  obtain payload t1 root where q: "converted (gason_value (JObject service)) = Some payload"
    "registry_service connects db addr payload w = Some (Returned (ok_Response t1), w1)"
    "jsonParse t1 = Parse JSON_PARSE_OK root" "child ''serviceQueryData'' root = Some (JSON_ARRAY (map entry_value ds))"
    using registry_reply [OF assms(9,4-6)] by blast
  have "list_all plain_entry ds"
    using assms(9) by (auto simp: registry_offers_def list_all_iff offerable_def)
  then obtain rule where r: "createIntraCloudRule form (map entry_value ds) = Some rule"
    "reads_text rule (intra_rule_json (consumer_json c) ds)"
    using intra_rule_reads [OF consumer_convertible [OF assms(8)] assms(7) _ assms(10)] by blast
  obtain t2 body where b: "check_service db addr rule w1 = Some (Returned (ok_Response t2), w2)"
    "jsonParse t2 = Parse JSON_PARSE_OK body"
    "child ''authorizedProviderIdsWithInterfaceIds'' body = Some (grants_value (grants_of rows))"
    using check_reply [OF assms(11) r(2)] by blast
  show ?thesis
    unfolding answers_def
    using q r(1) b assms(3) deliversD [OF assms(1) q(2)] deliversD [OF assms(2) b(1)] by fastforce
qed

lemma offer_within: "within (Suc (Suc (Suc k))) (offer_json clock gs ds d)"
  by (auto simp: offer_json_def system_json_def definition_json_def interface_json_def metadata_json_def)

lemma response_within: "within max_depth (response_json clock gs ds cs)"
proof -
  have "within (max_depth - 1 - 1) (offer_json clock gs ds d)" for d
    using offer_within [of 195 clock gs ds d] by (simp add: max_depth_def)
  then show ?thesis by (auto simp: response_json_def max_depth_def)
qed

lemma offered_offerable: "registry_offers connects db service ds w w1 \<Longrightarrow> list_all offerable ds"
  by (auto simp: registry_offers_def list_all_iff)

lemma processOrchestration_parsed:
  assumes "jsonParse (rq_content req) = Parse JSON_PARSE_OK root" "parseRequestForm True root = Some (Inr form)"
  shows "processOrchestration send clock rnd errURL req = dynamicOrchestration send clock rnd form errURL"
  using assms by (simp add: processOrchestration_def with_json_def act_bind_def act_ret_def fun_eq_iff)

text \<open>The answers of the services to a request that carries a plain consumer and a service that can be converted.\<close>

definition asks :: "Request \<Rightarrow> ServiceRequestForm \<Rightarrow> TokenSystem \<Rightarrow> (string \<times> json) list \<Rightarrow> bool" where
  "asks req form c service \<longleftrightarrow>
     (\<exists>root. jsonParse (rq_content req) = Parse JSON_PARSE_OK root \<and> parseRequestForm True root = Some (Inr form))
     \<and> rf_requesterSystem form = gason_value (JObject (consumer_json c)) \<and> plain_consumer c
     \<and> rf_requestedService form = Some (gason_value (JObject service)) \<and> convertible (JObject service)
     \<and> gason_ok (JObject service) \<and> json_depth (gason_value (JObject service)) \<le> JSON_STACK_SIZE"

lemma asked_services_answer:
  assumes "asks req form c service"
    "delivers send ''https://127.0.0.1/query'' 16220 (registry_service connects db addr)"
    "delivers send ''https://127.0.0.1/intracloud/check'' 16221 (check_service db addr)"
    "registry_offers connects db service ds w w1" "ds \<noteq> []" "check_finds db c ds rows w1 w2"
  shows "answers send form ds (grants_of rows) w w2" "list_all plain_grant (grants_of rows)"
  using assms services_answer [OF assms(2,3) _ _ _ _ _ _ assms(4-6)] grants_plain
  by (auto simp: asks_def check_finds_def)

lemma asked_consumer:
  assumes "asks req form c service"
  shows "converted (rf_requesterSystem form) \<noteq> None"
proof -
  have "rf_requesterSystem form = gason_value (JObject (consumer_json c))" "plain_consumer c"
    using assms unfolding asks_def by blast+
  then show ?thesis using converted_reads [OF consumer_convertible] by (metis option.distinct(1))
qed

lemma orchestrated:
  assumes "asks req form c service" "\<not> getFlagValue form ''onlyPreferred''" "\<not> getFlagValue form ''matchmaking''"
    "delivers send ''https://127.0.0.1/query'' 16220 (registry_service connects db addr)"
    "delivers send ''https://127.0.0.1/intracloud/check'' 16221 (check_service db addr)"
    "registry_offers connects db service ds w w1" "ds \<noteq> []" "check_finds db c ds rows w1 w2"
  shows "\<exists>t. processOrchestration send clock rnd errURL req w = Some (Returned (ok_Response t), w2)
    \<and> parser_parse STANDARD t = Done (response_json clock (grants_of rows) ds ds) []"
proof -
  obtain root where root: "jsonParse (rq_content req) = Parse JSON_PARSE_OK root" "parseRequestForm True root = Some (Inr form)"
    using assms(1) by (auto simp: asks_def)
  note a = asked_services_answer [OF assms(1,4-8)]
  from orchestration_offers [OF plain_form_accepted [OF root(2) assms(2)] a(1) assms(7) offered_offerable [OF assms(6)] a(2) asked_consumer [OF assms(1)] assms(2,3)]
  obtain t where t: "dynamicOrchestration send clock rnd form errURL w = Some (Returned (ok_Response t), w2)"
    "reads_text t (response_json clock (grants_of rows) ds ds)" by blast
  show ?thesis
    unfolding processOrchestration_parsed [OF root] using t(1) reads_text_parses [OF t(2) response_within] by blast
qed

lemma orchestrated_at_all:
  assumes "asks req form c service" "\<not> getFlagValue form ''onlyPreferred''"
    "delivers send ''https://127.0.0.1/query'' 16220 (registry_service connects db addr)"
    "delivers send ''https://127.0.0.1/intracloud/check'' 16221 (check_service db addr)"
    "registry_offers connects db service ds w w1" "ds \<noteq> []" "check_finds db c ds rows w1 w2"
  shows "\<exists>resp. processOrchestration send clock rnd errURL req w = Some (Returned resp, w2)"
proof -
  obtain root where root: "jsonParse (rq_content req) = Parse JSON_PARSE_OK root" "parseRequestForm True root = Some (Inr form)"
    using assms(1) by (auto simp: asks_def)
  note a = asked_services_answer [OF assms(1,3-7)]
  show ?thesis
    unfolding processOrchestration_parsed [OF root]
    using orchestration_returns [OF plain_form_accepted [OF root(2) assms(2)] a(1) assms(6) offered_offerable [OF assms(5)] a(2)
        asked_consumer [OF assms(1)] assms(2)] by blast
qed

lemma orchestrated_safely:
  assumes "asks req form c service"
    "delivers send ''https://127.0.0.1/query'' 16220 (registry_service connects db addr)"
    "delivers send ''https://127.0.0.1/intracloud/check'' 16221 (check_service db addr)"
    "registry_offers connects db service ds w w1" "ds \<noteq> []" "check_finds db c ds rows w1 w2"
    "processOrchestration send clock rnd errURL req w = Some (Returned resp, w')"
  shows "\<exists>cs. set cs \<subseteq> set ds \<and> parser_parse STANDARD (rs_content resp) = Done (response_json clock (grants_of rows) ds cs) []"
proof -
  obtain root where root: "jsonParse (rq_content req) = Parse JSON_PARSE_OK root" "parseRequestForm True root = Some (Inr form)"
    using assms(1) by (auto simp: asks_def)
  note a = asked_services_answer [OF assms(1-6)]
  have run: "dynamicOrchestration send clock rnd form errURL w = Some (Returned resp, w')"
    using processOrchestration_parsed [OF root] assms(7) by metis
  then obtain n where n: "checkServiceRequestForm form = Some n"
    by (cases "checkServiceRequestForm form") (simp_all add: dynamicOrchestration_def act_bind_def act_undef_def)
  then have "checkServiceRequestForm form = Some 0" using form_never_rejected [OF root(2)] by simp
  from orchestration_safe [OF this a(1) assms(5) offered_offerable [OF assms(4)] a(2) run]
  obtain t cs where t: "resp = ok_Response t" "set cs \<subseteq> set ds" "reads_text t (response_json clock (grants_of rows) ds cs)"
    by blast
  show ?thesis
    using t(1,2) reads_text_parses [OF t(3) response_within] by (auto simp: ok_Response_def new_Response_def)
qed

end
