(* ===== verification/SrExamples.thy ===== *)
theory SrExamples
  imports SrQueries SrLists Gason_Roundtrip
begin

text \<open>
  A database that answers every question with the same row, one that remembers whether an entry has a
  connection, and requests to the service registry, on which its properties are applied.
\<close>

definition registry_row :: Row where
  "registry_row = \<lparr>get_int = (\<lambda>c. (True, 7)), get_long = (\<lambda>c. (True, 7)), get_str = (\<lambda>c. (True, ''7''))\<rparr>"

definition registry_database :: "unit Database" where
  "registry_database =
     \<lparr>db_fetch = (\<lambda>q d. (Inr [registry_row], d)),
      db_fetch_long = (\<lambda>q v d. (Inr (True, 7), d)),
      db_fetch_string = (\<lambda>q v d. (Inr (True, ''7''), d)),
      db_query = (\<lambda>q d. (Inr (), d)),
      db_query_and_check = (\<lambda>q d. (Inr 1, d)),
      db_insert = (\<lambda>q v d. (Inr (True, 7), d)),
      db_escape = (\<lambda>s. s),
      db_begin = (\<lambda>d. (Inr (), d)),
      db_commit = (\<lambda>d. (Inr (), d)),
      db_rollback = (\<lambda>d. (Inr (), d))\<rparr>"

section \<open>Registration\<close>

definition registration_json :: json where
  "registration_json = JObject
     [(''serviceDefinition'', JString ''temperature''),
      (''providerSystem'', JObject [(''systemName'', JString ''sensor''), (''address'', JString ''a''), (''port'', JInt 7)]),
      (''serviceUri'', JString ''u''), (''endOfValidity'', JString ''2020-12-05 12:00:00''),
      (''secure'', JString ''NOT_SECURE''), (''version'', JInt 1),
      (''interfaces'', JArray [JString ''HTTP-INSECURE-JSON''])]"

definition registration :: Request where
  "registration = new_Request [] ''POST'' ''/register'' (dump (\<lambda>s. s) registration_json)"

definition registered_entry :: ServiceRegistryEntry where
  "registered_entry =
     \<lparr>en_serviceDefinition = ''temperature'', en_systemName = ''sensor'', en_address = ''a'', en_port = ''7'',
      en_authInfo = [], en_serviceUri = ''u'', en_endOfValidity = ''2020-12-05 12:00:00'', en_secure = ''not_secure'',
      en_metadata = [], en_version = ''1'', en_interfaces = [''http-insecure-json'']\<rparr>"

lemma registration_valid: "validRegistryEntry (gason_value registration_json) = Some 0"
  by code_simp

lemma registration_parsed: "parseRegistryEntry (gason_value registration_json) = Some (Inr registered_entry)"
  by code_simp

lemma registration_body: "jsonParse (rq_content registration) = Parse JSON_PARSE_OK (gason_value registration_json)"
proof -
  have "gason_ok registration_json" "json_depth (gason_value registration_json) \<le> JSON_STACK_SIZE" by code_simp+
  then show ?thesis by (simp add: registration_def new_Request_def gason_reads_dump)
qed

lemma registration_answered:
  "\<exists>r l. processRegister (traced registry_database) ''serviceregistry/register'' registration ((), [])
    = Some (Returned (ok_Response r), ((), l))"
proof -
  have "case processDB (traced registry_database) registered_entry ((), []) of
      Some (Returned (Inr d), s) \<Rightarrow> (case createRegistryEntry d of Inr t \<Rightarrow> True | _ \<Rightarrow> False) | _ \<Rightarrow> False"
    by code_simp
  then show ?thesis
    using registration_body registration_valid registration_parsed
    by (auto simp: processRegister_def with_json_def act_bind_def act_ret_def respond_def act_conv_def returns_def
        split: option.splits scope_result.splits sum.splits prod.splits)
qed

section \<open>Queries\<close>

definition query_body :: json where
  "query_body = JObject
     [(''serviceDefinitionRequirement'', JString ''Temperature''), (''interfaceRequirements'', JArray []),
      (''securityRequirements'', JArray []), (''metadataRequirements'', JObject []), (''minVersionRequirement'', JInt 3),
      (''pingProviders'', JBool True)]"

definition service_query :: Request where
  "service_query = new_Request [] ''POST'' ''/query'' (dump (\<lambda>s. s) query_body)"

definition query_form :: ServiceQueryForm where
  "query_form =
     \<lparr>qf_serviceDefinition = ''temperature'', qf_interfaces = [], qf_security = [], qf_metadata = [],
      qf_version = None, qf_minVersion = Some 3, qf_maxVersion = None, qf_pingProviders = True\<rparr>"

definition query_hit :: serviceQueryData where
  "query_hit =
     (let s = ''7'' in
      \<lparr>sq_id = s, sq_serviceDefinition = \<lparr>sd_id = s, sd_serviceDefinition = s, sd_createdAt = s, sd_updatedAt = s\<rparr>,
       sq_provider = \<lparr>sy_id = s, sy_systemName = s, sy_address = s, sy_port = s, sy_authInfo = s, sy_createdAt = s, sy_updatedAt = s\<rparr>,
       sq_serviceUri = s, sq_endOfValidity = s, sq_secure = s, sq_metadata = s, sq_version = s,
       sq_interfaces = [\<lparr>if_id = s, if_name = s, if_createdAt = s, if_updatedAt = s\<rparr>], sq_createdAt = s, sq_updatedAt = s\<rparr>)"

lemma query_body_read: "jsonParse (rq_content service_query) = Parse JSON_PARSE_OK (gason_value query_body)"
proof -
  have "gason_ok query_body" "json_depth (gason_value query_body) \<le> JSON_STACK_SIZE" by code_simp+
  then show ?thesis by (simp add: service_query_def new_Request_def gason_reads_dump)
qed

lemma query_parsed: "parseQueryForm (gason_value query_body) = Some (Inr query_form)"
  by code_simp

lemma query_filled: "fillQueryList registry_database query_form () = Some (Returned (Inr [query_hit]), ())"
  by code_simp

lemma query_hit_plain: "plain_entry query_hit"
  by code_simp

section \<open>Several interfaces\<close>

text \<open>The state is whether the entry has a connection.\<close>

definition connection_database :: "bool Database" where
  "connection_database =
     \<lparr>db_fetch = (\<lambda>q d. (Inr [registry_row], d)),
      db_fetch_long = (\<lambda>q v d. (Inr (True, 7), d)),
      db_fetch_string = (\<lambda>q v d. (Inr (d, if d then ''7'' else []), d)),
      db_query = (\<lambda>q d. (Inr (), True)),
      db_query_and_check = (\<lambda>q d. (Inr 1, d)),
      db_insert = (\<lambda>q v d. (Inr (True, 7), d)),
      db_escape = (\<lambda>s. s),
      db_begin = (\<lambda>d. (Inr (), d)),
      db_commit = (\<lambda>d. (Inr (), d)),
      db_rollback = (\<lambda>d. (Inr (), d))\<rparr>"

lemma connection_database_finds: "finds_connections connection_database entryID (\<lambda>d. d)"
  by (auto simp: finds_connections_def connection_database_def)

section \<open>Unregistration and lists\<close>

definition unregistration :: Request where
  "unregistration = new_Request [] ''DELETE'' (unregister_query ''temperature'' ''sensor'' ''a'' ''7'') []"

lemma unregistration_routed:
  "serviceregistry_handle connects db unregistration = processUnregister db ''temperature'' ''sensor'' ''a'' ''7''"
  by (rule unregister_routed) (simp_all add: unregistration_def new_Request_def)

lemma unregistration_answered:
  "\<exists>l. serviceregistry_handle None (traced registry_database) unregistration ((), []) =
    Some (Returned (ok_Response ''OK''), ((), l))"
proof -
  have "map_option fst (processUnregister (traced registry_database) ''temperature'' ''sensor'' ''a'' ''7'' ((), [])) =
      Some (Returned (ok_Response ''OK''))"
    by code_simp
  then show ?thesis unfolding unregistration_routed by auto
qed

definition injection :: string where
  "injection = ''; DROP TABLE system_''"

definition injecting_list :: Request where
  "injecting_list = new_Request [] ''GET'' (systems_query injection) []"

lemma injecting_list_answered:
  "\<exists>r l. serviceregistry_handle None (traced registry_database) injecting_list ((), []) = Some (r, ((), l))"
proof -
  have "serviceregistry_handle None (traced registry_database) injecting_list =
      processMgmtGetSystems (traced registry_database) (no_paging\<lparr>pg_sortField := ''id'', pg_direction := injection\<rparr>)"
    by (rule systems_routed) (simp_all add: injecting_list_def new_Request_def)
  moreover have "injection \<noteq> []" by (simp add: injection_def)
  ultimately show ?thesis
    by (auto simp: processMgmtGetSystems_def ordered_list_query answered_run on_query_def act_bind_def act_db_logged
        systems_of_def processSystem_def act_ret_def registry_database_def act_conv_def act_throw_def split: sum.split)
qed

section \<open>Metadata\<close>

definition unit_metadata :: "(string \<times> JsonValue) list" where
  "unit_metadata = [(''unit'', JSON_STRING ''Celsius''), (''rate'', JSON_NUMBER (Finite 5 0)), (''raw'', JSON_TRUE)]"

lemma unit_metadata_texts:
  "list_all2 (\<lambda>kv u. scalar_text (snd kv) = Some u) unit_metadata [''Celsius'', ''5'', ''true'']"
  by code_simp

end
