(* ===== verification/OrchExamples.thy ===== *)
theory OrchExamples
  imports OrchService SrExamples
begin

text \<open>
  A cloud of one database, on which the properties of the orchestrator are applied: every question is
  answered with the same row, whose seventh column holds metadata, and the web client hands a payload to the
  service of its port.
\<close>

definition cloud_row :: Row where
  "cloud_row = \<lparr>get_int = (\<lambda>c. (True, 7)), get_long = (\<lambda>c. (True, 7)), get_str = (\<lambda>c. (True, if c = 6 then ''k=v'' else ''7''))\<rparr>"

definition cloud_database :: "unit Database" where
  "cloud_database = registry_database\<lparr>db_fetch := (\<lambda>q d. (Inr [cloud_row], d))\<rparr>"

definition replied :: "'w answer \<Rightarrow> 'w \<Rightarrow> (int \<times> string) \<times> 'w" where
  "replied service w =
     (case service w of
        Some (Returned r, w') \<Rightarrow> ((sc_int (rs_status_code r), rs_content r), w')
      | _ \<Rightarrow> ((- 1, []), w))"

definition cloud_sender :: "unit sender" where
  "cloud_sender m url port payload =
     replied (if port = 16220 then registry_service None cloud_database [] payload else check_service cloud_database [] payload)"

lemma cloud_delivers:
  "delivers cloud_sender ''https://127.0.0.1/query'' 16220 (registry_service None cloud_database [])"
  "delivers cloud_sender ''https://127.0.0.1/intracloud/check'' 16221 (check_service cloud_database [])"
  by (auto simp: delivers_def cloud_sender_def replied_def)

section \<open>A request\<close>

definition a_consumer :: TokenSystem where
  "a_consumer = \<lparr>ts_address = ''a'', ts_authenticationInfo = ''k'', ts_systemName = ''c'', ts_port = 7\<rparr>"

definition a_service :: "(string \<times> json) list" where
  "a_service = [(''serviceDefinitionRequirement'', JString ''t'')]"

definition nested_service :: "(string \<times> json) list" where
  "nested_service =
     [(''serviceDefinitionRequirement'', JString ''t''), (''interfaceRequirements'', JArray [JString ''i'', JString ''j'']),
      (''metadataRequirements'', JObject [(''k'', JString ''v'')]), (''minVersionRequirement'', JInt 3), (''pingProviders'', JBool True)]"

definition request_json :: "(string \<times> json) list \<Rightarrow> json" where
  "request_json flags = JObject
     [(''requesterSystem'', JObject (consumer_json a_consumer)), (''requestedService'', JObject a_service),
      (''orchestrationFlags'', JObject flags)]"

definition orchestration_request :: "(string \<times> json) list \<Rightarrow> Request" where
  "orchestration_request flags = new_Request [] ''POST'' ''/orchestration'' (dump (\<lambda>s. s) (request_json flags))"

definition request_form :: "(string \<times> bool) list \<Rightarrow> ServiceRequestForm" where
  "request_form flags =
     \<lparr>rf_serviceDefinitionReq = ''t'', rf_requesterSystem = gason_value (JObject (consumer_json a_consumer)),
      rf_requestedService = Some (gason_value (JObject a_service)), rf_preferredProviders = None, rf_flags = flags\<rparr>"

definition cloud_hit :: serviceQueryData where
  "cloud_hit =
     (let s = ''7''; k = ''k=v'' in
      \<lparr>sq_id = s, sq_serviceDefinition = \<lparr>sd_id = s, sd_serviceDefinition = s, sd_createdAt = s, sd_updatedAt = s\<rparr>,
       sq_provider = \<lparr>sy_id = s, sy_systemName = s, sy_address = s, sy_port = s, sy_authInfo = s, sy_createdAt = s, sy_updatedAt = k\<rparr>,
       sq_serviceUri = s, sq_endOfValidity = s, sq_secure = s, sq_metadata = k, sq_version = s,
       sq_interfaces = [\<lparr>if_id = s, if_name = s, if_createdAt = s, if_updatedAt = s\<rparr>], sq_createdAt = s, sq_updatedAt = s\<rparr>)"

lemma request_parsed:
  "parseRequestForm True (gason_value (request_json [])) = Some (Inr (request_form []))"
  "parseRequestForm True (gason_value (request_json [(''matchmaking'', JBool True)])) = Some (Inr (request_form [(''matchmaking'', True)]))"
  "parseRequestForm True (gason_value (request_json [(''onlyPreferred'', JBool True)])) = Some (Inr (request_form [(''onlyPreferred'', True)]))"
  by code_simp+

lemma request_read:
  assumes "gason_ok (JObject flags)" "json_depth (gason_value (JObject flags)) \<le> 1"
  shows "jsonParse (rq_content (orchestration_request flags)) = Parse JSON_PARSE_OK (gason_value (request_json flags))"
proof -
  have "gason_ok (JObject (consumer_json a_consumer))" "gason_ok (JObject a_service)"
    "json_depth (gason_value (JObject (consumer_json a_consumer))) = 1" "json_depth (gason_value (JObject a_service)) = 1"
    by code_simp+
  moreover have "plain_key ''requesterSystem''" "plain_key ''requestedService''" "plain_key ''orchestrationFlags''" by code_simp+
  ultimately have "gason_ok (request_json flags)" "json_depth (gason_value (request_json flags)) \<le> JSON_STACK_SIZE"
    using assms by (simp_all add: request_json_def JSON_STACK_SIZE_def)
  then show ?thesis by (simp add: orchestration_request_def new_Request_def gason_reads_dump)
qed

lemma request_asks:
  assumes "jsonParse (rq_content req) = Parse JSON_PARSE_OK root" "parseRequestForm True root = Some (Inr (request_form flags))"
  shows "asks req (request_form flags) a_consumer a_service"
proof -
  have "plain_consumer a_consumer" "convertible (JObject a_service)" "gason_ok (JObject a_service)"
    "json_depth (gason_value (JObject a_service)) \<le> JSON_STACK_SIZE"
    by code_simp+
  then show ?thesis using assms by (auto simp: asks_def request_form_def)
qed

definition cloud_query :: ServiceQueryForm where
  "cloud_query =
     \<lparr>qf_serviceDefinition = ''t'', qf_interfaces = [], qf_security = [], qf_metadata = [], qf_version = None,
      qf_minVersion = None, qf_maxVersion = None, qf_pingProviders = False\<rparr>"

lemma cloud_offers: "registry_offers None cloud_database a_service [cloud_hit] () ()"
proof -
  have "parseQueryForm (gason_value (JObject a_service)) = Some (Inr cloud_query)" by code_simp
  moreover have "fillQueryList cloud_database cloud_query () = Some (Returned (Inr [cloud_hit]), ())" by code_simp
  moreover have "list_all offerable [cloud_hit]" by code_simp
  moreover have "[cloud_hit] = filter (satisfies None cloud_query) [cloud_hit]" by (simp add: satisfies_def cloud_query_def)
  moreover have "gason_ok (query_json (length [cloud_hit]) [cloud_hit])" "plain_scalar (JInt (int (length [cloud_hit])))" by code_simp+
  ultimately show ?thesis unfolding registry_offers_def by blast
qed

lemma cloud_check: "check_finds cloud_database a_consumer [cloud_hit] [cloud_row] () ()"
proof -
  have "plain_check consumer_fields 7 8 (definition_id (hd [cloud_hit])) [cloud_row]"
    "gason_ok (check_answer ''consumer'' consumer_fields (long_at 7) (long_at 8) (definition_id (hd [cloud_hit])) [cloud_row])"
    by code_simp+
  then show ?thesis by (simp add: check_finds_def cloud_database_def)
qed

text \<open>A request that leaves the choice to the orchestrator is answered.\<close>

lemma matchmaking_asks:
  "asks (orchestration_request [(''matchmaking'', JBool True)]) (request_form [(''matchmaking'', True)]) a_consumer a_service"
  by (rule request_asks [OF request_read request_parsed(2)]) (simp_all add: plain_key_def)

lemma matchmaking_answered:
  "\<exists>resp. processOrchestration cloud_sender clock rnd errURL (orchestration_request [(''matchmaking'', JBool True)]) ()
    = Some (Returned resp, ())"
  by (rule orchestrated_at_all [OF matchmaking_asks _ cloud_delivers cloud_offers _ cloud_check])
    (simp_all add: request_form_def getFlagValue_def)

end
