(* ===== verification/Spec2Isabelle.thy ===== *)
theory Spec2Isabelle
  imports Servlet Server MariaDB Query Core Builder IniFile AuthExamples DevExamples OrchExamples
begin

text \<open>
  The Arrowhead core systems in C++: a verification library.

  The program is a set of services (authorization, device registry, orchestrator, certificate
  authority, gateway and others) that share one stack. An HTTPS server accepts connections and runs
  a servlet on each of them; the servlet feeds the bytes to a request parser, hands completed
  requests to a dispatcher and writes the responses. The dispatcher of a service routes by URI and
  method to an endpoint, which runs with a database connection from a pool and answers with JSON.
  Configuration comes from INI files.

  \<^bold>\<open>Theories and the code they model\<close> (paths under \<open>src/src\<close>).

  \<^item> \<open>Prelude\<close>, \<open>Numbers\<close>, \<open>Hex\<close>: characters and C strings (\<open>cstr\<close> is the view of a \<open>std::string\<close> through
    \<open>c_str()\<close>, \<open>str_at\<close> an indexed read that is \<open>None\<close> behind the terminator), \<open>strtol\<close> and its
    relatives at their widths, printed numbers.
  \<^item> \<open>Http_Parser\<close>: \<open>http/serv/RequestParser.h\<close>, \<open>RequestParser.cpp\<close>, \<open>RequestBuffer.h\<close>. One function per
    group of states of \<open>consume\<close>, \<open>parse\<close> for the driver loop, \<open>reset\<close>. \<open>Http_Parser_Inv\<close> has the invariant
    and the locale \<open>stream_parser\<close> of byte-driven parsers; \<open>Http_Parser_Spec\<close> and \<open>Http_Chunked\<close> the texts
    of requests and that they are parsed back.
  \<^item> \<open>Response\<close>: \<open>http/StatusCode.h\<close>, \<open>http/crate/Request.h\<close>, \<open>http/crate/Response.*\<close>,
    \<open>core/helpers/ErrorResponse.h\<close>, \<open>CoreException.h\<close>.
  \<^item> \<open>Servlet\<close>: \<open>HTTPSServer::servlet\<close>. The state is the parser, the certificate and the world behind the
    dispatcher; what the connection does is recorded as a trace of events.
  \<^item> \<open>Transition\<close>: locales for invariants and termination of step relations. \<open>Server\<close>: the threads of
    \<open>HTTPSServer::run\<close> and \<open>run_internal\<close> as step relations, with both kinds of parallelism.
  \<^item> \<open>DbPool\<close>: \<open>db/DB.h\<close>, the pool, the RAII handle and the transaction lock; \<open>MariaDB\<close>: \<open>db/MariaDB.h\<close> and
    \<open>db/DBException.h\<close> over the C interface of the client library.
  \<^item> \<open>Uri\<close>, \<open>Uri_Laws\<close>, \<open>Query\<close>: \<open>http/crate/Uri.*\<close>, \<open>core/helpers/QueryString.h\<close>, \<open>CoreQueryStr.h\<close>, with the
    locale \<open>query_reader\<close> interpreted for both readers.
  \<^item> \<open>Core\<close>: \<open>core/Core.h\<close>, \<open>core/CoreUtils.h\<close> and the routing tables of five services.
  \<^item> \<open>Json\<close>, \<open>Json_Laws\<close>, \<open>Json_Roundtrip\<close>: \<open>utils/json/JsonView.h\<close>; \<open>Builder\<close>: \<open>utils/json/JsonBuilder.h\<close> and
    \<open>utils/common/CommonJsonBuilder.h\<close>, on a model of \<open>std::ostringstream\<close> with its put position; \<open>Rows\<close>: the
    part of the builder that writes rows of a result, and the grammar of its texts with the locale \<open>text_reader\<close> of
    readers that understand them. \<open>Wire\<close> interprets it for \<open>gason\<close>: what a service writes, its peer reads.
  \<^item> \<open>Database\<close>: the interface \<open>db::Database\<close> as a record of operations, with MariaDB behind it.
    \<open>Endpoint\<close>: runs of an endpoint on a database, which return, raise or are undefined.
  \<^item> \<open>AuthModels\<close>, \<open>AuthQueries\<close>, \<open>AuthEndpoints\<close>: \<open>core/apps/Authorization\<close> by its directories \<open>requests\<close>,
    \<open>queries\<close>, and \<open>endpoints\<close> with \<open>responses\<close>. The locale \<open>rule_table\<close> holds what the two kinds of rules share
    and is interpreted for both. \<open>AuthLaws\<close> relates the responses to the rows they are made from;
    \<open>AuthExamples\<close> has the requests and the recording database of the examples.
  \<^item> \<open>Doubles\<close>, \<open>Gason\<close>, \<open>Gason_Memory\<close>: \<open>inc/gason\<close>, the JSON reader of the registries: double arithmetic as
    its number reader does it, the parser with its stack of 32 levels as a loop over a step function, the
    bits of a value, and the zones that hold its nodes. \<open>Gason_Laws\<close> has the bounds of the stack, the depth and the
    buffer, \<open>Gason_Roundtrip\<close> that it reads what \<open>JsonView.h\<close> writes.
  \<^item> \<open>DevModels\<close>, \<open>DevQueries\<close>, \<open>DevEndpoints\<close>: \<open>core/apps/DevRegistry\<close> by its directories \<open>models\<close> with \<open>parsers\<close>
    (and \<open>core/helpers/ModelBuilder.h\<close>), \<open>queries\<close>, \<open>endpoints\<close> with \<open>responses\<close>. \<open>DevLaws\<close> runs the endpoints on a
    database that records its statements (\<open>Trace\<close>), and reads their responses; \<open>DevExamples\<close> has concrete requests.
  \<^item> \<open>Decimal\<close>, \<open>Payloads\<close>: \<open>std::stod\<close> and the printing of doubles by a stream, and \<open>utils/common\<close>: the validators,
    the builder that takes numbers as text, the error responses, the helpers that find or insert a value.
    \<open>SrModels\<close>, \<open>SrEndpoints\<close>, \<open>SrService\<close>: \<open>core/apps/ServiceRegistry\<close>, its payloads, the endpoints that register,
    query and change, the lists and the routing. \<open>SrLaws\<close> has what a valid entry is, \<open>SrRegistration\<close> the statements of a
    registration with the locale \<open>saver\<close> of operations that find or insert, \<open>Payload_Laws\<close> and \<open>SrQueries\<close>
    what a client reads and which entries a query keeps, \<open>SrLists\<close> that the lists only read; \<open>SrExamples\<close> has concrete
    requests.
  \<^item> \<open>Orchestration\<close>: \<open>core/apps/Orchestrator\<close> with \<open>convertGasonToCJB\<close> of \<open>CommonPayloads.h\<close>: the request form and its
    checks, the questions to the other services, the filter by authorized interfaces, the choice and the response.
    \<open>OrchConvert\<close> has the members a builder holds and the conversion of values, \<open>OrchLaws\<close> the filter and the offers as functions
    of the entries and the grants, \<open>OrchService\<close> the orchestrator with the handlers of the registry and of the authorization
    service behind a web client that delivers; \<open>OrchExamples\<close> has a cloud with one provider.
  \<^item> \<open>IniFile\<close>: \<open>utils/inifile.*\<close>.

  \<^bold>\<open>Conventions.\<close> Machine integers are words of their width. Exceptions are values of a sum or result
  type; a read or write outside an object is \<open>None\<close> or \<open>Undefined\<close>, and the laws show where it cannot
  happen. Code outside the repository is a parameter: OpenSSL and the sockets (\<open>Peer\<close>), the MariaDB
  client library (\<open>Mysql\<close>, with \<open>escape_law\<close> and \<open>transactional\<close> for what its documentation promises),
  the file system, the endpoints behind the routing tables of \<open>Core\<close>, the common name of a certificate, and
  the web client (\<open>sender\<close>, with \<open>delivers\<close> for what it does when a service answers), the random number and the conversion of
  times of the orchestrator. The services
  run on any database; \<open>isolates\<close> says that its transactions are isolated. A local variable that the code does not
  initialise is an argument named \<open>uninit\<close>.

  \<^bold>\<open>Bounds.\<close> Only the JSON parser has fuel: \<open>json_fuel\<close> is twice the length of the text plus one, because
  every value consumes a character and every call of the three mutually recursive functions comes
  with one; it is shown to be always enough. The other loops are total functions; the query reader and the
  loop over rows with a moving cursor are partial functions and are shown to return, the first on every
  URI, the second for the functions the endpoints give it.

  \<^bold>\<open>What the theorems show\<close>, in this theory: what the parser accepts and that it reads requests back
  (C1 to C4), that responses can be read back and what a connection does (C5 to C8), the scheduling of
  connections (C9 and C10), the database layer (C11 to C13), routing, dispatch and queries (C14 to C17),
  JSON (C18 and C19), configuration (C20), the authorization service (C21 to C23), the JSON reader of the
  registries (C24 to C26), the device registry (C27 and C28), the service registry (C29 to C32), and the orchestrator with
  the services it asks (C33 to C35). The last section (C36 to C40) proves defects of the code.

  \<^bold>\<open>Not modelled\<close>: the endpoints of the certificate authority, \<open>payloads/OrchestrationResponse.h\<close> (not used),
  \<open>endpoints/DeviceName.h\<close> and \<open>payloads/ServiceRegistryEntryList.h\<close> (not part of the build), \<open>JsonCView\<close> (the reader with
  keys cut out in place), setting up sockets and TLS, the web client, certificates, logging, the boot
  code and the command line; the floating point conversions of \<open>JsonView.h\<close> are parameters.
\<close>

section \<open>The HTTP request parser\<close>

text \<open>
  C1: From any state the server can hold a parser in, feeding it any bytes keeps the invariant
  while the request is incomplete, and a request reported as complete is well formed: the method
  and the URI are not empty, the method is made of token characters, and every header has a token
  for a name and no control character in its value.
\<close>

theorem completed_request_well_formed:
  assumes "parser_inv p" "parse p s = Inr (r, q, t)"
  shows "(r = incomplete \<longrightarrow> parser_inv q) \<and> (r = completed \<longrightarrow> request_ok (rp_req q))"
  using assms by (rule rp.run_verdict)

text \<open>C1 on a request that arrives in one piece.\<close>

theorem completed_request_well_formed_witness:
  "\<exists>q. parse (new_RequestParser 7 7) (''GET /echo HTTP/1.1'' @ [CR, LF, CR, LF]) = Inr (completed, q, [])
     \<and> request_ok (rp_req q)"
proof -
  let ?q = "\<lparr>rp_state = ExpectingNewline_3,
    rp_req = \<lparr>rb_remote_address = [], rb_method = ''GET'', rb_uri = ''/echo'', rb_http_version_major = 1,
      rb_http_version_minor = 1, rb_keepAlive = True, rb_headers = [], rb_content = []\<rparr>,
    rp_contentSize = 0, rp_chunked = False, rp_chunkSize = 0, rp_chunkSizeStr = []\<rparr>"
  have e: "parse (new_RequestParser 7 7) (''GET /echo HTTP/1.1'' @ [CR, LF, CR, LF]) = Inr (completed, ?q, [])"
    by code_simp
  show ?thesis
    using completed_request_well_formed [OF new_parser_inv e] e by blast
qed


text \<open>
  C3: A request whose text follows the grammar of HTTP/1.x, with a body announced by
  \<open>Content-Length\<close> (or without a body), is parsed to exactly its method, URI, version, headers
  and body by a parser that was reset after whatever it parsed before; the bytes after the request
  are not read, and the connection mode is the one its headers and version ask for.
\<close>

theorem request_round_trip:
  assumes "method_ok m" "uri_ok u" "list_all header_ok hs" "list_all neutral hs"
    "major < 2 ^ 31" "minor < 2 ^ 31" "body = [] \<or> has_body m" "length body < 2 ^ 31"
  shows "\<exists>q. parse (reset p) (head_text m u major minor (hs @ framing body) @ body @ rest) =
      Inr (completed, q, rest)
    \<and> is_request (rp_req q) m u major minor (hs @ framing body) body
    \<and> rb_keepAlive (rp_req q) =
        keep_alive_mode (rb_keepAlive (rp_req p)) major minor (hs @ framing body)"
  using parse_request_no_body [OF assms(1-6), of p rest] assms(7,8)
    parse_request_body [OF assms(1-6), of body p rest]
  by (cases "body = []") (simp_all add: framing_def)

text \<open>C3 on a POST request with one header and a body, followed by the start of the next request.\<close>

theorem request_round_trip_witness:
  "\<exists>q. parse (reset (new_RequestParser 0 0))
      (head_text ''POST'' ''/a'' 1 1 ([\<lparr>hname = ''Host'', hvalue = ''h''\<rparr>] @ framing ''xyz'') @ ''xyz'' @ ''GE'') =
      Inr (completed, q, ''GE'')
    \<and> is_request (rp_req q) ''POST'' ''/a'' 1 1 ([\<lparr>hname = ''Host'', hvalue = ''h''\<rparr>] @ framing ''xyz'') ''xyz''
    \<and> rb_keepAlive (rp_req q) =
        keep_alive_mode (rb_keepAlive (rp_req (new_RequestParser 0 0))) 1 1
          ([\<lparr>hname = ''Host'', hvalue = ''h''\<rparr>] @ framing ''xyz'')"
proof (rule request_round_trip)
  show "method_ok ''POST''" by code_simp
  show "uri_ok ''/a''" by code_simp
  show "list_all header_ok [\<lparr>hname = ''Host'', hvalue = ''h''\<rparr>]" by code_simp
  show "list_all neutral [\<lparr>hname = ''Host'', hvalue = ''h''\<rparr>]" by code_simp
qed (simp_all add: has_body_def)

text \<open>
  C4: A request whose body is sent in chunks of any non-zero sizes is parsed to the concatenation of
  the chunks; reading stops right after the final chunk.
\<close>

theorem chunked_request_round_trip:
  assumes "method_ok m" "uri_ok u" "list_all header_ok hs" "list_all neutral hs"
    "major < 2 ^ 31" "minor < 2 ^ 31" "has_body m" "[] \<notin> set ds" "length (concat ds) < 2 ^ 62"
  shows "\<exists>q. parse (reset p) (head_text m u major minor (hs @ [chunked_header]) @ chunked_text ds @ rest) =
      Inr (completed, q, rest)
    \<and> is_request (rp_req q) m u major minor (hs @ [chunked_header]) (concat ds)
    \<and> rb_keepAlive (rp_req q) =
        keep_alive_mode (rb_keepAlive (rp_req p)) major minor (hs @ [chunked_header])"
  using assms by (rule parse_request_chunked)

text \<open>C4 on a body in two chunks.\<close>

theorem chunked_request_round_trip_witness:
  "\<exists>q. parse (reset (new_RequestParser 0 0))
      (head_text ''PUT'' ''/a'' 1 1 ([] @ [chunked_header]) @ chunked_text [''wor'', ''ld''] @ ''GE'') =
      Inr (completed, q, ''GE'')
    \<and> is_request (rp_req q) ''PUT'' ''/a'' 1 1 ([] @ [chunked_header]) (concat [''wor'', ''ld''])
    \<and> rb_keepAlive (rp_req q) =
        keep_alive_mode (rb_keepAlive (rp_req (new_RequestParser 0 0))) 1 1 ([] @ [chunked_header])"
proof (rule chunked_request_round_trip)
  show "method_ok ''PUT''" by code_simp
  show "uri_ok ''/a''" by code_simp
qed (simp_all add: has_body_def)

section \<open>Responses and connections\<close>

text \<open>
  C5: A response can be read back: the bytes the server sends consist of the status line, the
  connection mode, the \<open>Allow\<close> line when there is one, the length and the type of the body, an empty
  line, and exactly the body, and the announced length is the length of that body.
\<close>

theorem response_readable:
  assumes "no_cr (rs_mime_type r)" "no_cr (rs_allow r)"
  shows "read_head (response_to_string keep r) = Some (response_lines keep r, rs_content r)"
  using assms by (rule read_response)

text \<open>C5 on the reply to an \<open>OPTIONS\<close> request.\<close>

theorem response_readable_witness:
  "read_head (response_to_string True (options OK ''GET, POST'')) =
     Some ([''HTTP/1.1 200 OK'', ''Connection: keep-alive'', ''Allow: GET, POST'', ''Content-Length: 0'',
            ''Content-Type: text/html''], [])"
proof -
  have "response_lines True (options OK ''GET, POST'') =
      [''HTTP/1.1 200 OK'', ''Connection: keep-alive'', ''Allow: GET, POST'', ''Content-Length: 0'',
       ''Content-Type: text/html'']" "rs_content (options OK ''GET, POST'') = []"
    "no_cr (rs_mime_type (options OK ''GET, POST''))" "no_cr (rs_allow (options OK ''GET, POST''))"
    by code_simp+
  then show ?thesis using response_readable [of "options OK ''GET, POST''" True] by simp
qed

text \<open>
  C6: How the transport cuts the bytes of a connection into reads does not matter: the requests
  handled, the replies written, the errors reported, the state of the system behind the dispatcher
  and the way the loop ends are those of one read with all the bytes.
\<close>

theorem reads_do_not_matter:
  assumes "[] \<notin> set bs" "[] \<notin> set cs" "concat bs = concat cs"
  shows "serve_reads h pe cn bs = serve_reads h pe cn cs"
  using assms serve_reads_concat [of bs h pe cn] serve_reads_concat [of cs h pe cn] by simp

text \<open>C6 on a request that arrives byte by byte or in one piece.\<close>

theorem reads_do_not_matter_witness:
  "serve_reads (\<lambda>req n. (from_stock OK, Suc n))
     \<lparr>pe_accept = 1, pe_cert = None, pe_verify_ok = True, pe_addr = [], pe_reads = [], pe_write = sent_or_failed\<rparr>
     (new_Conn 0 0 0) [''GET /a HT'', ''TP/1.1'' @ [CR, LF, CR, LF]] =
   serve_reads (\<lambda>req n. (from_stock OK, Suc n))
     \<lparr>pe_accept = 1, pe_cert = None, pe_verify_ok = True, pe_addr = [], pe_reads = [], pe_write = sent_or_failed\<rparr>
     (new_Conn 0 0 0) (map (\<lambda>c. [c]) (''GET /a HTTP/1.1'' @ [CR, LF, CR, LF]))"
  by (rule reads_do_not_matter) (simp_all add: set_map)

text \<open>
  C7: A connection refines the exchange of messages: when the peer sends requests that keep the
  connection alive, one after the other or pipelined and in any cut, every request reaches the
  dispatcher exactly once and in order, with its method, URI, body, address and certificate; the
  reply of each is written before the next one is handled; and then the connection is closed.
\<close>

theorem servlet_refines_exchanges:
  assumes "full_writes pe" "list_all message_ok ms" "pe_accept pe = 1" "pe_verify_ok pe"
    "[] \<notin> set (pe_reads pe)" "concat (pe_reads pe) = concat (map message_text ms)"
  shows "\<exists>cn. servlet h pe a b w = (Stop, cn)
    \<and> cn_trace cn = fst (exchanges h (pe_addr pe) (pe_cert pe) w ms) @ [Closed]
    \<and> cn_world cn = snd (exchanges h (pe_addr pe) (pe_cert pe) w ms)"
  using assms by (intro servlet_messages) simp_all

text \<open>C7 on two pipelined requests, the first with a body, in two reads that split the first one.\<close>

theorem servlet_refines_exchanges_witness:
  "\<exists>ms pe cn. length ms = 2 \<and> list_all message_ok ms \<and> length (pe_reads pe) = 2
     \<and> servlet (\<lambda>req n. (ok_Response (rq_content req), Suc n)) pe 0 0 0 = (Stop, cn)
     \<and> cn_world cn = 2"
proof -
  let ?h = "\<lambda>req n. (ok_Response (rq_content req), Suc n)"
  let ?m = "\<lparr>ms_method = ''POST'', ms_uri = ''/a'', ms_headers = [], ms_body = ''xyz''\<rparr>"
  let ?n = "\<lparr>ms_method = ''GET'', ms_uri = ''/b'', ms_headers = [], ms_body = []\<rparr>"
  let ?pe = "\<lparr>pe_accept = 1, pe_cert = Some 7, pe_verify_ok = True, pe_addr = ''10.0.0.1'',
    pe_reads = [take 20 (message_text ?m), drop 20 (message_text ?m) @ message_text ?n], pe_write = sent_or_failed\<rparr>"
  have "method_ok ''POST''" "method_ok ''GET''" "uri_ok ''/a''" "uri_ok ''/b''" by code_simp+
  then have ok: "list_all message_ok [?m, ?n]" by (simp add: message_ok_def has_body_def)
  have "20 < length (message_text ?m)" by code_simp
  then have ne: "[] \<notin> set (pe_reads ?pe)" by auto
  have cc: "concat (pe_reads ?pe) = concat (map message_text [?m, ?n])"
    by (simp flip: append_assoc)
  have "\<exists>cn. servlet ?h ?pe 0 0 0 = (Stop, cn)
      \<and> cn_trace cn = fst (exchanges ?h (pe_addr ?pe) (pe_cert ?pe) 0 [?m, ?n]) @ [Closed]
      \<and> cn_world cn = snd (exchanges ?h (pe_addr ?pe) (pe_cert ?pe) 0 [?m, ?n])"
    by (rule servlet_refines_exchanges) (use ok ne cc sent_or_failed_full in simp_all)
  then show ?thesis using ok
    by (intro exI [of _ "[?m, ?n]"] exI [of _ ?pe]) (auto simp: Let_def numeral_2_eq_2)
qed



section \<open>The threads of the server\<close>



text \<open>
  C10: No connection is lost or served twice by the worker pool: in every reachable state the
  accepted connections are those taken by a worker, in order, followed by the queue, and the taken
  ones are exactly those served or in service.
\<close>

theorem pool_keeps_connections:
  assumes "pool_step\<^sup>*\<^sup>* (init_Server n) sv"
  shows "sv_accepted sv = sv_taken sv @ sv_queue sv
    \<and> mset (sv_taken sv) = mset (sv_served sv) + mset (serving sv)"
  using pool.run_keeps [OF assms pool_inv_init] by (simp add: pool_inv_def)

text \<open>C10 after a worker has taken the first of two connections.\<close>

theorem pool_keeps_connections_witness:
  "\<exists>sv. sv_accepted sv = [4, 5] \<and> sv_queue sv = [5] \<and> serving sv = [4]
     \<and> sv_accepted sv = sv_taken sv @ sv_queue sv \<and> mset (sv_taken sv) = mset (sv_served sv) + mset (serving sv)"
proof -
  let ?b = "poll_iteration True (Connection 5 Running) (poll_iteration True (Connection 4 Running) (init_Server 1))"
  have "pool_step (init_Server 1) (poll_iteration True (Connection 4 Running) (init_Server 1))"
    "pool_step (poll_iteration True (Connection 4 Running) (init_Server 1)) ?b"
    by (rule poll; simp add: init_Server_def)+
  moreover have "pool_step ?b (worker_turn 0 ?b)"
    by (rule turn) (simp_all add: init_Server_def wakes_def)
  ultimately have "pool_step\<^sup>*\<^sup>* (init_Server 1) (worker_turn 0 ?b)"
    by (meson converse_rtranclp_into_rtranclp rtranclp.rtrancl_refl)
  from pool_keeps_connections [OF this] show ?thesis
    by (intro exI [of _ "worker_turn 0 ?b"]) (simp add: worker_turn_def init_Server_def serving_def)
qed

section \<open>The database layer\<close>

text \<open>
  C11: A database of the pool is never used by two handles: whatever the threads do, the indices held
  by live handles, the idle ones and those lost in a failed constructor are distinct, and together
  they are the indices of the pool's vector.
\<close>

theorem databases_exclusive:
  assumes "db_step\<^sup>*\<^sup>* (new_DatabasePool n) po"
  shows "distinct (held po @ po_idxs po @ po_lost po) \<and> set (held po @ po_idxs po @ po_lost po) = {0..<n}"
  using pool_exclusive [OF reachable_pool_ok [OF assms]] reachable_size [OF assms]
  by (simp add: new_DatabasePool_def)

text \<open>C11 on a pool of two databases with one handle.\<close>

theorem databases_exclusive_witness:
  "\<exists>po. connect (new_DatabasePool 2) = Some po \<and> held po = [1]
     \<and> distinct (held po @ po_idxs po @ po_lost po) \<and> set (held po @ po_idxs po @ po_lost po) = {0..<2}"
proof -
  let ?po = "\<lparr>po_idxs = [0], po_size = 2, po_conns = [\<lparr>dc_idx = 1, dc_deleter = True\<rparr>], po_lost = []\<rparr>"
  have c: "connect (new_DatabasePool 2) = Some ?po"
    by (simp add: connect_def pool_lock_def add_conn_def new_DatabasePool_def upt_rec)
  then have "db_step\<^sup>*\<^sup>* (new_DatabasePool 2) ?po" by (auto intro: db_connect)
  from databases_exclusive [OF this] c show ?thesis
    by (intro exI [of _ ?po]) (simp add: held_def)
qed

text \<open>
  C12: A thread that waits for a database waits for a live handle: as long as no database was lost,
  some handle exists whose destruction lets the waiting constructor through.
\<close>

theorem waiting_for_a_holder:
  assumes "db_step\<^sup>*\<^sup>* (new_DatabasePool n) po" "po_lost po = []" "0 < n" "connect po = None"
  shows "\<exists>i < length (po_conns po). \<exists>po'. connect (destroy_conn i po) = Some po'"
proof -
  have "po_size po = n" using reachable_size [OF assms(1)] by (simp add: new_DatabasePool_def)
  then show ?thesis using waiting_has_holder [OF reachable_pool_ok [OF assms(1)] assms(2)] assms(3,4) by blast
qed

text \<open>C12 on a pool of one database that is in use.\<close>

theorem waiting_for_a_holder_witness:
  "\<exists>po. connect (new_DatabasePool 1) = Some po \<and> connect po = None
     \<and> (\<exists>i < length (po_conns po). \<exists>po'. connect (destroy_conn i po) = Some po')"
proof -
  let ?po = "\<lparr>po_idxs = [], po_size = 1, po_conns = [\<lparr>dc_idx = 0, dc_deleter = True\<rparr>], po_lost = []\<rparr>"
  have c: "connect (new_DatabasePool 1) = Some ?po" "connect ?po = None"
    by (simp_all add: connect_def pool_lock_def add_conn_def new_DatabasePool_def)
  then have "db_step\<^sup>*\<^sup>* (new_DatabasePool 1) ?po" by (auto intro: db_connect)
  from waiting_for_a_holder [OF this _ _ c(2)] c show ?thesis by auto
qed



section \<open>Routing and dispatch\<close>

text \<open>
  C14: \<open>Uri::compare\<close> and \<open>Uri::consume\<close> with a literal never read outside the URI and decide exactly
  this: the rest of the URI starts with the path, and the path ends there or at a query
  (\<open>compare\<close>), or also at the end of a path segment (\<open>consume\<close>). The position moves past the path on
  success and stays where it was otherwise.
\<close>

theorem routing_correct:
  assumes "uri_inv u" "no_nul path"
  shows "compare_lit path u = Some (advance route_end path u)
    \<and> consume_lit path u = Some (advance segment_end path u)"
  using compare_lit_correct [OF assms] consume_lit_correct [OF assms] by simp

text \<open>C14 on a path that is a prefix of the URI without being one of its segments.\<close>

theorem routing_correct_witness:
  "consume_lit ''/mgmt/device'' (new_Uri ''/mgmt/devices/4'') = Some (False, new_Uri ''/mgmt/devices/4'')
   \<and> advance segment_end ''/mgmt/device'' (new_Uri ''/mgmt/devices/4'') = (False, new_Uri ''/mgmt/devices/4'')"
proof -
  have "consume_lit ''/mgmt/device'' (new_Uri ''/mgmt/devices/4'') = Some (False, new_Uri ''/mgmt/devices/4'')"
    by code_simp
  then show ?thesis
    using routing_correct [of "new_Uri ''/mgmt/devices/4''" "''/mgmt/device''"] by simp
qed



section \<open>Query strings\<close>


text \<open>
  C17: A query that a client percent-encodes is read as the pairs it encoded, in order, whatever
  bytes their names and values contain.
\<close>

theorem encoded_query_read_back:
  assumes "uri_rest u = path @ query_text (CHR ''?'') kvs" "no_nul path" "CHR ''?'' \<notin> set path"
  shows "new_QueryString u il = Some (store_all (store_QueryString il) kvs init_QueryString)
    \<and> new_CoreQueryStr u il = Some (store_all (store_CoreQueryStr il) kvs init_CoreQueryStr)"
  using read_query_presents [OF presents_new [OF assms], of "store_QueryString il" init_QueryString]
    read_query_presents [OF presents_new [OF assms], of "store_CoreQueryStr il" init_CoreQueryStr]
  by (simp add: new_QueryString_def new_CoreQueryStr_def)

text \<open>C17 on a query with two parameters.\<close>

theorem encoded_query_read_back_witness:
  "new_QueryString (new_Uri (''/mgmt'' @ query_text (CHR ''?'') [(''sort_field'', ''name''), (''direction'', ''DESC'')])) [''name''] =
     Some (False, init_QueryString\<lparr>qs_sort_field := ''1'', qs_direction := ''DESC''\<rparr>)"
proof -
  let ?kvs = "[(''sort_field'', ''name''), (''direction'', ''DESC'')]"
  have "store_all (store_QueryString [''name'']) ?kvs init_QueryString =
      (False, init_QueryString\<lparr>qs_sort_field := ''1'', qs_direction := ''DESC''\<rparr>)"
    by code_simp
  then show ?thesis
    using encoded_query_read_back [of "new_Uri (''/mgmt'' @ query_text (CHR ''?'') ?kvs)" "''/mgmt''" ?kvs "[''name'']"]
    by (simp add: uri_rest_def new_Uri_def del: query_text.simps)
qed

section \<open>JSON\<close>

text \<open>
  C18: Parsing ends on every text, and never recurses more than \<open>max_depth\<close> deep: the constructor of
  \<open>JsonView\<close> comes to a result, whatever the text and the parse method, and an accepted value is
  nested at most \<open>max_depth\<close> levels.
\<close>

theorem json_parse_bounded:
  "new_JsonView s mode \<noteq> NoFuel \<and> (case parser_parse st s of Done v r \<Rightarrow> within max_depth v | _ \<Rightarrow> True)"
  using new_JsonView_returns [of s mode] accepted_within [of st s] by (auto split: jres.split)

text \<open>
  C19: A value that is written by \<open>dump\<close> is read back as it was: any nesting within the depth limit,
  integers of at most nine characters, strings of arbitrary bytes, and keys in the raw form the
  parser keeps them in.
\<close>

theorem json_round_trip:
  assumes "json_ok v" "within max_depth v"
  shows "parser_parse STANDARD (dump ds v) = Done v []"
  using assms by (rule parse_dump)

text \<open>C19 on an object with an escaped string and a nested array.\<close>

theorem json_round_trip_witness:
  "parser_parse STANDARD (dump id (JObject [(''a'', JString [DQUOTE, LF, CHR 0x01]), (''b'', JArray [JInt (- 7), JNull])])) =
     Done (JObject [(''a'', JString [DQUOTE, LF, CHR 0x01]), (''b'', JArray [JInt (- 7), JNull])]) []"
  by (rule json_round_trip; code_simp)

section \<open>Configuration files\<close>

text \<open>
  C20: A configuration file written from sections of options is read back: parsing succeeds, and the
  options of every section, which may be spread over several blocks of the file, are the ones
  written, a later one replacing an earlier one of the same name. Values may contain any
  character but NUL and the newline.
\<close>

theorem ini_read_back:
  assumes "list_all section_ok scs" "ini_in ini = Some (ini_text scs)" "ini_values ini = Map.empty"
  shows "\<exists>ini'. parse_all ini = (Inr True, ini')
    \<and> (\<forall>sec. fst (ini_options sec ini') = store_options Map.empty (options_of sec scs))"
  using assms by (rule ini_round_trip)

text \<open>C20 on a section in two blocks, with a quote in a value.\<close>

theorem ini_read_back_witness:
  "\<exists>ini'. parse_all (ini_default\<lparr>ini_in := Some (ini_text
       [(''db'', [(''user'', [SQUOTE])]), (''log'', []), (''db'', [(''port'', ''33 06'')])])\<rparr>) = (Inr True, ini')
     \<and> fst (ini_options ''db'' ini') = [''user'' \<mapsto> [SQUOTE], ''port'' \<mapsto> ''33 06'']"
proof -
  let ?scs = "[(''db'', [(''user'', [SQUOTE])]), (''log'', []), (''db'', [(''port'', ''33 06'')])]"
  let ?ini = "ini_default\<lparr>ini_in := Some (ini_text ?scs)\<rparr>"
  have ok: "list_all section_ok ?scs" by code_simp
  have "options_of ''db'' ?scs = [(''user'', [SQUOTE]), (''port'', ''33 06'')]" by (simp add: options_of_def)
  then show ?thesis
    using ini_read_back [OF ok, of ?ini] by (auto simp: ini_default_def store_options_def)
qed

section \<open>The authorization service\<close>



text \<open>
  C22: A check inside the cloud is answered with the authorized providers. When the statement of a
  check yields rows, sorted by provider as it asks for, the response is a JSON text in which a client
  reads the service, the consumer of the first row, and every provider once in ascending order with
  all the interfaces found for it. Here the texts need no escaping and numbers have at most nine
  characters.
\<close>

theorem check_lists_providers:
  assumes "intra_check_parse (rq_content req) = Parsed model"
    "db_fetch db (intra_check_query db model) d = (Inr rows, d')" "rows \<noteq> []"
    "sorted (map (long_at 7) rows)"
    "plain_check consumer_fields 7 8 (icc_serviceDefinitionId model) rows"
  shows "\<exists>resp. intra_check_handle db req d = Some (Returned resp, d')
    \<and> parser_parse STANDARD (rs_content resp) =
        Done (check_spec ''consumer'' consumer_fields (long_at 7) (long_at 8) (icc_serviceDefinitionId model) rows) []"
  using intra_check_answer [OF assms(1-3,5)] by (simp add: check_answer_spec [OF assms(4)])

text \<open>C22 on a consumer that may use two interfaces of one provider and one of another.\<close>

theorem check_lists_providers_witness:
  "\<exists>resp. intra_check_handle check_database check_request ([], []) = Some (Returned resp, ([], []))
    \<and> parser_parse STANDARD (rs_content resp) =
        Done (check_spec ''consumer'' consumer_fields (long_at 7) (long_at 8) (icc_serviceDefinitionId check_model) check_rows) []"
proof (rule check_lists_providers)
  show "intra_check_parse (rq_content check_request) = Parsed check_model" by code_simp
  show "db_fetch check_database (intra_check_query check_database check_model) ([], []) = (Inr check_rows, ([], []))"
    by (simp add: check_database_def)
  show "check_rows \<noteq> []" by (simp add: check_rows_def)
  show "sorted (map (long_at 7) check_rows)" by (simp add: check_rows_def check_row_def)
  show "plain_check consumer_fields 7 8 (icc_serviceDefinitionId check_model) check_rows" by code_simp
qed



section \<open>The JSON reader of the registries\<close>

text \<open>
  C24: The reader \<open>gason\<close>, by which the registries read requests, understands the JSON writer of the
  services: a value that the writer dumps, without null and floating point numbers, nested at most
  32 levels, with numbers below two to the 53rd and strings without NUL and DEL, is read back as the
  same value.
\<close>

theorem gason_reads_written:
  assumes "gason_ok v" "json_depth (gason_value v) \<le> JSON_STACK_SIZE"
  shows "jsonParse (dump ds v) = Parse JSON_PARSE_OK (gason_value v)"
  using assms by (rule gason_reads_dump)

text \<open>C24 on an object with an array, a negative number and a string that needs escapes.\<close>

theorem gason_reads_written_witness:
  "jsonParse (dump (\<lambda>s. s) (JObject [(''a'', JArray [JInt (- 7), JBool True]), (''b'', JString [DQUOTE, LF])])) =
   Parse JSON_PARSE_OK (JSON_OBJECT [(''a'', JSON_ARRAY [JSON_NUMBER (Finite (- 7) 0), JSON_TRUE]), (''b'', JSON_STRING [DQUOTE, LF])])"
proof -
  have "plain_key ''a''" "plain_key ''b''" "plain_string [DQUOTE, LF]" by code_simp+
  then show ?thesis
    using gason_reads_written [of "JObject [(''a'', JArray [JInt (- 7), JBool True]), (''b'', JString [DQUOTE, LF])]"]
    by (simp add: JSON_STACK_SIZE_def)
qed

text \<open>
  C25: The reader keeps to its arrays. Whatever it is given, a value it returns is nested at most as
  deep as its stack has levels; and on a text without NUL that ends neither in a space nor in \<open>null\<close>
  it never leaves the buffer or the stack.
\<close>

theorem gason_in_bounds:
  "(\<forall>st v. jsonParse s = Parse st v \<longrightarrow> json_depth v \<le> JSON_STACK_SIZE)
   \<and> (well_ended s \<longrightarrow> jsonParse s \<noteq> OutOfBounds)"
  using parse_loop_depth [of "[]" s True] parse_loop_in_bounds [of "[]" True s]
  by (auto simp: jsonParse_def stack_ok_def)

text \<open>C25 on a text that is cut off inside an array.\<close>

theorem gason_in_bounds_witness:
  "jsonParse ''[1,[2]'' \<noteq> OutOfBounds \<and> json_depth JSON_NULL \<le> JSON_STACK_SIZE
   \<and> jsonParse ''[1,[2]'' = Parse JSON_PARSE_BREAKING_BAD JSON_NULL"
proof -
  have "well_ended ''[1,[2]''" by (auto simp: well_ended_def no_nul_def isspace_def suffix_def)
  moreover have "jsonParse ''[1,[2]'' = Parse JSON_PARSE_BREAKING_BAD JSON_NULL" by code_simp
  ultimately show ?thesis using gason_in_bounds [of "''[1,[2]''"] by blast
qed

text \<open>
  C26: The memory of the nodes is handed out once. In a run of the reader, whose allocator was reset
  before, every request for a block that fits into a zone is served; the blocks are aligned, lie in
  the used part of their zones behind the header, and no two of them overlap.
\<close>

theorem nodes_apart:
  assumes "\<forall>n \<in> set ns. n \<le> 4072"
  shows "\<exists>bs al'. allocate_all ns (zones_reset al) = Some (bs, al') \<and> length bs = length ns
    \<and> (\<forall>b \<in> set (zip bs ns). holds al' b) \<and> sorted_wrt apart (zip bs ns)
    \<and> (\<forall>u \<in> set (ja_zones al'). u \<le> JSON_ZONE_SIZE)"
proof -
  obtain bs al' where "allocate_all ns (zones_reset al) = Some (bs, al')" "length bs = length ns" "zones_ok al'"
      "\<forall>b \<in> set (zip bs ns). holds al' b" "sorted_wrt apart (zip bs ns)"
    using allocate_run [OF zones_reset_ok assms] by blast
  then show ?thesis by (auto simp: zones_ok_def)
qed

text \<open>C26 on three blocks of which the last needs the second of two zones in use.\<close>

theorem nodes_apart_witness:
  "\<exists>al'. allocate_all [24, 4000, 16] (zones_reset \<lparr>ja_zones = [4096, 4096], ja_head = Some 1\<rparr>) =
       Some ([(0, 24), (0, 48), (0, 4048)], al')
     \<and> sorted_wrt apart (zip [(0, 24), (0, 48), (0, 4048)] [24, 4000, 16])"
proof -
  let ?al = "\<lparr>ja_zones = [4096, 4096], ja_head = Some 1\<rparr>"
  have "\<exists>al'. allocate_all [24, 4000, 16] (zones_reset ?al) = Some ([(0, 24), (0, 48), (0, 4048)], al')"
    by (simp add: allocate_def zone_create_def zones_reset_def align8_def sizeof_Zone_def JSON_ZONE_SIZE_def)
  then show ?thesis using nodes_apart [of "[24, 4000, 16]" ?al] by auto
qed

section \<open>The device registry\<close>

text \<open>
  C27: A device is stored as it was sent. When a client writes its device with the JSON writer of the
  services and posts it, the registry sends exactly two statements: the insertion of these values,
  escaped, without authentication information, and the selection of the identifier the database
  generated; the answer is a JSON text in which the client reads the columns of that row.
\<close>

theorem device_stored:
  assumes "plain_string nm" "plain_string mac" "plain_string addr"
    "rq_content req = device_body ds nm mac addr"
    "db_insert db (device_insert db nm mac addr) 0 d = (Inr (True, ident), d1)"
    "db_fetch db (device_by_id ident) d1 = (Inr (row # rows), d2)" "plain_items device_fields row 0"
  shows "\<exists>resp. devices_post (traced db) req (d, []) =
      Some (Returned resp, (d2, [device_insert db nm mac addr, device_by_id ident]))
    \<and> parser_parse STANDARD (rs_content resp) = Done (device_json row) []"
  using devices_post_log [OF assms(1-6)] device_response_json [OF assms(7)] by blast

text \<open>C27 on a device and a database that gives it the identifier five.\<close>

theorem device_stored_witness:
  "\<exists>resp. devices_post (traced device_database) post_device ((), []) =
      Some (Returned resp, ((), [''INSERT INTO device (device_name, mac_address, address, authentication_info) VALUES (d, m, a, NULL)'',
        device_by_id 5]))
    \<and> parser_parse STANDARD (rs_content resp) = Done (device_json device_row) []"
proof -
  have p: "plain_string ''d''" "plain_string ''m''" "plain_string ''a''" by code_simp+
  have i: "device_insert device_database ''d'' ''m'' ''a'' =
      ''INSERT INTO device (device_name, mac_address, address, authentication_info) VALUES (d, m, a, NULL)''"
    by (simp add: device_insert_def device_database_def)
  show ?thesis
    unfolding i [symmetric]
    by (rule device_stored [OF p _ _ _ device_row_plain, where ds = "\<lambda>s. s"])
      (simp_all add: post_device_def new_Request_def device_database_def)
qed


section \<open>The service registry\<close>



text \<open>
  C30: A query is answered with exactly the services that satisfy it. When the entries of the wanted
  definition have been read from the database, a client reads in the answer those that offer one of the
  wanted interfaces and security types, have a version in the wanted range and the wanted metadata, and whose
  provider accepts a connection if that was asked for, in the order of the database, with the number of all of
  them.
\<close>

theorem service_query_answered:
  assumes "jsonParse (rq_content req) = Parse JSON_PARSE_OK root" "parseQueryForm root = Some (Inr form)"
    "fillQueryList db form d = Some (Returned (Inr ds), d')" "list_all plain_entry ds"
    "plain_scalar (JInt (int (length ds)))"
  shows "\<exists>t. processQuery connects db req d = Some (Returned (ok_Response t), d')
    \<and> parser_parse STANDARD t = Done (query_json (length ds) (filter (satisfies connects form) ds)) []"
  using assms by (rule query_answered)

text \<open>C30 on a provider that does not answer: it is filtered out of one hit.\<close>

theorem service_query_answered_witness:
  "\<exists>t. processQuery (Some (\<lambda>addr port. False)) registry_database service_query () = Some (Returned (ok_Response t), ())
    \<and> parser_parse STANDARD t = Done (query_json 1 []) []"
proof -
  have "\<exists>t. processQuery (Some (\<lambda>addr port. False)) registry_database service_query () = Some (Returned (ok_Response t), ())
    \<and> parser_parse STANDARD t = Done (query_json (length [query_hit])
        (filter (satisfies (Some (\<lambda>addr port. False)) query_form) [query_hit])) []"
  proof (rule service_query_answered [OF query_body_read query_parsed query_filled])
    show "list_all plain_entry [query_hit]" using query_hit_plain by simp
    show "plain_scalar (JInt (int (length [query_hit])))" by code_simp
  qed
  moreover have "\<not> satisfies (Some (\<lambda>addr port. False)) query_form query_hit"
    by (simp add: satisfies_def query_form_def reachable_def)
  ultimately show ?thesis by simp
qed

text \<open>
  C31: Metadata is found again. If a registration carries an object of scalars as its metadata, with keys
  in lower case without white space and without the separators of the stored text, then a query that asks for the same
  object is satisfied by what was stored.
\<close>

theorem metadata_round_trip:
  assumes "list_all2 (\<lambda>kv u. scalar_text (snd kv) = Some u) kvs us" "kvs \<noteq> []"
    "\<And>k. k \<in> fst ` set kvs \<Longrightarrow> toLowerAndTrim k = k \<and> storable k" "\<And>u. u \<in> set us \<Longrightarrow> storable (toLowerAndTrim u)"
  shows "\<exists>m reqs. entry_metadata (JSON_OBJECT kvs) = Some m
    \<and> metadata_requirements [] (nodes (JSON_OBJECT kvs)) = Some reqs
    \<and> map fst reqs \<noteq> [] \<and> list_all (\<lambda>(k, v). map_of (metadata_pairs m) k = Some v) reqs"
  using assms by (rule metadata_found)

text \<open>C31 on a text, a number and a truth value.\<close>

theorem metadata_round_trip_witness:
  "\<exists>m reqs. entry_metadata (JSON_OBJECT unit_metadata) = Some m
    \<and> metadata_requirements [] (nodes (JSON_OBJECT unit_metadata)) = Some reqs
    \<and> map fst reqs \<noteq> [] \<and> list_all (\<lambda>(k, v). map_of (metadata_pairs m) k = Some v) reqs"
proof (rule metadata_round_trip [OF unit_metadata_texts])
  have k: "list_all (\<lambda>kv. toLowerAndTrim (fst kv) = fst kv \<and> storable (fst kv)) unit_metadata"
    "list_all (\<lambda>u. storable (toLowerAndTrim u)) [''Celsius'', ''5'', ''true'']" by code_simp+
  show "unit_metadata \<noteq> []" by (simp add: unit_metadata_def)
  show "toLowerAndTrim k = k \<and> storable k" if "k \<in> fst ` set unit_metadata" for k
    using that k(1) by (auto simp: list_all_iff)
  show "storable (toLowerAndTrim u)" if "u \<in> set [''Celsius'', ''5'', ''true'']" for u
    using that k(2) by (auto simp: list_all_iff)
qed

text \<open>
  C32: Unregistering removes one provider's entry. A \<open>DELETE\<close> request on \<open>/unregister\<close> whose four
  parameters are percent-encoded looks for the definition, the system with that name, address and port, and
  their entry; it sends a deletion only when all of them were found, first of the connections of that
  entry and then of the entries of that definition and system; and it reports success only after both.
\<close>

theorem service_unregistered:
  assumes "rq_method req = ''DELETE''" "uri_inv (rq_uri req)"
    "uri_rest (rq_uri req) = unregister_query sd nm addr port"
    "serviceregistry_handle connects (traced db) req (d, []) = Some (r, (d', l))"
  shows "unregister_sent db sd nm addr port d (succeeded r) l"
  using assms(4) unfolding unregister_routed [OF assms(1-3)] by (rule unregistered)

text \<open>C32 on a request that finds its entry and deletes it.\<close>

theorem service_unregistered_witness:
  "\<exists>l sdID sysID entryID. serviceregistry_handle None (traced registry_database) unregistration ((), []) =
      Some (Returned (ok_Response ''OK''), ((), l))
    \<and> unregister_found registry_database ''temperature'' ''sensor'' ''a'' ''7'' () sdID sysID entryID
    \<and> l = unregister_lookups ''temperature'' ''sensor'' ''a'' ''7'' sdID sysID @ unregister_deletes sdID sysID entryID"
proof -
  obtain l where a: "serviceregistry_handle None (traced registry_database) unregistration ((), []) =
      Some (Returned (ok_Response ''OK''), ((), l))"
    using unregistration_answered by blast
  have "unregister_sent registry_database ''temperature'' ''sensor'' ''a'' ''7'' () (succeeded (Returned (ok_Response ''OK''))) l"
    by (rule service_unregistered [OF _ _ _ a]) (simp_all add: unregistration_def new_Request_def)
  then show ?thesis using a by (auto simp: unregister_sent_def succeeded_def unregister_deletes_def)
qed

section \<open>The orchestrator\<close>

text \<open>
  C33: A parsed value that the orchestrator passes on is the value its peer reads: converting an object back into
  text loses nothing, if its strings need no escaping, its numbers have at most nine digits, its arrays
  hold strings and are found by their keys, and no object is empty.
\<close>

theorem conversion_round_trip:
  assumes "convertible (JObject kvs)" "gason_ok (JObject kvs)" "json_depth (gason_value (JObject kvs)) \<le> JSON_STACK_SIZE"
  shows "\<exists>t. converted (gason_value (JObject kvs)) = Some t \<and> jsonParse t = Parse JSON_PARSE_OK (gason_value (JObject kvs))"
  using assms by (rule conversion_read_back)

text \<open>C33 on an object with a nested one, an array and a truth value.\<close>

theorem conversion_round_trip_witness:
  "\<exists>t. converted (gason_value (JObject nested_service)) = Some t
    \<and> jsonParse t = Parse JSON_PARSE_OK (gason_value (JObject nested_service))"
proof (rule conversion_round_trip)
  show "convertible (JObject nested_service)" by code_simp
  show "gason_ok (JObject nested_service)" by code_simp
  show "json_depth (gason_value (JObject nested_service)) \<le> JSON_STACK_SIZE" by code_simp
qed

text \<open>
  C34: Orchestration as a whole. The request of a consumer for a service goes to the registry, whose entries become
  a question to the authorization service, whose rows decide what is offered: a client reads in the response
  exactly the entries of the registry that satisfy the query and whose provider has an interface that a row
  allows, in the order of the registry, each with the allowed interfaces and with a warning if its
  validity has ended. No flag restricts the choice, and the entries need no token and have metadata.
\<close>

theorem orchestration_answered:
  assumes "asks req form c service" "\<not> getFlagValue form ''onlyPreferred''" "\<not> getFlagValue form ''matchmaking''"
    "delivers send ''https://127.0.0.1/query'' 16220 (registry_service connects db addr)"
    "delivers send ''https://127.0.0.1/intracloud/check'' 16221 (check_service db addr)"
    "registry_offers connects db service ds d d1" "ds \<noteq> []" "check_finds db c ds rows d1 d2"
  shows "\<exists>t. processOrchestration send clock rnd errURL req d = Some (Returned (ok_Response t), d2)
    \<and> parser_parse STANDARD t = Done (response_json clock (grants_of rows) ds ds) []"
  using assms by (rule orchestrated)

text \<open>C34 on a cloud with one provider.\<close>

theorem orchestration_answered_witness:
  "\<exists>t. processOrchestration cloud_sender \<lparr>ck_now = 0, ck_time = (\<lambda>s. 0)\<rparr> 0 ''/orchestrator/orchestration''
        (orchestration_request []) () = Some (Returned (ok_Response t), ())
    \<and> parser_parse STANDARD t =
        Done (response_json \<lparr>ck_now = 0, ck_time = (\<lambda>s. 0)\<rparr> (grants_of [cloud_row]) [cloud_hit] [cloud_hit]) []"
proof (rule orchestration_answered [OF _ _ _ cloud_delivers cloud_offers _ cloud_check])
  show "asks (orchestration_request []) (request_form []) a_consumer a_service"
    by (rule request_asks [OF request_read request_parsed(1)]) simp_all
qed (simp_all add: request_form_def getFlagValue_def)



section \<open>Defects of the code\<close>

text \<open>
  C36: The connection mode leaks from one request to the next: after a request that kept the
  connection alive, an HTTP/1.0 request without a \<open>Connection\<close> header, which asks for the
  connection to be closed, is reported as keep-alive too, because \<open>reset\<close> does not clear the flag.
\<close>

theorem keep_alive_survives_reset:
  assumes "method_ok m" "uri_ok u" "rb_keepAlive (rp_req p)"
  shows "\<exists>q. parse (reset p) (head_text m u 1 0 [] @ rest) = Inr (completed, q, rest)
    \<and> rb_keepAlive (rp_req q)"
  using parse_request_no_body [OF assms(1,2), of "[]" 1 0 p rest] assms(3)
  by (auto simp: keep_alive_mode_def)

text \<open>C36 on two requests over one connection: the second one should close it.\<close>

theorem keep_alive_survives_reset_witness:
  "\<exists>p q. parse (new_RequestParser 0 0) (head_text ''GET'' ''/a'' 1 1 []) = Inr (completed, p, [])
    \<and> parse (reset p) (head_text ''GET'' ''/a'' 1 0 [] @ []) = Inr (completed, q, [])
    \<and> rb_keepAlive (rp_req q)"
proof -
  let ?p = "\<lparr>rp_state = ExpectingNewline_3,
    rp_req = \<lparr>rb_remote_address = [], rb_method = ''GET'', rb_uri = ''/a'', rb_http_version_major = 1,
      rb_http_version_minor = 1, rb_keepAlive = True, rb_headers = [], rb_content = []\<rparr>,
    rp_contentSize = 0, rp_chunked = False, rp_chunkSize = 0, rp_chunkSizeStr = []\<rparr>"
  have "parse (new_RequestParser 0 0) (head_text ''GET'' ''/a'' 1 1 []) = Inr (completed, ?p, [])"
    by code_simp
  moreover have "method_ok ''GET''" "uri_ok ''/a''" by code_simp+
  ultimately show ?thesis
    using keep_alive_survives_reset [of "''GET''" "''/a''" ?p "[]"] by force
qed

text \<open>
  C37: The peer's certificate is freed once per request. Every request of a connection owns the same
  pointer and frees it when it goes out of scope, so a connection with two or more requests frees
  one certificate several times.
\<close>

theorem certificate_freed_per_request:
  assumes "full_writes pe" "list_all message_ok ms" "pe_accept pe = 1" "pe_verify_ok pe"
    "[] \<notin> set (pe_reads pe)" "concat (pe_reads pe) = concat (map message_text ms)" "pe_cert pe = Some c"
  shows "\<exists>cn. servlet h pe a b w = (Stop, cn) \<and> count_list (cn_trace cn) (FreedCert c) = length ms"
proof -
  obtain cn where "servlet h pe a b w = (Stop, cn)"
    "cn_trace cn = fst (exchanges h (pe_addr pe) (pe_cert pe) w ms) @ [Closed]"
    using servlet_messages [OF assms(1-6), of h w _ _ a b] by (metis prod.collapse)
  then show ?thesis
    using count_freed [OF assms(7), of h "pe_addr pe" w ms] by simp
qed

text \<open>C37 on two requests in one read: the certificate is freed twice.\<close>

theorem certificate_freed_per_request_witness:
  "\<exists>pe cn. pe_cert pe = Some 7 \<and> servlet (\<lambda>req n. (from_stock OK, Suc n)) pe 0 0 0 = (Stop, cn)
     \<and> count_list (cn_trace cn) (FreedCert 7) = 2"
proof -
  let ?m = "\<lparr>ms_method = ''GET'', ms_uri = ''/a'', ms_headers = [], ms_body = []\<rparr>"
  let ?pe = "\<lparr>pe_accept = 1, pe_cert = Some 7, pe_verify_ok = True, pe_addr = ''10.0.0.1'',
    pe_reads = [message_text ?m @ message_text ?m], pe_write = sent_or_failed\<rparr>"
  have "method_ok ''GET''" "uri_ok ''/a''" by code_simp+
  then have ok: "list_all message_ok [?m, ?m]" by (simp add: message_ok_def)
  have ne: "message_text ?m \<noteq> []" by (simp add: message_text_def head_text_def)
  have "\<exists>cn. servlet (\<lambda>req n. (from_stock OK, Suc n)) ?pe 0 0 0 = (Stop, cn)
      \<and> count_list (cn_trace cn) (FreedCert 7) = length [?m, ?m]"
    by (rule certificate_freed_per_request) (use ok ne sent_or_failed_full in simp_all)
  then show ?thesis by (intro exI [of _ ?pe]) (simp add: numeral_2_eq_2)
qed

text \<open>
  C38: A check request that leaves out a member of its consumer is not refused. The parser compares an
  iterator of the inner object with the end of the outer one, which never holds, and reads the missing
  member from the end of the inner object: undefined behaviour that any client can cause, where the
  code means to throw.
\<close>

theorem incomplete_check_undefined:
  assumes "parser_parse STANDARD (cstr (rq_content req)) = Done (JObject dict) []"
    "member_of dict ''serviceDefinitionId'' = Some (JInt n)" "member_of dict ''consumer'' = Some (JObject obj)"
    "\<And>k. k \<in> {''address'', ''authenticationInfo'', ''systemName''} \<Longrightarrow> of_kind is_string obj k"
    "of_kind is_int obj ''port''"
    "\<exists>k \<in> {''address'', ''authenticationInfo'', ''systemName'', ''port''}. member_of obj k = None"
  shows "intra_check_handle db req d = None"
  using intra_check_missing [OF assms] by (rule intra_check_undefined)

text \<open>C38 on a consumer with an address and a port only.\<close>

theorem incomplete_check_undefined_witness: "intra_check_handle log_database incomplete_check ([], []) = None"
proof (rule incomplete_check_undefined)
  let ?obj = "[(''address'', JString ''h''), (''port'', JInt 1)]"
  show "parser_parse STANDARD (cstr (rq_content incomplete_check)) =
      Done (JObject [(''consumer'', JObject ?obj), (''serviceDefinitionId'', JInt 3)]) []" by code_simp
  show "member_of [(''consumer'', JObject ?obj), (''serviceDefinitionId'', JInt 3)] ''serviceDefinitionId'' = Some (JInt 3)"
    "member_of [(''consumer'', JObject ?obj), (''serviceDefinitionId'', JInt 3)] ''consumer'' = Some (JObject ?obj)"
    "of_kind is_int ?obj ''port''" by code_simp+
  have k: "of_kind is_string ?obj ''address''" "of_kind is_string ?obj ''authenticationInfo''"
    "of_kind is_string ?obj ''systemName''" "member_of ?obj ''systemName'' = None" by code_simp+
  then show "of_kind is_string ?obj k" if "k \<in> {''address'', ''authenticationInfo'', ''systemName''}" for k
    using that by blast
  show "\<exists>k \<in> {''address'', ''authenticationInfo'', ''systemName'', ''port''}. member_of ?obj k = None"
    using k(4) by blast
qed

text \<open>
  C39: A service with several interfaces is registered with one. The loop that connects the entry with
  its interfaces looks for a connection by the entry alone, so in a database that finds a connection once
  there is one, only the first interface is connected, if any; for all the others there is only the lookup.
\<close>

theorem only_first_interface_connected:
  assumes "finds_connections db entryID connected"
    "act_map (save_connection (traced db) entryID) (i # is) (d, l) = Some (Returned rs, (d', l'))"
  shows "\<exists>sent. stored (find_connection entryID) (insert_connection entryID i) sent
    \<and> l' = l @ sent @ replicate (length is) (find_connection entryID)"
  using one_connection [OF assms] by simp

text \<open>C39 on three interfaces of an entry that has no connection yet.\<close>

theorem only_first_interface_connected_witness:
  "\<exists>rs. act_map (save_connection (traced connection_database) ''7'') [''1'', ''2'', ''3''] (False, []) =
    Some (Returned rs, (True, [find_connection ''7'', insert_connection ''7'' ''1'', find_connection ''7'',
      find_connection ''7'', find_connection ''7'']))"
proof -
  obtain rs l where a: "act_map (save_connection (traced connection_database) ''7'') [''1'', ''2'', ''3''] (False, []) =
      Some (Returned rs, (True, l))" and n: "length l = 5"
    by (rule that) (auto simp: save_connection_def checkAndInsertValues_def dbContentExists_def dbSaveContent_def
        act_bind_def act_db_logged act_ret_def connection_database_def)
  obtain sent where s: "stored (find_connection ''7'') (insert_connection ''7'' ''1'') sent"
    "l = [] @ sent @ replicate (length [''2'', ''3'']) (find_connection ''7'')"
    using only_first_interface_connected [OF connection_database_finds a] by blast
  then have "sent = [find_connection ''7'', insert_connection ''7'' ''1'', find_connection ''7'']"
    using n by (auto simp: stored_def)
  then show ?thesis using a s(2) by (auto simp: numeral_2_eq_2)
qed

text \<open>
  C40: The check of a request form never reports an error: a form that was parsed passes it whenever the check returns,
  and passes it with the flag \<open>onlyPreferred\<close> and without preferred providers, although the check of the parameters
  finds that error.
\<close>

theorem form_errors_dropped:
  assumes "parseRequestForm True root = Some (Inr form)"
  shows "(\<forall>n. checkServiceRequestForm form = Some n \<longrightarrow> n = 0)
    \<and> (getFlagValue form ''onlyPreferred'' \<and> rf_preferredProviders form = None \<longrightarrow>
        validateCrossParameterConstraints form = Some (3, []) \<and> checkServiceRequestForm form = Some 0)"
  using form_never_rejected [OF assms] preferred_error_dropped [OF assms] by blast

text \<open>C40 on a request with the flag and no preferred provider.\<close>

theorem form_errors_dropped_witness:
  "validateCrossParameterConstraints (request_form [(''onlyPreferred'', True)]) = Some (3, [])
    \<and> checkServiceRequestForm (request_form [(''onlyPreferred'', True)]) = Some 0"
  using form_errors_dropped [OF request_parsed(3)] by (simp add: request_form_def getFlagValue_def)

end
